(* ===== verification/Prelude.thy ===== *)
theory Prelude
  imports Main "HOL-Library.Word" "HOL-Library.Tree" "HOL-Library.Monad_Syntax"
    "HOL-Library.Sublist" "HOL-Library.List_Lexorder"
begin

text \<open>
  Shared vocabulary of the development: machine integers, C strings held in byte
  arrays, the comparison routines of the C library the sources call, the loop
  combinator for the kernel's red-black tree iteration, and the collections of
  rewrite rules the component theories fill.

  A fault (a NULL dereference, a use after free, a write past a buffer) is the value
  \<open>None\<close> of an \<open>option\<close>; error codes are ordinary integers.
\<close>

section \<open>Machine integers\<close>

type_synonym byte = "8 word"
type_synonym u16 = "16 word"
type_synonym u32 = "32 word"
type_synonym u64 = "64 word"
type_synonym addr = nat

lemma unat_u32: "n < 2 ^ 32 \<Longrightarrow> unat (of_nat n :: u32) = n"
  by (simp add: unat_of_nat take_bit_nat_eq_self)

lemma unat_u64: "n < 2 ^ 64 \<Longrightarrow> unat (of_nat n :: u64) = n"
  by (simp add: unat_of_nat take_bit_nat_eq_self)

section \<open>Faults\<close>

lemma bind_SomeD: "Option.bind x f = Some y \<Longrightarrow> \<exists>a. x = Some a \<and> f a = Some y"
  by (simp add: bind_eq_Some_conv)

text \<open>Error numbers of the kernel.\<close>

definition ENOMEM :: int where "ENOMEM = 12"
definition EFAULT :: int where "EFAULT = 14"
definition EILSEQ :: int where "EILSEQ = 84"

section \<open>C strings\<close>

text \<open>
  A character array is the list of its bytes. \<open>cstr\<close> is the string stored in it: the
  bytes before the first NUL. A list with no NUL stands for an array that is followed by
  one, so a string written without its terminator can be used as an argument.
\<close>

definition cstr :: "byte list \<Rightarrow> byte list" where
  "cstr b = takeWhile (\<lambda>c. c \<noteq> 0) b"

definition strlen :: "byte list \<Rightarrow> nat" where
  "strlen b = length (cstr b)"

definition terminated :: "byte list \<Rightarrow> bool" where
  "terminated b \<longleftrightarrow> 0 \<in> set b"

definition bytes :: "string \<Rightarrow> byte list" where
  "bytes s = map of_char s"

lemma cstr_Nil [simp]: "cstr [] = []"
  by (simp add: cstr_def)

lemma cstr_Cons: "cstr (c # b) = (if c = 0 then [] else c # cstr b)"
  by (simp add: cstr_def)

lemma cstr_no_NUL [simp]: "0 \<notin> set (cstr b)"
  by (auto simp: cstr_def dest: set_takeWhileD)

lemma cstr_id: "0 \<notin> set b \<Longrightarrow> cstr b = b"
  by (induction b) (auto simp: cstr_def)

lemma cstr_cstr [simp]: "cstr (cstr b) = cstr b"
  by (simp add: cstr_id)

lemma cstr_append_NUL: "0 \<notin> set b \<Longrightarrow> cstr (b @ 0 # c) = b"
  by (induction b) (auto simp: cstr_def)

lemma cstr_pad [simp]: "cstr (cstr b @ replicate n 0) = cstr b"
  by (cases n) (simp_all add: cstr_append_NUL)

lemma length_cstr_le: "length (cstr b) \<le> length b"
  by (simp add: cstr_def length_takeWhile_le)

lemma terminated_strlen: "terminated b \<Longrightarrow> strlen b < length b"
  unfolding terminated_def strlen_def
  by (induction b) (auto simp: cstr_def)

text \<open>\<open>strncmp\<close> of the C library: bytes compare as unsigned, and a NUL ends both strings.\<close>

fun strncmp :: "byte list \<Rightarrow> byte list \<Rightarrow> nat \<Rightarrow> int" where
  "strncmp s t 0 = 0"
| "strncmp s t (Suc n) =
     (let a = (case s of [] \<Rightarrow> 0 | c # _ \<Rightarrow> c); b = (case t of [] \<Rightarrow> 0 | c # _ \<Rightarrow> c)
      in if a \<noteq> b then uint a - uint b else if a = 0 then 0 else strncmp (tl s) (tl t) n)"

text \<open>\<open>memcmp\<close> on two blocks of the same size.\<close>

fun memcmp :: "byte list \<Rightarrow> byte list \<Rightarrow> int" where
  "memcmp [] [] = 0"
| "memcmp [] (b # t) = -1"
| "memcmp (a # s) [] = 1"
| "memcmp (a # s) (b # t) = (if a \<noteq> b then uint a - uint b else memcmp s t)"

text \<open>Both compare like the lexicographic order on byte lists.\<close>

lemma uint_diff_sign:
  "uint (a :: byte) - uint b < 0 \<longleftrightarrow> a < b" "0 < uint a - uint b \<longleftrightarrow> b < a"
  by (simp_all add: word_less_def)

lemma uint_diff_zero: "uint (a :: byte) - uint b = 0 \<longleftrightarrow> a = b"
  by (simp add: word_uint_eq_iff)

lemma memcmp_order:
  "memcmp s t < 0 \<longleftrightarrow> s < t" "0 < memcmp s t \<longleftrightarrow> t < s" "memcmp s t = 0 \<longleftrightarrow> s = t"
  by (induction s t rule: memcmp.induct) (auto simp: uint_diff_sign uint_diff_zero simp del: right_minus_eq diff_gt_0_iff_gt
      diff_less_0_iff_less)

lemma strncmp_zero: "strncmp s t (strlen t) = 0 \<longleftrightarrow> prefix (cstr t) (cstr s)"
proof (induction t arbitrary: s)
  case Nil
  then show ?case by (simp add: strlen_def)
next
  case (Cons b t)
  then show ?case
    by (cases s) (auto simp: strlen_def cstr_Cons Let_def uint_diff_zero uint_0_iff
        simp del: right_minus_eq)
qed

lemma strncmp_cstr: "strncmp (cstr s) t n = strncmp s t n"
proof (induction n arbitrary: s t)
  case 0
  then show ?case by simp
next
  case (Suc n)
  then show ?case by (cases s) (simp_all add: cstr_Cons Let_def)
qed

lemma strncmp_less: "strncmp s t (strlen t) < 0 \<Longrightarrow> cstr s < cstr t"
proof (induction t arbitrary: s)
  case Nil
  then show ?case by (simp add: strlen_def)
next
  case (Cons b t)
  then show ?case
    by (cases s) (auto simp: strlen_def cstr_Cons Let_def uint_diff_sign word_less_def
        split: if_splits)
qed

lemma strncmp_greater: "0 < strncmp s t (strlen t) \<Longrightarrow> cstr t < cstr s"
proof (induction t arbitrary: s)
  case Nil
  then show ?case by (simp add: strlen_def)
next
  case (Cons b t)
  then show ?case
    by (cases s) (auto simp: strlen_def cstr_Cons Let_def uint_diff_sign word_less_def
        split: if_splits)
qed

section \<open>Fixed-size character arrays\<close>

text \<open>A string stored in an array of \<open>n\<close> zeroed bytes.\<close>

definition pad :: "nat \<Rightarrow> byte list \<Rightarrow> byte list" where
  "pad n b = b @ replicate (n - length b) 0"

text \<open>\<open>strlen\<close> on an array that holds no NUL reads past its end.\<close>

definition c_strlen :: "byte list \<Rightarrow> nat option" where
  "c_strlen b = (if terminated b then Some (strlen b) else None)"

text \<open>
  \<open>strncat (dst, src, n)\<close> and \<open>strncpy (dst, src, n)\<close> on an array \<open>dst\<close>; a
  write past its end faults.
\<close>

definition c_strncat :: "byte list \<Rightarrow> byte list \<Rightarrow> nat \<Rightarrow> byte list option" where
  "c_strncat dst src n =
     (let r = cstr dst @ take n (cstr src)
      in if length r < length dst then Some (r @ 0 # drop (Suc (length r)) dst) else None)"

definition c_strncpy :: "byte list \<Rightarrow> byte list \<Rightarrow> nat \<Rightarrow> byte list option" where
  "c_strncpy dst src n =
     (if n \<le> length dst then Some (take n (pad n (cstr src)) @ drop n dst) else None)"

lemma cstr_zeros [simp]: "cstr (replicate n 0) = []"
  by (cases n) (simp_all add: cstr_Cons)

lemma strlen_zeros [simp]: "strlen (replicate n 0) = 0"
  by (simp add: strlen_def)

lemma cstr_append_zeros: "cstr (b @ replicate n 0) = cstr b"
  by (induction b) (auto simp: cstr_Cons)

lemma cstr_of_pad [simp]: "cstr (pad n b) = cstr b"
  by (simp add: pad_def cstr_append_zeros)

lemma strlen_pad [simp]: "strlen (pad n b) = strlen b"
  by (simp add: strlen_def)

lemma length_pad: "length b \<le> n \<Longrightarrow> length (pad n b) = n"
  by (simp add: pad_def)

lemma terminated_pad: "length b < n \<Longrightarrow> terminated (pad n b)"
  by (simp add: pad_def terminated_def)

lemma c_strncat_zeros:
  "c_strncat (replicate m 0) src n =
     (if length (take n (cstr src)) < m then Some (pad m (take n (cstr src))) else None)"
proof -
  have "x # replicate k x = replicate (Suc k) x" for k and x :: byte by simp
  then show ?thesis
    by (auto simp: c_strncat_def pad_def Let_def Suc_diff_Suc simp del: replicate_Suc)
qed

lemma c_strncpy_zeros:
  "n \<le> m \<Longrightarrow> c_strncpy (replicate m 0) src n = Some (pad m (take n (cstr src)))"
  by (cases "n \<le> length (cstr src)")
     (auto simp: c_strncpy_def pad_def min_def simp flip: replicate_add)

lemma strlen_cstr [simp]: "strlen (cstr b) = strlen b"
  by (simp add: strlen_def)

lemma take_strlen [simp]: "take (strlen b) (cstr b) = cstr b"
  by (simp add: strlen_def)

section \<open>Loops over a kernel red-black tree\<close>

text \<open>
  \<open>for (node = rb_first (root); node; node = rb_next (node))\<close>: the body gives the node
  the loop goes on with, NULL to leave it. The next node comes from the kernel, so
  nothing here bounds the loop; a fault in the body and a loop that does not end are
  both \<open>None\<close>.
\<close>

partial_function (option) rb_for ::
  "(addr \<Rightarrow> 's \<Rightarrow> (addr option \<times> 's) option) \<Rightarrow> addr option \<Rightarrow> 's \<Rightarrow> 's option" where
  "rb_for body node s =
     (case node of
        None \<Rightarrow> Some s
      | Some a \<Rightarrow> Option.bind (body a s) (\<lambda>(node', s'). rb_for body node' s'))"

lemma rb_for_NULL [simp]: "rb_for body None s = Some s"
  by (simp add: rb_for.simps)

lemma rb_for_node:
  "rb_for body (Some a) s = Option.bind (body a s) (\<lambda>(node', s'). rb_for body node' s')"
  by (subst rb_for.simps) simp

text \<open>Facts kept by every iteration hold after the loop, wherever the loop goes.\<close>

lemma rb_for_node_invariant:
  assumes ret: "rb_for body node s = Some s'" and init: "I node s"
    and step: "\<And>a s node' s'. I (Some a) s \<Longrightarrow> body a s = Some (node', s') \<Longrightarrow> I node' s'"
  shows "I None s'"
proof -
  have "I node s \<longrightarrow> I None s'"
  proof (rule rb_for.raw_induct [where P = "\<lambda>b n s r. b = body \<longrightarrow> I n s \<longrightarrow> I None r", OF _ ret, THEN mp, OF _ refl])
    fix f b node s r
    assume IH: "\<And>b n s r. f b n s = Some r \<Longrightarrow> b = body \<longrightarrow> I n s \<longrightarrow> I None r"
      and eq: "(case node of None \<Rightarrow> Some s
        | Some a \<Rightarrow> Option.bind (b a s) (\<lambda>(node', s'). f b node' s')) = Some r"
    show "b = body \<longrightarrow> I node s \<longrightarrow> I None r"
    proof (intro impI)
      assume b: "b = body" and I: "I node s"
      show "I None r"
      proof (cases node)
        case None
        with eq I show ?thesis by simp
      next
        case (Some a)
        with eq b obtain n' s1 where "body a s = Some (n', s1)" and "f b n' s1 = Some r"
          by (auto simp: bind_eq_Some_conv)
        with step [of a s n' s1] I IH b Some show ?thesis by blast
      qed
    qed
  qed
  with init show ?thesis by simp
qed

lemma rb_for_invariant:
  assumes "rb_for body node s = Some s'" and "I s"
    and "\<And>a s node' s'. I s \<Longrightarrow> body a s = Some (node', s') \<Longrightarrow> I s'"
  shows "I s'"
  using rb_for_node_invariant [of body node s s' "\<lambda>_. I"] assms by blast

end
