(* ===== verification/Codec.thy ===== *)
theory Codec
  imports Prelude
begin

text \<open>
  Little-endian images of machine integers and the contract of a fixed-width codec:
  every structure the module writes to disk and reads back is an image of a fixed
  number of bytes from which its value can be recovered. The contract is the locale
  \<open>fixed_codec\<close>; arrays of images, the form in which the configuration file holds its
  entries, are handled once inside it.
\<close>

unbundle bit_operations_syntax

section \<open>Little-endian integers\<close>

fun le_enc :: "nat \<Rightarrow> 'a::len word \<Rightarrow> byte list" where
  "le_enc 0 w = []"
| "le_enc (Suc n) w = ucast w # le_enc n (drop_bit 8 w)"

fun le_dec :: "byte list \<Rightarrow> 'a::len word" where
  "le_dec [] = 0"
| "le_dec (b # bs) = ucast b OR push_bit 8 (le_dec bs)"

lemma length_le_enc [simp]: "length (le_enc n w) = n"
  by (induction n arbitrary: w) auto

lemma ucast_byte_take_bit: "ucast (ucast w :: byte) = take_bit 8 (w :: 'a::len word)"
  by (rule bit_word_eqI) (auto simp: bit_simps)

lemma le_dec_enc_take_bit: "le_dec (le_enc n w) = take_bit (8 * n) (w :: 'a::len word)"
proof (induction n arbitrary: w)
  case 0
  then show ?case by simp
next
  case (Suc n)
  show ?case
    by (rule bit_word_eqI) (auto simp: Suc.IH ucast_byte_take_bit bit_simps)
qed

lemma le_dec_enc: "LENGTH('a::len) \<le> 8 * n \<Longrightarrow> le_dec (le_enc n w) = (w :: 'a word)"
  by (rule bit_word_eqI) (auto simp: le_dec_enc_take_bit bit_simps)

section \<open>Fixed-width codecs\<close>

lemma length_concat_const:
  "(\<And>x. x \<in> set xs \<Longrightarrow> length (g x) = w) \<Longrightarrow> length (concat (map g xs)) = w * length xs"
  by (induction xs) simp_all

lemma take_concat_const:
  "(\<And>x. x \<in> set xs \<Longrightarrow> length (g x) = w) \<Longrightarrow> i < length xs \<Longrightarrow>
   take w (drop (i * w) (concat (map g xs) @ r)) = g (xs ! i)"
proof (induction xs arbitrary: i)
  case Nil
  then show ?case by simp
next
  case (Cons x xs)
  then show ?case by (cases i) auto
qed

locale fixed_codec =
  fixes enc :: "'a \<Rightarrow> byte list"
    and dec :: "byte list \<Rightarrow> 'a"
    and width :: nat
    and wf :: "'a \<Rightarrow> bool"
  assumes width: "wf x \<Longrightarrow> length (enc x) = width"
    and dec_enc: "wf x \<Longrightarrow> dec (enc x) = x"
begin

lemma dec_append: "wf x \<Longrightarrow> dec (take width (enc x @ r)) = x"
  by (simp add: width dec_enc)

lemma drop_append: "wf x \<Longrightarrow> drop width (enc x @ r) = r"
  by (simp add: width)

lemma enc_inj: "wf x \<Longrightarrow> wf y \<Longrightarrow> enc x = enc y \<Longrightarrow> x = y"
  by (metis dec_enc)

lemma length_concat: "list_all wf xs \<Longrightarrow> length (concat (map enc xs)) = length xs * width"
  by (simp add: length_concat_const width list_all_iff)

lemma take_concat:
  "list_all wf xs \<Longrightarrow> i < length xs \<Longrightarrow>
   take width (drop (i * width) (concat (map enc xs) @ r)) = enc (xs ! i)"
  by (rule take_concat_const) (auto simp: width list_all_iff)

lemma dec_nth:
  "list_all wf xs \<Longrightarrow> i < length xs \<Longrightarrow>
   dec (take width (drop (i * width) (concat (map enc xs) @ r))) = xs ! i"
  by (subst take_concat) (auto simp: dec_enc list_all_length)

end

interpretation le16: fixed_codec "le_enc 2 :: u16 \<Rightarrow> byte list" le_dec 2 "\<lambda>_. True"
  by unfold_locales (simp_all add: le_dec_enc)

interpretation le32: fixed_codec "le_enc 4 :: u32 \<Rightarrow> byte list" le_dec 4 "\<lambda>_. True"
  by unfold_locales (simp_all add: le_dec_enc)

interpretation le64: fixed_codec "le_enc 8 :: u64 \<Rightarrow> byte list" le_dec 8 "\<lambda>_. True"
  by unfold_locales (simp_all add: le_dec_enc)

text \<open>Reading a field of a structure: \<open>n\<close> bytes at offset \<open>off\<close>.\<close>

definition field :: "nat \<Rightarrow> nat \<Rightarrow> byte list \<Rightarrow> byte list" where
  "field off n b = take n (drop off b)"

lemma field_append1: "off + n \<le> length b \<Longrightarrow> field off n (b @ c) = field off n b"
  by (simp add: field_def)

lemma field_append2: "length b \<le> off \<Longrightarrow> field off n (b @ c) = field (off - length b) n c"
  by (simp add: field_def)

lemma field_exact: "length b = n \<Longrightarrow> field 0 n (b @ c) = b" "field 0 (length b) b = b"
  by (simp_all add: field_def)

end
