(* ===== verification/Inat.thy ===== *)
theory Inat
  imports Codec
begin

text \<open>
  \<open>arch/x86/include/asm/inat.h\<close>: instruction attributes, 32-bit words made of a prefix
  number, an escape number, a group number, an immediate size and seven flags, with the
  macros that build them and the functions that take them apart. The functions of the source
  return an \<open>int\<close> that is only tested; here they return its truth value.
\<close>

type_synonym attr_table = "(byte \<times> u32) list"

section \<open>Numbers\<close>

definition INAT_PFX_OPNDSZ :: u32 where "INAT_PFX_OPNDSZ = 1"
definition INAT_PFX_REPE :: u32 where "INAT_PFX_REPE = 2"
definition INAT_PFX_REPNE :: u32 where "INAT_PFX_REPNE = 3"
definition INAT_PFX_LOCK :: u32 where "INAT_PFX_LOCK = 4"
definition INAT_PFX_CS :: u32 where "INAT_PFX_CS = 5"
definition INAT_PFX_DS :: u32 where "INAT_PFX_DS = 6"
definition INAT_PFX_ES :: u32 where "INAT_PFX_ES = 7"
definition INAT_PFX_FS :: u32 where "INAT_PFX_FS = 8"
definition INAT_PFX_GS :: u32 where "INAT_PFX_GS = 9"
definition INAT_PFX_SS :: u32 where "INAT_PFX_SS = 10"
definition INAT_PFX_ADDRSZ :: u32 where "INAT_PFX_ADDRSZ = 11"
definition INAT_PFX_REX :: u32 where "INAT_PFX_REX = 12"
definition INAT_PFX_VEX2 :: u32 where "INAT_PFX_VEX2 = 13"
definition INAT_PFX_VEX3 :: u32 where "INAT_PFX_VEX3 = 14"
definition INAT_LSTPFX_MAX :: u32 where "INAT_LSTPFX_MAX = 3"
definition INAT_LGCPFX_MAX :: u32 where "INAT_LGCPFX_MAX = 11"

definition INAT_IMM_BYTE :: u32 where "INAT_IMM_BYTE = 1"
definition INAT_IMM_WORD :: u32 where "INAT_IMM_WORD = 2"
definition INAT_IMM_DWORD :: u32 where "INAT_IMM_DWORD = 3"
definition INAT_IMM_QWORD :: u32 where "INAT_IMM_QWORD = 4"
definition INAT_IMM_PTR :: u32 where "INAT_IMM_PTR = 5"
definition INAT_IMM_VWORD32 :: u32 where "INAT_IMM_VWORD32 = 6"
definition INAT_IMM_VWORD :: u32 where "INAT_IMM_VWORD = 7"

lemmas inat_numbers = INAT_PFX_OPNDSZ_def INAT_PFX_REPE_def INAT_PFX_REPNE_def INAT_PFX_LOCK_def
  INAT_PFX_CS_def INAT_PFX_DS_def INAT_PFX_ES_def INAT_PFX_FS_def INAT_PFX_GS_def INAT_PFX_SS_def
  INAT_PFX_ADDRSZ_def INAT_PFX_REX_def INAT_PFX_VEX2_def INAT_PFX_VEX3_def INAT_LSTPFX_MAX_def
  INAT_LGCPFX_MAX_def INAT_IMM_BYTE_def INAT_IMM_WORD_def INAT_IMM_DWORD_def INAT_IMM_QWORD_def
  INAT_IMM_PTR_def INAT_IMM_VWORD32_def INAT_IMM_VWORD_def

section \<open>Layout of an attribute\<close>

definition INAT_PFX_OFFS :: nat where "INAT_PFX_OFFS = 0"
definition INAT_PFX_BITS :: nat where "INAT_PFX_BITS = 4"
definition INAT_PFX_MASK :: u32 where "INAT_PFX_MASK = push_bit INAT_PFX_OFFS (push_bit INAT_PFX_BITS 1 - 1)"
definition INAT_ESC_OFFS :: nat where "INAT_ESC_OFFS = INAT_PFX_OFFS + INAT_PFX_BITS"
definition INAT_ESC_BITS :: nat where "INAT_ESC_BITS = 2"
definition INAT_ESC_MASK :: u32 where "INAT_ESC_MASK = push_bit INAT_ESC_OFFS (push_bit INAT_ESC_BITS 1 - 1)"
definition INAT_GRP_OFFS :: nat where "INAT_GRP_OFFS = INAT_ESC_OFFS + INAT_ESC_BITS"
definition INAT_GRP_BITS :: nat where "INAT_GRP_BITS = 5"
definition INAT_GRP_MASK :: u32 where "INAT_GRP_MASK = push_bit INAT_GRP_OFFS (push_bit INAT_GRP_BITS 1 - 1)"
definition INAT_IMM_OFFS :: nat where "INAT_IMM_OFFS = INAT_GRP_OFFS + INAT_GRP_BITS"
definition INAT_IMM_BITS :: nat where "INAT_IMM_BITS = 3"
definition INAT_IMM_MASK :: u32 where "INAT_IMM_MASK = push_bit INAT_IMM_OFFS (push_bit INAT_IMM_BITS 1 - 1)"
definition INAT_FLAG_OFFS :: nat where "INAT_FLAG_OFFS = INAT_IMM_OFFS + INAT_IMM_BITS"
definition INAT_MODRM :: u32 where "INAT_MODRM = push_bit INAT_FLAG_OFFS 1"
definition INAT_FORCE64 :: u32 where "INAT_FORCE64 = push_bit (INAT_FLAG_OFFS + 1) 1"
definition INAT_SCNDIMM :: u32 where "INAT_SCNDIMM = push_bit (INAT_FLAG_OFFS + 2) 1"
definition INAT_MOFFSET :: u32 where "INAT_MOFFSET = push_bit (INAT_FLAG_OFFS + 3) 1"
definition INAT_VARIANT :: u32 where "INAT_VARIANT = push_bit (INAT_FLAG_OFFS + 4) 1"
definition INAT_VEXOK :: u32 where "INAT_VEXOK = push_bit (INAT_FLAG_OFFS + 5) 1"
definition INAT_VEXONLY :: u32 where "INAT_VEXONLY = push_bit (INAT_FLAG_OFFS + 6) 1"

definition INAT_MAKE_PREFIX :: "u32 \<Rightarrow> u32" where "INAT_MAKE_PREFIX pfx = push_bit INAT_PFX_OFFS pfx"
definition INAT_MAKE_ESCAPE :: "u32 \<Rightarrow> u32" where "INAT_MAKE_ESCAPE esc = push_bit INAT_ESC_OFFS esc"
definition INAT_MAKE_GROUP :: "u32 \<Rightarrow> u32" where "INAT_MAKE_GROUP grp = push_bit INAT_GRP_OFFS grp OR INAT_MODRM"
definition INAT_MAKE_IMM :: "u32 \<Rightarrow> u32" where "INAT_MAKE_IMM imm = push_bit INAT_IMM_OFFS imm"

lemmas inat_offsets = INAT_PFX_OFFS_def INAT_PFX_BITS_def INAT_ESC_OFFS_def INAT_ESC_BITS_def
  INAT_GRP_OFFS_def INAT_GRP_BITS_def INAT_IMM_OFFS_def INAT_IMM_BITS_def INAT_FLAG_OFFS_def

text \<open>The masks and flags as numbers.\<close>

lemma inat_masks:
  "INAT_PFX_MASK = 0xF" "INAT_ESC_MASK = 0x30" "INAT_GRP_MASK = 0x7C0" "INAT_IMM_MASK = 0x3800"
  "INAT_MODRM = 0x4000" "INAT_FORCE64 = 0x8000" "INAT_SCNDIMM = 0x10000" "INAT_MOFFSET = 0x20000"
  "INAT_VARIANT = 0x40000" "INAT_VEXOK = 0x80000" "INAT_VEXONLY = 0x100000"
  by (simp_all add: INAT_PFX_MASK_def INAT_ESC_MASK_def INAT_GRP_MASK_def INAT_IMM_MASK_def INAT_MODRM_def
      INAT_FORCE64_def INAT_SCNDIMM_def INAT_MOFFSET_def INAT_VARIANT_def INAT_VEXOK_def INAT_VEXONLY_def
      inat_offsets push_bit_eq_mult)

lemma inat_makers:
  "INAT_MAKE_PREFIX p = p" "INAT_MAKE_ESCAPE p = push_bit 4 p" "INAT_MAKE_GROUP p = push_bit 6 p OR 0x4000"
  "INAT_MAKE_IMM p = push_bit 11 p"
  by (simp_all add: INAT_MAKE_PREFIX_def INAT_MAKE_ESCAPE_def INAT_MAKE_GROUP_def INAT_MAKE_IMM_def inat_offsets inat_masks)

section \<open>Taking an attribute apart\<close>

definition inat_is_legacy_prefix :: "u32 \<Rightarrow> bool" where
  "inat_is_legacy_prefix attr = (let attr = attr AND INAT_PFX_MASK in attr \<noteq> 0 \<and> attr \<le> INAT_LGCPFX_MAX)"

definition inat_is_address_size_prefix :: "u32 \<Rightarrow> bool" where
  "inat_is_address_size_prefix attr = (attr AND INAT_PFX_MASK = INAT_PFX_ADDRSZ)"

definition inat_is_operand_size_prefix :: "u32 \<Rightarrow> bool" where
  "inat_is_operand_size_prefix attr = (attr AND INAT_PFX_MASK = INAT_PFX_OPNDSZ)"

definition inat_is_rex_prefix :: "u32 \<Rightarrow> bool" where
  "inat_is_rex_prefix attr = (attr AND INAT_PFX_MASK = INAT_PFX_REX)"

definition inat_last_prefix_id :: "u32 \<Rightarrow> nat" where
  "inat_last_prefix_id attr =
     (if INAT_LSTPFX_MAX < attr AND INAT_PFX_MASK then 0 else unat (attr AND INAT_PFX_MASK))"

definition inat_is_vex_prefix :: "u32 \<Rightarrow> bool" where
  "inat_is_vex_prefix attr =
     (let attr = attr AND INAT_PFX_MASK in attr = INAT_PFX_VEX2 \<or> attr = INAT_PFX_VEX3)"

definition inat_is_vex3_prefix :: "u32 \<Rightarrow> bool" where
  "inat_is_vex3_prefix attr = (attr AND INAT_PFX_MASK = INAT_PFX_VEX3)"

definition inat_is_escape :: "u32 \<Rightarrow> bool" where
  "inat_is_escape attr = (attr AND INAT_ESC_MASK \<noteq> 0)"

definition inat_escape_id :: "u32 \<Rightarrow> nat" where
  "inat_escape_id attr = unat (drop_bit INAT_ESC_OFFS (attr AND INAT_ESC_MASK))"

definition inat_is_group :: "u32 \<Rightarrow> bool" where
  "inat_is_group attr = (attr AND INAT_GRP_MASK \<noteq> 0)"

definition inat_group_id :: "u32 \<Rightarrow> nat" where
  "inat_group_id attr = unat (drop_bit INAT_GRP_OFFS (attr AND INAT_GRP_MASK))"

definition inat_group_common_attribute :: "u32 \<Rightarrow> u32" where
  "inat_group_common_attribute attr = attr AND NOT INAT_GRP_MASK"

definition inat_has_immediate :: "u32 \<Rightarrow> bool" where
  "inat_has_immediate attr = (attr AND INAT_IMM_MASK \<noteq> 0)"

definition inat_immediate_size :: "u32 \<Rightarrow> u32" where
  "inat_immediate_size attr = drop_bit INAT_IMM_OFFS (attr AND INAT_IMM_MASK)"

definition inat_has_modrm :: "u32 \<Rightarrow> bool" where "inat_has_modrm attr = (attr AND INAT_MODRM \<noteq> 0)"
definition inat_is_force64 :: "u32 \<Rightarrow> bool" where "inat_is_force64 attr = (attr AND INAT_FORCE64 \<noteq> 0)"
definition inat_has_second_immediate :: "u32 \<Rightarrow> bool" where
  "inat_has_second_immediate attr = (attr AND INAT_SCNDIMM \<noteq> 0)"
definition inat_has_moffset :: "u32 \<Rightarrow> bool" where "inat_has_moffset attr = (attr AND INAT_MOFFSET \<noteq> 0)"
definition inat_has_variant :: "u32 \<Rightarrow> bool" where "inat_has_variant attr = (attr AND INAT_VARIANT \<noteq> 0)"
definition inat_accept_vex :: "u32 \<Rightarrow> bool" where "inat_accept_vex attr = (attr AND INAT_VEXOK \<noteq> 0)"
definition inat_must_vex :: "u32 \<Rightarrow> bool" where "inat_must_vex attr = (attr AND INAT_VEXONLY \<noteq> 0)"

lemmas inat_tests = inat_is_legacy_prefix_def inat_is_address_size_prefix_def inat_is_operand_size_prefix_def
  inat_is_rex_prefix_def inat_last_prefix_id_def inat_is_vex_prefix_def inat_is_vex3_prefix_def
  inat_is_escape_def inat_escape_id_def inat_is_group_def inat_group_id_def
  inat_group_common_attribute_def inat_has_immediate_def inat_immediate_size_def inat_has_modrm_def
  inat_is_force64_def inat_has_second_immediate_def inat_has_moffset_def inat_has_variant_def
  inat_accept_vex_def inat_must_vex_def

section \<open>Fields of the operand bytes\<close>

text \<open>The macros of \<open>insn.h\<close> on the ModRM, SIB, REX and VEX bytes.\<close>

definition X86_MODRM_MOD :: "byte \<Rightarrow> byte" where "X86_MODRM_MOD modrm = drop_bit 6 (modrm AND 0xC0)"
definition X86_MODRM_REG :: "byte \<Rightarrow> byte" where "X86_MODRM_REG modrm = drop_bit 3 (modrm AND 0x38)"
definition X86_MODRM_RM :: "byte \<Rightarrow> byte" where "X86_MODRM_RM modrm = modrm AND 0x07"
definition X86_SIB_BASE :: "byte \<Rightarrow> byte" where "X86_SIB_BASE sib = sib AND 0x07"
definition X86_REX_W :: "byte \<Rightarrow> bool" where "X86_REX_W rex = (rex AND 8 \<noteq> 0)"
definition X86_VEX_W :: "byte \<Rightarrow> bool" where "X86_VEX_W vex = (vex AND 0x80 \<noteq> 0)"
definition X86_VEX3_M :: "byte \<Rightarrow> byte" where "X86_VEX3_M vex = vex AND 0x1F"
definition X86_VEX2_M :: byte where "X86_VEX2_M = 1"
definition X86_VEX_P :: "byte \<Rightarrow> byte" where "X86_VEX_P vex = vex AND 0x03"
definition X86_VEX_M_MAX :: byte where "X86_VEX_M_MAX = 0x1F"

lemmas x86_fields = X86_MODRM_MOD_def X86_MODRM_REG_def X86_MODRM_RM_def X86_SIB_BASE_def X86_REX_W_def
  X86_VEX_W_def X86_VEX3_M_def X86_VEX2_M_def X86_VEX_P_def X86_VEX_M_MAX_def

end
