(* ===== verification/Insn.thy ===== *)
theory Insn
  imports InatTables
begin

text \<open>
  \<open>arch/x86/lib/inat.c\<close> and \<open>arch/x86/lib/insn.c\<close>: the decoder the module uses to find the
  length, the operand offsets and the operand values of one instruction. Code is read from a
  partial memory; reading an address that is not mapped faults (\<open>None\<close>), and so does the scan of
  prefixes when it never ends.
\<close>

type_synonym code_mem = "u64 \<Rightarrow> byte option"

section \<open>Attribute search (\<open>inat.c\<close>)\<close>

definition table_at :: "attr_table \<Rightarrow> byte \<Rightarrow> u32" where
  "table_at t i = (case map_of t i of None \<Rightarrow> 0 | Some a \<Rightarrow> a)"

definition inat_get_opcode_attribute :: "byte \<Rightarrow> u32" where
  "inat_get_opcode_attribute opc = table_at inat_primary_table opc"

definition last_prefix_index :: "byte \<Rightarrow> nat" where
  "last_prefix_index last_pfx =
     (if last_pfx \<noteq> 0 then inat_last_prefix_id (inat_get_opcode_attribute last_pfx) else 0)"

definition inat_get_escape_attribute :: "byte \<Rightarrow> byte \<Rightarrow> u32 \<Rightarrow> u32" where
  "inat_get_escape_attribute opc last_pfx esc_attr =
     (let n = inat_escape_id esc_attr; m = last_prefix_index last_pfx
      in case map_of inat_escape_tables (n, 0) of
           None \<Rightarrow> 0
         | Some table \<Rightarrow>
             if inat_has_variant (table_at table opc) \<and> m \<noteq> 0
             then (case map_of inat_escape_tables (n, m) of
                     None \<Rightarrow> 0
                   | Some table \<Rightarrow> table_at table opc)
             else table_at table opc)"

definition inat_get_group_attribute :: "byte \<Rightarrow> byte \<Rightarrow> u32 \<Rightarrow> u32" where
  "inat_get_group_attribute modrm last_pfx grp_attr =
     (let n = inat_group_id grp_attr; m = last_prefix_index last_pfx
      in case map_of inat_group_tables (n, 0) of
           None \<Rightarrow> inat_group_common_attribute grp_attr
         | Some table \<Rightarrow>
             if inat_has_variant (table_at table (X86_MODRM_REG modrm)) \<and> m \<noteq> 0
             then (case map_of inat_group_tables (n, m) of
                     None \<Rightarrow> inat_group_common_attribute grp_attr
                   | Some table \<Rightarrow>
                       table_at table (X86_MODRM_REG modrm) OR inat_group_common_attribute grp_attr)
             else table_at table (X86_MODRM_REG modrm) OR inat_group_common_attribute grp_attr)"

definition inat_get_avx_attribute :: "byte \<Rightarrow> byte \<Rightarrow> byte \<Rightarrow> u32" where
  "inat_get_avx_attribute opc vex_m vex_p =
     (if X86_VEX_M_MAX < vex_m \<or> ucast INAT_LSTPFX_MAX < vex_p then 0
      else case map_of inat_avx_tables (unat vex_m, unat vex_p) of
             None \<Rightarrow> 0
           | Some table \<Rightarrow> table_at table opc)"

section \<open>The instruction under analysis (\<open>insn.h\<close>)\<close>

text \<open>
  A field: the union of a 32-bit value and its four bytes (little endian), whether it was
  decoded, and how many bytes of the instruction it took.
\<close>

record insn_field =
  fld_bytes :: "byte list"
  got :: bool
  nbytes :: byte

definition fld_value :: "insn_field \<Rightarrow> u32" where
  "fld_value f = le_dec (fld_bytes f)"

definition no_field :: insn_field where
  "no_field = \<lparr>fld_bytes = replicate 4 0, got = False, nbytes = 0\<rparr>"

text \<open>Storing a value of \<open>n\<close> bytes, and one byte of the union, whose array has four.\<close>

definition loaded :: "u32 \<Rightarrow> nat \<Rightarrow> insn_field \<Rightarrow> insn_field" where
  "loaded v n f = f\<lparr>fld_bytes := le_enc 4 v, nbytes := of_nat n\<rparr>"

definition set_byte :: "nat \<Rightarrow> byte \<Rightarrow> insn_field \<Rightarrow> insn_field option" where
  "set_byte i b f = (if i < 4 then Some (f\<lparr>fld_bytes := (fld_bytes f)[i := b]\<rparr>) else None)"

text \<open>
  \<open>immediate\<close>, \<open>immediate1\<close> and \<open>moffset1\<close> are one union, and so are \<open>immediate2\<close> and
  \<open>moffset2\<close>.
\<close>

record insn =
  insn_prefixes :: insn_field
  rex_prefix :: insn_field
  vex_prefix :: insn_field
  opcode :: insn_field
  modrm :: insn_field
  sib :: insn_field
  displacement :: insn_field
  immediate :: insn_field
  immediate2 :: insn_field
  attr :: u32
  opnd_bytes :: byte
  addr_bytes :: byte
  insn_length :: byte
  x86_64 :: bool
  kaddr :: u64
  next_byte :: u64

definition insn_init :: "u64 \<Rightarrow> bool \<Rightarrow> insn" where
  "insn_init addr is64 =
     \<lparr>insn_prefixes = no_field, rex_prefix = no_field, vex_prefix = no_field, opcode = no_field,
      modrm = no_field, sib = no_field, displacement = no_field, immediate = no_field,
      immediate2 = no_field, attr = 0, opnd_bytes = 4, addr_bytes = (if is64 then 8 else 4),
      insn_length = 0, x86_64 = is64, kaddr = addr, next_byte = addr\<rparr>"

definition insn_last_prefix :: "insn \<Rightarrow> byte" where
  "insn_last_prefix i = fld_bytes (insn_prefixes i) ! 3"

definition insn_vex_m_bits :: "insn \<Rightarrow> byte" where
  "insn_vex_m_bits i =
     (if nbytes (vex_prefix i) = 2 then X86_VEX2_M else X86_VEX3_M (fld_bytes (vex_prefix i) ! 1))"

definition insn_vex_p_bits :: "insn \<Rightarrow> byte" where
  "insn_vex_p_bits i =
     (if nbytes (vex_prefix i) = 2 then X86_VEX_P (fld_bytes (vex_prefix i) ! 1)
      else X86_VEX_P (fld_bytes (vex_prefix i) ! 2))"

definition insn_offset_rex_prefix :: "insn \<Rightarrow> nat" where
  "insn_offset_rex_prefix i = unat (nbytes (insn_prefixes i))"
definition insn_offset_vex_prefix :: "insn \<Rightarrow> nat" where
  "insn_offset_vex_prefix i = insn_offset_rex_prefix i + unat (nbytes (rex_prefix i))"
definition insn_offset_opcode :: "insn \<Rightarrow> nat" where
  "insn_offset_opcode i = insn_offset_vex_prefix i + unat (nbytes (vex_prefix i))"
definition insn_offset_modrm :: "insn \<Rightarrow> nat" where
  "insn_offset_modrm i = insn_offset_opcode i + unat (nbytes (opcode i))"
definition insn_offset_sib :: "insn \<Rightarrow> nat" where
  "insn_offset_sib i = insn_offset_modrm i + unat (nbytes (modrm i))"
definition insn_offset_displacement :: "insn \<Rightarrow> nat" where
  "insn_offset_displacement i = insn_offset_sib i + unat (nbytes (sib i))"
definition insn_offset_immediate :: "insn \<Rightarrow> nat" where
  "insn_offset_immediate i = insn_offset_displacement i + unat (nbytes (displacement i))"

section \<open>Reading code\<close>

fun read_bytes :: "code_mem \<Rightarrow> u64 \<Rightarrow> nat \<Rightarrow> byte list option" where
  "read_bytes m a 0 = Some []"
| "read_bytes m a (Suc n) = do { b \<leftarrow> m a; bs \<leftarrow> read_bytes m (a + 1) n; Some (b # bs) }"

text \<open>
  \<open>get_next\<close>. A byte is unsigned; \<open>char\<close>, \<open>short\<close> and \<open>int\<close> operands are sign-extended to
  the 32-bit value of a field.
\<close>

definition get_next :: "code_mem \<Rightarrow> nat \<Rightarrow> insn \<Rightarrow> (byte list \<times> insn) option" where
  "get_next m n i =
     do { bs \<leftarrow> read_bytes m (next_byte i) n; Some (bs, i\<lparr>next_byte := next_byte i + of_nat n\<rparr>) }"

definition get_byte :: "code_mem \<Rightarrow> insn \<Rightarrow> (byte \<times> insn) option" where
  "get_byte m i = do { b \<leftarrow> m (next_byte i); Some (b, i\<lparr>next_byte := next_byte i + 1\<rparr>) }"

definition sext :: "byte list \<Rightarrow> u32" where
  "sext bs = (if length bs = 1 then scast (le_dec bs :: byte)
              else if length bs = 2 then scast (le_dec bs :: u16) else le_dec bs)"

definition get_value :: "code_mem \<Rightarrow> nat \<Rightarrow> insn \<Rightarrow> (u32 \<times> insn) option" where
  "get_value m n i = do { (bs, i) \<leftarrow> get_next m n i; Some (sext bs, i) }"

section \<open>Prefixes\<close>

text \<open>
  One round of the scan: \<open>nb\<close> distinct prefixes are stored. It stops at a byte that is no
  legacy prefix and at the fifth distinct prefix.
\<close>

definition prefix_step :: "byte \<Rightarrow> nat \<Rightarrow> insn \<Rightarrow> (nat \<times> insn) option" where
  "prefix_step b nb i =
     (let at = inat_get_opcode_attribute b; p = insn_prefixes i
      in if \<not> inat_is_legacy_prefix at then None
         else if b \<in> set (take nb (fld_bytes p)) then Some (nb, i)
         else if nb = 4 then None
         else let i = i\<lparr>insn_prefixes := p\<lparr>fld_bytes := (fld_bytes p)[nb := b]\<rparr>\<rparr>;
                  i = (if inat_is_address_size_prefix at
                       then i\<lparr>addr_bytes := addr_bytes i XOR (if x86_64 i then 12 else 6)\<rparr>
                       else if inat_is_operand_size_prefix at
                       then i\<lparr>opnd_bytes := opnd_bytes i XOR 6\<rparr> else i)
              in Some (Suc nb, i))"

text \<open>The label \<open>found\<close>: count the byte and move on.\<close>

definition next_prefix :: "insn \<Rightarrow> insn" where
  "next_prefix i = i\<lparr>insn_prefixes := (insn_prefixes i)\<lparr>nbytes := nbytes (insn_prefixes i) + 1\<rparr>,
     next_byte := next_byte i + 1\<rparr>"

partial_function (option) prefix_scan ::
  "code_mem \<Rightarrow> nat \<Rightarrow> byte \<Rightarrow> insn \<Rightarrow> (nat \<times> byte \<times> insn) option" where
  "prefix_scan m nb lb i =
     do { b \<leftarrow> m (next_byte i);
          case prefix_step b nb i of
            None \<Rightarrow> Some (nb, lb, i)
          | Some (nb', i') \<Rightarrow> prefix_scan m nb' b (next_prefix i') }"

declare prefix_scan.simps [code]

text \<open>The last prefix goes to the fourth byte, what was there to the place it came from.\<close>

definition set_last_prefix :: "nat \<Rightarrow> byte \<Rightarrow> insn \<Rightarrow> insn" where
  "set_last_prefix nb lb i =
     (let p = insn_prefixes i; b = fld_bytes p ! 3
      in if lb \<noteq> 0 \<and> lb \<noteq> b
         then let bs = (if b \<noteq> 0
                        then map (\<lambda>c. if c = lb then b else c) (take nb (fld_bytes p)) @ drop nb (fld_bytes p)
                        else fld_bytes p)
              in i\<lparr>insn_prefixes := p\<lparr>fld_bytes := bs[3 := lb]\<rparr>\<rparr>
         else i)"

definition get_rex :: "code_mem \<Rightarrow> insn \<Rightarrow> insn option" where
  "get_rex m i =
     do { i \<leftarrow> (if x86_64 i
               then do { b \<leftarrow> m (next_byte i);
                         if inat_is_rex_prefix (inat_get_opcode_attribute b)
                         then let i = i\<lparr>rex_prefix := loaded (ucast b) 1 (rex_prefix i),
                                        next_byte := next_byte i + 1\<rparr>
                              in Some (if X86_REX_W b then i\<lparr>opnd_bytes := 8\<rparr> else i)
                         else Some i }
               else Some i);
          Some (i\<lparr>rex_prefix := (rex_prefix i)\<lparr>got := True\<rparr>\<rparr>) }"

definition get_vex :: "code_mem \<Rightarrow> insn \<Rightarrow> insn option" where
  "get_vex m i =
     do { b \<leftarrow> m (next_byte i);
          let at = inat_get_opcode_attribute b;
          i \<leftarrow> (if inat_is_vex_prefix at
               then do { b2 \<leftarrow> m (next_byte i + 1);
                         if \<not> x86_64 i \<and> X86_MODRM_MOD b2 \<noteq> 3 then Some i
                         else if inat_is_vex3_prefix at
                         then do { b3 \<leftarrow> m (next_byte i + 2);
                                   let i = i\<lparr>vex_prefix := (vex_prefix i)\<lparr>fld_bytes := [b, b2, b3, 0], nbytes := 3\<rparr>,
                                             next_byte := next_byte i + 3\<rparr>;
                                   Some (if x86_64 i \<and> X86_VEX_W b3 then i\<lparr>opnd_bytes := 8\<rparr> else i) }
                         else Some (i\<lparr>vex_prefix := (vex_prefix i)\<lparr>fld_bytes := [b, b2, 0, 0], nbytes := 2\<rparr>,
                                      next_byte := next_byte i + 2\<rparr>) }
               else Some i);
          Some (i\<lparr>vex_prefix := (vex_prefix i)\<lparr>got := True\<rparr>\<rparr>) }"

definition insn_get_prefixes :: "code_mem \<Rightarrow> insn \<Rightarrow> insn option" where
  "insn_get_prefixes m i =
     (if got (insn_prefixes i) then Some i
      else do { (nb, lb, i) \<leftarrow> prefix_scan m 0 0 i;
                let i = set_last_prefix nb lb i;
                i \<leftarrow> get_rex m i;
                i \<leftarrow> get_vex m i;
                Some (i\<lparr>insn_prefixes := (insn_prefixes i)\<lparr>got := True\<rparr>\<rparr>) })"

section \<open>Opcode\<close>

definition insn_is_avx :: "insn \<Rightarrow> bool" where
  "insn_is_avx i = (fld_value (vex_prefix i) \<noteq> 0)"

text \<open>Escape bytes; storing a fourth one would still fit the union, a fifth would not.\<close>

partial_function (option) escape_scan :: "code_mem \<Rightarrow> insn \<Rightarrow> insn option" where
  "escape_scan m i =
     (if \<not> inat_is_escape (attr i) then Some i
      else do { (op, i) \<leftarrow> get_byte m i;
                f \<leftarrow> set_byte (unat (nbytes (opcode i))) op (opcode i);
                escape_scan m (i\<lparr>opcode := f\<lparr>nbytes := nbytes f + 1\<rparr>,
                  attr := inat_get_escape_attribute op (insn_last_prefix i) (attr i)\<rparr>) })"

declare escape_scan.simps [code]

text \<open>The attribute of the opcode that starts with byte \<open>op\<close>; after VEX there is no escape.\<close>

definition opcode_attribute :: "code_mem \<Rightarrow> byte \<Rightarrow> insn \<Rightarrow> insn option" where
  "opcode_attribute m op i =
     (if insn_is_avx i
      then let a = inat_get_avx_attribute op (insn_vex_m_bits i) (insn_vex_p_bits i)
           in Some (i\<lparr>attr := if inat_accept_vex a then a else 0\<rparr>)
      else do { i \<leftarrow> escape_scan m (i\<lparr>attr := inat_get_opcode_attribute op\<rparr>);
                Some (if inat_must_vex (attr i) then i\<lparr>attr := 0\<rparr> else i) })"

definition insn_get_opcode :: "code_mem \<Rightarrow> insn \<Rightarrow> insn option" where
  "insn_get_opcode m i =
     (if got (opcode i) then Some i
      else do { i \<leftarrow> (if got (insn_prefixes i) then Some i else insn_get_prefixes m i);
                (op, i) \<leftarrow> get_byte m i;
                f \<leftarrow> set_byte 0 op (opcode i);
                let i = i\<lparr>opcode := f\<lparr>nbytes := 1\<rparr>\<rparr>;
                i \<leftarrow> opcode_attribute m op i;
                Some (i\<lparr>opcode := (opcode i)\<lparr>got := True\<rparr>\<rparr>) })"

section \<open>Operands\<close>

definition insn_get_modrm :: "code_mem \<Rightarrow> insn \<Rightarrow> insn option" where
  "insn_get_modrm m i =
     (if got (modrm i) then Some i
      else do { i \<leftarrow> (if got (opcode i) then Some i else insn_get_opcode m i);
                i \<leftarrow> (if inat_has_modrm (attr i)
                     then do { (b, i) \<leftarrow> get_byte m i;
                               let i = i\<lparr>modrm := loaded (ucast b) 1 (modrm i)\<rparr>;
                               Some (if inat_is_group (attr i)
                                     then i\<lparr>attr := inat_get_group_attribute b (insn_last_prefix i) (attr i)\<rparr>
                                     else i) }
                     else Some i);
                let i = (if x86_64 i \<and> inat_is_force64 (attr i) then i\<lparr>opnd_bytes := 8\<rparr> else i);
                Some (i\<lparr>modrm := (modrm i)\<lparr>got := True\<rparr>\<rparr>) })"

text \<open>The result says whether the operand is relative to the instruction pointer.\<close>

definition insn_rip_relative :: "code_mem \<Rightarrow> insn \<Rightarrow> (bool \<times> insn) option" where
  "insn_rip_relative m i =
     (if \<not> x86_64 i then Some (False, i)
      else do { i \<leftarrow> (if got (modrm i) then Some i else insn_get_modrm m i);
                Some (nbytes (modrm i) \<noteq> 0 \<and> fld_value (modrm i) AND 0xC7 = 0x5, i) })"

definition insn_get_sib :: "code_mem \<Rightarrow> insn \<Rightarrow> insn option" where
  "insn_get_sib m i =
     (if got (sib i) then Some i
      else do { i \<leftarrow> (if got (modrm i) then Some i else insn_get_modrm m i);
                let b = ucast (fld_value (modrm i));
                i \<leftarrow> (if nbytes (modrm i) \<noteq> 0 \<and> addr_bytes i \<noteq> 2 \<and> X86_MODRM_MOD b \<noteq> 3 \<and> X86_MODRM_RM b = 4
                     then do { (s, i) \<leftarrow> get_byte m i; Some (i\<lparr>sib := loaded (ucast s) 1 (sib i)\<rparr>) }
                     else Some i);
                Some (i\<lparr>sib := (sib i)\<lparr>got := True\<rparr>\<rparr>) })"

text \<open>How many bytes of displacement the ModRM and SIB bytes announce.\<close>

definition displacement_bytes :: "insn \<Rightarrow> nat" where
  "displacement_bytes i =
     (let md = X86_MODRM_MOD (ucast (fld_value (modrm i)));
          rm = X86_MODRM_RM (ucast (fld_value (modrm i)));
          base = X86_SIB_BASE (ucast (fld_value (sib i)))
      in if nbytes (modrm i) = 0 \<or> md = 3 then 0
         else if md = 1 then 1
         else if addr_bytes i = 2 then (if md = 0 \<and> rm = 6 \<or> md = 2 then 2 else 0)
         else (if md = 0 \<and> rm = 5 \<or> md = 2 \<or> md = 0 \<and> base = 5 then 4 else 0))"

definition insn_get_displacement :: "code_mem \<Rightarrow> insn \<Rightarrow> insn option" where
  "insn_get_displacement m i =
     (if got (displacement i) then Some i
      else do { i \<leftarrow> (if got (sib i) then Some i else insn_get_sib m i);
                i \<leftarrow> (if displacement_bytes i \<noteq> 0
                     then do { let n = displacement_bytes i;
                               (v, i) \<leftarrow> get_value m n i;
                               Some (i\<lparr>displacement := loaded v n (displacement i)\<rparr>) }
                     else Some i);
                Some (i\<lparr>displacement := (displacement i)\<lparr>got := True\<rparr>\<rparr>) })"

text \<open>Reading the first and the second immediate, of \<open>n\<close> bytes.\<close>

definition get_imm1 :: "code_mem \<Rightarrow> nat \<Rightarrow> insn \<Rightarrow> insn option" where
  "get_imm1 m n i = do { (v, i) \<leftarrow> get_value m n i; Some (i\<lparr>immediate := loaded v n (immediate i)\<rparr>) }"

definition get_imm2 :: "code_mem \<Rightarrow> nat \<Rightarrow> insn \<Rightarrow> insn option" where
  "get_imm2 m n i = do { (v, i) \<leftarrow> get_value m n i; Some (i\<lparr>immediate2 := loaded v n (immediate2 i)\<rparr>) }"

definition both_got :: "insn \<Rightarrow> insn" where
  "both_got i = i\<lparr>immediate := (immediate i)\<lparr>got := True\<rparr>, immediate2 := (immediate2 i)\<lparr>got := True\<rparr>\<rparr>"

definition get_moffset :: "code_mem \<Rightarrow> insn \<Rightarrow> insn option" where
  "get_moffset m i =
     do { i \<leftarrow> (if addr_bytes i = 2 then get_imm1 m 2 i
               else if addr_bytes i = 4 then get_imm1 m 4 i
               else if addr_bytes i = 8 then do { i \<leftarrow> get_imm1 m 4 i; get_imm2 m 4 i }
               else Some i);
          Some (both_got i) }"

definition get_immv32 :: "code_mem \<Rightarrow> insn \<Rightarrow> insn option" where
  "get_immv32 m i =
     (if opnd_bytes i = 2 then get_imm1 m 2 i
      else if opnd_bytes i = 4 \<or> opnd_bytes i = 8 then get_imm1 m 4 i
      else Some i)"

definition get_immv :: "code_mem \<Rightarrow> insn \<Rightarrow> insn option" where
  "get_immv m i =
     do { i \<leftarrow> (if opnd_bytes i = 2 then get_imm1 m 2 i
               else if opnd_bytes i = 4 then get_imm1 m 4 i
               else if opnd_bytes i = 8 then do { i \<leftarrow> get_imm1 m 4 i; get_imm2 m 4 i }
               else Some i);
          Some (both_got i) }"

text \<open>The segment of a far pointer is an unsigned 16-bit value.\<close>

definition get_immptr :: "code_mem \<Rightarrow> insn \<Rightarrow> insn option" where
  "get_immptr m i =
     (if opnd_bytes i = 8 then Some i
      else do { i \<leftarrow> (if opnd_bytes i = 2 then get_imm1 m 2 i
                     else if opnd_bytes i = 4 then get_imm1 m 4 i else Some i);
                (bs, i) \<leftarrow> get_next m 2 i;
                Some (both_got (i\<lparr>immediate2 := loaded (ucast (le_dec bs :: u16)) 2 (immediate2 i)\<rparr>)) })"

definition imm_by_size :: "code_mem \<Rightarrow> u32 \<Rightarrow> insn \<Rightarrow> insn option" where
  "imm_by_size m n i =
     (if n = INAT_IMM_BYTE then get_imm1 m 1 i
      else if n = INAT_IMM_WORD then get_imm1 m 2 i
      else if n = INAT_IMM_DWORD then get_imm1 m 4 i
      else if n = INAT_IMM_QWORD then do { i \<leftarrow> get_imm1 m 4 i; get_imm2 m 4 i }
      else if n = INAT_IMM_PTR then get_immptr m i
      else if n = INAT_IMM_VWORD32 then get_immv32 m i
      else if n = INAT_IMM_VWORD then get_immv m i
      else Some i)"

definition insn_get_immediate :: "code_mem \<Rightarrow> insn \<Rightarrow> insn option" where
  "insn_get_immediate m i =
     (if got (immediate i) then Some i
      else do { i \<leftarrow> (if got (displacement i) then Some i else insn_get_displacement m i);
                i \<leftarrow> (if inat_has_moffset (attr i) then get_moffset m i
                     else if \<not> inat_has_immediate (attr i) then Some i
                     else do { i \<leftarrow> imm_by_size m (inat_immediate_size (attr i)) i;
                               if inat_has_second_immediate (attr i) then get_imm2 m 1 i else Some i });
                Some (i\<lparr>immediate := (immediate i)\<lparr>got := True\<rparr>\<rparr>) })"

text \<open>The length is an \<open>unsigned char\<close>.\<close>

definition insn_get_length :: "code_mem \<Rightarrow> insn \<Rightarrow> insn option" where
  "insn_get_length m i =
     (if insn_length i \<noteq> 0 then Some i
      else do { i \<leftarrow> (if got (immediate i) then Some i else insn_get_immediate m i);
                Some (i\<lparr>insn_length := ucast (next_byte i - kaddr i)\<rparr>) })"

end
