(* ===== verification/Symbols.thy ===== *)
theory Symbols
  imports Insn
begin

text \<open>
  \<open>symbols.c\<close> and \<open>kernfunc.c\<close>: where the functions of the running kernel are. The image of the
  kernel, its page tables and the memory of modules are the state; \<open>lookup_address\<close>,
  \<open>module_alloc\<close>, \<open>kmalloc\<close>, the symbol table and the files with symbols are the kernel's,
  fields of an environment.
\<close>

section \<open>The running kernel\<close>

text \<open>
  \<open>text\<close>: the bytes that are mapped. \<open>writable\<close>: the \<open>_PAGE_RW\<close> bits of the page table entries.
  \<open>mod_blocks\<close>: the live blocks of \<open>module_alloc\<close> with their sizes. The counters number the
  allocations.
\<close>

record text_state =
  ktext :: code_mem
  writable :: "nat \<Rightarrow> bool"
  mod_blocks :: "u64 \<Rightarrow> u64 option"
  mod_next :: nat
  km_next :: nat

record text_env =
  t_pte :: "u64 \<Rightarrow> nat option"
  t_module_alloc :: "nat \<Rightarrow> u64 \<Rightarrow> u64 option"
  t_garbage :: "u64 \<Rightarrow> byte"
  t_kmalloc :: "nat \<Rightarrow> bool"
  t_kallsyms :: "(byte list \<times> u64) list"
  t_file :: "byte list \<Rightarrow> int + byte list"
  t_release :: "byte list"

text \<open>A store faults on a page that is not mapped or not writable.\<close>

definition write_byte :: "text_env \<Rightarrow> u64 \<Rightarrow> byte \<Rightarrow> text_state \<Rightarrow> text_state option" where
  "write_byte E a b s =
     (case t_pte E a of
        None \<Rightarrow> None
      | Some p \<Rightarrow>
          if ktext s a \<noteq> None \<and> writable s p then Some (s\<lparr>ktext := (ktext s)(a \<mapsto> b)\<rparr>) else None)"

fun write_bytes :: "text_env \<Rightarrow> u64 \<Rightarrow> byte list \<Rightarrow> text_state \<Rightarrow> text_state option" where
  "write_bytes E a [] s = Some s"
| "write_bytes E a (b # bs) s = do { s \<leftarrow> write_byte E a b s; write_bytes E (a + 1) bs s }"

text \<open>
  \<open>malloc\<close> and \<open>malloc_free\<close> of \<open>kernfunc.c\<close> call \<open>module_alloc\<close> and \<open>module_free\<close>. A new block
  holds whatever was there; freeing a block that is not live faults, freeing NULL does nothing.
\<close>

definition in_block :: "u64 \<Rightarrow> u64 \<Rightarrow> u64 \<Rightarrow> bool" where
  "in_block p n a \<longleftrightarrow> a - p < n"

definition malloc :: "text_env \<Rightarrow> u64 \<Rightarrow> text_state \<Rightarrow> u64 option \<times> text_state" where
  "malloc E n s =
     (case t_module_alloc E (mod_next s) n of
        None \<Rightarrow> (None, s\<lparr>mod_next := Suc (mod_next s)\<rparr>)
      | Some p \<Rightarrow>
          (Some p, s\<lparr>mod_next := Suc (mod_next s), mod_blocks := (mod_blocks s)(p \<mapsto> n),
                     ktext := (\<lambda>a. if in_block p n a then Some (t_garbage E a) else ktext s a)\<rparr>))"

definition malloc_free :: "u64 \<Rightarrow> text_state \<Rightarrow> text_state option" where
  "malloc_free p s =
     (if p = 0 then Some s
      else case mod_blocks s p of
             None \<Rightarrow> None
           | Some n \<Rightarrow> Some (s\<lparr>mod_blocks := (mod_blocks s)(p := None),
                                ktext := (\<lambda>a. if in_block p n a then None else ktext s a)\<rparr>))"

definition kmalloc :: "text_env \<Rightarrow> text_state \<Rightarrow> bool \<times> text_state" where
  "kmalloc E s = (t_kmalloc E (km_next s), s\<lparr>km_next := Suc (km_next s)\<rparr>)"

section \<open>Symbols\<close>

text \<open>\<open>struct kernsym\<close>; the name is kept with the pointer to it, which is freed if it was allocated.\<close>

record kernsym =
  sym_addr :: u64
  end_addr :: u64
  sym_size :: u64
  sym_name :: "byte list option"
  name_ptr :: u64
  name_alloc :: bool
  orig_start_bytes :: "byte list"
  new_addr :: u64
  new_size :: u64
  found :: bool
  hijacked :: bool
  run_addr :: u64

definition find_symbol_callback :: "kernsym \<Rightarrow> byte list \<Rightarrow> u64 \<Rightarrow> int \<times> kernsym" where
  "find_symbol_callback ks name a =
     (if found ks then (1, ks\<lparr>end_addr := a\<rparr>)
      else if sym_name ks \<noteq> None \<and> cstr name = cstr (the (sym_name ks))
      then (0, ks\<lparr>sym_addr := a, found := True\<rparr>)
      else (0, ks))"

text \<open>\<open>kallsyms_on_each_symbol\<close>: until the callback returns a non-zero value, which is the result.\<close>

fun kallsyms_on_each_symbol :: "('s \<Rightarrow> byte list \<Rightarrow> u64 \<Rightarrow> int \<times> 's) \<Rightarrow> (byte list \<times> u64) list \<Rightarrow> 's \<Rightarrow> int \<times> 's" where
  "kallsyms_on_each_symbol fn [] st = (0, st)"
| "kallsyms_on_each_symbol fn ((name, a) # syms) st =
     (let (ret, st) = fn st name a in if ret \<noteq> 0 then (ret, st) else kallsyms_on_each_symbol fn syms st)"

definition sized :: "kernsym \<Rightarrow> kernsym" where
  "sized ks = ks\<lparr>sym_size := end_addr ks - sym_addr ks, new_size := end_addr ks - sym_addr ks,
     run_addr := sym_addr ks\<rparr>"

text \<open>For kernels from 2.6.30 on.\<close>

definition find_symbol_address :: "text_env \<Rightarrow> kernsym \<Rightarrow> byte list \<Rightarrow> int \<times> kernsym" where
  "find_symbol_address E ks symbol_name =
     (let ks = ks\<lparr>sym_name := Some symbol_name, found := False\<rparr>;
          (ret, ks) = kallsyms_on_each_symbol find_symbol_callback (t_kallsyms E) ks
      in if ret = 0 then (- EFAULT, ks) else (0, sized ks))"

text \<open>The reverse lookup, whose callback copies the name; the allocation is not checked.\<close>

definition find_address_callback ::
  "text_env \<Rightarrow> (kernsym \<times> text_state) option \<Rightarrow> byte list \<Rightarrow> u64 \<Rightarrow> int \<times> (kernsym \<times> text_state) option" where
  "find_address_callback E st name a =
     (case st of
        None \<Rightarrow> (1, None)
      | Some (ks, s) \<Rightarrow>
          if found ks then (1, Some (ks\<lparr>end_addr := a\<rparr>, s))
          else if a \<noteq> 0 \<and> sym_addr ks = a
          then (case malloc E (of_nat (strlen name + 1)) s of
                  (None, s) \<Rightarrow> (1, None)
                | (Some p, s) \<Rightarrow>
                    (case write_bytes E p (cstr name @ [0]) s of
                       None \<Rightarrow> (1, None)
                     | Some s \<Rightarrow> (0, Some (ks\<lparr>sym_name := Some (cstr name), name_ptr := p, name_alloc := True,
                                               found := True\<rparr>, s))))
          else (0, st))"

definition find_address_symbol ::
  "text_env \<Rightarrow> kernsym \<Rightarrow> u64 \<Rightarrow> text_state \<Rightarrow> ((int \<times> kernsym) \<times> text_state) option" where
  "find_address_symbol E ks a s =
     (case kallsyms_on_each_symbol (find_address_callback E) (t_kallsyms E)
             (Some (ks\<lparr>found := False, sym_addr := a\<rparr>, s)) of
        (_, None) \<Rightarrow> None
      | (ret, Some (ks, s)) \<Rightarrow> Some (if ret = 0 then ((- EFAULT, ks), s) else ((0, sized ks), s)))"

section \<open>Symbols from a file (kernels before 2.6.30)\<close>

definition MAX_FILE_LEN :: nat where "MAX_FILE_LEN = 256"

text \<open>\<open>simple_strtoull (s, NULL, 16)\<close> and \<open>str2long\<close>.\<close>

definition hex_digit :: "byte \<Rightarrow> nat option" where
  "hex_digit c =
     (let n = unat c
      in if 48 \<le> n \<and> n < 58 then Some (n - 48)
         else if 97 \<le> n \<and> n < 103 then Some (n - 87)
         else if 65 \<le> n \<and> n < 71 then Some (n - 55) else None)"

fun strtoull16 :: "byte list \<Rightarrow> u64 \<Rightarrow> u64" where
  "strtoull16 [] v = v"
| "strtoull16 (c # cs) v =
     (case hex_digit c of None \<Rightarrow> v | Some d \<Rightarrow> strtoull16 cs (16 * v + of_nat d))"

definition str2long :: "byte list \<Rightarrow> u64" where
  "str2long cp =
     (let num = (\<lambda>b. strtoull16 (if take 2 b = bytes ''0x'' \<and> hex_digit (hd (drop 2 b @ [0])) \<noteq> None
                                 then drop 2 b else b) 0)
      in case cp of
           [] \<Rightarrow> num cp
         | c # cs \<Rightarrow> if c = of_char (CHR ''-'') then - num cs else num cp)"

text \<open>
  The line buffer \<open>buf\<close>, the pointer \<open>p\<close> into it (an offset) that \<open>strsep\<close> moves, and the index
  \<open>i\<close>. \<open>strsep\<close> without a delimiter leaves NULL in \<open>p\<close>, and the next use faults.
\<close>

definition first_token :: "byte list \<Rightarrow> nat \<Rightarrow> byte list option" where
  "first_token buf p =
     (let line = drop p buf; sp = of_char (CHR '' '')
      in if terminated line \<or> sp \<in> set line then Some (takeWhile (\<lambda>c. c \<noteq> sp) (cstr line)) else None)"

definition strsep_space :: "byte list \<Rightarrow> nat \<Rightarrow> (byte list \<times> nat) option" where
  "strsep_space buf p =
     do { tok \<leftarrow> first_token buf p;
          if length tok < length (cstr (drop p buf)) then Some (tok, p + length tok + 1) else None }"

fun strstr :: "byte list \<Rightarrow> byte list \<Rightarrow> nat option" where
  "strstr s t =
     (if prefix t s then Some 0
      else case s of [] \<Rightarrow> None | _ # s' \<Rightarrow> map_option Suc (strstr s' t))"

declare strstr.simps [simp del]

text \<open>What the line at \<open>p\<close> says: does it end in the symbol's name, after a space?\<close>

definition line_matches :: "byte list \<Rightarrow> nat \<Rightarrow> byte list \<Rightarrow> bool option" where
  "line_matches buf p name =
     (if \<not> terminated (drop p buf) then None
      else case strstr (cstr (drop p buf)) name of
             None \<Rightarrow> Some False
           | Some q \<Rightarrow>
               if p + q = 0 then None
               else if buf ! (p + q - 1) \<noteq> of_char (CHR '' '') then Some False
               else if MAX_FILE_LEN \<le> p + q + length name + 1 then None
               else Some (buf ! (p + q + length name + 1) = 0))"

fun symbol_file_scan ::
  "text_env \<Rightarrow> kernsym \<Rightarrow> byte list \<Rightarrow> nat \<Rightarrow> nat \<Rightarrow> byte list \<Rightarrow> text_state \<Rightarrow> ((int \<times> kernsym) \<times> text_state) option" where
  "symbol_file_scan E ks buf p i [] s = Some ((- EFAULT, ks), s)"
| "symbol_file_scan E ks buf p i (c # file) s =
     (if MAX_FILE_LEN \<le> p + i then None
      else let buf = buf[p + i := c]
           in if c = 10 \<or> i = MAX_FILE_LEN - 1
              then if found ks
                   then let (ok, s) = kmalloc E s
                        in if \<not> ok then Some ((- ENOMEM, ks), s)
                           else do { tok \<leftarrow> first_token buf p;
                                     let ks = ks\<lparr>end_addr := str2long tok\<rparr>;
                                     Some ((0, ks\<lparr>sym_size := end_addr ks - sym_addr ks,
                                                   new_size := end_addr ks - sym_addr ks\<rparr>), s) }
                   else do { name \<leftarrow> sym_name ks;
                             hit \<leftarrow> line_matches buf p (cstr name);
                             if hit
                             then let (ok, s) = kmalloc E s
                                  in if \<not> ok then Some ((- ENOMEM, ks), s)
                                     else do { (tok, p) \<leftarrow> strsep_space buf p;
                                               symbol_file_scan E (ks\<lparr>sym_addr := str2long tok, found := True\<rparr>)
                                                 (replicate MAX_FILE_LEN 0) p 0 file s }
                             else symbol_file_scan E ks (replicate MAX_FILE_LEN 0) p 0 file s }
              else symbol_file_scan E ks buf p (Suc i) file s)"

definition find_symbol_address_from_file ::
  "text_env \<Rightarrow> kernsym \<Rightarrow> byte list \<Rightarrow> text_state \<Rightarrow> ((int \<times> kernsym) \<times> text_state) option" where
  "find_symbol_address_from_file E ks filename s =
     (case t_file E filename of
        Inl err \<Rightarrow> Some ((err, ks), s)
      | Inr content \<Rightarrow> symbol_file_scan E ks (replicate MAX_FILE_LEN 0) 0 0 content s)"

definition find_symbol_address_old ::
  "text_env \<Rightarrow> kernsym \<Rightarrow> byte list \<Rightarrow> text_state \<Rightarrow> ((int \<times> kernsym) \<times> text_state) option" where
  "find_symbol_address_old E ks symbol_name s =
     do { let ks = ks\<lparr>sym_name := Some symbol_name\<rparr>;
          ((ret, ks), s) \<leftarrow> find_symbol_address_from_file E ks (bytes ''/proc/kallsyms'') s;
          if ret < 0
          then let (ok, s) = kmalloc E s
               in if \<not> ok then Some ((- ENOMEM, ks), s)
                  else do { ((ret, ks), s) \<leftarrow> find_symbol_address_from_file E ks
                              (bytes ''/boot/System.map-'' @ cstr (t_release E)) s;
                            Some ((ret, ks\<lparr>run_addr := sym_addr ks\<rparr>), s) }
          else Some ((ret, ks\<lparr>run_addr := sym_addr ks\<rparr>), s) }"

section \<open>The kernel's own functions (\<open>kernfunc.c\<close>)\<close>

definition zero_sym :: kernsym where
  "zero_sym = \<lparr>sym_addr = 0, end_addr = 0, sym_size = 0, sym_name = None, name_ptr = 0, name_alloc = False,
     orig_start_bytes = replicate 5 0, new_addr = 0, new_size = 0, found = False, hijacked = False, run_addr = 0\<rparr>"

text \<open>
  The symbols \<open>kernfunc_init\<close> needs, in order; it stops at the first that is missing. The
  symbols are kept by name.
\<close>

definition needed_symbols :: "byte list list" where
  "needed_symbols = map bytes [''module_alloc'', ''module_free'', ''insn_init'', ''insn_get_length'', ''insn_rip_relative'']"

fun find_all :: "text_env \<Rightarrow> byte list list \<Rightarrow> (byte list \<Rightarrow> kernsym) \<Rightarrow> int \<times> (byte list \<Rightarrow> kernsym)" where
  "find_all E [] syms = (0, syms)"
| "find_all E (n # ns) syms =
     (let (ret, ks) = find_symbol_address E (syms n) n; syms = syms(n := ks)
      in if ret < 0 then (ret, syms) else find_all E ns syms)"

definition kernfunc_init :: "text_env \<Rightarrow> (byte list \<Rightarrow> kernsym) \<Rightarrow> int \<times> (byte list \<Rightarrow> kernsym)" where
  "kernfunc_init E syms = find_all E needed_symbols syms"

end
