(* ===== verification/InsnTables.thy ===== *)
theory InsnTables
  imports Insn
begin

text \<open>
  What the decoder needs to know about the opcode tables, checked entry by entry: escape bytes
  chain at most twice, and a second immediate only follows a 16-bit one.
\<close>

section \<open>Facts about every entry\<close>

definition table_all :: "(u32 \<Rightarrow> bool) \<Rightarrow> attr_table \<Rightarrow> bool" where
  "table_all P t \<longleftrightarrow> P 0 \<and> list_all (P \<circ> snd) t"

lemma table_allD: "table_all P t \<Longrightarrow> P (table_at t x)"
  by (auto simp: table_all_def table_at_def list_all_iff split: option.splits dest!: map_of_SomeD)

definition tables_all :: "(nat \<Rightarrow> u32 \<Rightarrow> bool) \<Rightarrow> ((nat \<times> nat) \<times> attr_table) list \<Rightarrow> bool" where
  "tables_all P ts \<longleftrightarrow> list_all (\<lambda>((n, m), t). table_all (P n) t) ts"

lemma tables_allD: "tables_all P ts \<Longrightarrow> map_of ts (n, m) = Some t \<Longrightarrow> P n (table_at t x)"
  by (auto simp: tables_all_def list_all_iff dest!: map_of_SomeD table_allD)

text \<open>A second immediate (\<open>enter\<close>) follows a 16-bit one, and never depends on a group.\<close>

definition sane_attr :: "u32 \<Rightarrow> bool" where
  "sane_attr a \<longleftrightarrow> (inat_has_second_immediate a \<longrightarrow>
     inat_immediate_size a = INAT_IMM_WORD \<and> \<not> inat_is_group a \<and> \<not> inat_has_moffset a)"

definition primary_ok :: "u32 \<Rightarrow> bool" where
  "primary_ok a \<longleftrightarrow> sane_attr a \<and> inat_escape_id a \<le> 1"

definition escape_ok :: "nat \<Rightarrow> u32 \<Rightarrow> bool" where
  "escape_ok n a \<longleftrightarrow> sane_attr a \<and> (if n = 1 then inat_escape_id a \<noteq> 1 else inat_escape_id a = 0)"

definition group_ok :: "nat \<Rightarrow> u32 \<Rightarrow> bool" where
  "group_ok n a \<longleftrightarrow> \<not> inat_has_second_immediate a"

lemmas attr_checks = primary_ok_def escape_ok_def group_ok_def sane_attr_def inat_tests inat_masks inat_makers
  inat_numbers inat_offsets

lemma zero_ok: "primary_ok 0" "escape_ok n 0" "group_ok n 0" "sane_attr 0"
  by (simp_all add: attr_checks)

lemma primary_table_ok: "table_all primary_ok inat_primary_table"
  unfolding inat_primary_table_def table_all_def
  by (simp add: zero_ok) (simp add: attr_checks)

lemma escape_table_ok_1: "table_all (escape_ok 1) inat_escape_table_1"
  unfolding inat_escape_table_1_def table_all_def
  by (simp add: zero_ok) (simp add: attr_checks)

lemma escape_table_ok_1_1: "table_all (escape_ok 1) inat_escape_table_1_1"
  unfolding inat_escape_table_1_1_def table_all_def
  by (simp add: zero_ok) (simp add: attr_checks)

lemma escape_table_ok_1_x: "table_all (escape_ok 1) inat_escape_table_1_2" "table_all (escape_ok 1) inat_escape_table_1_3"
  unfolding inat_escape_table_1_2_def inat_escape_table_1_3_def table_all_def
  by (simp_all add: zero_ok) (simp_all add: attr_checks)

lemma escape_table_ok_2: "table_all (escape_ok 2) inat_escape_table_2"
  unfolding inat_escape_table_2_def table_all_def
  by (simp add: zero_ok) (simp add: attr_checks)

lemma escape_table_ok_2_x: "table_all (escape_ok 2) inat_escape_table_2_1" "table_all (escape_ok 2) inat_escape_table_2_3"
  unfolding inat_escape_table_2_1_def inat_escape_table_2_3_def table_all_def
  by (simp_all add: zero_ok) (simp_all add: attr_checks)

lemma escape_table_ok_3: "table_all (escape_ok 3) inat_escape_table_3" "table_all (escape_ok 3) inat_escape_table_3_1"
  unfolding inat_escape_table_3_def inat_escape_table_3_1_def table_all_def
  by (simp_all add: zero_ok) (simp_all add: attr_checks)

lemmas escape_tables_ok = escape_table_ok_1 escape_table_ok_1_1 escape_table_ok_1_x escape_table_ok_2
  escape_table_ok_2_x escape_table_ok_3

lemma all_escape_tables: "tables_all escape_ok inat_escape_tables"
  unfolding tables_all_def inat_escape_tables_def by (simp add: escape_tables_ok [simplified])

lemma all_avx_tables: "tables_all escape_ok inat_avx_tables"
  unfolding tables_all_def inat_avx_tables_def by (simp add: escape_tables_ok [simplified])

lemma all_group_tables: "tables_all group_ok inat_group_tables"
  unfolding tables_all_def inat_group_tables_def table_all_def inat_group_table_5_def inat_group_table_6_def
    inat_group_table_7_def inat_group_table_8_def inat_group_table_9_def inat_group_table_10_def
    inat_group_table_12_def inat_group_table_13_def inat_group_table_13_1_def inat_group_table_14_def
    inat_group_table_14_1_def inat_group_table_15_def inat_group_table_15_1_def inat_group_table_18_def
    inat_group_table_21_def inat_group_table_21_1_def inat_group_table_21_2_def
  by (simp add: zero_ok) (simp add: attr_checks)

section \<open>What a search can give\<close>

lemma opcode_attribute_ok: "primary_ok (inat_get_opcode_attribute b)"
  unfolding inat_get_opcode_attribute_def by (rule table_allD [OF primary_table_ok])

lemma escape_attribute_ok: "escape_ok (inat_escape_id a) (inat_get_escape_attribute b p a)"
  unfolding inat_get_escape_attribute_def Let_def
  by (auto simp: zero_ok tables_allD [OF all_escape_tables] split: option.splits)

lemma avx_attribute_ok: "sane_attr (inat_get_avx_attribute b v p)"
  using tables_allD [OF all_avx_tables] unfolding inat_get_avx_attribute_def escape_ok_def
  by (auto simp: zero_ok split: option.splits)

lemma second_immediate_OR:
  "inat_has_second_immediate (a OR b) \<longleftrightarrow> inat_has_second_immediate a \<or> inat_has_second_immediate b"
  by (simp add: inat_has_second_immediate_def bit.conj_disj_distrib2 or_eq_0_iff)

lemma second_immediate_common:
  "inat_has_second_immediate (inat_group_common_attribute a) \<longleftrightarrow> inat_has_second_immediate a"
proof -
  have "(a AND NOT INAT_GRP_MASK) AND INAT_SCNDIMM = a AND INAT_SCNDIMM"
    by (simp add: inat_masks and.assoc)
  then show ?thesis by (simp add: inat_has_second_immediate_def inat_group_common_attribute_def)
qed

lemma group_attribute_ok:
  assumes "sane_attr a" and "inat_is_group a"
  shows "sane_attr (inat_get_group_attribute b p a)"
proof -
  have "\<not> inat_has_second_immediate a" using assms by (simp add: sane_attr_def)
  moreover have "\<not> inat_has_second_immediate (table_at t x)" if "map_of inat_group_tables (n, m) = Some t" for n m t x
    using tables_allD [OF all_group_tables that] by (simp add: group_ok_def)
  ultimately have "\<not> inat_has_second_immediate (inat_get_group_attribute b p a)"
    by (auto simp: inat_get_group_attribute_def second_immediate_OR second_immediate_common Let_def split: option.splits)
  then show ?thesis by (simp add: sane_attr_def)
qed

lemma escape_id_zero: "inat_escape_id a = 0 \<longleftrightarrow> \<not> inat_is_escape a"
proof -
  have low: "4 \<le> n" if "bit (0x30 :: int) n" for n
  proof (rule ccontr)
    assume "\<not> 4 \<le> n"
    then have "n = 0 \<or> n = 1 \<or> n = 2 \<or> n = 3" by linarith
    with that show False by auto
  qed
  have "push_bit 4 (drop_bit 4 (a AND 0x30)) = a AND 0x30"
    by (rule bit_word_eqI) (use low in \<open>force simp: bit_simps\<close>)
  then have "drop_bit 4 (a AND 0x30) = 0 \<longleftrightarrow> a AND 0x30 = 0"
    by (metis drop_bit_of_0 push_bit_of_0)
  then show ?thesis
    by (simp add: inat_escape_id_def inat_is_escape_def inat_offsets inat_masks unat_eq_0)
qed

end
