(* ===== verification/InsnProps.thy ===== *)
theory InsnProps
  imports InsnTables
begin

text \<open>
  What the decoder does, stage by stage: every stage changes its own field, the sizes and the
  read position, and moves the position by the bytes its field took. Put together: the bytes of
  an instruction are the bytes of its fields, in order, so the offsets the module patches
  operands at are right. And it always ends, when the run of prefixes does.
\<close>

section \<open>Reading\<close>

definition mapped :: "code_mem \<Rightarrow> u64 \<Rightarrow> nat \<Rightarrow> bool" where
  "mapped m a n \<longleftrightarrow> (\<forall>j<n. m (a + of_nat j) \<noteq> None)"

lemma mappedD: "mapped m a n \<Longrightarrow> j < n \<Longrightarrow> \<exists>b. m (a + of_nat j) = Some b"
  unfolding mapped_def by blast

lemma mapped_shift: "mapped m a (k + n) \<Longrightarrow> mapped m (a + of_nat k) n"
  unfolding mapped_def by (metis add.assoc nat_add_left_cancel_less of_nat_add)

lemma mapped_mono: "mapped m a n \<Longrightarrow> k \<le> n \<Longrightarrow> mapped m a k"
  unfolding mapped_def by auto

lemma mapped_0: "mapped m a n \<Longrightarrow> 0 < n \<Longrightarrow> \<exists>b. m a = Some b"
  using mappedD [of m a n 0] by simp

lemma read_bytes_length: "read_bytes m a n = Some bs \<Longrightarrow> length bs = n"
  by (induction n arbitrary: a bs) (auto dest!: bind_SomeD)

lemma read_bytes_nth: "read_bytes m a n = Some bs \<Longrightarrow> j < n \<Longrightarrow> m (a + of_nat j) = Some (bs ! j)"
proof (induction n arbitrary: a bs j)
  case 0
  then show ?case by simp
next
  case (Suc n)
  then obtain b bs' where bs: "m a = Some b" "read_bytes m (a + 1) n = Some bs'" "bs = b # bs'"
    by (auto dest!: bind_SomeD)
  then show ?case using Suc.IH [OF bs(2)] Suc.prems(2) by (cases j) (auto simp: algebra_simps)
qed

lemma read_bytes_mapped: "mapped m a n \<Longrightarrow> \<exists>bs. read_bytes m a n = Some bs"
proof (induction n arbitrary: a)
  case 0
  then show ?case by simp
next
  case (Suc n)
  have "mapped m (a + 1) n" using mapped_shift [of m a 1 n] Suc.prems by simp
  with Suc.IH obtain bs where "read_bytes m (a + 1) n = Some bs" by blast
  moreover obtain b where "m a = Some b" using mapped_0 [OF Suc.prems] by auto
  ultimately show ?case by simp
qed

lemma get_value_SomeD:
  "get_value m n i = Some (v, i') \<Longrightarrow>
   \<exists>bs. read_bytes m (next_byte i) n = Some bs \<and> v = sext bs \<and> i' = i\<lparr>next_byte := next_byte i + of_nat n\<rparr>"
  by (auto simp: get_value_def get_next_def dest!: bind_SomeD)

lemma get_value_mapped: "mapped m (next_byte i) n \<Longrightarrow> \<exists>v. get_value m n i = Some (v, i\<lparr>next_byte := next_byte i + of_nat n\<rparr>)"
  using read_bytes_mapped by (fastforce simp: get_value_def get_next_def)

lemma get_byte_SomeD: "get_byte m i = Some (b, i') \<Longrightarrow> m (next_byte i) = Some b \<and> i' = i\<lparr>next_byte := next_byte i + 1\<rparr>"
  by (auto simp: get_byte_def dest!: bind_SomeD)

section \<open>Fields\<close>

definition taken :: "insn_field \<Rightarrow> nat" where
  "taken f = unat (nbytes f)"

text \<open>A field that holds the \<open>taken\<close> bytes of the code at \<open>a\<close>.\<close>

definition holds :: "code_mem \<Rightarrow> u64 \<Rightarrow> insn_field \<Rightarrow> bool" where
  "holds m a f \<longleftrightarrow> taken f = 0 \<or> (\<exists>bs. read_bytes m a (taken f) = Some bs \<and> fld_value f = sext bs)"

lemma taken_loaded [simp]: "n < 256 \<Longrightarrow> taken (loaded v n f) = n"
  by (simp add: taken_def loaded_def unat_of_nat take_bit_nat_eq_self)

lemma nbytes_loaded [simp]: "nbytes (loaded v n f) = of_nat n"
  by (simp add: loaded_def)

lemma value_loaded [simp]: "fld_value (loaded v n f) = v"
  by (simp add: loaded_def fld_value_def le_dec_enc)

lemma taken_got [simp]: "taken (f\<lparr>got := g\<rparr>) = taken f"
  by (simp add: taken_def)

lemma value_got [simp]: "fld_value (f\<lparr>got := g\<rparr>) = fld_value f"
  by (simp add: fld_value_def)

lemma holds_got [simp]: "holds m a (f\<lparr>got := g\<rparr>) \<longleftrightarrow> holds m a f"
  by (simp add: holds_def)

lemma taken_no_field [simp]: "taken no_field = 0" "nbytes no_field = 0" "\<not> got no_field"
  by (simp_all add: taken_def no_field_def)

lemma holds_loaded: "read_bytes m a n = Some bs \<Longrightarrow> n < 256 \<Longrightarrow> holds m a (loaded (sext bs) n f)"
  by (simp add: holds_def)

lemma holds_none [simp]: "taken f = 0 \<Longrightarrow> holds m a f"
  by (simp add: holds_def)

section \<open>Prefixes\<close>

definition legacy_at :: "code_mem \<Rightarrow> u64 \<Rightarrow> bool" where
  "legacy_at m a \<longleftrightarrow> (\<exists>b. m a = Some b \<and> inat_is_legacy_prefix (inat_get_opcode_attribute b))"

text \<open>A scan over \<open>k\<close> prefixes.\<close>

definition prefix_frame :: "insn \<Rightarrow> insn \<Rightarrow> bool" where
  "prefix_frame i i' \<longleftrightarrow>
     i' = i\<lparr>insn_prefixes := insn_prefixes i', addr_bytes := addr_bytes i', opnd_bytes := opnd_bytes i',
            next_byte := next_byte i'\<rparr> \<and>
     got (insn_prefixes i') = got (insn_prefixes i)"

lemma prefix_frame_refl [simp]: "prefix_frame i i"
  by (simp add: prefix_frame_def)

lemma prefix_frameE:
  "prefix_frame i i' \<Longrightarrow>
   (\<And>p ab ob nx. i' = i\<lparr>insn_prefixes := p, addr_bytes := ab, opnd_bytes := ob, next_byte := nx\<rparr> \<Longrightarrow>
      got p = got (insn_prefixes i) \<Longrightarrow> P) \<Longrightarrow> P"
  unfolding prefix_frame_def by metis

lemma prefix_frame_trans: "prefix_frame i j \<Longrightarrow> prefix_frame j k \<Longrightarrow> prefix_frame i k"
  by (elim prefix_frameE) (simp add: prefix_frame_def)

definition scanned :: "code_mem \<Rightarrow> nat \<Rightarrow> insn \<Rightarrow> insn \<Rightarrow> bool" where
  "scanned m k i i' \<longleftrightarrow>
     prefix_frame i i' \<and> next_byte i' = next_byte i + of_nat k \<and>
     nbytes (insn_prefixes i') = nbytes (insn_prefixes i) + of_nat k \<and>
     (\<forall>j<k. legacy_at m (next_byte i + of_nat j))"

lemma scanned_refl: "scanned m 0 i i"
  by (simp add: scanned_def)

lemma prefix_step_SomeD:
  assumes "prefix_step b nb i = Some (nb', i')"
  shows "inat_is_legacy_prefix (inat_get_opcode_attribute b)" "prefix_frame i i'"
    "next_byte i' = next_byte i" "nbytes (insn_prefixes i') = nbytes (insn_prefixes i)"
  using assms by (auto simp: prefix_step_def Let_def prefix_frame_def split: if_splits)

lemma scanned_step:
  assumes step: "prefix_step b nb i = Some (nb', i1)" and b: "m (next_byte i) = Some b"
    and rest: "scanned m k (next_prefix i1) i'"
  shows "scanned m (Suc k) i i'"
proof -
  note s = prefix_step_SomeD [OF step]
  have "prefix_frame i1 (next_prefix i1)" by (simp add: prefix_frame_def next_prefix_def)
  with s(2) rest have "prefix_frame i i'" using prefix_frame_trans unfolding scanned_def by blast
  moreover have "legacy_at m (next_byte i + of_nat j)" if "j < Suc k" for j
  proof (cases j)
    case 0
    then show ?thesis using b s(1) by (auto simp: legacy_at_def)
  next
    case (Suc l)
    with that rest have "legacy_at m (next_byte (next_prefix i1) + of_nat l)" by (simp add: scanned_def)
    with Suc s(3) show ?thesis by (simp add: next_prefix_def algebra_simps)
  qed
  ultimately show ?thesis
    using rest s(3,4) by (simp add: scanned_def next_prefix_def algebra_simps)
qed

lemma prefix_scan_SomeD:
  assumes "prefix_scan m nb lb i = Some (nb', lb', i')"
  shows "\<exists>k. scanned m k i i'"
proof -
  have "\<exists>k. scanned m k i (snd (snd (nb', lb', i')))"
  proof (rule prefix_scan.raw_induct [where P = "\<lambda>m nb lb i r. \<exists>k. scanned m k i (snd (snd r))", OF _ assms])
    fix f m nb lb i r
    assume IH: "\<And>m nb lb i r. f m nb lb i = Some r \<Longrightarrow> \<exists>k. scanned m k i (snd (snd r))"
      and eq: "do { b \<leftarrow> m (next_byte i);
          case prefix_step b nb i of None \<Rightarrow> Some (nb, lb, i) | Some (nb', i') \<Rightarrow> f m nb' b (next_prefix i') } = Some r"
    from eq obtain b where b: "m (next_byte i) = Some b" by (auto dest!: bind_SomeD)
    show "\<exists>k. scanned m k i (snd (snd r))"
    proof (cases "prefix_step b nb i")
      case None
      with eq b scanned_refl show ?thesis by fastforce
    next
      case (Some p)
      obtain nb1 i1 where p: "p = (nb1, i1)" by (cases p)
      with eq b Some have "f m nb1 b (next_prefix i1) = Some r" by simp
      from IH [OF this] obtain k where "scanned m k (next_prefix i1) (snd (snd r))" by blast
      then show ?thesis using scanned_step [of b nb i nb1 i1 m k "snd (snd r)"] b Some p by blast
    qed
  qed
  then show ?thesis by simp
qed

lemma set_last_prefix_frame:
  "prefix_frame i (set_last_prefix nb lb i)" "next_byte (set_last_prefix nb lb i) = next_byte i"
  "nbytes (insn_prefixes (set_last_prefix nb lb i)) = nbytes (insn_prefixes i)"
  by (simp_all add: set_last_prefix_def prefix_frame_def Let_def)

lemma set_last_prefix_keeps:
  "rex_prefix (set_last_prefix nb lb i) = rex_prefix i" "vex_prefix (set_last_prefix nb lb i) = vex_prefix i"
  by (simp_all add: set_last_prefix_def Let_def)

text \<open>REX and VEX: a stage that loads one fresh field.\<close>

lemma get_rex_SomeD:
  assumes "get_rex m i = Some i'" and "nbytes (rex_prefix i) = 0"
  shows "i' = i\<lparr>rex_prefix := rex_prefix i', opnd_bytes := opnd_bytes i',
      next_byte := next_byte i + of_nat (taken (rex_prefix i'))\<rparr>"
    and "taken (rex_prefix i') \<le> 1"
  using assms by (auto simp: get_rex_def Let_def taken_def dest!: bind_SomeD split: if_splits)

lemma get_vex_SomeD:
  assumes "get_vex m i = Some i'" and "nbytes (vex_prefix i) = 0"
  shows "i' = i\<lparr>vex_prefix := vex_prefix i', opnd_bytes := opnd_bytes i',
      next_byte := next_byte i + of_nat (taken (vex_prefix i'))\<rparr>"
    and "taken (vex_prefix i') \<in> {0, 2, 3}"
  using assms by (auto simp: get_vex_def Let_def taken_def dest!: bind_SomeD split: if_splits)

text \<open>All prefixes of a fresh instruction.\<close>

lemma insn_init_fresh [simp]:
  "insn_prefixes (insn_init a x) = no_field" "opcode (insn_init a x) = no_field" "modrm (insn_init a x) = no_field"
  "sib (insn_init a x) = no_field" "displacement (insn_init a x) = no_field" "immediate (insn_init a x) = no_field"
  "insn_length (insn_init a x) = 0" "kaddr (insn_init a x) = a" "x86_64 (insn_init a x) = x"
  by (simp_all add: insn_init_def)

definition fresh_operands :: "insn \<Rightarrow> bool" where
  "fresh_operands i \<longleftrightarrow> opcode i = no_field \<and> modrm i = no_field \<and> sib i = no_field \<and>
     displacement i = no_field \<and> immediate i = no_field \<and> immediate2 i = no_field \<and> insn_length i = 0"

lemma insn_get_prefixes_SomeD:
  assumes "insn_get_prefixes m (insn_init a x) = Some i"
  shows "\<exists>k. nbytes (insn_prefixes i) = of_nat k \<and> (\<forall>j<k. legacy_at m (a + of_nat j)) \<and>
    kaddr i = a \<and> x86_64 i = x \<and> fresh_operands i \<and> got (insn_prefixes i) \<and>
    taken (rex_prefix i) \<le> 1 \<and> taken (vex_prefix i) \<in> {0, 2, 3} \<and>
    next_byte i = a + of_nat (k + taken (rex_prefix i) + taken (vex_prefix i))"
proof -
  let ?i0 = "insn_init a x"
  have init: "kaddr ?i0 = a" "x86_64 ?i0 = x" "fresh_operands ?i0" "next_byte ?i0 = a" "insn_prefixes ?i0 = no_field"
      "rex_prefix ?i0 = no_field" "vex_prefix ?i0 = no_field"
    by (simp_all add: insn_init_def fresh_operands_def)
  from assms obtain nb lb i1 i2 i3 where st: "prefix_scan m 0 0 ?i0 = Some (nb, lb, i1)"
      "get_rex m (set_last_prefix nb lb i1) = Some i2" "get_vex m i2 = Some i3"
      "i = i3\<lparr>insn_prefixes := (insn_prefixes i3)\<lparr>got := True\<rparr>\<rparr>"
    by (auto simp: insn_get_prefixes_def init Let_def dest!: bind_SomeD)
  obtain k where k: "scanned m k ?i0 i1" using prefix_scan_SomeD [OF st(1)] by blast
  let ?j = "set_last_prefix nb lb i1"
  have j: "prefix_frame ?i0 ?j" "next_byte ?j = a + of_nat k" "nbytes (insn_prefixes ?j) = of_nat k"
    using k set_last_prefix_frame(1) [of i1] set_last_prefix_frame(2,3) prefix_frame_trans by (auto simp: scanned_def init)
  from j(1) have j': "kaddr ?j = a" "x86_64 ?j = x" "fresh_operands ?j" "rex_prefix ?j = no_field" "vex_prefix ?j = no_field"
    by (elim prefix_frameE, simp add: init fresh_operands_def [of "?i0\<lparr>insn_prefixes := _, addr_bytes := _,
      opnd_bytes := _, next_byte := _\<rparr>"] init(3) [unfolded fresh_operands_def])+
  have i2: "i2 = ?j\<lparr>rex_prefix := rex_prefix i2, opnd_bytes := opnd_bytes i2, next_byte := next_byte ?j + of_nat (taken (rex_prefix i2))\<rparr>"
      "taken (rex_prefix i2) \<le> 1"
    using get_rex_SomeD [OF st(2)] j' by simp_all
  have f2: "kaddr i2 = a" "x86_64 i2 = x" "fresh_operands i2" "vex_prefix i2 = no_field" "insn_prefixes i2 = insn_prefixes ?j"
      "next_byte i2 = next_byte ?j + of_nat (taken (rex_prefix i2))"
    by (subst i2(1), simp add: j' fresh_operands_def j'(3) [unfolded fresh_operands_def])+
  have i3: "i3 = i2\<lparr>vex_prefix := vex_prefix i3, opnd_bytes := opnd_bytes i3, next_byte := next_byte i2 + of_nat (taken (vex_prefix i3))\<rparr>"
      "taken (vex_prefix i3) \<in> {0, 2, 3}"
    using get_vex_SomeD [OF st(3)] f2 by simp_all
  have f3: "kaddr i3 = a" "x86_64 i3 = x" "fresh_operands i3" "insn_prefixes i3 = insn_prefixes ?j" "rex_prefix i3 = rex_prefix i2"
      "next_byte i3 = next_byte i2 + of_nat (taken (vex_prefix i3))"
    by (subst i3(1), simp add: f2 fresh_operands_def f2(3) [unfolded fresh_operands_def])+
  show ?thesis
    using k f3 f2(6) j(2,3) i2(2) i3(2)
    by (intro exI [of _ k]) (auto simp: st(4) fresh_operands_def scanned_def init algebra_simps)
qed

section \<open>Opcode\<close>

definition escaped :: "byte \<Rightarrow> insn \<Rightarrow> insn" where
  "escaped op i = i\<lparr>next_byte := next_byte i + 1,
     opcode := (opcode i)\<lparr>fld_bytes := (fld_bytes (opcode i))[unat (nbytes (opcode i)) := op], nbytes := nbytes (opcode i) + 1\<rparr>,
     attr := inat_get_escape_attribute op (insn_last_prefix i) (attr i)\<rparr>"

lemma escape_scan_done: "inat_escape_id (attr i) = 0 \<Longrightarrow> escape_scan m i = Some i"
  by (subst escape_scan.simps) (simp add: escape_id_zero)

lemma escape_scan_more:
  assumes "inat_escape_id (attr i) \<noteq> 0" and "unat (nbytes (opcode i)) < 4"
  shows "escape_scan m i = do { op \<leftarrow> m (next_byte i); escape_scan m (escaped op i) }"
  using assms
  by (subst escape_scan.simps)
     (cases "m (next_byte i)",
       simp_all add: escape_id_zero get_byte_def set_byte_def escaped_def insn_last_prefix_def)

lemma escaped_attr: "escape_ok (inat_escape_id (attr i)) (attr (escaped op i))"
  by (simp add: escaped_def escape_attribute_ok)

text \<open>The opcode stage writes its own field, the attribute and the position.\<close>

definition opcode_frame :: "nat \<Rightarrow> insn \<Rightarrow> insn \<Rightarrow> bool" where
  "opcode_frame d i i' \<longleftrightarrow>
     i' = i\<lparr>opcode := opcode i', attr := attr i', next_byte := next_byte i + of_nat d\<rparr> \<and>
     nbytes (opcode i') = nbytes (opcode i) + of_nat d"

lemma opcode_frame_refl [simp]: "opcode_frame 0 i i"
  by (simp add: opcode_frame_def)

lemma opcode_frame_escaped: "opcode_frame (Suc 0) i (escaped op i)"
  by (simp add: opcode_frame_def escaped_def)

lemma opcode_frameE:
  "opcode_frame d i i' \<Longrightarrow>
   (\<And>p at. i' = i\<lparr>opcode := p, attr := at, next_byte := next_byte i + of_nat d\<rparr> \<Longrightarrow>
      nbytes p = nbytes (opcode i) + of_nat d \<Longrightarrow> P) \<Longrightarrow> P"
  unfolding opcode_frame_def by metis

lemma opcode_frame_trans: "opcode_frame d i j \<Longrightarrow> opcode_frame e j k \<Longrightarrow> opcode_frame (d + e) i k"
  by (elim opcode_frameE) (simp add: opcode_frame_def algebra_simps)

lemma opcode_frame_attr:
  "opcode_frame d (i\<lparr>attr := c\<rparr>) j \<Longrightarrow> opcode_frame d i (j\<lparr>attr := c'\<rparr>)"
  "opcode_frame d (i\<lparr>attr := c\<rparr>) j \<Longrightarrow> opcode_frame d i j"
  by (elim opcode_frameE, simp add: opcode_frame_def)+

text \<open>The first opcode byte stays; at most two more follow.\<close>

lemma escaped_first: "nbytes (opcode i) \<noteq> 0 \<Longrightarrow> fld_bytes (opcode (escaped op i)) ! 0 = fld_bytes (opcode i) ! 0"
  by (simp add: escaped_def nth_list_update unat_eq_0)

lemma escape_scan_one:
  assumes "escape_scan m i = Some i'" and "1 < inat_escape_id (attr i)" and "nbytes (opcode i) \<in> {1, 2}"
  shows "opcode_frame 1 i i' \<and> sane_attr (attr i') \<and> fld_bytes (opcode i') ! 0 = fld_bytes (opcode i) ! 0"
proof -
  from assms obtain op where op: "escape_scan m (escaped op i) = Some i'"
    by (auto simp: escape_scan_more dest!: bind_SomeD)
  have ok: "sane_attr (attr (escaped op i))" "inat_escape_id (attr (escaped op i)) = 0"
    using escaped_attr [of i op] assms(2) by (auto simp: escape_ok_def split: if_splits)
  then have "i' = escaped op i" using op escape_scan_done by simp
  with ok(1) show ?thesis using opcode_frame_escaped [of i op] escaped_first [of i op] assms(3) by auto
qed

lemma escape_scan_SomeD:
  assumes "escape_scan m i = Some i'" and "sane_attr (attr i)" and "inat_escape_id (attr i) \<le> 1" and "nbytes (opcode i) = 1"
  shows "\<exists>d\<le>2. opcode_frame d i i' \<and> sane_attr (attr i') \<and> fld_bytes (opcode i') ! 0 = fld_bytes (opcode i) ! 0"
proof (cases "inat_escape_id (attr i) = 0")
  case True
  with assms show ?thesis using escape_scan_done [of i m] by (intro exI [of _ 0]) simp
next
  case False
  with assms(3) have id: "inat_escape_id (attr i) = 1" by simp
  with assms obtain op where op: "escape_scan m (escaped op i) = Some i'"
    by (auto simp: escape_scan_more dest!: bind_SomeD)
  let ?j = "escaped op i"
  have j: "sane_attr (attr ?j)" "inat_escape_id (attr ?j) \<noteq> 1" "nbytes (opcode ?j) = 2"
    using escaped_attr [of i op] id assms(4) by (auto simp: escape_ok_def escaped_def split: if_splits)
  have first: "fld_bytes (opcode ?j) ! 0 = fld_bytes (opcode i) ! 0" using escaped_first assms(4) by simp
  show ?thesis
  proof (cases "inat_escape_id (attr ?j) = 0")
    case True
    then have "i' = ?j" using op escape_scan_done by simp
    with j(1) first opcode_frame_escaped [of i op] show ?thesis by (intro exI [of _ 1]) simp
  next
    case False
    with j(2) have "1 < inat_escape_id (attr ?j)" by simp
    from escape_scan_one [OF op this] j(3) first
    show ?thesis using opcode_frame_trans [OF opcode_frame_escaped [of i op]] by (intro exI [of _ 2]) (auto simp: numeral_2_eq_2)
  qed
qed

section \<open>The bytes of an instruction are the bytes of its fields\<close>

definition body :: "insn \<Rightarrow> nat" where
  "body i = taken (rex_prefix i) + taken (vex_prefix i) + taken (opcode i) + taken (modrm i) + taken (sib i) +
     taken (displacement i) + taken (immediate i) + taken (immediate2 i)"

definition placed :: "code_mem \<Rightarrow> u64 \<Rightarrow> bool \<Rightarrow> nat \<Rightarrow> insn \<Rightarrow> bool" where
  "placed m a x k i \<longleftrightarrow> kaddr i = a \<and> x86_64 i = x \<and> nbytes (insn_prefixes i) = of_nat k \<and>
     (\<forall>j<k. legacy_at m (a + of_nat j)) \<and> insn_length i = 0 \<and> next_byte i = a + of_nat (k + body i) \<and>
     taken (rex_prefix i) \<le> 1 \<and> taken (vex_prefix i) \<in> {0, 2, 3}"

lemma placed_prefixes:
  assumes "insn_get_prefixes m (insn_init a x) = Some i"
  shows "\<exists>k. placed m a x k i \<and> fresh_operands i \<and> got (insn_prefixes i)"
  using insn_get_prefixes_SomeD [OF assms] by (fastforce simp: placed_def body_def fresh_operands_def)

text \<open>Opcode: one to three bytes.\<close>

definition opcode_done :: "code_mem \<Rightarrow> u64 \<Rightarrow> bool \<Rightarrow> nat \<Rightarrow> insn \<Rightarrow> bool" where
  "opcode_done m a x k i \<longleftrightarrow> placed m a x k i \<and> taken (opcode i) \<in> {1, 2, 3} \<and> sane_attr (attr i) \<and>
     m (a + of_nat (k + taken (rex_prefix i) + taken (vex_prefix i))) = Some (fld_bytes (opcode i) ! 0)"

lemma unat_u8: "n < 256 \<Longrightarrow> unat (of_nat n :: byte) = n"
  by (simp add: unat_of_nat take_bit_nat_eq_self)

lemma opcode_stage:
  assumes "insn_get_opcode m (insn_init a x) = Some i"
  shows "\<exists>k. opcode_done m a x k i \<and> modrm i = no_field \<and> sib i = no_field \<and> displacement i = no_field \<and>
    immediate i = no_field \<and> immediate2 i = no_field"
proof -
  from assms obtain i1 op i3 where st: "insn_get_prefixes m (insn_init a x) = Some i1" "m (next_byte i1) = Some op"
      "opcode_attribute m op (i1\<lparr>next_byte := next_byte i1 + 1, opcode := (opcode i1)\<lparr>fld_bytes := (fld_bytes (opcode i1))[0 := op], nbytes := 1\<rparr>\<rparr>) = Some i3"
      "i = i3\<lparr>opcode := (opcode i3)\<lparr>got := True\<rparr>\<rparr>"
    by (auto simp: insn_get_opcode_def insn_init_def get_byte_def set_byte_def dest!: bind_SomeD)
  let ?i2 = "i1\<lparr>next_byte := next_byte i1 + 1, opcode := (opcode i1)\<lparr>fld_bytes := (fld_bytes (opcode i1))[0 := op], nbytes := 1\<rparr>\<rparr>"
  obtain k where k: "placed m a x k i1" "fresh_operands i1" using placed_prefixes [OF st(1)] by blast
  have op0: "opcode i1 = no_field" using k(2) by (simp add: fresh_operands_def)
  have "\<exists>d\<le>2. opcode_frame d ?i2 i3 \<and> sane_attr (attr i3) \<and> fld_bytes (opcode i3) ! 0 = op"
  proof (cases "insn_is_avx ?i2")
    case True
    with st(3) obtain c where "i3 = ?i2\<lparr>attr := c\<rparr>" "sane_attr c"
      using avx_attribute_ok zero_ok(4) by (auto simp: opcode_attribute_def Let_def)
    then show ?thesis by (intro exI [of _ 0]) (simp add: opcode_frame_def op0 no_field_def)
  next
    case False
    with st(3) obtain i4 where i4: "escape_scan m (?i2\<lparr>attr := inat_get_opcode_attribute op\<rparr>) = Some i4"
        "i3 = (if inat_must_vex (attr i4) then i4\<lparr>attr := 0\<rparr> else i4)"
      by (auto simp: opcode_attribute_def dest!: bind_SomeD)
    obtain d where d: "d \<le> 2" "opcode_frame d (?i2\<lparr>attr := inat_get_opcode_attribute op\<rparr>) i4" "sane_attr (attr i4)"
        "fld_bytes (opcode i4) ! 0 = op"
      using escape_scan_SomeD [OF i4(1)] opcode_attribute_ok [of op] by (auto simp: primary_ok_def op0 no_field_def)
    from opcode_frame_attr [OF d(2)] have "opcode_frame d ?i2 i3" unfolding i4(2) by simp
    with d zero_ok(4) show ?thesis by (auto simp: i4(2))
  qed
  then obtain d where d: "d \<le> 2" "i3 = ?i2\<lparr>opcode := opcode i3, attr := attr i3, next_byte := next_byte ?i2 + of_nat d\<rparr>"
      "nbytes (opcode i3) = 1 + of_nat d" "sane_attr (attr i3)" "fld_bytes (opcode i3) ! 0 = op"
    by (auto simp: opcode_frame_def)
  have "nbytes (opcode i3) = of_nat (Suc d)" using d(3) by simp
  then have tk: "taken (opcode i3) = Suc d" using d(1) unat_u8 [of "Suc d"] by (simp only: taken_def)
  have f3: "kaddr i3 = a" "x86_64 i3 = x" "insn_prefixes i3 = insn_prefixes i1" "rex_prefix i3 = rex_prefix i1" "vex_prefix i3 = vex_prefix i1"
      "modrm i3 = no_field" "sib i3 = no_field" "displacement i3 = no_field" "immediate i3 = no_field" "immediate2 i3 = no_field"
      "insn_length i3 = 0" "next_byte i3 = next_byte i1 + 1 + of_nat d"
    using k by (subst d(2), simp add: placed_def fresh_operands_def)+
  have body1: "body i1 = taken (rex_prefix i1) + taken (vex_prefix i1)" using k(2) by (simp add: body_def fresh_operands_def)
  have d3: "Suc d = 1 \<or> Suc d = 2 \<or> Suc d = 3" using d(1) by linarith
  have "opcode_done m a x k i"
    using k(1) f3 st(2) tk d d3 body1
    by (simp add: opcode_done_def placed_def st(4) body_def algebra_simps)
  then show ?thesis using f3 by (auto simp: st(4))
qed

text \<open>ModRM, SIB and displacement.\<close>

lemma modrm_stage:
  assumes "insn_get_modrm m (insn_init a x) = Some i"
  shows "\<exists>k. opcode_done m a x k i \<and> taken (modrm i) \<le> 1 \<and> sib i = no_field \<and> displacement i = no_field \<and>
    immediate i = no_field \<and> immediate2 i = no_field"
proof -
  from assms obtain i1 where st: "insn_get_opcode m (insn_init a x) = Some i1"
    by (auto simp: insn_get_modrm_def dest!: bind_SomeD)
  obtain k where k: "opcode_done m a x k i1" "modrm i1 = no_field" "sib i1 = no_field" "displacement i1 = no_field"
      "immediate i1 = no_field" "immediate2 i1 = no_field" using opcode_stage [OF st] by blast
  have "i = i1\<lparr>modrm := modrm i, attr := attr i, opnd_bytes := opnd_bytes i, next_byte := next_byte i1 + of_nat (taken (modrm i))\<rparr> \<and>
      taken (modrm i) \<le> 1 \<and> sane_attr (attr i)"
    using assms st k(1,2) group_attribute_ok
    by (auto simp: insn_get_modrm_def get_byte_def opcode_done_def Let_def dest!: bind_SomeD split: if_splits)
  then obtain f c ob where "i = i1\<lparr>modrm := f, attr := c, opnd_bytes := ob, next_byte := next_byte i1 + of_nat (taken f)\<rparr>"
      "taken f \<le> 1" "sane_attr c" by metis
  then show ?thesis using k by (auto simp: opcode_done_def placed_def body_def algebra_simps intro!: exI [of _ k])
qed

lemma sib_stage:
  assumes "insn_get_sib m (insn_init a x) = Some i"
  shows "\<exists>k. opcode_done m a x k i \<and> taken (modrm i) \<le> 1 \<and> taken (sib i) \<le> 1 \<and> displacement i = no_field \<and>
    immediate i = no_field \<and> immediate2 i = no_field"
proof -
  from assms obtain i1 where st: "insn_get_modrm m (insn_init a x) = Some i1"
    by (auto simp: insn_get_sib_def dest!: bind_SomeD)
  obtain k where k: "opcode_done m a x k i1" "taken (modrm i1) \<le> 1" "sib i1 = no_field" "displacement i1 = no_field"
      "immediate i1 = no_field" "immediate2 i1 = no_field" using modrm_stage [OF st] by blast
  have "i = i1\<lparr>sib := sib i, next_byte := next_byte i1 + of_nat (taken (sib i))\<rparr> \<and> taken (sib i) \<le> 1"
    using assms st k(3)
    by (auto simp: insn_get_sib_def get_byte_def Let_def dest!: bind_SomeD split: if_splits)
  then obtain f where "i = i1\<lparr>sib := f, next_byte := next_byte i1 + of_nat (taken f)\<rparr>" "taken f \<le> 1" by metis
  then show ?thesis using k by (auto simp: opcode_done_def placed_def body_def algebra_simps intro!: exI [of _ k])
qed

text \<open>The displacement is the bytes at its place, sign-extended.\<close>

definition displacement_done :: "code_mem \<Rightarrow> u64 \<Rightarrow> bool \<Rightarrow> nat \<Rightarrow> insn \<Rightarrow> bool" where
  "displacement_done m a x k i \<longleftrightarrow> opcode_done m a x k i \<and> taken (modrm i) \<le> 1 \<and> taken (sib i) \<le> 1 \<and>
     taken (displacement i) \<in> {0, 1, 2, 4} \<and>
     holds m (a + of_nat (k + taken (rex_prefix i) + taken (vex_prefix i) + taken (opcode i) + taken (modrm i) +
       taken (sib i))) (displacement i)"

lemma displacement_bytes_le: "displacement_bytes i \<in> {0, 1, 2, 4}"
  by (simp add: displacement_bytes_def Let_def)

lemma displacement_stage:
  assumes "insn_get_displacement m (insn_init a x) = Some i"
  shows "\<exists>k. displacement_done m a x k i \<and> immediate i = no_field \<and> immediate2 i = no_field"
proof -
  from assms obtain i1 where st: "insn_get_sib m (insn_init a x) = Some i1"
    by (auto simp: insn_get_displacement_def dest!: bind_SomeD)
  obtain k where k: "opcode_done m a x k i1" "taken (modrm i1) \<le> 1" "taken (sib i1) \<le> 1" "displacement i1 = no_field"
      "immediate i1 = no_field" "immediate2 i1 = no_field" using sib_stage [OF st] by blast
  have le: "displacement_bytes i1 < 256" using displacement_bytes_le [of i1] by auto
  have "i = i1\<lparr>displacement := displacement i, next_byte := next_byte i1 + of_nat (taken (displacement i))\<rparr> \<and>
      taken (displacement i) \<in> {0, 1, 2, 4} \<and> holds m (next_byte i1) (displacement i)"
  proof (cases "displacement_bytes i1 = 0")
    case True
    with assms st k(4) show ?thesis by (auto simp: insn_get_displacement_def)
  next
    case False
    with assms st k(4) obtain v i2 where v: "get_value m (displacement_bytes i1) i1 = Some (v, i2)"
        "i = i2\<lparr>displacement := (loaded v (displacement_bytes i1) (displacement i2))\<lparr>got := True\<rparr>\<rparr>"
      by (auto simp: insn_get_displacement_def Let_def dest!: bind_SomeD)
    obtain bs where bs: "read_bytes m (next_byte i1) (displacement_bytes i1) = Some bs" "v = sext bs"
        "i2 = i1\<lparr>next_byte := next_byte i1 + of_nat (displacement_bytes i1)\<rparr>"
      using get_value_SomeD [OF v(1)] by blast
    have "taken (displacement i) = displacement_bytes i1" using le by (simp add: v(2))
    moreover have "holds m (next_byte i1) (displacement i)" using holds_loaded [OF bs(1) le] by (simp add: v(2) bs(2))
    ultimately show ?thesis using displacement_bytes_le [of i1] by (simp add: v(2) bs(3))
  qed
  then obtain f where "i = i1\<lparr>displacement := f, next_byte := next_byte i1 + of_nat (taken f)\<rparr>"
      "taken f \<in> {0, 1, 2, 4}" "holds m (next_byte i1) f" by metis
  then show ?thesis
    using k by (auto simp: displacement_done_def opcode_done_def placed_def body_def algebra_simps intro!: exI [of _ k])
qed

text \<open>Immediates.\<close>

definition imm_frame :: "code_mem \<Rightarrow> insn \<Rightarrow> insn \<Rightarrow> bool" where
  "imm_frame m i i' \<longleftrightarrow>
     i' = i\<lparr>immediate := immediate i', immediate2 := immediate2 i',
            next_byte := next_byte i + of_nat (taken (immediate i') + taken (immediate2 i'))\<rparr> \<and>
     taken (immediate i') \<le> 4 \<and> taken (immediate2 i') \<le> 4 \<and> holds m (next_byte i) (immediate i')"

lemma imm_frameE:
  "imm_frame m i i' \<Longrightarrow>
   (\<And>f g. i' = i\<lparr>immediate := f, immediate2 := g, next_byte := next_byte i + of_nat (taken f + taken g)\<rparr> \<Longrightarrow>
      taken f \<le> 4 \<Longrightarrow> taken g \<le> 4 \<Longrightarrow> holds m (next_byte i) f \<Longrightarrow> P) \<Longrightarrow> P"
  unfolding imm_frame_def by metis

definition no_imm :: "insn \<Rightarrow> bool" where
  "no_imm i \<longleftrightarrow> immediate i = no_field \<and> immediate2 i = no_field"

lemma imm_frame_refl: "no_imm i \<Longrightarrow> imm_frame m i i"
  by (simp add: imm_frame_def no_imm_def)

lemma get_imm1_SomeD:
  assumes "get_imm1 m n i = Some i'" and "n < 256"
  shows "i' = i\<lparr>immediate := immediate i', next_byte := next_byte i + of_nat n\<rparr>" "taken (immediate i') = n"
    "holds m (next_byte i) (immediate i')" "immediate2 i' = immediate2 i" "next_byte i' = next_byte i + of_nat n"
proof -
  from assms(1) obtain v i2 where v: "get_value m n i = Some (v, i2)" "i' = i2\<lparr>immediate := loaded v n (immediate i2)\<rparr>"
    by (auto simp: get_imm1_def dest!: bind_SomeD)
  obtain bs where bs: "read_bytes m (next_byte i) n = Some bs" "v = sext bs" "i2 = i\<lparr>next_byte := next_byte i + of_nat n\<rparr>"
    using get_value_SomeD [OF v(1)] by blast
  show "i' = i\<lparr>immediate := immediate i', next_byte := next_byte i + of_nat n\<rparr>" "taken (immediate i') = n"
    "holds m (next_byte i) (immediate i')" "immediate2 i' = immediate2 i" "next_byte i' = next_byte i + of_nat n"
    using holds_loaded [OF bs(1) assms(2)] assms(2) by (simp_all add: v(2) bs(2,3))
qed

lemma get_imm2_SomeD:
  assumes "get_imm2 m n i = Some i'" and "n < 256"
  shows "i' = i\<lparr>immediate2 := immediate2 i', next_byte := next_byte i + of_nat n\<rparr>" "taken (immediate2 i') = n"
    "immediate i' = immediate i"
  using assms by (auto simp: get_imm2_def dest!: bind_SomeD get_value_SomeD)

lemma imm_frame_imm1:
  assumes "get_imm1 m n i = Some i'" and "no_imm i" and "n \<le> 4"
  shows "imm_frame m i i'"
proof -
  have n: "n < 256" using assms(3) by simp
  note d = get_imm1_SomeD [OF assms(1) n]
  show ?thesis using d(2-4) assms(2,3) by (subst imm_frame_def, subst d(1)) (simp add: no_imm_def)
qed

lemma imm_frame_imm12:
  assumes "get_imm1 m n i = Some j" and "get_imm2 m l j = Some i'" and "no_imm i" and "n \<le> 4" and "l \<le> 4"
  shows "imm_frame m i i'"
proof -
  have n: "n < 256" "l < 256" using assms(4,5) by simp_all
  note d = get_imm1_SomeD [OF assms(1) n(1)] and e = get_imm2_SomeD [OF assms(2) n(2)]
  have "i' = i\<lparr>immediate := immediate i', immediate2 := immediate2 i', next_byte := next_byte i + of_nat (n + l)\<rparr>"
    by (subst e(1), subst d(1)) (simp add: d(5) e(3))
  then show ?thesis using d e assms(3-5) unfolding imm_frame_def by metis
qed

lemma imm_frame_got:
  assumes "imm_frame m i i'"
  shows "imm_frame m i (both_got i')" "imm_frame m i (i'\<lparr>immediate := (immediate i')\<lparr>got := True\<rparr>\<rparr>)"
proof -
  from assms obtain f g where "i' = i\<lparr>immediate := f, immediate2 := g, next_byte := next_byte i + of_nat (taken f + taken g)\<rparr>"
      "taken f \<le> 4" "taken g \<le> 4" "holds m (next_byte i) f"
    by (rule imm_frameE)
  then show "imm_frame m i (both_got i')" "imm_frame m i (i'\<lparr>immediate := (immediate i')\<lparr>got := True\<rparr>\<rparr>)"
    by (simp_all add: imm_frame_def both_got_def)
qed

lemma imm_frame_moffset: "get_moffset m i = Some i' \<Longrightarrow> no_imm i \<Longrightarrow> imm_frame m i i'"
  by (auto simp: get_moffset_def imm_frame_refl dest!: bind_SomeD intro!: imm_frame_got intro: imm_frame_imm1 imm_frame_imm12
      split: if_splits)

lemma imm_frame_immv: "get_immv m i = Some i' \<Longrightarrow> no_imm i \<Longrightarrow> imm_frame m i i'"
  by (auto simp: get_immv_def imm_frame_refl dest!: bind_SomeD intro!: imm_frame_got intro: imm_frame_imm1 imm_frame_imm12
      split: if_splits)

lemma imm_frame_immv32: "get_immv32 m i = Some i' \<Longrightarrow> no_imm i \<Longrightarrow> imm_frame m i i'"
  by (auto simp: get_immv32_def imm_frame_refl intro: imm_frame_imm1 split: if_splits)

lemma imm_frame_immptr:
  assumes "get_immptr m i = Some i'" and "no_imm i"
  shows "imm_frame m i i'"
proof (cases "opnd_bytes i = 8")
  case True
  with assms show ?thesis by (simp add: get_immptr_def imm_frame_refl)
next
  case False
  with assms(1) obtain j bs k where j: "(if opnd_bytes i = 2 then get_imm1 m 2 i
        else if opnd_bytes i = 4 then get_imm1 m 4 i else Some i) = Some j"
      and k: "get_next m 2 j = Some (bs, k)" and i': "i' = both_got (k\<lparr>immediate2 := loaded (ucast (le_dec bs :: u16)) 2 (immediate2 k)\<rparr>)"
    by (auto simp: get_immptr_def dest!: bind_SomeD split del: if_split)
  have "imm_frame m i j" "immediate2 j = immediate2 i"
    using j assms(2) by (auto simp: imm_frame_refl get_imm1_SomeD(4) intro: imm_frame_imm1 split: if_splits)
  then obtain f g where f: "j = i\<lparr>immediate := f, immediate2 := g, next_byte := next_byte i + of_nat (taken f + taken g)\<rparr>"
      "taken f \<le> 4" "holds m (next_byte i) f" "g = no_field"
    using assms(2) by (elim imm_frameE) (simp add: no_imm_def)
  have "k = j\<lparr>next_byte := next_byte j + 2\<rparr>" using k by (auto simp: get_next_def dest!: bind_SomeD)
  with f have "imm_frame m i (k\<lparr>immediate2 := loaded (ucast (le_dec bs :: u16)) 2 (immediate2 k)\<rparr>)"
    by (simp add: imm_frame_def)
  then show ?thesis unfolding i' by (rule imm_frame_got)
qed

lemma imm_frame_by_size:
  assumes "imm_by_size m n i = Some i'" and "no_imm i"
  shows "imm_frame m i i'"
  using assms
  by (auto simp: imm_by_size_def imm_frame_refl dest!: bind_SomeD split: if_splits
      intro: imm_frame_imm1 imm_frame_imm12 imm_frame_immptr imm_frame_immv imm_frame_immv32)

definition decoded :: "code_mem \<Rightarrow> u64 \<Rightarrow> bool \<Rightarrow> nat \<Rightarrow> insn \<Rightarrow> bool" where
  "decoded m a x k i \<longleftrightarrow> displacement_done m a x k i \<and> taken (immediate i) \<le> 4 \<and> taken (immediate2 i) \<le> 4 \<and>
     holds m (a + of_nat (k + taken (rex_prefix i) + taken (vex_prefix i) + taken (opcode i) + taken (modrm i) +
       taken (sib i) + taken (displacement i))) (immediate i)"

lemma immediate_frame:
  assumes "insn_get_immediate m (insn_init a x) = Some i"
  shows "\<exists>i1. insn_get_displacement m (insn_init a x) = Some i1 \<and> imm_frame m i1 i"
proof -
  from assms obtain i1 where st: "insn_get_displacement m (insn_init a x) = Some i1"
    by (auto simp: insn_get_immediate_def dest!: bind_SomeD)
  obtain k where k: "displacement_done m a x k i1" "no_imm i1"
    using displacement_stage [OF st] by (auto simp: no_imm_def)
  have sane: "sane_attr (attr i1)" using k(1) by (simp add: displacement_done_def opcode_done_def)
  have "\<exists>i2. imm_frame m i1 i2 \<and> i = i2\<lparr>immediate := (immediate i2)\<lparr>got := True\<rparr>\<rparr>"
  proof (cases "inat_has_moffset (attr i1) \<or> \<not> inat_has_immediate (attr i1)")
    case True
    with assms st k(2) show ?thesis
      by (auto simp: insn_get_immediate_def dest!: bind_SomeD intro: imm_frame_moffset imm_frame_refl split: if_splits)
  next
    case False
    with assms st obtain j i2 where j: "imm_by_size m (inat_immediate_size (attr i1)) i1 = Some j"
        "(if inat_has_second_immediate (attr j) then get_imm2 m 1 j else Some j) = Some i2"
        "i = i2\<lparr>immediate := (immediate i2)\<lparr>got := True\<rparr>\<rparr>"
      by (auto simp: insn_get_immediate_def dest!: bind_SomeD split del: if_split)
    have f: "imm_frame m i1 j" by (rule imm_frame_by_size [OF j(1) k(2)])
    then have at: "attr j = attr i1" by (elim imm_frameE) simp
    show ?thesis
    proof (cases "inat_has_second_immediate (attr i1)")
      case True
      with sane j(1) have "get_imm1 m 2 i1 = Some j" by (simp add: sane_attr_def imm_by_size_def inat_numbers)
      with True j(2) at k(2) have "imm_frame m i1 i2" using imm_frame_imm12 [of m 2 i1 j 1 i2] by simp
      with j(3) show ?thesis by blast
    next
      case False
      with j(2,3) f at show ?thesis by auto
    qed
  qed
  with st show ?thesis using imm_frame_got(2) by blast
qed

lemma immediate_stage:
  assumes "insn_get_immediate m (insn_init a x) = Some i"
  shows "\<exists>k. decoded m a x k i"
proof -
  obtain i1 where st: "insn_get_displacement m (insn_init a x) = Some i1" and f: "imm_frame m i1 i"
    using immediate_frame [OF assms] by blast
  obtain k where k: "displacement_done m a x k i1" "no_imm i1"
    using displacement_stage [OF st] by (auto simp: no_imm_def)
  from f obtain f g where "i = i1\<lparr>immediate := f, immediate2 := g, next_byte := next_byte i1 + of_nat (taken f + taken g)\<rparr>"
      "taken f \<le> 4" "taken g \<le> 4" "holds m (next_byte i1) f"
    by (rule imm_frameE)
  then show ?thesis
    using k unfolding decoded_def displacement_done_def opcode_done_def placed_def no_imm_def body_def
    by (intro exI [of _ k]) (simp add: algebra_simps)
qed

section \<open>The length\<close>

text \<open>The run of legacy prefixes ends within \<open>n\<close> bytes.\<close>

definition starts_within :: "code_mem \<Rightarrow> u64 \<Rightarrow> nat \<Rightarrow> bool" where
  "starts_within m a n \<longleftrightarrow>
     (\<exists>j<n. \<exists>b. m (a + of_nat j) = Some b \<and> \<not> inat_is_legacy_prefix (inat_get_opcode_attribute b))"

lemma starts_withinD: "starts_within m a n \<Longrightarrow> \<forall>j<k. legacy_at m (a + of_nat j) \<Longrightarrow> k < n"
  unfolding starts_within_def legacy_at_def by (metis linorder_neqE_nat option.inject order_less_trans)

lemma ucast_of_nat_u8: "(ucast (of_nat n :: u64) :: byte) = of_nat n"
  by (simp add: unsigned_of_nat word_of_nat_eq_iff)

lemma body_le: "decoded m a x k i \<Longrightarrow> body i \<le> 21"
  by (auto simp: decoded_def displacement_done_def opcode_done_def placed_def body_def)

text \<open>Offsets are true offsets and the length is the number of bytes the fields took.\<close>

definition well_placed :: "code_mem \<Rightarrow> u64 \<Rightarrow> insn \<Rightarrow> bool" where
  "well_placed m a i \<longleftrightarrow>
     unat (insn_length i) = insn_offset_immediate i + taken (immediate i) + taken (immediate2 i) \<and>
     next_byte i = a + of_nat (unat (insn_length i)) \<and>
     m (a + of_nat (insn_offset_opcode i)) = Some (fld_bytes (opcode i) ! 0) \<and>
     holds m (a + of_nat (insn_offset_displacement i)) (displacement i) \<and>
     holds m (a + of_nat (insn_offset_immediate i)) (immediate i) \<and>
     0 < taken (opcode i) \<and> taken (displacement i) \<le> 4 \<and> taken (immediate i) \<le> 4"

lemma insn_get_length_SomeD:
  assumes "insn_get_length m (insn_init a x) = Some i" and "starts_within m a n" and "n \<le> 235"
  shows "well_placed m a i" and "kaddr i = a" and "unat (insn_length i) \<le> n + 20"
    and "insn_offset_rex_prefix i < n"
proof -
  from assms(1) obtain i1 where st: "insn_get_immediate m (insn_init a x) = Some i1"
      "i = i1\<lparr>insn_length := ucast (next_byte i1 - kaddr i1)\<rparr>"
    by (auto simp: insn_get_length_def dest!: bind_SomeD)
  obtain k where k: "decoded m a x k i1" using immediate_stage [OF st(1)] by blast
  have kn: "k < n" using starts_withinD [OF assms(2)] k
    by (auto simp: decoded_def displacement_done_def opcode_done_def placed_def)
  have b: "body i1 \<le> 21" by (rule body_le [OF k])
  have pre: "insn_offset_rex_prefix i1 = k"
    using k kn assms(3) unat_u8 [of k]
    by (simp add: decoded_def displacement_done_def opcode_done_def placed_def insn_offset_rex_prefix_def)
  have pos: "kaddr i1 = a" "next_byte i1 = a + of_nat (k + body i1)"
    using k by (simp_all add: decoded_def displacement_done_def opcode_done_def placed_def)
  have "insn_length i = of_nat (k + body i1)" by (simp add: st(2) pos del: of_nat_add) (simp only: ucast_of_nat_u8)
  then have len: "unat (insn_length i) = k + body i1" using kn b assms(3) unat_u8 [of "k + body i1"] by simp
  have offs: "insn_offset_vex_prefix i = k + taken (rex_prefix i1)"
      "insn_offset_opcode i = k + taken (rex_prefix i1) + taken (vex_prefix i1)"
      "insn_offset_displacement i = k + taken (rex_prefix i1) + taken (vex_prefix i1) + taken (opcode i1) +
        taken (modrm i1) + taken (sib i1)"
      "insn_offset_immediate i = k + taken (rex_prefix i1) + taken (vex_prefix i1) + taken (opcode i1) +
        taken (modrm i1) + taken (sib i1) + taken (displacement i1)"
    using pre by (simp_all add: st(2) insn_offset_vex_prefix_def insn_offset_opcode_def insn_offset_modrm_def
        insn_offset_sib_def insn_offset_displacement_def insn_offset_immediate_def insn_offset_rex_prefix_def taken_def)
  show "well_placed m a i"
    unfolding well_placed_def offs len
    using k pos by (auto simp: st(2) decoded_def displacement_done_def opcode_done_def body_def)
  show "kaddr i = a" using pos by (simp add: st(2))
  show "unat (insn_length i) \<le> n + 20" using len b kn by simp
  show "insn_offset_rex_prefix i < n" using pre kn by (simp add: st(2) insn_offset_rex_prefix_def)
qed

end
