(* ===== verification/InsnTotal.thy ===== *)
theory InsnTotal
  imports InsnProps
begin

text \<open>
  The decoder always ends: when the run of legacy prefixes ends and the bytes behind it are
  mapped, every stage finds what it reads. A memory of nothing but prefixes keeps it busy for
  ever.
\<close>

section \<open>Termination\<close>

text \<open>Room to decode: the prefixes end within \<open>n\<close> bytes and 21 more bytes are mapped.\<close>

definition room :: "code_mem \<Rightarrow> u64 \<Rightarrow> nat \<Rightarrow> bool" where
  "room m a n \<longleftrightarrow> mapped m a (n + 21) \<and> starts_within m a n"

lemma room_mapped:
  assumes "room m a n" and "\<forall>j<k. legacy_at m (a + of_nat j)" and "b + c \<le> 22"
  shows "mapped m (a + of_nat (k + b)) c"
proof -
  have "k < n" using assms(1,2) starts_withinD unfolding room_def by blast
  with assms have "mapped m a (k + b + c)" by (auto simp: room_def intro: mapped_mono [of m a "n + 21"])
  then show ?thesis by (rule mapped_shift)
qed

lemma prefix_scan_total:
  assumes "m (next_byte i + of_nat j) = Some b" and "\<not> inat_is_legacy_prefix (inat_get_opcode_attribute b)"
    and "mapped m (next_byte i) (Suc j)"
  shows "\<exists>r. prefix_scan m nb lb i = Some r"
  using assms
proof (induction j arbitrary: i nb lb)
  case 0
  then show ?case by (subst prefix_scan.simps) (simp add: prefix_step_def)
next
  case (Suc j)
  obtain c where c: "m (next_byte i) = Some c" using mapped_0 [OF Suc.prems(3)] by auto
  show ?case
  proof (cases "prefix_step c nb i")
    case None
    with c show ?thesis by (subst prefix_scan.simps) simp
  next
    case (Some p)
    obtain nb' i' where p: "p = (nb', i')" by (cases p)
    have next_pos: "next_byte (next_prefix i') = next_byte i + 1"
      using prefix_step_SomeD(3) Some p by (simp add: next_prefix_def)
    have "m (next_byte (next_prefix i') + of_nat j) = Some b"
      using Suc.prems(1) by (simp add: next_pos algebra_simps)
    moreover have "mapped m (next_byte (next_prefix i')) (Suc j)"
      using mapped_shift [of m "next_byte i" 1 "Suc j"] Suc.prems(3) by (simp add: next_pos)
    ultimately obtain r where "prefix_scan m nb' c (next_prefix i') = Some r"
      using Suc.IH Suc.prems(2) by blast
    with c Some p have "prefix_scan m nb lb i = Some r" by (subst prefix_scan.simps) simp
    then show ?thesis by blast
  qed
qed

lemma get_rex_total: "mapped m (next_byte i) 1 \<Longrightarrow> \<exists>i'. get_rex m i = Some i'"
  using mapped_0 [of m "next_byte i" 1] by (auto simp: get_rex_def Let_def)

lemma get_vex_total:
  assumes "mapped m (next_byte i) 3"
  shows "\<exists>i'. get_vex m i = Some i'"
proof -
  obtain b0 b1 b2 where "m (next_byte i) = Some b0" "m (next_byte i + 1) = Some b1" "m (next_byte i + 2) = Some b2"
    using mappedD [OF assms, of 0] mappedD [OF assms, of 1] mappedD [OF assms, of 2] by auto
  then show ?thesis by (auto simp: get_vex_def Let_def)
qed

lemma prefixes_total:
  assumes "room m a n"
  shows "\<exists>i. insn_get_prefixes m (insn_init a x) = Some i"
proof -
  let ?i0 = "insn_init a x"
  have init: "next_byte ?i0 = a" "rex_prefix ?i0 = no_field" "vex_prefix ?i0 = no_field" by (simp_all add: insn_init_def)
  from assms obtain j b where j: "j < n" "m (a + of_nat j) = Some b" "\<not> inat_is_legacy_prefix (inat_get_opcode_attribute b)"
    by (auto simp: room_def starts_within_def)
  have "mapped m a (Suc j)" using assms j(1) by (auto simp: room_def intro: mapped_mono [of m a "n + 21"])
  then obtain nb lb i1 where st: "prefix_scan m 0 0 ?i0 = Some (nb, lb, i1)"
    using prefix_scan_total [of m ?i0 j b 0 0] j init by auto
  obtain k where k: "scanned m k ?i0 i1" using prefix_scan_SomeD [OF st] by blast
  let ?j = "set_last_prefix nb lb i1"
  have leg: "\<forall>j<k. legacy_at m (a + of_nat j)" and pos: "next_byte ?j = a + of_nat k"
    using k set_last_prefix_frame(2) by (auto simp: scanned_def init)
  have fr: "rex_prefix ?j = no_field" "vex_prefix ?j = no_field"
    using k by (auto simp: scanned_def init set_last_prefix_keeps elim!: prefix_frameE)
  obtain i2 where i2: "get_rex m ?j = Some i2"
    using get_rex_total [of m ?j] room_mapped [OF assms leg, of 0 1] pos by auto
  have r: "nbytes (rex_prefix ?j) = 0" using fr by simp
  have "next_byte i2 = next_byte ?j + of_nat (taken (rex_prefix i2))" by (subst get_rex_SomeD(1) [OF i2 r]) simp
  then have p2: "next_byte i2 = a + of_nat (k + taken (rex_prefix i2))" "taken (rex_prefix i2) \<le> 1"
    using get_rex_SomeD(2) [OF i2 r] pos by simp_all
  obtain i3 where "get_vex m i2 = Some i3"
    using get_vex_total [of m i2] room_mapped [OF assms leg, of "taken (rex_prefix i2)" 3] p2 by auto
  with st i2 show ?thesis by (simp add: insn_get_prefixes_def Let_def)
qed

text \<open>The later stages: each finds the bytes it asks for.\<close>

lemma placed_mapped:
  "room m a n \<Longrightarrow> placed m a x k i \<Longrightarrow> body i + c \<le> 22 \<Longrightarrow> mapped m (next_byte i) c"
  using room_mapped [of m a n k "body i" c] by (simp add: placed_def)

lemma escape_total:
  assumes "mapped m (next_byte i) 2" and "inat_escape_id (attr i) \<le> 1" and "nbytes (opcode i) = 1"
  shows "\<exists>i'. escape_scan m i = Some i'"
proof (cases "inat_escape_id (attr i) = 0")
  case True
  then show ?thesis using escape_scan_done by blast
next
  case False
  with assms(2) have id: "inat_escape_id (attr i) = 1" by simp
  obtain b0 b1 where b: "m (next_byte i) = Some b0" "m (next_byte i + 1) = Some b1"
    using mappedD [OF assms(1), of 0] mappedD [OF assms(1), of 1] by auto
  let ?j = "escaped b0 i"
  have j: "inat_escape_id (attr ?j) \<noteq> 1" "nbytes (opcode ?j) = 2" "next_byte ?j = next_byte i + 1"
    using escaped_attr [of i b0] id assms(3) by (auto simp: escape_ok_def escaped_def split: if_splits)
  have one: "escape_scan m i = escape_scan m ?j" using False b(1) assms(3) by (simp add: escape_scan_more)
  show ?thesis
  proof (cases "inat_escape_id (attr ?j) = 0")
    case True
    then show ?thesis using one escape_scan_done by simp
  next
    case False
    have "inat_escape_id (attr (escaped b1 ?j)) = 0"
      using escaped_attr [of ?j b1] j(1) False by (simp add: escape_ok_def split: if_splits)
    then have "escape_scan m ?j = Some (escaped b1 ?j)"
      using False b(2) j(2,3) escape_scan_done by (simp add: escape_scan_more)
    with one show ?thesis by simp
  qed
qed

lemma opcode_total:
  assumes "room m a n"
  shows "\<exists>i. insn_get_opcode m (insn_init a x) = Some i"
proof -
  obtain i where i: "insn_get_prefixes m (insn_init a x) = Some i" using prefixes_total [OF assms] by blast
  obtain k where k: "placed m a x k i" "fresh_operands i" using placed_prefixes [OF i] by blast
  have "body i + 3 \<le> 22" using k by (auto simp: placed_def body_def fresh_operands_def)
  then have mp: "mapped m (next_byte i) (1 + 2)" by (intro placed_mapped [OF assms k(1)]) simp
  obtain op where op: "m (next_byte i) = Some op" using mapped_0 [OF mp] by auto
  let ?j = "i\<lparr>next_byte := next_byte i + 1, opcode := (opcode i)\<lparr>fld_bytes := (fld_bytes (opcode i))[0 := op], nbytes := 1\<rparr>\<rparr>"
  have "\<exists>i'. escape_scan m (?j\<lparr>attr := inat_get_opcode_attribute op\<rparr>) = Some i'"
    using mapped_shift [OF mp] opcode_attribute_ok [of op] by (intro escape_total) (simp_all add: primary_ok_def)
  then have "\<exists>i'. opcode_attribute m op ?j = Some i'"
    by (auto simp: opcode_attribute_def Let_def)
  with i op show ?thesis by (auto simp: insn_get_opcode_def get_byte_def set_byte_def)
qed

lemma modrm_total:
  assumes "room m a n"
  shows "\<exists>i. insn_get_modrm m (insn_init a x) = Some i"
proof -
  obtain i where i: "insn_get_opcode m (insn_init a x) = Some i" using opcode_total [OF assms] by blast
  obtain k where k: "opcode_done m a x k i" "modrm i = no_field" "sib i = no_field" "displacement i = no_field"
      "immediate i = no_field" "immediate2 i = no_field" using opcode_stage [OF i] by blast
  then have "body i + 1 \<le> 22" "placed m a x k i" by (auto simp: opcode_done_def placed_def body_def)
  from mapped_0 [OF placed_mapped [OF assms this(2,1)]] obtain b where "m (next_byte i) = Some b" by auto
  with i show ?thesis by (auto simp: insn_get_modrm_def get_byte_def Let_def)
qed

lemma sib_total:
  assumes "room m a n"
  shows "\<exists>i. insn_get_sib m (insn_init a x) = Some i"
proof -
  obtain i where i: "insn_get_modrm m (insn_init a x) = Some i" using modrm_total [OF assms] by blast
  obtain k where k: "opcode_done m a x k i" "taken (modrm i) \<le> 1" "sib i = no_field" "displacement i = no_field"
      "immediate i = no_field" "immediate2 i = no_field" using modrm_stage [OF i] by blast
  then have "body i + 1 \<le> 22" "placed m a x k i" by (auto simp: opcode_done_def placed_def body_def)
  from mapped_0 [OF placed_mapped [OF assms this(2,1)]] obtain b where "m (next_byte i) = Some b" by auto
  with i show ?thesis by (auto simp: insn_get_sib_def get_byte_def Let_def)
qed

lemma displacement_total:
  assumes "room m a n"
  shows "\<exists>i. insn_get_displacement m (insn_init a x) = Some i"
proof -
  obtain i where i: "insn_get_sib m (insn_init a x) = Some i" using sib_total [OF assms] by blast
  obtain k where k: "opcode_done m a x k i" "taken (modrm i) \<le> 1" "taken (sib i) \<le> 1" "displacement i = no_field"
      "immediate i = no_field" "immediate2 i = no_field" using sib_stage [OF i] by blast
  then have "body i + displacement_bytes i \<le> 22" "placed m a x k i"
    using displacement_bytes_le [of i] by (auto simp: opcode_done_def placed_def body_def)
  from get_value_mapped [OF placed_mapped [OF assms this(2,1)]] i show ?thesis
    by (auto simp: insn_get_displacement_def Let_def)
qed

lemma get_imm1_total: "mapped m (next_byte i) n \<Longrightarrow> \<exists>j. get_imm1 m n i = Some j"
  using get_value_mapped [of m i n] by (auto simp: get_imm1_def)

lemma get_imm2_total: "mapped m (next_byte i) n \<Longrightarrow> \<exists>j. get_imm2 m n i = Some j"
  using get_value_mapped [of m i n] by (auto simp: get_imm2_def)

lemma get_imm12_total:
  assumes "mapped m (next_byte i) (n + l)" and "n < 256"
  shows "\<exists>j k. get_imm1 m n i = Some j \<and> get_imm2 m l j = Some k"
proof -
  obtain j where j: "get_imm1 m n i = Some j" using get_imm1_total [OF mapped_mono [OF assms(1), of n]] by auto
  have "mapped m (next_byte j) l" using mapped_shift [OF assms(1)] get_imm1_SomeD(5) [OF j assms(2)] by simp
  with j get_imm2_total show ?thesis by blast
qed

lemma imm_by_size_total:
  assumes "mapped m (next_byte i) 8"
  shows "\<exists>j. imm_by_size m n i = Some j"
proof -
  have le: "mapped m (next_byte i) k" if "k \<le> 8" for k using mapped_mono [OF assms that] .
  have one: "\<exists>j. get_imm1 m k i = Some j" if "k \<le> 8" for k using get_imm1_total [OF le [OF that]] .
  have two: "\<exists>j l. get_imm1 m 4 i = Some j \<and> get_imm2 m 4 j = Some l" using get_imm12_total [of m i 4 4] le by simp
  have seg: "\<exists>bs l. get_next m 2 j = Some (bs, l)" if "get_imm1 m k i = Some j" "k \<le> 4" for j k
  proof -
    have "mapped m (next_byte j) 2"
      using get_imm1_SomeD(5) [OF that(1)] that(2) mapped_shift [of m "next_byte i" k 2] le [of "k + 2"] by simp
    then show ?thesis using read_bytes_mapped by (fastforce simp: get_next_def)
  qed
  have self: "\<exists>bs l. get_next m 2 i = Some (bs, l)"
    using read_bytes_mapped [OF le [of 2]] by (auto simp: get_next_def)
  have ptr: "\<exists>j. get_immptr m i = Some j"
    using one [of 2] one [of 4] seg [of 2] seg [of 4] self by (fastforce simp: get_immptr_def)
  show ?thesis
    using one [of 1] one [of 2] one [of 4] two ptr
    by (auto simp: imm_by_size_def get_immv_def get_immv32_def)
qed

lemma immediate_total:
  assumes "room m a n"
  shows "\<exists>i. insn_get_immediate m (insn_init a x) = Some i"
proof -
  obtain i where i: "insn_get_displacement m (insn_init a x) = Some i" using displacement_total [OF assms] by blast
  obtain k where k: "displacement_done m a x k i" "no_imm i" using displacement_stage [OF i] by (auto simp: no_imm_def)
  then have "body i + 8 \<le> 22" "placed m a x k i" "sane_attr (attr i)"
    by (auto simp: displacement_done_def opcode_done_def placed_def body_def no_imm_def)
  note mp = placed_mapped [OF assms this(2,1)] and sane = this(3)
  have off: "\<exists>j. get_moffset m i = Some j"
    using get_imm12_total [of m i 4 4] get_imm1_total [OF mapped_mono [OF mp, of 2]]
      get_imm1_total [OF mapped_mono [OF mp, of 4]] mp by (auto simp: get_moffset_def)
  obtain j where j: "imm_by_size m (inat_immediate_size (attr i)) i = Some j" using imm_by_size_total [OF mp] by blast
  have at: "attr j = attr i" using imm_frame_by_size [OF j k(2)] by (elim imm_frameE) simp
  have "\<exists>l. get_imm2 m 1 j = Some l" if "inat_has_second_immediate (attr i)"
  proof -
    from that sane j have "get_imm1 m 2 i = Some j" by (simp add: sane_attr_def imm_by_size_def inat_numbers)
    with get_imm12_total [of m i 2 1] mapped_mono [OF mp, of 3] show ?thesis by simp
  qed
  with i off j at show ?thesis by (auto simp: insn_get_immediate_def)
qed

lemma length_total:
  assumes "room m a n"
  shows "\<exists>i. insn_get_length m (insn_init a x) = Some i"
  using immediate_total [OF assms, of x] by (auto simp: insn_get_length_def)

section \<open>A memory of prefixes\<close>

text \<open>The scan only stops at a byte that is no prefix, or at a fifth distinct prefix.\<close>

lemma prefix_scan_same:
  assumes "prefix_scan m nb lb i = Some r" and "\<forall>a. m a = Some b" and "inat_is_legacy_prefix (inat_get_opcode_attribute b)"
    and "nb = 0 \<or> nb = 1 \<and> b \<in> set (take 1 (fld_bytes (insn_prefixes i)))" and "length (fld_bytes (insn_prefixes i)) = 4"
  shows False
proof -
  have step: "\<exists>i'. prefix_step b nb i = Some (1, i') \<and> b \<in> set (take 1 (fld_bytes (insn_prefixes i'))) \<and>
      length (fld_bytes (insn_prefixes i')) = 4"
    if "nb = 0 \<or> nb = 1 \<and> b \<in> set (take 1 (fld_bytes (insn_prefixes i)))" "length (fld_bytes (insn_prefixes i)) = 4" for nb i
    using that assms(3) by (auto simp: prefix_step_def Let_def length_Suc_conv numeral_eq_Suc)
  have "(nb = 0 \<or> nb = 1 \<and> b \<in> set (take 1 (fld_bytes (insn_prefixes i)))) \<longrightarrow>
    length (fld_bytes (insn_prefixes i)) = 4 \<longrightarrow> (\<forall>a. m a = Some b) \<longrightarrow> False"
  proof (rule prefix_scan.raw_induct [where P = "\<lambda>m nb lb i r. (nb = 0 \<or> nb = 1 \<and> b \<in> set (take 1 (fld_bytes (insn_prefixes i)))) \<longrightarrow>
        length (fld_bytes (insn_prefixes i)) = 4 \<longrightarrow> (\<forall>a. m a = Some b) \<longrightarrow> False", OF _ assms(1)], intro impI)
    fix f m nb lb i r
    assume IH: "\<And>m nb lb i r. f m nb lb i = Some r \<Longrightarrow>
        (nb = 0 \<or> nb = 1 \<and> b \<in> set (take 1 (fld_bytes (insn_prefixes i)))) \<longrightarrow>
        length (fld_bytes (insn_prefixes i)) = 4 \<longrightarrow> (\<forall>a. m a = Some b) \<longrightarrow> False"
      and eq: "do { b \<leftarrow> m (next_byte i);
          case prefix_step b nb i of None \<Rightarrow> Some (nb, lb, i) | Some (nb', i') \<Rightarrow> f m nb' b (next_prefix i') } = Some r"
      and nb: "nb = 0 \<or> nb = 1 \<and> b \<in> set (take 1 (fld_bytes (insn_prefixes i)))"
      and len: "length (fld_bytes (insn_prefixes i)) = 4" and all: "\<forall>a. m a = Some b"
    from step [OF nb len] obtain i' where i': "prefix_step b nb i = Some (1, i')"
        "b \<in> set (take 1 (fld_bytes (insn_prefixes i')))" "length (fld_bytes (insn_prefixes i')) = 4" by blast
    with eq all have "f m 1 b (next_prefix i') = Some r" by simp
    from IH [OF this] i'(2,3) all show False by (simp add: next_prefix_def)
  qed
  then show False using assms(2,4,5) by blast
qed

lemma no_length_in_prefixes:
  assumes "\<forall>a. m a = Some b" and "inat_is_legacy_prefix (inat_get_opcode_attribute b)"
  shows "insn_get_length m (insn_init a x) = None"
proof (rule ccontr)
  assume "insn_get_length m (insn_init a x) \<noteq> None"
  then obtain i where "insn_get_prefixes m (insn_init a x) = Some i"
    by (auto simp: insn_get_length_def insn_get_immediate_def insn_get_displacement_def insn_get_sib_def insn_get_modrm_def
        insn_get_opcode_def dest!: bind_SomeD)
  then obtain r where "prefix_scan m 0 0 (insn_init a x) = Some r"
    by (auto simp: insn_get_prefixes_def dest!: bind_SomeD)
  from prefix_scan_same [OF this assms] show False by (simp add: no_field_def)
qed

end
