(* ===== verification/Hijacks.thy ===== *)
theory Hijacks
  imports Symbols InsnTotal
begin

text \<open>
  \<open>hijacks.c\<close> on a 64-bit kernel, and the table of hooks of \<open>hookvfs.c\<close>: a function is copied
  instruction by instruction into memory of the module, with the operands that are relative to
  the instruction pointer adjusted, and its first five bytes are replaced by a jump.
\<close>

definition OP_JMP_REL32 :: byte where "OP_JMP_REL32 = 0xE9"
definition OP_CALL_REL32 :: byte where "OP_CALL_REL32 = 0xE8"
definition OP_JMP_SIZE :: nat where "OP_JMP_SIZE = 5"

section \<open>Relative operands\<close>

definition CODE_ADDR_FROM_OFFSET :: "u64 \<Rightarrow> u64 \<Rightarrow> u32 \<Rightarrow> u64" where
  "CODE_ADDR_FROM_OFFSET insn_addr insn_len off = insn_addr + insn_len + scast off"

definition CODE_OFFSET_FROM_ADDR :: "u64 \<Rightarrow> u64 \<Rightarrow> u64 \<Rightarrow> u32" where
  "CODE_OFFSET_FROM_ADDR insn_addr insn_len dest_addr = ucast (dest_addr - (insn_addr + insn_len))"

definition in_function :: "kernsym \<Rightarrow> u64 \<Rightarrow> bool" where
  "in_function func a \<longleftrightarrow> sym_addr func \<le> a \<and> a < sym_addr func + sym_size func"

definition is_rel32 :: "insn \<Rightarrow> bool" where
  "is_rel32 i \<longleftrightarrow> fld_bytes (opcode i) ! 0 = OP_CALL_REL32 \<or> fld_bytes (opcode i) ! 0 = OP_JMP_REL32"

text \<open>\<open>BUG_ON\<close> an instruction of length 0. Targets inside the function are left as they are.\<close>

definition copy_and_fixup_insn ::
  "text_env \<Rightarrow> insn \<Rightarrow> u64 \<Rightarrow> kernsym \<Rightarrow> text_state \<Rightarrow> text_state option" where
  "copy_and_fixup_insn E src_insn dest func s =
     (if insn_length src_insn = 0 then None
      else do {
        code \<leftarrow> read_bytes (ktext s) (kaddr src_insn) (unat (insn_length src_insn));
        s \<leftarrow> write_bytes E dest code s;
        let len = ucast (insn_length src_insn);
        if is_rel32 src_insn
        then let target = CODE_ADDR_FROM_OFFSET (kaddr src_insn) len (fld_value (immediate src_insn))
             in if in_function func target then Some s
                else write_bytes E (dest + of_nat (insn_offset_immediate src_insn))
                       (le_enc 4 (CODE_OFFSET_FROM_ADDR dest len target)) s
        else do {
          (rel, src_insn) \<leftarrow> insn_rip_relative (ktext s) src_insn;
          if \<not> rel then Some s
          else let target = CODE_ADDR_FROM_OFFSET (kaddr src_insn) len (fld_value (displacement src_insn))
               in if in_function func target then Some s
                  else write_bytes E (dest + of_nat (insn_offset_displacement src_insn))
                         (le_enc 4 (CODE_OFFSET_FROM_ADDR dest len target)) s } })"

section \<open>Write protection\<close>

text \<open>The flag says whether the page was read-only before. An address without an entry faults.\<close>

definition set_addr_rw :: "text_env \<Rightarrow> u64 \<Rightarrow> text_state \<Rightarrow> (bool \<times> text_state) option" where
  "set_addr_rw E a s =
     do { p \<leftarrow> t_pte E a;
          Some (if writable s p then (False, s) else (True, s\<lparr>writable := (writable s)(p := True)\<rparr>)) }"

definition set_addr_ro :: "text_env \<Rightarrow> u64 \<Rightarrow> bool \<Rightarrow> text_state \<Rightarrow> text_state option" where
  "set_addr_ro E a flag s =
     (if flag then do { p \<leftarrow> t_pte E a; Some (s\<lparr>writable := (writable s)(p := False)\<rparr>) } else Some s)"

section \<open>Copying a function\<close>

text \<open>
  Both loops step through addresses, so nothing in the code bounds them: a loop that does not
  end is \<open>None\<close>. The result of the copy is \<open>Inl\<close> of an error or the address behind the copy.
\<close>

partial_function (option) skip_zeros :: "code_mem \<Rightarrow> u64 \<Rightarrow> u64 \<Rightarrow> u64 option" where
  "skip_zeros m orig_addr end =
     (if orig_addr < end
      then do { b \<leftarrow> m (end - 1); if b = 0 then skip_zeros m orig_addr (end - 1) else Some end }
      else Some end)"

partial_function (option) copy_insns ::
  "text_env \<Rightarrow> kernsym \<Rightarrow> u64 \<Rightarrow> u64 \<Rightarrow> u64 \<Rightarrow> text_state \<Rightarrow> ((int + u64) \<times> text_state) option" where
  "copy_insns E func orig_addr end dest_addr s =
     (if orig_addr < end
      then do { insn \<leftarrow> insn_get_length (ktext s) (insn_init orig_addr True);
                if insn_length insn = 0 then Some (Inl (- EILSEQ), s)
                else do { s \<leftarrow> copy_and_fixup_insn E insn dest_addr func s;
                          copy_insns E func (orig_addr + ucast (insn_length insn)) end
                            (dest_addr + ucast (insn_length insn)) s } }
      else Some (Inr dest_addr, s))"

declare skip_zeros.simps [code] copy_insns.simps [code]

section \<open>Hijacking\<close>

text \<open>The jump to \<open>code\<close> that replaces the first bytes of a function at \<open>a\<close>.\<close>

definition jump_to :: "u64 \<Rightarrow> u64 \<Rightarrow> byte list" where
  "jump_to a code = OP_JMP_REL32 # le_enc 4 (CODE_OFFSET_FROM_ADDR a (of_nat OP_JMP_SIZE) code)"

definition out_error :: "int \<Rightarrow> kernsym \<Rightarrow> text_state \<Rightarrow> ((int \<times> kernsym) \<times> text_state) option" where
  "out_error ret ks s = do { s \<leftarrow> malloc_free (new_addr ks) s; Some ((ret, ks), s) }"

text \<open>Unprotect, keep the first bytes, put the jump, protect again.\<close>

definition put_jump :: "text_env \<Rightarrow> kernsym \<Rightarrow> u64 \<Rightarrow> text_state \<Rightarrow> ((int \<times> kernsym) \<times> text_state) option" where
  "put_jump E ks code s =
     do { (pte_ro, s) \<leftarrow> set_addr_rw E (sym_addr ks) s;
          start \<leftarrow> read_bytes (ktext s) (sym_addr ks) OP_JMP_SIZE;
          let ks = ks\<lparr>orig_start_bytes := start\<rparr>;
          s \<leftarrow> write_bytes E (sym_addr ks) (jump_to (sym_addr ks) code) s;
          s \<leftarrow> set_addr_ro E (sym_addr ks) pte_ro s;
          Some ((0, ks\<lparr>hijacked := True\<rparr>), s) }"

text \<open>The search for the symbol is an argument: it differs between kernel versions.\<close>

definition hijack_found :: "text_env \<Rightarrow> kernsym \<Rightarrow> u64 \<Rightarrow> text_state \<Rightarrow> ((int \<times> kernsym) \<times> text_state) option" where
  "hijack_found E ks code s =
     do { first \<leftarrow> ktext s (sym_addr ks);
          if first = OP_JMP_REL32 then Some ((- EFAULT, ks), s)
          else
            case malloc E (sym_size ks) s of
              (None, s) \<Rightarrow> Some ((- ENOMEM, ks\<lparr>new_addr := 0\<rparr>), s)
            | (Some p, s) \<Rightarrow>
                do { let ks = ks\<lparr>new_addr := p\<rparr>;
                     s \<leftarrow> write_bytes E p (replicate (unat (sym_size ks)) 0) s;
                     if unat (sym_size ks) < OP_JMP_SIZE then out_error (- EFAULT) ks s
                     else do {
                       end \<leftarrow> skip_zeros (ktext s) (sym_addr ks) (sym_addr ks + sym_size ks);
                       if sym_addr ks = end then out_error (- EILSEQ) ks s
                       else do {
                         (r, s) \<leftarrow> copy_insns E ks (sym_addr ks) end p s;
                         case r of
                           Inl ret \<Rightarrow> out_error ret ks s
                         | Inr dest_addr \<Rightarrow> put_jump E (ks\<lparr>new_size := dest_addr - p, run_addr := p\<rparr>) code s } } } }"

definition symbol_hijack ::
  "text_env \<Rightarrow> kernsym \<Rightarrow> byte list \<Rightarrow> u64 \<Rightarrow> text_state \<Rightarrow> ((int \<times> kernsym) \<times> text_state) option" where
  "symbol_hijack E ks symbol_name code s =
     (let (ret, ks) = find_symbol_address E ks symbol_name
      in if ret < 0 then Some ((ret, ks), s) else hijack_found E ks code s)"

definition symbol_restore :: "text_env \<Rightarrow> kernsym \<Rightarrow> text_state \<Rightarrow> (kernsym \<times> text_state) option" where
  "symbol_restore E ks s =
     do { (ks, s) \<leftarrow>
            (if hijacked ks
             then do { (pte_ro, s) \<leftarrow> set_addr_rw E (sym_addr ks) s;
                       s \<leftarrow> write_bytes E (sym_addr ks) (orig_start_bytes ks) s;
                       s \<leftarrow> set_addr_ro E (sym_addr ks) pte_ro s;
                       s \<leftarrow> malloc_free (new_addr ks) s;
                       Some (ks\<lparr>hijacked := False\<rparr>, s) }
             else Some (ks, s));
          if name_alloc ks
          then do { s \<leftarrow> malloc_free (name_ptr ks) s; Some (ks\<lparr>name_alloc := False\<rparr>, s) }
          else Some (ks, s) }"

section \<open>All hooks\<close>

definition security2hook :: "byte list list" where
  "security2hook = map bytes [''vfs_write'', ''vfs_mkdir'', ''vfs_rmdir'', ''vfs_rename'', ''vfs_unlink'',
     ''vfs_symlink'', ''vfs_link'', ''vfs_create'']"

text \<open>A hook that cannot be installed is reported and skipped. \<open>hook\<close>: the addresses of the hooks.\<close>

fun hijack_each ::
  "text_env \<Rightarrow> (byte list \<Rightarrow> u64) \<Rightarrow> byte list list \<Rightarrow> (byte list \<Rightarrow> kernsym) \<Rightarrow> text_state \<Rightarrow>
   ((byte list \<Rightarrow> kernsym) \<times> text_state) option" where
  "hijack_each E hook [] syms s = Some (syms, s)"
| "hijack_each E hook (n # ns) syms s =
     do { ((ret, ks), s) \<leftarrow> symbol_hijack E (syms n) n (hook n) s; hijack_each E hook ns (syms(n := ks)) s }"

definition hijack_syscalls ::
  "text_env \<Rightarrow> (byte list \<Rightarrow> u64) \<Rightarrow> (byte list \<Rightarrow> kernsym) \<Rightarrow> text_state \<Rightarrow>
   ((byte list \<Rightarrow> kernsym) \<times> text_state) option" where
  "hijack_syscalls E hook syms s = hijack_each E hook security2hook syms s"

fun restore_each ::
  "text_env \<Rightarrow> byte list list \<Rightarrow> (byte list \<Rightarrow> kernsym) \<Rightarrow> text_state \<Rightarrow> ((byte list \<Rightarrow> kernsym) \<times> text_state) option" where
  "restore_each E [] syms s = Some (syms, s)"
| "restore_each E (n # ns) syms s =
     do { (ks, s) \<leftarrow> symbol_restore E (syms n) s; restore_each E ns (syms(n := ks)) s }"

definition undo_hijack_syscalls ::
  "text_env \<Rightarrow> (byte list \<Rightarrow> kernsym) \<Rightarrow> text_state \<Rightarrow> ((byte list \<Rightarrow> kernsym) \<times> text_state) option" where
  "undo_hijack_syscalls E syms s = restore_each E security2hook syms s"

end
