(* ===== verification/Operands.thy ===== *)
theory Operands
  imports Hijacks
begin

text \<open>
  The two kinds of operands that \<open>copy_and_fixup_insn\<close> adjusts, in 64-bit code: the immediate of
  a near call or jump and the displacement of an operand relative to the instruction pointer
  are always four bytes wide, so the four bytes it writes are exactly the operand.
\<close>

section \<open>What the stages keep\<close>

lemmas primary_attr = inat_get_opcode_attribute_def table_at_def inat_primary_table_def inat_makers inat_masks inat_numbers

lemma rel32_attr: "inat_get_opcode_attribute 0xE8 = 0xB000" "inat_get_opcode_attribute 0xE9 = 0xB000"
  by (simp_all add: primary_attr)
lemma rel32_tests: "inat_escape_id 0xB000 = 0" "\<not> inat_must_vex 0xB000" "\<not> inat_has_modrm 0xB000" "inat_is_force64 0xB000"
  "\<not> inat_has_moffset 0xB000" "inat_has_immediate 0xB000" "inat_immediate_size 0xB000 = INAT_IMM_VWORD32" "\<not> inat_has_second_immediate 0xB000"
  by (simp_all add: inat_tests inat_masks inat_numbers inat_offsets)

text \<open>The state a stage starts from in 64-bit code.\<close>

definition long_mode :: "insn \<Rightarrow> bool" where
  "long_mode i \<longleftrightarrow> x86_64 i \<and> (addr_bytes i = 4 \<or> addr_bytes i = 8)"

lemma long_mode_step: "prefix_step b nb i = Some (nb', i') \<Longrightarrow> long_mode i \<Longrightarrow> long_mode (next_prefix i')"
  by (auto simp: prefix_step_def Let_def long_mode_def next_prefix_def split: if_splits)

lemma long_mode_scan:
  assumes "prefix_scan m nb lb i = Some (nb', lb', i')" and "long_mode i"
  shows "long_mode i'"
proof -
  have "long_mode i \<longrightarrow> long_mode (snd (snd (nb', lb', i')))"
  proof (rule prefix_scan.raw_induct [where P = "\<lambda>m nb lb i r. long_mode i \<longrightarrow> long_mode (snd (snd r))", OF _ assms(1)], intro impI)
    fix f m nb lb i r
    assume IH: "\<And>m nb lb i r. f m nb lb i = Some r \<Longrightarrow> long_mode i \<longrightarrow> long_mode (snd (snd r))"
      and eq: "do { b \<leftarrow> m (next_byte i);
          case prefix_step b nb i of None \<Rightarrow> Some (nb, lb, i) | Some (nb', i') \<Rightarrow> f m nb' b (next_prefix i') } = Some r"
      and i: "long_mode i"
    from eq obtain b where b: "m (next_byte i) = Some b" by (auto dest!: bind_SomeD)
    show "long_mode (snd (snd r))"
    proof (cases "prefix_step b nb i")
      case None
      with eq b i show ?thesis by fastforce
    next
      case (Some p)
      obtain nb1 i1 where p: "p = (nb1, i1)" by (cases p)
      with eq b Some have "f m nb1 b (next_prefix i1) = Some r" by simp
      from IH [OF this] long_mode_step [of b nb i nb1 i1] Some p i show ?thesis by simp
    qed
  qed
  with assms(2) show ?thesis by simp
qed

lemma long_mode_prefixes:
  assumes "insn_get_prefixes m (insn_init a True) = Some i"
  shows "long_mode i"
proof -
  from assms obtain nb lb i1 i2 i3 where st: "prefix_scan m 0 0 (insn_init a True) = Some (nb, lb, i1)"
      "get_rex m (set_last_prefix nb lb i1) = Some i2" "get_vex m i2 = Some i3"
      "i = i3\<lparr>insn_prefixes := (insn_prefixes i3)\<lparr>got := True\<rparr>\<rparr>"
    by (auto simp: insn_get_prefixes_def Let_def dest!: bind_SomeD)
  have "long_mode (insn_init a True)" by (simp add: long_mode_def insn_init_def)
  with st(1) have "long_mode i1" by (rule long_mode_scan)
  then have "long_mode (set_last_prefix nb lb i1)" by (simp add: long_mode_def set_last_prefix_def Let_def)
  with st(2) have "long_mode i2" by (auto simp: get_rex_def Let_def long_mode_def dest!: bind_SomeD split: if_splits)
  with st(3) have "long_mode i3" by (auto simp: get_vex_def Let_def long_mode_def dest!: bind_SomeD split: if_splits)
  then show ?thesis by (simp add: st(4) long_mode_def)
qed

text \<open>The attribute of an opcode without escape and VEX is that of its first byte.\<close>

lemma opcode_attr:
  assumes "insn_get_opcode m (insn_init a True) = Some i"
  shows "long_mode i \<and> (\<not> insn_is_avx i \<longrightarrow> inat_escape_id (inat_get_opcode_attribute (fld_bytes (opcode i) ! 0)) = 0 \<longrightarrow>
    \<not> inat_must_vex (inat_get_opcode_attribute (fld_bytes (opcode i) ! 0)) \<longrightarrow>
    attr i = inat_get_opcode_attribute (fld_bytes (opcode i) ! 0))"
proof -
  from assms obtain i1 op i3 where st: "insn_get_prefixes m (insn_init a True) = Some i1" "m (next_byte i1) = Some op"
      "opcode_attribute m op (i1\<lparr>next_byte := next_byte i1 + 1, opcode := (opcode i1)\<lparr>fld_bytes := (fld_bytes (opcode i1))[0 := op], nbytes := 1\<rparr>\<rparr>) = Some i3"
      "i = i3\<lparr>opcode := (opcode i3)\<lparr>got := True\<rparr>\<rparr>"
    by (auto simp: insn_get_opcode_def insn_init_def get_byte_def set_byte_def dest!: bind_SomeD)
  let ?i2 = "i1\<lparr>next_byte := next_byte i1 + 1, opcode := (opcode i1)\<lparr>fld_bytes := (fld_bytes (opcode i1))[0 := op], nbytes := 1\<rparr>\<rparr>"
  have op0: "opcode i1 = no_field" using placed_prefixes [OF st(1)] by (auto simp: fresh_operands_def)
  have lm: "long_mode i1" by (rule long_mode_prefixes [OF st(1)])
  show ?thesis
  proof (cases "insn_is_avx ?i2")
    case True
    with st(3,4) lm show ?thesis by (auto simp: opcode_attribute_def Let_def insn_is_avx_def long_mode_def)
  next
    case False
    with st(3) obtain i4 where i4: "escape_scan m (?i2\<lparr>attr := inat_get_opcode_attribute op\<rparr>) = Some i4"
        "i3 = (if inat_must_vex (attr i4) then i4\<lparr>attr := 0\<rparr> else i4)"
      by (auto simp: opcode_attribute_def dest!: bind_SomeD)
    obtain d where d: "opcode_frame d (?i2\<lparr>attr := inat_get_opcode_attribute op\<rparr>) i4" "fld_bytes (opcode i4) ! 0 = op"
      using escape_scan_SomeD [OF i4(1)] opcode_attribute_ok [of op] by (auto simp: primary_ok_def op0 no_field_def)
    have "long_mode i4" using d(1) lm by (elim opcode_frameE) (simp add: long_mode_def)
    then have "long_mode i" by (simp add: st(4) i4(2) long_mode_def)
    moreover have "fld_bytes (opcode i) ! 0 = op" using d(2) by (simp add: st(4) i4(2))
    moreover have "attr i = inat_get_opcode_attribute op" if "inat_escape_id (inat_get_opcode_attribute op) = 0"
        "\<not> inat_must_vex (inat_get_opcode_attribute op)"
      using i4 that escape_scan_done [of "?i2\<lparr>attr := inat_get_opcode_attribute op\<rparr>" m] by (auto simp: st(4))
    ultimately show ?thesis by blast
  qed
qed
text \<open>What the operand stages keep of the opcode stage.\<close>

definition keeps_opcode :: "insn \<Rightarrow> insn \<Rightarrow> bool" where
  "keeps_opcode i i' \<longleftrightarrow> opcode i' = opcode i \<and> vex_prefix i' = vex_prefix i \<and> long_mode i' = long_mode i"

lemma modrm_SomeD:
  assumes "insn_get_modrm m (insn_init a x) = Some i"
  obtains i1 where "insn_get_opcode m (insn_init a x) = Some i1" "keeps_opcode i1 i"
    "got (modrm i)" "\<not> inat_has_modrm (attr i1) \<longrightarrow> nbytes (modrm i) = 0 \<and> attr i = attr i1 \<and>
       (x86_64 i1 \<and> inat_is_force64 (attr i1) \<longrightarrow> opnd_bytes i = 8)"
proof -
  from assms obtain i1 where st: "insn_get_opcode m (insn_init a x) = Some i1"
    by (auto simp: insn_get_modrm_def dest!: bind_SomeD)
  have "modrm i1 = no_field" using opcode_stage [OF st] by blast
  with assms st that [OF st] show ?thesis
    by (auto simp: insn_get_modrm_def get_byte_def Let_def keeps_opcode_def long_mode_def dest!: bind_SomeD split: if_splits)
qed

lemma sib_SomeD:
  assumes "insn_get_sib m (insn_init a x) = Some i"
  obtains i1 where "insn_get_modrm m (insn_init a x) = Some i1" "keeps_opcode i1 i"
    "modrm i = modrm i1" "attr i = attr i1" "opnd_bytes i = opnd_bytes i1"
proof -
  from assms obtain i1 where st: "insn_get_modrm m (insn_init a x) = Some i1"
    by (auto simp: insn_get_sib_def dest!: bind_SomeD)
  have "sib i1 = no_field" using modrm_stage [OF st] by blast
  with assms st that [OF st] show ?thesis
    by (auto simp: insn_get_sib_def get_byte_def Let_def keeps_opcode_def long_mode_def dest!: bind_SomeD split: if_splits)
qed

lemma displacement_SomeD:
  assumes "insn_get_displacement m (insn_init a x) = Some i"
  obtains i1 where "insn_get_sib m (insn_init a x) = Some i1" "keeps_opcode i1 i"
    "modrm i = modrm i1" "attr i = attr i1" "opnd_bytes i = opnd_bytes i1" "taken (displacement i) = displacement_bytes i1"
proof -
  from assms obtain i1 where st: "insn_get_sib m (insn_init a x) = Some i1"
    by (auto simp: insn_get_displacement_def dest!: bind_SomeD)
  have "displacement i1 = no_field" "displacement_bytes i1 < 256"
    using sib_stage [OF st] displacement_bytes_le [of i1] by auto
  with assms st that [OF st] show ?thesis
    by (auto simp: insn_get_displacement_def Let_def keeps_opcode_def long_mode_def dest!: bind_SomeD get_value_SomeD
        split: if_splits)
qed

lemma length_SomeD:
  assumes "insn_get_length m (insn_init a x) = Some i"
  obtains i1 where "insn_get_displacement m (insn_init a x) = Some i1" "keeps_opcode i1 i"
    "modrm i = modrm i1" "displacement i = displacement i1"
    "\<not> inat_has_moffset (attr i1) \<longrightarrow> inat_has_immediate (attr i1) \<longrightarrow> inat_immediate_size (attr i1) = INAT_IMM_VWORD32 \<longrightarrow>
     \<not> inat_has_second_immediate (attr i1) \<longrightarrow> opnd_bytes i1 = 8 \<longrightarrow> taken (immediate i) = 4 \<and> taken (immediate2 i) = 0"
proof -
  from assms obtain i2 where st: "insn_get_immediate m (insn_init a x) = Some i2"
      "i = i2\<lparr>insn_length := ucast (next_byte i2 - kaddr i2)\<rparr>"
    by (auto simp: insn_get_length_def dest!: bind_SomeD)
  obtain i1 where i1: "insn_get_displacement m (insn_init a x) = Some i1" and f: "imm_frame m i1 i2"
    using immediate_frame [OF st(1)] by blast
  have no: "immediate i1 = no_field" "immediate2 i1 = no_field" using displacement_stage [OF i1] by auto
  from f obtain g h nb where i2: "i2 = i1\<lparr>immediate := g, immediate2 := h, next_byte := nb\<rparr>" by (rule imm_frameE)
  have four: "taken (immediate i) = 4 \<and> taken (immediate2 i) = 0"
    if "\<not> inat_has_moffset (attr i1)" "inat_has_immediate (attr i1)" "inat_immediate_size (attr i1) = INAT_IMM_VWORD32"
      "\<not> inat_has_second_immediate (attr i1)" "opnd_bytes i1 = 8"
  proof -
    have "attr j = attr i1" if "get_imm1 m 4 i1 = Some j" for j by (subst get_imm1_SomeD(1) [OF that]) simp_all
    with that st(1) i1 no obtain j where j: "get_imm1 m 4 i1 = Some j" "i2 = j\<lparr>immediate := (immediate j)\<lparr>got := True\<rparr>\<rparr>"
      by (auto simp: insn_get_immediate_def imm_by_size_def inat_numbers get_immv32_def dest!: bind_SomeD split: if_splits)
    then show ?thesis using get_imm1_SomeD(2,4) [OF j(1)] no by (simp add: st(2))
  qed
  show ?thesis
    by (rule that [OF i1]) (use four in \<open>simp_all add: st(2) i2 keeps_opcode_def long_mode_def\<close>)
qed

section \<open>Calls and jumps\<close>

text \<open>The opcode \<open>0xE8\<close> or \<open>0xE9\<close> without VEX: opcode, then four bytes.\<close>

lemma rel32_layout:
  assumes "insn_get_length m (insn_init a True) = Some i" and "is_rel32 i" and "\<not> insn_is_avx i"
  shows "taken (modrm i) = 0" and "taken (displacement i) = 0" and "taken (immediate i) = 4" and "taken (immediate2 i) = 0"
proof -
  obtain i4 where i4: "insn_get_displacement m (insn_init a True) = Some i4" "keeps_opcode i4 i" "modrm i = modrm i4"
    "displacement i = displacement i4"
    "\<not> inat_has_moffset (attr i4) \<longrightarrow> inat_has_immediate (attr i4) \<longrightarrow> inat_immediate_size (attr i4) = INAT_IMM_VWORD32 \<longrightarrow>
     \<not> inat_has_second_immediate (attr i4) \<longrightarrow> opnd_bytes i4 = 8 \<longrightarrow> taken (immediate i) = 4 \<and> taken (immediate2 i) = 0"
    using length_SomeD [OF assms(1)] by metis
  obtain i3 where i3: "insn_get_sib m (insn_init a True) = Some i3" "keeps_opcode i3 i4"
    "modrm i4 = modrm i3" "attr i4 = attr i3" "opnd_bytes i4 = opnd_bytes i3" "taken (displacement i4) = displacement_bytes i3"
    using displacement_SomeD [OF i4(1)] by metis
  obtain i2 where i2: "insn_get_modrm m (insn_init a True) = Some i2" "keeps_opcode i2 i3"
    "modrm i3 = modrm i2" "attr i3 = attr i2" "opnd_bytes i3 = opnd_bytes i2"
    using sib_SomeD [OF i3(1)] by metis
  obtain i1 where i1: "insn_get_opcode m (insn_init a True) = Some i1" "keeps_opcode i1 i2"
    "\<not> inat_has_modrm (attr i1) \<longrightarrow> nbytes (modrm i2) = 0 \<and> attr i2 = attr i1 \<and>
       (x86_64 i1 \<and> inat_is_force64 (attr i1) \<longrightarrow> opnd_bytes i2 = 8)"
    using modrm_SomeD [OF i2(1)] by metis
  have k: "opcode i1 = opcode i" "vex_prefix i1 = vex_prefix i"
    using i1(2) i2(2) i3(2) i4(2) by (simp_all add: keeps_opcode_def)
  have x: "x86_64 i1" and at: "attr i1 = 0xB000"
    using opcode_attr [OF i1(1)] assms(2,3) rel32_attr rel32_tests(1,2)
    by (auto simp: k insn_is_avx_def is_rel32_def OP_CALL_REL32_def OP_JMP_REL32_def long_mode_def)
  then have m2: "nbytes (modrm i2) = 0" "attr i2 = 0xB000" "opnd_bytes i2 = 8" using i1(3) rel32_tests(3,4) by simp_all
  show "taken (modrm i) = 0" using m2 i4(3) i3(3) i2(3) by (simp add: taken_def)
  show "taken (displacement i) = 0" using m2 i4(4) i3(6) i2(3) by (simp add: displacement_bytes_def)
  show "taken (immediate i) = 4" "taken (immediate2 i) = 0" using m2 i4(5) i3(4,5) i2(4,5) rel32_tests(5-8) by simp_all
qed

section \<open>Operands relative to the instruction pointer\<close>

lemma rip_bits:
  assumes "v AND 0xC7 = (5 :: u32)"
  shows "X86_MODRM_MOD (ucast v) = 0" and "X86_MODRM_RM (ucast v) = 5"
proof -
  have c: "(ucast v :: byte) AND 0xC7 = 5"
    using arg_cong [OF assms, of "ucast :: u32 \<Rightarrow> byte"] by (simp add: unsigned_and_eq)
  have "((ucast v :: byte) AND 0xC7) AND 0xC0 = ucast v AND 0xC0" "((ucast v :: byte) AND 0xC7) AND 7 = ucast v AND 7"
    by (simp_all add: and.assoc)
  with c show "X86_MODRM_MOD (ucast v) = 0" "X86_MODRM_RM (ucast v) = 5"
    by (simp_all add: X86_MODRM_MOD_def X86_MODRM_RM_def)
qed

lemma rip_layout:
  assumes "insn_get_length m (insn_init a True) = Some i"
  shows "insn_rip_relative m' i = Some (taken (modrm i) \<noteq> 0 \<and> fld_value (modrm i) AND 0xC7 = 5, i)"
    and "taken (modrm i) \<noteq> 0 \<Longrightarrow> fld_value (modrm i) AND 0xC7 = 5 \<Longrightarrow> taken (displacement i) = 4"
proof -
  obtain i4 where i4: "insn_get_displacement m (insn_init a True) = Some i4" "keeps_opcode i4 i" "modrm i = modrm i4"
    "displacement i = displacement i4" using length_SomeD [OF assms] by metis
  obtain i3 where i3: "insn_get_sib m (insn_init a True) = Some i3" "keeps_opcode i3 i4"
    "modrm i4 = modrm i3" "taken (displacement i4) = displacement_bytes i3"
    using displacement_SomeD [OF i4(1)] by metis
  obtain i2 where i2: "insn_get_modrm m (insn_init a True) = Some i2" "keeps_opcode i2 i3" "modrm i3 = modrm i2"
    using sib_SomeD [OF i3(1)] by metis
  obtain i1 where i1: "insn_get_opcode m (insn_init a True) = Some i1" "keeps_opcode i1 i2" "got (modrm i2)"
    using modrm_SomeD [OF i2(1)] by metis
  have lm: "long_mode i3" "long_mode i"
    using opcode_attr [OF i1(1)] i1(2) i2(2) i3(2) i4(2) by (simp_all add: keeps_opcode_def)
  then show "insn_rip_relative m' i = Some (taken (modrm i) \<noteq> 0 \<and> fld_value (modrm i) AND 0xC7 = 5, i)"
    using i1(3) i2(3) i3(3) i4(3) by (simp add: insn_rip_relative_def long_mode_def taken_def unat_eq_0)
  assume "taken (modrm i) \<noteq> 0" "fld_value (modrm i) AND 0xC7 = 5"
  with rip_bits [of "fld_value (modrm i)"] lm(1) show "taken (displacement i) = 4"
    using i3(3,4) i4(3,4) by (auto simp: displacement_bytes_def taken_def long_mode_def)
qed

end
