(* ===== verification/InsnMono.thy ===== *)
theory InsnMono
  imports Insn
begin

text \<open>
  The decoder only asks for bytes: what it makes of a text it makes of every larger one. So a
  function that is being copied decodes as it did before the copy was started.
\<close>

section \<open>Less defined results\<close>

definition below :: "'a option \<Rightarrow> 'a option \<Rightarrow> bool" where
  "below x y \<longleftrightarrow> (\<forall>r. x = Some r \<longrightarrow> y = Some r)"

lemma belowD: "below x y \<Longrightarrow> x = Some r \<Longrightarrow> y = Some r"
  by (simp add: below_def)

lemma below_refl [intro!, simp]: "below x x"
  by (simp add: below_def)

lemma below_map [intro]: "m \<subseteq>\<^sub>m m' \<Longrightarrow> below (m a) (m' a)"
  by (auto simp: below_def map_le_def dom_def)

lemma below_bind [intro!]: "below x y \<Longrightarrow> (\<And>v. below (f v) (g v)) \<Longrightarrow> below (Option.bind x f) (Option.bind y g)"
  by (cases x) (auto simp: below_def)

lemma below_if [intro!]: "(c \<Longrightarrow> below x y) \<Longrightarrow> (\<not> c \<Longrightarrow> below x' y') \<Longrightarrow> below (if c then x else x') (if c then y else y')"
  by simp

lemma below_pair [intro!]: "(\<And>a b. p = (a, b) \<Longrightarrow> below (f a b) (g a b)) \<Longrightarrow> below (case p of (a, b) \<Rightarrow> f a b) (case p of (a, b) \<Rightarrow> g a b)"
  by (cases p) simp

section \<open>The stages of the decoder\<close>

lemma read_bytes_below [intro]: "m \<subseteq>\<^sub>m m' \<Longrightarrow> below (read_bytes m a n) (read_bytes m' a n)"
  by (induction n arbitrary: a) auto

lemma get_below [intro]:
  assumes "m \<subseteq>\<^sub>m m'"
  shows "below (get_next m n i) (get_next m' n i)" and "below (get_byte m i) (get_byte m' i)"
    and "below (get_value m n i) (get_value m' n i)"
  using assms by (auto simp: get_next_def get_byte_def get_value_def)

lemma prefix_scan_below [intro]:
  assumes "m \<subseteq>\<^sub>m m'"
  shows "below (prefix_scan m nb lb i) (prefix_scan m' nb lb i)"
proof -
  have "m \<subseteq>\<^sub>m m' \<longrightarrow> prefix_scan m' nb lb i = Some r" if "prefix_scan m nb lb i = Some r" for r
  proof (rule prefix_scan.raw_induct [where P = "\<lambda>m nb lb i r. m \<subseteq>\<^sub>m m' \<longrightarrow> prefix_scan m' nb lb i = Some r", OF _ that], intro impI)
    fix f m nb lb i r
    assume IH: "\<And>m nb lb i r. f m nb lb i = Some r \<Longrightarrow> m \<subseteq>\<^sub>m m' \<longrightarrow> prefix_scan m' nb lb i = Some r"
      and eq: "do { b \<leftarrow> m (next_byte i);
          case prefix_step b nb i of None \<Rightarrow> Some (nb, lb, i) | Some (nb', i') \<Rightarrow> f m nb' b (next_prefix i') } = Some r"
      and sub: "m \<subseteq>\<^sub>m m'"
    from eq obtain b where b: "m (next_byte i) = Some b" by (auto dest!: bind_SomeD)
    with sub have b': "m' (next_byte i) = Some b" using below_map belowD by metis
    show "prefix_scan m' nb lb i = Some r"
      using eq b b' by (subst prefix_scan.simps) (auto split: option.splits intro: IH [THEN mp, OF _ sub])
  qed
  then show ?thesis using assms by (simp add: below_def)
qed

lemma escape_scan_below [intro]:
  assumes "m \<subseteq>\<^sub>m m'"
  shows "below (escape_scan m i) (escape_scan m' i)"
proof -
  have "m \<subseteq>\<^sub>m m' \<longrightarrow> escape_scan m' i = Some r" if "escape_scan m i = Some r" for r
  proof (rule escape_scan.raw_induct [where P = "\<lambda>m i r. m \<subseteq>\<^sub>m m' \<longrightarrow> escape_scan m' i = Some r", OF _ that], intro impI)
    fix f m i r
    assume IH: "\<And>m i r. f m i = Some r \<Longrightarrow> m \<subseteq>\<^sub>m m' \<longrightarrow> escape_scan m' i = Some r"
      and eq: "(if \<not> inat_is_escape (attr i) then Some i
      else do { (op, i) \<leftarrow> get_byte m i;
                g \<leftarrow> set_byte (unat (nbytes (opcode i))) op (opcode i);
                f m (i\<lparr>opcode := g\<lparr>nbytes := nbytes g + 1\<rparr>,
                  attr := inat_get_escape_attribute op (insn_last_prefix i) (attr i)\<rparr>) }) = Some r"
      and sub: "m \<subseteq>\<^sub>m m'"
    show "escape_scan m' i = Some r"
    proof (cases "inat_is_escape (attr i)")
      case False
      with eq show ?thesis by (subst escape_scan.simps) simp
    next
      case True
      with eq obtain op j g where st: "get_byte m i = Some (op, j)" "set_byte (unat (nbytes (opcode j))) op (opcode j) = Some g"
          "f m (j\<lparr>opcode := g\<lparr>nbytes := nbytes g + 1\<rparr>, attr := inat_get_escape_attribute op (insn_last_prefix j) (attr j)\<rparr>) = Some r"
        by (auto dest!: bind_SomeD)
      from belowD [OF get_below(2) [OF sub] st(1)] st(2) IH [OF st(3)] sub True show ?thesis
        by (subst escape_scan.simps) simp
    qed
  qed
  then show ?thesis using assms by (simp add: below_def)
qed

lemma stages_below [intro]:
  assumes "m \<subseteq>\<^sub>m m'"
  shows "below (get_rex m i) (get_rex m' i)" and "below (get_vex m i) (get_vex m' i)"
    and "below (opcode_attribute m op i) (opcode_attribute m' op i)"
    and "below (get_imm1 m n i) (get_imm1 m' n i)" and "below (get_imm2 m n i) (get_imm2 m' n i)"
  using assms by (auto simp: get_rex_def get_vex_def opcode_attribute_def get_imm1_def get_imm2_def Let_def split del: if_split)

lemma prefixes_below [intro]: "m \<subseteq>\<^sub>m m' \<Longrightarrow> below (insn_get_prefixes m i) (insn_get_prefixes m' i)"
  by (auto simp: insn_get_prefixes_def Let_def split del: if_split)

lemma opcode_below [intro]: "m \<subseteq>\<^sub>m m' \<Longrightarrow> below (insn_get_opcode m i) (insn_get_opcode m' i)"
  by (auto simp: insn_get_opcode_def Let_def split del: if_split)

lemma modrm_below [intro]: "m \<subseteq>\<^sub>m m' \<Longrightarrow> below (insn_get_modrm m i) (insn_get_modrm m' i)"
  by (auto simp: insn_get_modrm_def Let_def split del: if_split)

lemma sib_below [intro]: "m \<subseteq>\<^sub>m m' \<Longrightarrow> below (insn_get_sib m i) (insn_get_sib m' i)"
  by (auto simp: insn_get_sib_def Let_def split del: if_split)

lemma displacement_below [intro]: "m \<subseteq>\<^sub>m m' \<Longrightarrow> below (insn_get_displacement m i) (insn_get_displacement m' i)"
  by (auto simp: insn_get_displacement_def Let_def split del: if_split)

lemma immediates_below [intro]:
  assumes "m \<subseteq>\<^sub>m m'"
  shows "below (get_moffset m i) (get_moffset m' i)" and "below (get_immv32 m i) (get_immv32 m' i)"
    and "below (get_immv m i) (get_immv m' i)" and "below (get_immptr m i) (get_immptr m' i)"
  using assms by (auto simp: get_moffset_def get_immv32_def get_immv_def get_immptr_def split del: if_split)

lemma imm_by_size_below [intro]: "m \<subseteq>\<^sub>m m' \<Longrightarrow> below (imm_by_size m n i) (imm_by_size m' n i)"
  by (auto simp: imm_by_size_def split del: if_split)

lemma immediate_below [intro]: "m \<subseteq>\<^sub>m m' \<Longrightarrow> below (insn_get_immediate m i) (insn_get_immediate m' i)"
  by (auto simp: insn_get_immediate_def split del: if_split)

lemma length_below: "m \<subseteq>\<^sub>m m' \<Longrightarrow> below (insn_get_length m i) (insn_get_length m' i)"
  by (auto simp: insn_get_length_def split del: if_split)

lemmas length_more = belowD [OF length_below]

end
