(* ===== verification/Relocate.thy ===== *)
theory Relocate
  imports Operands InsnMono
begin

text \<open>
  What the copy of a function is: the instructions of the function one after the other, with the
  operands that are relative to the instruction pointer turned so that they keep their target.
  \<open>copy_insns\<close> computes it, whatever the decoder is, as long as it finds the operands.
\<close>

section \<open>Stores\<close>

definition patch :: "code_mem \<Rightarrow> u64 \<Rightarrow> byte list \<Rightarrow> code_mem" where
  "patch m a bs x = (if unat (x - a) < length bs then Some (bs ! unat (x - a)) else m x)"

lemma patch_Nil [simp]: "patch m a [] = m"
  by (rule ext) (simp add: patch_def)

lemma unat_diff: "unat (x - y :: u64) = (if unat y \<le> unat x then unat x - unat y else unat x + 2 ^ 64 - unat y)"
  by (simp add: unat_sub_if_size word_size)

lemma unat_le_u64: "unat (x :: u64) < 2 ^ 64"
  using unsigned_less [of x] by simp

lemma unat_minus_one_word: "x \<noteq> a \<Longrightarrow> unat (x - (a + 1) :: u64) = unat (x - a) - 1"
  using unat_minus_one [of "x - a"] by (simp add: algebra_simps)

lemma patch_Cons:
  assumes "length bs < 2 ^ 64"
  shows "patch (m(a \<mapsto> b)) (a + 1) bs = patch m a (b # bs)"
proof
  fix x
  show "patch (m(a \<mapsto> b)) (a + 1) bs x = patch m a (b # bs) x"
  proof (cases "x = a")
    case True
    have "unat (- 1 :: u64) = 2 ^ 64 - 1" by (simp add: unat_minus_one_word unsigned_minus_1_eq_mask mask_eq_exp_minus_1)
    with True assms show ?thesis by (simp add: patch_def)
  next
    case False
    then have "0 < unat (x - a)" by (simp add: unat_gt_0)
    with False unat_minus_one_word [OF False] show ?thesis by (auto simp: patch_def nth_Cons' not_less)
  qed
qed

text \<open>The bytes at \<open>a\<close> can be written.\<close>

definition stores :: "text_env \<Rightarrow> text_state \<Rightarrow> u64 \<Rightarrow> nat \<Rightarrow> bool" where
  "stores E s a n \<longleftrightarrow> (\<forall>j<n. ktext s (a + of_nat j) \<noteq> None \<and> (\<exists>p. t_pte E (a + of_nat j) = Some p \<and> writable s p))"

lemma stores_shift: "stores E s a (k + n) \<Longrightarrow> stores E s (a + of_nat k) n"
  unfolding stores_def by (auto simp: add.assoc simp flip: of_nat_add)

lemma stores_mono: "stores E s a n \<Longrightarrow> k \<le> n \<Longrightarrow> stores E s a k"
  by (simp add: stores_def)

lemma stores_patch: "stores E s a n \<Longrightarrow> stores E (s\<lparr>ktext := patch (ktext s) b bs\<rparr>) a n"
  by (simp add: stores_def patch_def)

lemma stores_upd: "stores E s a n \<Longrightarrow> stores E (s\<lparr>ktext := (ktext s)(b \<mapsto> c)\<rparr>) a n"
  by (simp add: stores_def)

lemma write_bytes_stores:
  "stores E s a (length bs) \<Longrightarrow> length bs < 2 ^ 64 \<Longrightarrow> write_bytes E a bs s = Some (s\<lparr>ktext := patch (ktext s) a bs\<rparr>)"
proof (induction bs arbitrary: a s)
  case Nil
  then show ?case by simp
next
  case (Cons b bs)
  let ?s = "s\<lparr>ktext := (ktext s)(a \<mapsto> b)\<rparr>"
  have "write_byte E a b s = Some ?s"
    using Cons.prems(1) by (auto simp: stores_def write_byte_def dest: spec [of _ 0])
  moreover have "stores E ?s (a + 1) (length bs)"
    using stores_shift [of E s a 1 "length bs"] Cons.prems(1) stores_upd by simp
  ultimately show ?case using Cons.IH [of ?s "a + 1"] Cons.prems(2) patch_Cons [of bs "ktext s" a b] by (simp del: fun_upd_apply)
qed

lemma write_bytes_SomeD:
  "write_bytes E a bs s = Some s' \<Longrightarrow> length bs < 2 ^ 64 \<Longrightarrow> s' = s\<lparr>ktext := patch (ktext s) a bs\<rparr>"
proof (induction bs arbitrary: a s)
  case Nil
  then show ?case by simp
next
  case (Cons b bs)
  then have "write_bytes E (a + 1) bs (s\<lparr>ktext := (ktext s)(a \<mapsto> b)\<rparr>) = Some s'"
    by (auto simp: write_byte_def dest!: bind_SomeD split: option.splits if_splits)
  with Cons.IH Cons.prems(2) patch_Cons [of bs "ktext s" a b] show ?case by fastforce
qed

text \<open>Reading back, and a second patch inside or behind the first.\<close>

lemma patch_at: "j < length bs \<Longrightarrow> length bs < 2 ^ 64 \<Longrightarrow> patch m a bs (a + of_nat j) = Some (bs ! j)"
  by (simp add: patch_def unat_of_nat take_bit_nat_eq_self)

lemma read_bytes_cong: "(\<And>j. j < n \<Longrightarrow> m (a + of_nat j) = m' (a + of_nat j)) \<Longrightarrow> read_bytes m a n = read_bytes m' a n"
proof (induction n arbitrary: a)
  case 0
  then show ?case by simp
next
  case (Suc n)
  have "read_bytes m (a + 1) n = read_bytes m' (a + 1) n"
    using Suc.prems [of "Suc _"] by (intro Suc.IH) (simp add: algebra_simps)
  with Suc.prems [of 0] show ?case by simp
qed

lemma read_bytesI: "length bs = n \<Longrightarrow> (\<And>j. j < n \<Longrightarrow> m (a + of_nat j) = Some (bs ! j)) \<Longrightarrow> read_bytes m a n = Some bs"
proof (induction n arbitrary: a bs)
  case 0
  then show ?case by simp
next
  case (Suc n)
  then obtain b cs where bs: "bs = b # cs" by (cases bs) auto
  have "read_bytes m (a + 1) n = Some cs"
    using Suc.prems(1) Suc.prems(2) [of "Suc _"] by (intro Suc.IH) (simp_all add: bs algebra_simps)
  with Suc.prems(2) [of 0] show ?case by (simp add: bs)
qed

lemma read_patch: "length bs < 2 ^ 64 \<Longrightarrow> read_bytes (patch m a bs) a (length bs) = Some bs"
  by (rule read_bytesI) (simp_all add: patch_at)

lemma unat_plus_of_nat: "unat (x :: u64) + k < 2 ^ 64 \<Longrightarrow> unat (x + of_nat k) = unat x + k"
  by (simp add: unat_word_ariths unat_of_nat take_bit_nat_eq_self)

lemma patch_append:
  assumes "length bs + length cs < 2 ^ 64"
  shows "patch (patch m a bs) (a + of_nat (length bs)) cs = patch m a (bs @ cs)"
proof
  fix x
  have x: "x - (a + of_nat (length bs)) = (x - a) - of_nat (length bs)" by simp
  show "patch (patch m a bs) (a + of_nat (length bs)) cs x = patch m a (bs @ cs) x"
    using assms unat_le_u64 [of "x - a"]
    by (auto simp: patch_def nth_append x unat_diff [of "x - a"] unat_u64)
qed

lemma patch_inside:
  assumes "off + length cs \<le> length bs" and "length bs < 2 ^ 64"
  shows "patch (patch m a bs) (a + of_nat off) cs = patch m a (take off bs @ cs @ drop (off + length cs) bs)"
proof
  fix x
  have x: "x - (a + of_nat off) = (x - a) - of_nat off" by simp
  have u: "unat (of_nat off :: u64) = off" using assms by (intro unat_u64) simp
  show "patch (patch m a bs) (a + of_nat off) cs x = patch m a (take off bs @ cs @ drop (off + length cs) bs) x"
    using assms unat_le_u64 [of "x - a"]
    by (auto simp: patch_def nth_append x unat_diff [of "x - a"] u)
qed

section \<open>One instruction\<close>

text \<open>The relative operand: its place in the instruction and its value.\<close>

definition rel_operand :: "insn \<Rightarrow> (nat \<times> u32) option" where
  "rel_operand i =
     (if is_rel32 i then Some (insn_offset_immediate i, fld_value (immediate i))
      else if taken (modrm i) \<noteq> 0 \<and> fld_value (modrm i) AND 0xC7 = 5
      then Some (insn_offset_displacement i, fld_value (displacement i))
      else None)"

definition rel_target :: "insn \<Rightarrow> u64 \<Rightarrow> u32 \<Rightarrow> u64" where
  "rel_target i a v = CODE_ADDR_FROM_OFFSET a (ucast (insn_length i)) v"

definition relocate :: "kernsym \<Rightarrow> insn \<Rightarrow> byte list \<Rightarrow> u64 \<Rightarrow> byte list" where
  "relocate func i code dest =
     (case rel_operand i of
        None \<Rightarrow> code
      | Some (off, v) \<Rightarrow>
          if in_function func (rel_target i (kaddr i) v) then code
          else take off code @
               le_enc 4 (CODE_OFFSET_FROM_ADDR dest (ucast (insn_length i)) (rel_target i (kaddr i) v)) @
               drop (off + 4) code)"

text \<open>
  What the copy relies on: a decoder that says where an instruction is, that is not disturbed by
  more text, and whose relative operands are four bytes inside the instruction. \<open>plain\<close> are the
  instructions for which it promises the latter.
\<close>

locale operand_decoder =
  fixes decode :: "code_mem \<Rightarrow> u64 \<Rightarrow> insn option"
    and plain :: "code_mem \<Rightarrow> u64 \<Rightarrow> insn \<Rightarrow> bool"
  assumes decode_more: "m \<subseteq>\<^sub>m m' \<Longrightarrow> decode m a = Some i \<Longrightarrow> decode m' a = Some i"
    and decode_place: "decode m a = Some i \<Longrightarrow> plain m a i \<Longrightarrow> kaddr i = a"
    and decode_length: "decode m a = Some i \<Longrightarrow> plain m a i \<Longrightarrow> insn_length i \<noteq> 0"
    and decode_operand: "decode m a = Some i \<Longrightarrow> plain m a i \<Longrightarrow> rel_operand i = Some (off, v) \<Longrightarrow>
      off + 4 \<le> unat (insn_length i) \<and> (\<exists>bs. read_bytes m (a + of_nat off) 4 = Some bs \<and> v = le_dec bs)"
    and decode_rip: "decode m a = Some i \<Longrightarrow>
      insn_rip_relative m' i = Some (taken (modrm i) \<noteq> 0 \<and> fld_value (modrm i) AND 0xC7 = 5, i)"
begin

lemma length_relocate:
  assumes "decode m a = Some i" and "plain m a i" and "length code = unat (insn_length i)"
  shows "length (relocate func i code dest) = unat (insn_length i)"
  using assms decode_operand [OF assms(1,2)] by (auto simp: relocate_def split: option.splits)

text \<open>The copy of one instruction never fails and is the relocated instruction.\<close>

lemma copy_one:
  assumes dec: "decode m a = Some i" "plain m a i" and code: "read_bytes (ktext s) a (unat (insn_length i)) = Some code"
    and st: "stores E s dest (unat (insn_length i))"
  shows "copy_and_fixup_insn E i dest func s = Some (s\<lparr>ktext := patch (ktext s) dest (relocate func i code dest)\<rparr>)"
proof -
  let ?n = "unat (insn_length i)"
  have "?n < 256" using unsigned_less [of "insn_length i"] by simp
  then have len: "length code = ?n" "?n < 2 ^ 64" using read_bytes_length [OF code] by simp_all
  note k = decode_place [OF dec] decode_length [OF dec]
  let ?s = "s\<lparr>ktext := patch (ktext s) dest code\<rparr>"
  have w: "write_bytes E dest code s = Some ?s" using write_bytes_stores st len by simp
  have fix_it: "write_bytes E (dest + of_nat off) (le_enc 4 x) ?s =
      Some (s\<lparr>ktext := patch (ktext s) dest (take off code @ le_enc 4 x @ drop (off + 4) code)\<rparr>)"
    if "off + 4 \<le> ?n" for off and x :: u32
  proof -
    have "stores E ?s (dest + of_nat off) 4"
      using stores_shift [of E ?s dest off 4] stores_mono [OF stores_patch [OF st] that] by simp
    then have "write_bytes E (dest + of_nat off) (le_enc 4 x) ?s =
        Some (?s\<lparr>ktext := patch (ktext ?s) (dest + of_nat off) (le_enc 4 x)\<rparr>)"
      by (intro write_bytes_stores) simp_all
    then show ?thesis using patch_inside [of off "le_enc 4 x" code] that len by simp
  qed
  show ?thesis
  proof (cases "rel_operand i")
    case None
    then show ?thesis
      using k code w decode_rip [OF dec(1)]
      by (auto simp: copy_and_fixup_insn_def rel_operand_def relocate_def split: if_splits)
  next
    case (Some p)
    obtain off v where p: "p = (off, v)" by (cases p)
    note at = fix_it [OF conjunct1 [OF decode_operand [OF dec Some [unfolded p]]]]
    from Some p k code w decode_rip [OF dec(1)] at show ?thesis
      by (auto simp: copy_and_fixup_insn_def rel_operand_def relocate_def rel_target_def Let_def split: if_splits)
  qed
qed

end

section \<open>The decoder of the module\<close>

definition decode64 :: "code_mem \<Rightarrow> u64 \<Rightarrow> insn option" where
  "decode64 m a = insn_get_length m (insn_init a True)"

definition plain64 :: "code_mem \<Rightarrow> u64 \<Rightarrow> insn \<Rightarrow> bool" where
  "plain64 m a i \<longleftrightarrow> starts_within m a 15 \<and> \<not> (is_rel32 i \<and> insn_is_avx i)"

lemma holds_four: "holds m a f \<Longrightarrow> taken f = 4 \<Longrightarrow> \<exists>bs. read_bytes m a 4 = Some bs \<and> fld_value f = le_dec bs"
  using read_bytes_length [of m a 4] by (fastforce simp: holds_def sext_def)

interpretation dec64: operand_decoder decode64 plain64
proof
  fix m m' :: code_mem and a i off v
  show "m \<subseteq>\<^sub>m m' \<Longrightarrow> decode64 m a = Some i \<Longrightarrow> decode64 m' a = Some i"
    unfolding decode64_def by (rule length_more)
  assume dec: "decode64 m a = Some i"
  then have i: "insn_get_length m (insn_init a True) = Some i" by (simp add: decode64_def)
  show "insn_rip_relative m' i = Some (taken (modrm i) \<noteq> 0 \<and> fld_value (modrm i) AND 0xC7 = 5, i)"
    by (rule rip_layout(1) [OF i])
  assume "plain64 m a i"
  then have sw: "starts_within m a 15" and p: "is_rel32 i \<Longrightarrow> \<not> insn_is_avx i" by (auto simp: plain64_def)
  note wp = insn_get_length_SomeD [OF i sw, simplified]
  show "kaddr i = a" by (rule wp(2))
  have len: "unat (insn_length i) = insn_offset_immediate i + taken (immediate i) + taken (immediate2 i)"
    "holds m (a + of_nat (insn_offset_displacement i)) (displacement i)"
    "holds m (a + of_nat (insn_offset_immediate i)) (immediate i)" "0 < taken (opcode i)"
    using wp(1) by (simp_all add: well_placed_def)
  then show "insn_length i \<noteq> 0"
    by (auto simp: insn_offset_immediate_def insn_offset_displacement_def insn_offset_sib_def insn_offset_modrm_def taken_def)
  assume "rel_operand i = Some (off, v)"
  then consider "is_rel32 i" "off = insn_offset_immediate i" "v = fld_value (immediate i)"
    | "off = insn_offset_displacement i" "v = fld_value (displacement i)" "taken (modrm i) \<noteq> 0" "fld_value (modrm i) AND 0xC7 = 5"
    by (auto simp: rel_operand_def split: if_splits)
  then show "off + 4 \<le> unat (insn_length i) \<and> (\<exists>bs. read_bytes m (a + of_nat off) 4 = Some bs \<and> v = le_dec bs)"
  proof cases
    case 1
    with rel32_layout(3) [OF i] p have "taken (immediate i) = 4" by simp
    with 1 len holds_four show ?thesis by simp
  next
    case 2
    with rip_layout(2) [OF i] have "taken (displacement i) = 4" by simp
    with 2 len holds_four show ?thesis by (simp add: insn_offset_immediate_def taken_def)
  qed
qed

section \<open>A whole function\<close>

inductive relocates :: "kernsym \<Rightarrow> u64 \<Rightarrow> code_mem \<Rightarrow> u64 \<Rightarrow> u64 \<Rightarrow> byte list \<Rightarrow> bool"
  for func and stop and m
  where
    relocates_done: "\<not> a < stop \<Longrightarrow> relocates func stop m a dest []"
  | relocates_step: "a < stop \<Longrightarrow> decode64 m a = Some i \<Longrightarrow> plain64 m a i \<Longrightarrow>
      read_bytes m a (unat (insn_length i)) = Some code \<Longrightarrow>
      relocates func stop m (a + ucast (insn_length i)) (dest + ucast (insn_length i)) out \<Longrightarrow>
      relocates func stop m a dest (relocate func i code dest @ out)"

inductive_cases relocates_nilE: "relocates func stop m a dest []"

lemma plain64_more:
  assumes "m \<subseteq>\<^sub>m m'" and "plain64 m a i"
  shows "plain64 m' a i"
proof -
  have "m' x = Some b" if "m x = Some b" for x b using belowD [OF below_map [OF assms(1)] that] .
  then show ?thesis using assms(2) unfolding plain64_def starts_within_def by blast
qed

lemma of_nat_length_relocate:
  assumes "decode64 m a = Some i" and "plain64 m a i" and "read_bytes m a (unat (insn_length i)) = Some code"
  shows "length (relocate func i code dest) = unat (insn_length i)"
    and "of_nat (length (relocate func i code dest)) = (ucast (insn_length i) :: u64)"
  using dec64.length_relocate [OF assms(1,2) read_bytes_length [OF assms(3)]] by (simp_all add: of_nat_unat)

lemma patch_fresh: "\<forall>j<length bs. m (a + of_nat j) = None \<Longrightarrow> m \<subseteq>\<^sub>m m' \<Longrightarrow> m \<subseteq>\<^sub>m patch m' a bs"
  unfolding map_le_def patch_def by (metis add_diff_cancel_left' diff_add_cancel domIff of_nat_unat ucast_id add.commute)

text \<open>The copy is this function of the text, and it always returns.\<close>

lemma copy_insns_relocates:
  assumes "relocates func stop m a dest out"
  shows "m \<subseteq>\<^sub>m ktext s \<Longrightarrow> stores E s dest (length out) \<Longrightarrow> \<forall>j<length out. m (dest + of_nat j) = None \<Longrightarrow> length out < 2 ^ 64 \<Longrightarrow>
    copy_insns E func a stop dest s = Some (Inr (dest + of_nat (length out)), s\<lparr>ktext := patch (ktext s) dest out\<rparr>)"
  using assms
proof (induction arbitrary: s rule: relocates.induct)
  case (relocates_done a dest)
  then show ?case by (subst copy_insns.simps) simp
next
  case (relocates_step a i code dest out)
  let ?bs = "relocate func i code dest"
  note dec = dec64.decode_more [OF relocates_step.prems(1) relocates_step.hyps(2)]
  note len = of_nat_length_relocate [OF relocates_step.hyps(2-4), of func dest]
  let ?s = "s\<lparr>ktext := patch (ktext s) dest ?bs\<rparr>"
  have code: "read_bytes (ktext s) a (unat (insn_length i)) = Some code"
    using belowD [OF read_bytes_below [OF relocates_step.prems(1)] relocates_step.hyps(4)] .
  have plain: "plain64 (ktext s) a i" using plain64_more [OF relocates_step.prems(1) relocates_step.hyps(3)] .
  have one: "copy_and_fixup_insn E i dest func s = Some ?s"
    using stores_mono [OF relocates_step.prems(2)] len by (intro dec64.copy_one [OF dec plain code]) simp
  have sub: "m \<subseteq>\<^sub>m ktext ?s" using patch_fresh [of ?bs m dest "ktext s"] relocates_step.prems by simp
  have st: "stores E ?s (dest + ucast (insn_length i)) (length out)"
    using stores_patch stores_shift [of E s dest "length ?bs" "length out"] relocates_step.prems(2) len by simp
  have fr: "\<forall>j<length out. m (dest + ucast (insn_length i) + of_nat j) = None"
  proof (intro allI impI)
    fix j assume "j < length out"
    then have "length ?bs + j < length (?bs @ out)" by simp
    with relocates_step.prems(3) have "m (dest + of_nat (length ?bs + j)) = None" by blast
    then show "m (dest + ucast (insn_length i) + of_nat j) = None" using len by (simp add: add.assoc)
  qed
  have "copy_insns E func (a + ucast (insn_length i)) stop (dest + ucast (insn_length i)) ?s =
      Some (Inr (dest + ucast (insn_length i) + of_nat (length out)), ?s\<lparr>ktext := patch (ktext ?s) (dest + ucast (insn_length i)) out\<rparr>)"
    using relocates_step.IH [OF sub st fr] relocates_step.prems(4) by simp
  moreover have "patch (ktext ?s) (dest + ucast (insn_length i)) out = patch (ktext s) dest (?bs @ out)"
    using patch_append [of ?bs out "ktext s" dest] relocates_step.prems(4) len by simp
  ultimately show ?case
    using relocates_step.hyps(1) dec one dec64.decode_length [OF relocates_step.hyps(2,3)] len
    by (subst copy_insns.simps) (simp add: decode64_def algebra_simps)
qed

end
