(* ===== verification/InsnEval.thy ===== *)
theory InsnEval
  imports Operands
begin

text \<open>
  Instructions of one opcode byte decoded in one step: near calls and jumps, and opcodes without
  operands. The jump the module writes is one of them.
\<close>

section \<open>The opcode\<close>


definition simple_opcode :: "byte \<Rightarrow> bool" where
  "simple_opcode op \<longleftrightarrow>
     (let at = inat_get_opcode_attribute op
      in \<not> inat_is_legacy_prefix at \<and> \<not> inat_is_rex_prefix at \<and> \<not> inat_is_vex_prefix at \<and> \<not> inat_is_escape at \<and>
         \<not> inat_must_vex at \<and> \<not> inat_has_modrm at)"

lemma escape_scan_stop: "\<not> inat_is_escape (attr i) \<Longrightarrow> escape_scan m i = Some i"
  by (subst escape_scan.simps) simp

lemma no_field_bytes: "replicate 4 0 = [0, 0, 0, 0 :: byte]" "le_dec [0, 0, 0, 0] = (0 :: u32)"
  by (simp_all add: numeral_eq_Suc)

definition simple_opcode_done :: "u64 \<Rightarrow> byte \<Rightarrow> insn \<Rightarrow> bool" where
  "simple_opcode_done a op i \<longleftrightarrow>
     attr i = inat_get_opcode_attribute op \<and> fld_bytes (opcode i) = [op, 0, 0, 0] \<and> nbytes (opcode i) = 1 \<and>
     got (opcode i) \<and> next_byte i = a + 1 \<and> kaddr i = a \<and> x86_64 i \<and> opnd_bytes i = 4 \<and> addr_bytes i = 8 \<and>
     insn_length i = 0 \<and> nbytes (insn_prefixes i) = 0 \<and> nbytes (rex_prefix i) = 0 \<and> nbytes (vex_prefix i) = 0 \<and>
     \<not> insn_is_avx i \<and> modrm i = no_field \<and> sib i = no_field \<and> displacement i = no_field \<and>
     immediate i = no_field \<and> immediate2 i = no_field"

lemma simple_opcode_stage:
  assumes "m a = Some op" and "simple_opcode op"
  shows "\<exists>i. insn_get_opcode m (insn_init a True) = Some i \<and> simple_opcode_done a op i"
proof -
  note op = assms(2) [unfolded simple_opcode_def Let_def]
  have scan: "prefix_scan m 0 0 (insn_init a True) = Some (0, 0, insn_init a True)"
    by (subst prefix_scan.simps) (use assms(1) op in \<open>simp add: insn_init_def prefix_step_def\<close>)
  show ?thesis
    using scan assms(1) op escape_scan_stop [of _ m]
    by (simp add: simple_opcode_done_def no_field_bytes insn_get_opcode_def insn_get_prefixes_def set_last_prefix_def get_rex_def get_vex_def get_byte_def
        set_byte_def opcode_attribute_def escape_scan_done insn_is_avx_def insn_init_def no_field_def fld_value_def Let_def)
qed

section \<open>The whole instruction\<close>

definition simple_done :: "u64 \<Rightarrow> byte \<Rightarrow> nat \<Rightarrow> u32 \<Rightarrow> insn \<Rightarrow> bool" where
  "simple_done a op n v i \<longleftrightarrow>
     fld_bytes (opcode i) ! 0 = op \<and> kaddr i = a \<and> insn_length i = of_nat (1 + n) \<and> insn_offset_immediate i = 1 \<and>
     \<not> insn_is_avx i \<and> taken (modrm i) = 0 \<and> taken (displacement i) = 0 \<and> taken (immediate i) = n \<and>
     (n = 4 \<longrightarrow> fld_value (immediate i) = v)"

lemma decode_simple:
  assumes "m a = Some op" and "simple_opcode op"
    and "\<not> inat_has_moffset (inat_get_opcode_attribute op)" and "\<not> inat_has_immediate (inat_get_opcode_attribute op)"
  shows "\<exists>i. insn_get_length m (insn_init a True) = Some i \<and> simple_done a op 0 v i"
proof -
  obtain i where st: "insn_get_opcode m (insn_init a True) = Some i" "simple_opcode_done a op i"
    using simple_opcode_stage [of m a op] assms by blast
  note i = st(1) st(2) [unfolded simple_opcode_done_def]
  have "\<not> inat_has_modrm (attr i)" using assms(2) by (simp add: simple_opcode_def Let_def i)
  with i assms(3,4) show ?thesis
    by (auto simp: insn_get_length_def insn_get_immediate_def insn_get_displacement_def insn_get_sib_def insn_get_modrm_def
        displacement_bytes_def Let_def simple_done_def insn_is_avx_def insn_offset_immediate_def insn_offset_displacement_def
        insn_offset_sib_def insn_offset_modrm_def insn_offset_opcode_def insn_offset_vex_prefix_def
        insn_offset_rex_prefix_def)
qed

lemma decode_rel32:
  assumes "m a = Some op" and "op = OP_CALL_REL32 \<or> op = OP_JMP_REL32" and "read_bytes m (a + 1) 4 = Some bs"
  shows "\<exists>i. insn_get_length m (insn_init a True) = Some i \<and> simple_done a op 4 (le_dec bs) i"
proof -
  have at: "inat_get_opcode_attribute op = 0xB000" using assms(2) rel32_attr by (auto simp: OP_CALL_REL32_def OP_JMP_REL32_def)
  have "\<not> inat_is_legacy_prefix 0xB000" "\<not> inat_is_rex_prefix 0xB000" "\<not> inat_is_vex_prefix 0xB000" "\<not> inat_is_escape 0xB000"
    by (simp_all add: inat_tests inat_masks inat_numbers)
  then have so: "simple_opcode op" using rel32_tests by (simp add: simple_opcode_def Let_def at)
  obtain i where st: "insn_get_opcode m (insn_init a True) = Some i" "simple_opcode_done a op i"
    using simple_opcode_stage [of m a op] assms so by blast
  note i = st(1) st(2) [unfolded simple_opcode_done_def]
  have "length bs = 4" by (rule read_bytes_length [OF assms(3)])
  with i assms(3) rel32_tests show ?thesis
    by (auto simp: at insn_get_length_def insn_get_immediate_def insn_get_displacement_def insn_get_sib_def insn_get_modrm_def
        displacement_bytes_def Let_def simple_done_def insn_is_avx_def insn_offset_immediate_def insn_offset_displacement_def
        insn_offset_sib_def insn_offset_modrm_def insn_offset_opcode_def insn_offset_vex_prefix_def
        insn_offset_rex_prefix_def imm_by_size_def get_immv32_def get_imm1_def get_value_def get_next_def inat_numbers sext_def)
qed

end
