(* ===== verification/SymbolProps.thy ===== *)
theory SymbolProps
  imports Symbols
begin

text \<open>
  What the search for a symbol finds, and what the module's start needs of the symbol table.
\<close>

lemma after_found:
  "found ks \<Longrightarrow> kallsyms_on_each_symbol find_symbol_callback syms ks =
     (case syms of [] \<Rightarrow> (0, ks) | (n, a) # _ \<Rightarrow> (1, ks\<lparr>end_addr := a\<rparr>))"
  by (cases syms) (auto simp: find_symbol_callback_def)

lemma search_symbol:
  assumes "sym_name ks = Some name" and "\<not> found ks"
  shows "kallsyms_on_each_symbol find_symbol_callback syms ks =
    (case dropWhile (\<lambda>(n, a). cstr n \<noteq> cstr name) syms of
       [] \<Rightarrow> (0, ks)
     | (n, a) # rest \<Rightarrow> kallsyms_on_each_symbol find_symbol_callback rest (ks\<lparr>sym_addr := a, found := True\<rparr>))"
  using assms by (induction syms) (auto simp: find_symbol_callback_def)

lemma find_symbol_lookup:
  "find_symbol_address E ks name =
     (let ks = ks\<lparr>sym_name := Some name, found := False\<rparr>
      in case dropWhile (\<lambda>(n, a). cstr n \<noteq> cstr name) (t_kallsyms E) of
           [] \<Rightarrow> (- EFAULT, ks)
         | [(n, a)] \<Rightarrow> (- EFAULT, ks\<lparr>sym_addr := a, found := True\<rparr>)
         | (n, a) # (n', b) # _ \<Rightarrow>
             (0, ks\<lparr>sym_addr := a, found := True, end_addr := b, sym_size := b - a, new_size := b - a, run_addr := a\<rparr>))"
  by (auto simp: find_symbol_address_def search_symbol after_found sized_def Let_def simp del: dropWhile_eq_Nil_conv split: list.splits)

text \<open>
  The search takes the first symbol of that name; its size is the distance to the symbol
  behind it in the table, and a name that is missing or last in the table is not found.
\<close>

theorem symbol_lookup:
  "find_symbol_address E ks name =
     (let ks = ks\<lparr>sym_name := Some name, found := False\<rparr>
      in case dropWhile (\<lambda>(n, a). cstr n \<noteq> cstr name) (t_kallsyms E) of
           [] \<Rightarrow> (- EFAULT, ks)
         | [(n, a)] \<Rightarrow> (- EFAULT, ks\<lparr>sym_addr := a, found := True\<rparr>)
         | (n, a) # (n', b) # _ \<Rightarrow>
             (0, ks\<lparr>sym_addr := a, found := True, end_addr := b, sym_size := b - a, new_size := b - a, run_addr := a\<rparr>))"
  by (rule find_symbol_lookup)

end
