(* ===== verification/HijackProps.thy ===== *)
theory HijackProps
  imports Relocate InsnEval SymbolProps
begin

text \<open>
  What hijacking a function does: the function's first five bytes become a jump to the hook, a
  fresh block holds the relocated copy of the function, nothing else changes, and restoring
  takes it all back.
\<close>

section \<open>Trailing zeros\<close>

definition strip_zeros :: "byte list \<Rightarrow> byte list" where
  "strip_zeros bs = rev (dropWhile ((=) 0) (rev bs))"

lemma strip_zeros_snoc: "strip_zeros (bs @ [b]) = (if b = 0 then strip_zeros bs else bs @ [b])"
  by (simp add: strip_zeros_def)

lemma strip_zeros_Nil [simp]: "strip_zeros [] = []"
  by (simp add: strip_zeros_def)

lemma read_bytes_snoc:
  "read_bytes m a (Suc n) = Some bs \<Longrightarrow> \<exists>cs b. bs = cs @ [b] \<and> read_bytes m a n = Some cs \<and> m (a + of_nat n) = Some b"
proof (induction n arbitrary: a bs)
  case 0
  then show ?case by (auto dest!: bind_SomeD)
next
  case (Suc n)
  then obtain c ds where "m a = Some c" "read_bytes m (a + 1) (Suc n) = Some ds" "bs = c # ds"
    by (auto simp del: read_bytes.simps(2) simp: read_bytes.simps(2) [of m a "Suc n"] dest!: bind_SomeD)
  with Suc.IH [of "a + 1" ds] show ?case by (auto simp: algebra_simps)
qed

lemma read_bytes_take:
  assumes "read_bytes m a n = Some bs" and "k \<le> n"
  shows "read_bytes m a k = Some (take k bs)"
  using assms read_bytes_nth [OF assms(1)] read_bytes_length [OF assms(1)] by (intro read_bytesI) auto

lemma skip_zeros_strip:
  assumes "read_bytes m a n = Some bs" and "unat a + n < 2 ^ 64"
  shows "skip_zeros m a (a + of_nat n) = Some (a + of_nat (length (strip_zeros bs)))"
  using assms
proof (induction n arbitrary: bs)
  case 0
  then show ?case by (subst skip_zeros.simps) simp
next
  case (Suc n)
  from read_bytes_snoc [OF Suc.prems(1)] obtain cs b
    where bs: "bs = cs @ [b]" "read_bytes m a n = Some cs" "m (a + of_nat n) = Some b" by blast
  define e where "e = a + of_nat (Suc n)"
  have "unat e = unat a + Suc n" unfolding e_def by (rule unat_plus_of_nat) (use Suc.prems(2) in simp)
  then have less: "a < e" by (simp add: word_less_nat_alt)
  have pred: "e - 1 = a + of_nat n" by (simp add: e_def)
  have len: "length cs = n" by (rule read_bytes_length [OF bs(2)])
  have "skip_zeros m a e = (if b = 0 then skip_zeros m a (a + of_nat n) else Some e)"
    by (subst skip_zeros.simps) (simp add: less pred bs(3))
  then show ?case using Suc.IH [OF bs(2)] Suc.prems(2) len unfolding e_def by (simp add: bs(1) strip_zeros_snoc)
qed

lemma strip_zeros_le: "length (strip_zeros bs) \<le> length bs"
  using length_dropWhile_le [of "(=) 0" "rev bs"] by (simp add: strip_zeros_def)

section \<open>Putting the jump, and taking it back\<close>

definition one_page :: "text_env \<Rightarrow> u64 \<Rightarrow> bool" where
  "one_page E a \<longleftrightarrow> (\<exists>pg. \<forall>j<OP_JMP_SIZE. t_pte E (a + of_nat j) = Some pg)"

lemma length_jump_to [simp]: "length (jump_to a code) = OP_JMP_SIZE"
  by (simp add: jump_to_def OP_JMP_SIZE_def)

text \<open>A write of five bytes between unprotecting and protecting their page.\<close>

lemma unprotected_write:
  assumes "one_page E a" and "mapped (ktext s) a OP_JMP_SIZE" and "length bs = OP_JMP_SIZE"
  obtains ro s1 where "set_addr_rw E a s = Some (ro, s1)" "ktext s1 = ktext s"
    "write_bytes E a bs s1 = Some (s1\<lparr>ktext := patch (ktext s) a bs\<rparr>)"
    "set_addr_ro E a ro (s1\<lparr>ktext := patch (ktext s) a bs\<rparr>) = Some (s\<lparr>ktext := patch (ktext s) a bs\<rparr>)"
proof -
  from assms(1) obtain pg where pg: "\<forall>j<OP_JMP_SIZE. t_pte E (a + of_nat j) = Some pg" by (auto simp: one_page_def)
  then have pg0: "t_pte E a = Some pg" by (auto simp: OP_JMP_SIZE_def dest: spec [of _ 0])
  define s1 where "s1 = (if writable s pg then s else s\<lparr>writable := (writable s)(pg := True)\<rparr>)"
  have rw: "set_addr_rw E a s = Some (\<not> writable s pg, s1)" by (simp add: set_addr_rw_def pg0 s1_def)
  have k: "ktext s1 = ktext s" "writable s1 pg" by (simp_all add: s1_def)
  have "stores E s1 a OP_JMP_SIZE" using assms(2) pg k by (auto simp: stores_def mapped_def)
  then have w: "write_bytes E a bs s1 = Some (s1\<lparr>ktext := patch (ktext s) a bs\<rparr>)"
    using write_bytes_stores [of E s1 a bs] assms(3) k(1) by (simp add: OP_JMP_SIZE_def)
  have "(writable s)(pg := False) = writable s" if "\<not> writable s pg" using that by (rule_tac ext) simp
  then have "set_addr_ro E a (\<not> writable s pg) (s1\<lparr>ktext := patch (ktext s) a bs\<rparr>) = Some (s\<lparr>ktext := patch (ktext s) a bs\<rparr>)"
    by (simp add: set_addr_ro_def pg0 s1_def)
  from that [OF rw k(1) w this] show ?thesis .
qed

lemma put_jump_done:
  assumes "one_page E (sym_addr ks)" and start: "read_bytes (ktext s) (sym_addr ks) OP_JMP_SIZE = Some start"
  shows "put_jump E ks code s =
    Some ((0, ks\<lparr>orig_start_bytes := start, hijacked := True\<rparr>), s\<lparr>ktext := patch (ktext s) (sym_addr ks) (jump_to (sym_addr ks) code)\<rparr>)"
proof -
  have "mapped (ktext s) (sym_addr ks) OP_JMP_SIZE" using read_bytes_nth [OF start] by (auto simp: mapped_def)
  then obtain ro s1 where "set_addr_rw E (sym_addr ks) s = Some (ro, s1)" "ktext s1 = ktext s"
      "write_bytes E (sym_addr ks) (jump_to (sym_addr ks) code) s1 =
         Some (s1\<lparr>ktext := patch (ktext s) (sym_addr ks) (jump_to (sym_addr ks) code)\<rparr>)"
      "set_addr_ro E (sym_addr ks) ro (s1\<lparr>ktext := patch (ktext s) (sym_addr ks) (jump_to (sym_addr ks) code)\<rparr>) =
         Some (s\<lparr>ktext := patch (ktext s) (sym_addr ks) (jump_to (sym_addr ks) code)\<rparr>)"
    by (rule unprotected_write [OF assms(1) _ length_jump_to])
  then show ?thesis using start by (simp add: put_jump_def Let_def)
qed

section \<open>Hijacking\<close>

lemma relocate_same: "sym_addr f' = sym_addr f \<Longrightarrow> sym_size f' = sym_size f \<Longrightarrow> relocate f' = relocate f"
  by (rule ext)+ (simp add: relocate_def in_function_def split: option.splits)

lemma relocates_same:
  assumes "sym_addr f' = sym_addr f" and "sym_size f' = sym_size f" and "relocates f stop m a dest out"
  shows "relocates f' stop m a dest out"
  using assms(3)
proof (induction rule: relocates.induct)
  case (relocates_done a dest)
  then show ?case by (rule relocates.relocates_done)
next
  case (relocates_step a i code dest out)
  then have "relocates f' stop m a dest (relocate f' i code dest @ out)" by (blast intro: relocates.relocates_step)
  then show ?case unfolding relocate_same [OF assms(1,2)] .
qed

text \<open>The text of a function that can be copied to \<open>p\<close>: \<open>out\<close> is the copy.\<close>

definition func_text :: "text_env \<Rightarrow> code_mem \<Rightarrow> kernsym \<Rightarrow> byte list \<Rightarrow> u64 \<Rightarrow> byte list \<Rightarrow> bool" where
  "func_text E m f src p out \<longleftrightarrow>
     read_bytes m (sym_addr f) (unat (sym_size f)) = Some src \<and> OP_JMP_SIZE \<le> length src \<and>
     unat (sym_addr f) + length src < 2 ^ 64 \<and> hd src \<noteq> OP_JMP_REL32 \<and> strip_zeros src \<noteq> [] \<and>
     one_page E (sym_addr f) \<and>
     relocates f (sym_addr f + of_nat (length (strip_zeros src))) m (sym_addr f) p out \<and> length out \<le> length src"

text \<open>\<open>module_alloc\<close> hands out a block that was not mapped before and is writable.\<close>

definition fresh_block :: "text_env \<Rightarrow> text_state \<Rightarrow> u64 \<Rightarrow> u64 \<Rightarrow> bool" where
  "fresh_block E s n p \<longleftrightarrow>
     t_module_alloc E (mod_next s) n = Some p \<and> p \<noteq> 0 \<and> mod_blocks s p = None \<and>
     (\<forall>j<unat n. ktext s (p + of_nat j) = None \<and> (\<exists>pg. t_pte E (p + of_nat j) = Some pg \<and> writable s pg))"

definition hijacked_state :: "text_state \<Rightarrow> kernsym \<Rightarrow> u64 \<Rightarrow> u64 \<Rightarrow> byte list \<Rightarrow> text_state" where
  "hijacked_state s f code p out =
     s\<lparr>mod_next := Suc (mod_next s), mod_blocks := (mod_blocks s)(p \<mapsto> sym_size f),
       ktext := patch (patch (ktext s) p (out @ replicate (unat (sym_size f) - length out) 0)) (sym_addr f)
                  (jump_to (sym_addr f) code)\<rparr>"

lemma in_block_patch: "in_block p n x \<longleftrightarrow> unat (x - p) < unat n"
  by (simp add: in_block_def word_less_nat_alt)

lemma malloc_fresh:
  assumes "fresh_block E s n p"
  shows "\<exists>s1. malloc E n s = (Some p, s1) \<and>
    write_bytes E p (replicate (unat n) 0) s1 =
      Some (s\<lparr>mod_next := Suc (mod_next s), mod_blocks := (mod_blocks s)(p \<mapsto> n),
        ktext := patch (ktext s) p (replicate (unat n) 0)\<rparr>)"
proof -
  let ?s1 = "s\<lparr>mod_next := Suc (mod_next s), mod_blocks := (mod_blocks s)(p \<mapsto> n),
    ktext := (\<lambda>a. if in_block p n a then Some (t_garbage E a) else ktext s a)\<rparr>"
  have blk: "in_block p n (p + of_nat j)" if "j < unat n" for j
    using that unat_u64 [of j] unat_le_u64 [of n] by (simp add: in_block_patch)
  then have "stores E ?s1 p (unat n)" using assms by (auto simp: stores_def fresh_block_def)
  moreover have "patch (ktext ?s1) p (replicate (unat n) 0) = patch (ktext s) p (replicate (unat n) 0)"
    by (rule ext) (simp add: patch_def in_block_patch)
  ultimately have "write_bytes E p (replicate (unat n) 0) ?s1 =
      Some (s\<lparr>mod_next := Suc (mod_next s), mod_blocks := (mod_blocks s)(p \<mapsto> n), ktext := patch (ktext s) p (replicate (unat n) 0)\<rparr>)"
    using write_bytes_stores [of E ?s1 p "replicate (unat n) 0"] unat_le_u64 [of n] by simp
  moreover have "malloc E n s = (Some p, ?s1)" using assms by (simp add: malloc_def fresh_block_def)
  ultimately show ?thesis by blast
qed

lemma hijack_found_done:
  assumes ft: "func_text E (ktext s) f src p out" and fb: "fresh_block E s (sym_size f) p"
  shows "hijack_found E f code s =
    Some ((0, f\<lparr>new_addr := p, new_size := of_nat (length out), run_addr := p, orig_start_bytes := take OP_JMP_SIZE src,
                hijacked := True\<rparr>), hijacked_state s f code p out)"
proof -
  let ?a = "sym_addr f" and ?n = "unat (sym_size f)"
  let ?z = "replicate ?n (0 :: byte)"
  define s2 where "s2 = s\<lparr>mod_next := Suc (mod_next s), mod_blocks := (mod_blocks s)(p \<mapsto> sym_size f), ktext := patch (ktext s) p ?z\<rparr>"
  obtain s1 where al: "malloc E (sym_size f) s = (Some p, s1)" "write_bytes E p ?z s1 = Some s2"
    using malloc_fresh [OF fb] by (auto simp: s2_def)
  note ft' = ft [unfolded func_text_def]
  have src: "read_bytes (ktext s) ?a ?n = Some src" "length src = ?n"
    using ft' read_bytes_length by auto
  have fresh: "\<forall>j<length ?z. ktext s (p + of_nat j) = None" using fb by (simp add: fresh_block_def)
  have sub: "ktext s \<subseteq>\<^sub>m ktext s2" using patch_fresh [OF fresh] by (simp add: s2_def)
  have first: "ktext s ?a = Some (hd src)"
    using read_bytes_nth [OF src(1), of 0] ft' src(2) by (cases src) (simp_all add: OP_JMP_SIZE_def)
  have z: "skip_zeros (ktext s2) ?a (?a + sym_size f) = Some (?a + of_nat (length (strip_zeros src)))"
    using skip_zeros_strip [OF belowD [OF read_bytes_below [OF sub] src(1)]] ft' src(2) by simp
  have strip: "length (strip_zeros src) \<le> ?n" "0 < length (strip_zeros src)" using strip_zeros_le [of src] src(2) ft' by simp_all
  then have "unat (of_nat (length (strip_zeros src)) :: u64) \<noteq> 0" using unat_u64 unat_le_u64 [of "sym_size f"] by simp
  then have ne: "?a \<noteq> ?a + of_nat (length (strip_zeros src))" by auto
  have lo: "length out \<le> ?n" "length out < 2 ^ 64" using ft' src(2) unat_le_u64 [of "sym_size f"] by auto
  have st: "stores E s2 p (length out)"
    using fb lo(1) unat_u64 unat_le_u64 [of "sym_size f"]
    by (auto simp: stores_def fresh_block_def s2_def patch_def)
  have cp: "copy_insns E f' ?a (?a + of_nat (length (strip_zeros src))) p s2 =
      Some (Inr (p + of_nat (length out)), s2\<lparr>ktext := patch (ktext s2) p out\<rparr>)"
    if "sym_addr f' = ?a" "sym_size f' = sym_size f" for f'
    using copy_insns_relocates [of f' _ "ktext s"] relocates_same [OF that] ft' sub st fresh lo by simp
  let ?s3 = "s2\<lparr>ktext := patch (ktext s2) p out\<rparr>"
  have pad: "patch (patch (ktext s) p ?z) p out = patch (ktext s) p (out @ replicate (?n - length out) 0)"
    using patch_inside [of 0 out ?z "ktext s" p] lo unat_le_u64 [of "sym_size f"] by simp
  then have k3: "ktext ?s3 = patch (ktext s) p (out @ replicate (?n - length out) 0)" by (simp add: s2_def)
  have "ktext s \<subseteq>\<^sub>m ktext ?s3"
    unfolding k3 by (rule patch_fresh) (use fresh lo in simp_all)
  then have start: "read_bytes (ktext ?s3) ?a OP_JMP_SIZE = Some (take OP_JMP_SIZE src)"
    using belowD [OF read_bytes_below read_bytes_take [OF src(1), of OP_JMP_SIZE]] ft' src(2) by simp
  let ?g = "f\<lparr>new_addr := p, new_size := p + of_nat (length out) - p, run_addr := p\<rparr>"
  have "one_page E (sym_addr ?g)" "read_bytes (ktext ?s3) (sym_addr ?g) OP_JMP_SIZE = Some (take OP_JMP_SIZE src)"
    using ft' start by simp_all
  note jump = put_jump_done [OF this, of code]
  have "\<not> unat (sym_size f) < OP_JMP_SIZE" "hd src \<noteq> OP_JMP_REL32" using ft' src(2) by simp_all
  then show ?thesis
    using first al z ne cp [of "f\<lparr>new_addr := p\<rparr>"] jump
    by (simp add: hijack_found_def hijacked_state_def pad s2_def Let_def)
qed

section \<open>Restoring\<close>

lemma patch_back:
  assumes "read_bytes m a (length bs) = Some cs" and "length bs < 2 ^ 64"
  shows "patch (patch m a bs) a cs = m"
proof
  fix x
  have len: "length cs = length bs" by (rule read_bytes_length [OF assms(1)])
  show "patch (patch m a bs) a cs x = m x"
  proof (cases "unat (x - a) < length bs")
    case True
    with read_bytes_nth [OF assms(1) True] len show ?thesis by (simp add: patch_def)
  next
    case False
    with len show ?thesis by (simp add: patch_def)
  qed
qed

lemma symbol_restore_done:
  assumes "hijacked ks" and "\<not> name_alloc ks" and "one_page E (sym_addr ks)" and "mapped (ktext s) (sym_addr ks) OP_JMP_SIZE"
    and "length (orig_start_bytes ks) = OP_JMP_SIZE" and "new_addr ks \<noteq> 0" and "mod_blocks s (new_addr ks) = Some n"
  shows "symbol_restore E ks s = Some (ks\<lparr>hijacked := False\<rparr>,
    s\<lparr>mod_blocks := (mod_blocks s)(new_addr ks := None),
      ktext := (\<lambda>x. if in_block (new_addr ks) n x then None else patch (ktext s) (sym_addr ks) (orig_start_bytes ks) x)\<rparr>)"
proof -
  obtain ro s1 where "set_addr_rw E (sym_addr ks) s = Some (ro, s1)" "ktext s1 = ktext s"
      "write_bytes E (sym_addr ks) (orig_start_bytes ks) s1 =
         Some (s1\<lparr>ktext := patch (ktext s) (sym_addr ks) (orig_start_bytes ks)\<rparr>)"
      "set_addr_ro E (sym_addr ks) ro (s1\<lparr>ktext := patch (ktext s) (sym_addr ks) (orig_start_bytes ks)\<rparr>) =
         Some (s\<lparr>ktext := patch (ktext s) (sym_addr ks) (orig_start_bytes ks)\<rparr>)"
    by (rule unprotected_write [OF assms(3-5)])
  then show ?thesis using assms by (simp add: symbol_restore_def malloc_free_def cong: if_cong)
qed

lemma restore_hijacked:
  assumes ft: "func_text E (ktext s) f src p out" and fb: "fresh_block E s (sym_size f) p" and na: "\<not> name_alloc f"
    and ks: "ks = f\<lparr>new_addr := p, new_size := of_nat (length out), run_addr := p, orig_start_bytes := take OP_JMP_SIZE src,
                hijacked := True\<rparr>"
  shows "symbol_restore E ks (hijacked_state s f code p out) = Some (ks\<lparr>hijacked := False\<rparr>, s\<lparr>mod_next := Suc (mod_next s)\<rparr>)"
proof -
  let ?a = "sym_addr f" and ?n = "unat (sym_size f)"
  define pad where "pad = out @ replicate (?n - length out) (0 :: byte)"
  let ?h = "hijacked_state s f code p out"
  note ft' = ft [unfolded func_text_def]
  have lp: "length pad = ?n" using ft' read_bytes_length by (fastforce simp: pad_def)
  have k: "ktext ?h = patch (patch (ktext s) p pad) ?a (jump_to ?a code)" "mod_blocks ?h = (mod_blocks s)(p \<mapsto> sym_size f)"
    by (simp_all add: hijacked_state_def pad_def)
  have fresh: "\<forall>j<length pad. ktext s (p + of_nat j) = None" using fb lp by (simp add: fresh_block_def)
  have sub: "ktext s \<subseteq>\<^sub>m patch (ktext s) p pad" by (rule patch_fresh [OF fresh]) simp
  have rd: "read_bytes (patch (ktext s) p pad) ?a OP_JMP_SIZE = Some (take OP_JMP_SIZE src)"
    using belowD [OF read_bytes_below [OF sub] read_bytes_take] ft' read_bytes_length by metis
  have "patch (ktext ?h) ?a (take OP_JMP_SIZE src) = patch (ktext s) p pad"
    unfolding k by (rule patch_back) (use rd in \<open>simp_all add: OP_JMP_SIZE_def\<close>)
  moreover have "(\<lambda>x. if in_block p (sym_size f) x then None else patch (ktext s) p pad x) = ktext s"
  proof
    fix x
    have "ktext s x = None" if "unat (x - p) < ?n"
      using fb that unfolding fresh_block_def by (auto dest!: spec [of _ "unat (x - p)"] simp: of_nat_unat)
    then show "(if in_block p (sym_size f) x then None else patch (ktext s) p pad x) = ktext s x"
      by (auto simp: in_block_patch patch_def lp)
  qed
  ultimately have kt: "(\<lambda>x. if in_block (new_addr ks) (sym_size f) x then None
      else patch (ktext ?h) (sym_addr ks) (orig_start_bytes ks) x) = ktext s"
    by (simp add: ks cong: if_cong)
  have mb: "(mod_blocks ?h)(new_addr ks := None) = mod_blocks s" using fb by (auto simp: fresh_block_def fun_eq_iff k(2) ks)
  have "mapped (ktext ?h) ?a OP_JMP_SIZE"
    unfolding k(1) mapped_def by (simp add: patch_at OP_JMP_SIZE_def)
  then have "symbol_restore E ks ?h = Some (ks\<lparr>hijacked := False\<rparr>, ?h\<lparr>mod_blocks := mod_blocks s, ktext := ktext s\<rparr>)"
    using symbol_restore_done [of ks E ?h "sym_size f"] ft' fb na k(2)
    unfolding kt mb by (simp add: ks fresh_block_def)
  moreover have "?h\<lparr>mod_blocks := mod_blocks s, ktext := ktext s\<rparr> = s\<lparr>mod_next := Suc (mod_next s)\<rparr>"
    by (cases s) (simp add: hijacked_state_def)
  ultimately show ?thesis by simp
qed

section \<open>Reach of a 32-bit offset\<close>

definition near :: "u64 \<Rightarrow> u64 \<Rightarrow> bool" where
  "near a b \<longleftrightarrow> - (2 ^ 31) \<le> sint (b - a) \<and> sint (b - a) < 2 ^ 31"

lemma scast_ucast_near:
  assumes "- (2 ^ 31) \<le> sint (x :: u64)" and "sint x < 2 ^ 31"
  shows "scast (ucast x :: u32) = x"
proof -
  have "sint (ucast x :: u32) = signed_take_bit 31 (sint x)"
    by (simp add: sint_uint unsigned_ucast_eq signed_take_bit_take_bit)
  also have "\<dots> = sint x" using assms by (intro signed_take_bit_int_eq_self) simp_all
  finally have e: "sint (ucast x :: u32) = sint x" .
  have "signed_take_bit 63 (sint x) = sint x" using assms by (intro signed_take_bit_int_eq_self) simp_all
  with e have "sint (scast (ucast x :: u32) :: u64) = sint x" by (simp add: signed_scast_eq)
  then show ?thesis by (simp add: signed_word_eqI)
qed

lemma offset_reaches: "near (a + n) b \<Longrightarrow> CODE_ADDR_FROM_OFFSET a n (CODE_OFFSET_FROM_ADDR a n b) = b"
  using scast_ucast_near [of "b - (a + n)"] by (simp add: CODE_ADDR_FROM_OFFSET_def CODE_OFFSET_FROM_ADDR_def near_def)

section \<open>Properties\<close>


text \<open>
  C16. When the symbol is found, its text can be copied and memory is there, hijacking succeeds:
  the function now starts with a jump to the hook, \<open>run\<close> points to the relocated copy, and
  nothing else changed.
\<close>

theorem hijack_redirects:
  assumes "find_symbol_address E ks name = (0, f)" and ft: "func_text E (ktext s) f src p out"
    and fb: "fresh_block E s (sym_size f) p" and nr: "near (sym_addr f + of_nat OP_JMP_SIZE) code"
  shows "\<exists>ks' s' i. symbol_hijack E ks name code s = Some ((0, ks'), s') \<and>
    hijacked ks' \<and> run_addr ks' = p \<and> read_bytes (ktext s') p (length out) = Some out \<and>
    insn_get_length (ktext s') (insn_init (sym_addr f) True) = Some i \<and> fld_bytes (opcode i) ! 0 = OP_JMP_REL32 \<and>
    unat (insn_length i) = OP_JMP_SIZE \<and>
    CODE_ADDR_FROM_OFFSET (sym_addr f) (ucast (insn_length i)) (fld_value (immediate i)) = code \<and>
    writable s' = writable s \<and>
    (\<forall>x. unat (x - sym_addr f) < OP_JMP_SIZE \<or> unat (x - p) < unat (sym_size f) \<or> ktext s' x = ktext s x)"
proof -
  let ?a = "sym_addr f" and ?s = "hijacked_state s f code p out"
  note ft' = ft [unfolded func_text_def]
  let ?pad = "out @ replicate (unat (sym_size f) - length out) (0 :: byte)"
  have k: "ktext ?s = patch (patch (ktext s) p ?pad) ?a (jump_to ?a code)" by (simp add: hijacked_state_def)
  have h: "symbol_hijack E ks name code s = Some ((0, f\<lparr>new_addr := p, new_size := of_nat (length out), run_addr := p,
      orig_start_bytes := take OP_JMP_SIZE src, hijacked := True\<rparr>), ?s)"
    using hijack_found_done [OF ft fb] assms(1) by (simp add: symbol_hijack_def)
  let ?off = "CODE_OFFSET_FROM_ADDR ?a (of_nat OP_JMP_SIZE) code"
  have jmp: "read_bytes (ktext ?s) ?a OP_JMP_SIZE = Some (jump_to ?a code)"
    using read_patch [of "jump_to ?a code" "patch (ktext s) p ?pad" ?a] by (simp add: k OP_JMP_SIZE_def)
  have op: "ktext ?s ?a = Some OP_JMP_REL32" "read_bytes (ktext ?s) (?a + 1) 4 = Some (le_enc 4 ?off)"
    using jmp by (auto simp: OP_JMP_SIZE_def jump_to_def eval_nat_numeral simp del: le_enc.simps dest!: bind_SomeD)
  obtain i where i: "insn_get_length (ktext ?s) (insn_init ?a True) = Some i" "simple_done ?a OP_JMP_REL32 4 (le_dec (le_enc 4 ?off)) i"
    using decode_rel32 [OF op(1) _ op(2)] by blast
  have "insn_length i = 5" "fld_value (immediate i) = ?off" "fld_bytes (opcode i) ! 0 = OP_JMP_REL32"
    using i(2) by (simp_all add: simple_done_def le_dec_enc)
  then have "unat (insn_length i) = OP_JMP_SIZE" "fld_bytes (opcode i) ! 0 = OP_JMP_REL32"
      "CODE_ADDR_FROM_OFFSET ?a (ucast (insn_length i)) (fld_value (immediate i)) = code"
    using offset_reaches [OF nr] by (simp_all add: OP_JMP_SIZE_def)
  moreover have "read_bytes (ktext ?s) p (length out) = Some out"
  proof (rule read_bytesI)
    fix j assume j: "j < length out"
    have lo: "length out \<le> unat (sym_size f)" using ft' read_bytes_length by fastforce
    then have "ktext s (p + of_nat j) = None" using fb j by (simp add: fresh_block_def)
    moreover have "ktext s x \<noteq> None" if "unat (x - ?a) < OP_JMP_SIZE" for x
      using read_bytes_nth [of "ktext s" ?a "unat (sym_size f)" src "unat (x - ?a)"] that ft' read_bytes_length
      by (fastforce simp: of_nat_unat)
    ultimately have "\<not> unat (p + of_nat j - ?a) < OP_JMP_SIZE" by blast
    then have "ktext ?s (p + of_nat j) = patch (ktext s) p ?pad (p + of_nat j)" by (simp add: k patch_def [of _ ?a])
    also have "\<dots> = Some (?pad ! j)"
      using j lo unat_le_u64 [of "sym_size f"] by (intro patch_at) simp_all
    finally show "ktext ?s (p + of_nat j) = Some (out ! j)" using j by (simp add: nth_append)
  qed simp
  moreover have "writable ?s = writable s" by (simp add: hijacked_state_def)
  moreover have "length ?pad = unat (sym_size f)" using ft' read_bytes_length by fastforce
  then have "unat (x - ?a) < OP_JMP_SIZE \<or> unat (x - p) < unat (sym_size f) \<or> ktext ?s x = ktext s x" for x
    by (auto simp: k patch_def)
  ultimately show ?thesis using h i(1) by (intro exI conjI allI) (assumption | simp)+
qed

text \<open>
  C17. Restoring takes a hijack back: text, page protection and blocks are those from before.
\<close>

theorem restore_undoes_hijack:
  assumes "find_symbol_address E ks name = (0, f)" and "func_text E (ktext s) f src p out"
    and "fresh_block E s (sym_size f) p" and "\<not> name_alloc f"
  shows "\<exists>ks' s'. symbol_hijack E ks name code s = Some ((0, ks'), s') \<and>
    symbol_restore E ks' s' = Some (ks'\<lparr>hijacked := False\<rparr>, s\<lparr>mod_next := Suc (mod_next s)\<rparr>)"
  using hijack_found_done [OF assms(2,3)] restore_hijacked [OF assms(2-4) refl] assms(1)
  by (simp add: symbol_hijack_def)

text \<open>
  C33. What stops a hijack leaves the text and the blocks alone: a symbol that is not found or
  not followed by another one, a function that starts with a jump, memory that is not there.
\<close>

theorem hijack_refused:
  assumes "ret < 0 \<and> find_symbol_address E ks name = (ret, f) \<or>
    find_symbol_address E ks name = (0, f) \<and> ktext s (sym_addr f) = Some OP_JMP_REL32 \<and> ret = - EFAULT \<or>
    find_symbol_address E ks name = (0, f) \<and> ktext s (sym_addr f) = Some b \<and> b \<noteq> OP_JMP_REL32 \<and>
      t_module_alloc E (mod_next s) (sym_size f) = None \<and> ret = - ENOMEM"
  shows "\<exists>ks' s'. symbol_hijack E ks name code s = Some ((ret, ks'), s') \<and> hijacked ks' = hijacked ks \<and>
    ktext s' = ktext s \<and> writable s' = writable s \<and> mod_blocks s' = mod_blocks s"
proof -
  have "hijacked f = hijacked ks" using assms
    by (auto simp: find_symbol_lookup Let_def simp del: dropWhile_eq_Nil_conv split: list.splits)
  with assms show ?thesis by (auto simp: symbol_hijack_def hijack_found_def malloc_def ENOMEM_def EFAULT_def)
qed

end
