(* ===== verification/HijackDemo.thy ===== *)
theory HijackDemo
  imports HijackProps
begin

text \<open>
  A kernel of one function on which the properties of hijacking are applied.
\<close>

section \<open>A small kernel\<close>

text \<open>A function that calls another one and returns, padded with two zeros.\<close>

definition demo_code :: "byte list" where
  "demo_code = [0xE8, 0xFB, 0x0F, 0, 0, 0xC3, 0, 0]"

definition demo_kernel :: text_state where
  "demo_kernel = \<lparr>ktext = patch Map.empty 0x1000 demo_code, writable = (\<lambda>p. p = 4), mod_blocks = Map.empty, mod_next = 0, km_next = 0\<rparr>"

definition demo_env :: text_env where
  "demo_env = \<lparr>t_pte = (\<lambda>a. Some (unat a div 4096)), t_module_alloc = (\<lambda>_ _. Some 0x4000), t_garbage = (\<lambda>_. 0xCC),
     t_kmalloc = (\<lambda>_. True), t_kallsyms = [(bytes ''vfs_mkdir'', 0x1000), (bytes ''vfs_rmdir'', 0x1008)],
     t_file = (\<lambda>_. Inl (- 2)), t_release = []\<rparr>"

definition demo_sym :: kernsym where
  "demo_sym = zero_sym\<lparr>sym_name := Some (bytes ''vfs_mkdir''), found := True, sym_addr := 0x1000, end_addr := 0x1008,
     sym_size := 8, new_size := 8, run_addr := 0x1000\<rparr>"

lemma demo_found: "find_symbol_address demo_env zero_sym (bytes ''vfs_mkdir'') = (0, demo_sym)"
  by (simp add: find_symbol_lookup demo_env_def demo_sym_def Let_def)

lemma demo_at: "j < 8 \<Longrightarrow> ktext demo_kernel (0x1000 + of_nat j) = Some (demo_code ! j)"
  using patch_at [of j demo_code Map.empty "0x1000"] by (simp add: demo_kernel_def demo_code_def)

lemma demo_bytes: "j + n \<le> 8 \<Longrightarrow> read_bytes (ktext demo_kernel) (0x1000 + of_nat j) n = Some (take n (drop j demo_code))"
  by (rule read_bytesI) (use demo_at [of "j + _"] in \<open>simp_all add: add.assoc demo_code_def\<close>)

lemma demo_call:
  "\<exists>i. decode64 (ktext demo_kernel) 0x1000 = Some i \<and> simple_done 0x1000 OP_CALL_REL32 4 0xFFB i"
proof -
  have "ktext demo_kernel 0x1000 = Some OP_CALL_REL32" using demo_at [of 0] by (simp add: demo_code_def OP_CALL_REL32_def)
  moreover have "read_bytes (ktext demo_kernel) (0x1000 + 1) 4 = Some [0xFB, 0x0F, 0, 0]"
    using demo_bytes [of 1 4] by (simp add: demo_code_def)
  ultimately show ?thesis
    using decode_rel32 [of "ktext demo_kernel" "0x1000" OP_CALL_REL32 "[0xFB, 0x0F, 0, 0]"]
    by (simp add: decode64_def)
qed

lemma attr_ret: "inat_get_opcode_attribute 0xC3 = 0"
  by (simp add: inat_get_opcode_attribute_def table_at_def inat_primary_table_def)

lemma demo_ret: "\<exists>i. decode64 (ktext demo_kernel) 0x1005 = Some i \<and> simple_done 0x1005 0xC3 0 0 i"
proof -
  have *: "ktext demo_kernel 0x1005 = Some 0xC3" using demo_at [of 5] by (simp add: demo_code_def)
  have "simple_opcode 0xC3" "\<not> inat_has_moffset (inat_get_opcode_attribute 0xC3)"
      "\<not> inat_has_immediate (inat_get_opcode_attribute 0xC3)"
    unfolding simple_opcode_def attr_ret Let_def by (simp_all add: inat_tests inat_numbers)
  with * show ?thesis unfolding decode64_def by (intro decode_simple)
qed

lemma demo_starts: "a = 0x1000 \<or> a = 0x1005 \<Longrightarrow> starts_within (ktext demo_kernel) a 15"
proof -
  have "\<not> inat_is_legacy_prefix (inat_get_opcode_attribute 0xE8)" "\<not> inat_is_legacy_prefix (inat_get_opcode_attribute 0xC3)"
    unfolding rel32_attr attr_ret by (simp_all add: inat_tests inat_masks inat_numbers)
  with demo_at [of 0] demo_at [of 5] show "a = 0x1000 \<or> a = 0x1005 \<Longrightarrow> starts_within (ktext demo_kernel) a 15"
    by (auto simp: starts_within_def demo_code_def intro: exI [of _ 0])
qed

lemma demo_relocates:
  "relocates demo_sym 0x1006 (ktext demo_kernel) 0x1000 0x4000 [0xE8, 0xFB, 0xDF, 0xFF, 0xFF, 0xC3]"
proof -
  let ?m = "ktext demo_kernel"
  obtain i where i: "decode64 ?m 0x1000 = Some i" "simple_done 0x1000 OP_CALL_REL32 4 0xFFB i" using demo_call by blast
  obtain j where j: "decode64 ?m 0x1005 = Some j" "simple_done 0x1005 0xC3 0 0 j" using demo_ret by blast
  have pl: "plain64 ?m 0x1000 i" "plain64 ?m 0x1005 j"
    using i(2) j(2) demo_starts by (simp_all add: plain64_def simple_done_def)
  have li: "insn_length i = 5" "insn_length j = 1" using i(2) j(2) by (simp_all add: simple_done_def)
  have rd: "read_bytes ?m 0x1000 5 = Some [0xE8, 0xFB, 0x0F, 0, 0]" "read_bytes ?m 0x1005 1 = Some [0xC3]"
    using demo_bytes [of 0 5] demo_bytes [of 5 1] by (simp_all add: demo_code_def)
  have ret: "relocates demo_sym 0x1006 ?m 0x1005 0x4005 (relocate demo_sym j [0xC3] 0x4005 @ [])"
    using j(1) pl(2) rd(2) li(2) by (intro relocates_step) (simp_all add: relocates_done)
  then have *: "relocates demo_sym 0x1006 ?m 0x1000 0x4000
      (relocate demo_sym i [0xE8, 0xFB, 0x0F, 0, 0] 0x4000 @ relocate demo_sym j [0xC3] 0x4005 @ [])"
    using i(1) pl(1) rd(1) li(1) by (intro relocates_step) simp_all
  have "rel_operand i = Some (1, 0xFFB)" "rel_operand j = None"
    using i(2) j(2) by (simp_all add: rel_operand_def is_rel32_def simple_done_def OP_CALL_REL32_def OP_JMP_REL32_def)
  moreover have "le_enc 4 (0xFFFFFFFFFFFFDFFB :: u32) = [0xFB, 0xDF, 0xFF, 0xFF]" by code_simp
  ultimately have "relocate demo_sym i [0xE8, 0xFB, 0x0F, 0, 0] 0x4000 = [0xE8, 0xFB, 0xDF, 0xFF, 0xFF]"
      "relocate demo_sym j [0xC3] 0x4005 = [0xC3]"
    using i(2) li
    by (simp_all add: relocate_def rel_target_def simple_done_def in_function_def demo_sym_def CODE_ADDR_FROM_OFFSET_def
        CODE_OFFSET_FROM_ADDR_def)
  with * show ?thesis by simp
qed

lemma demo_func_text:
  "func_text demo_env (ktext demo_kernel) demo_sym demo_code 0x4000 [0xE8, 0xFB, 0xDF, 0xFF, 0xFF, 0xC3]"
proof -
  have "strip_zeros demo_code = [0xE8, 0xFB, 0x0F, 0, 0, 0xC3]" by (simp add: strip_zeros_def demo_code_def)
  moreover have "t_pte demo_env (0x1000 + of_nat k) = Some 1" if "k < 5" for k
    using that unat_plus_of_nat [of "0x1000" k] by (simp add: demo_env_def)
  then have "one_page demo_env 0x1000" by (auto simp: one_page_def OP_JMP_SIZE_def)
  moreover have "read_bytes (ktext demo_kernel) 0x1000 8 = Some demo_code" using demo_bytes [of 0 8] by (simp add: demo_code_def)
  ultimately show ?thesis
    using demo_relocates by (simp add: func_text_def demo_sym_def demo_code_def OP_JMP_SIZE_def OP_JMP_REL32_def)
qed

lemma demo_block: "fresh_block demo_env demo_kernel 8 0x4000"
proof -
  have "unat (0x3000 + of_nat k :: u64) = 0x3000 + k" "unat (0x4000 + of_nat k :: u64) = 0x4000 + k" if "k < 8" for k
    using that unat_plus_of_nat [of "0x3000" k] unat_plus_of_nat [of "0x4000" k] by simp_all
  then show ?thesis
    by (auto simp: fresh_block_def demo_env_def demo_kernel_def patch_def demo_code_def)
qed

text \<open>The kernel with an empty block for the copy.\<close>

definition demo_writable :: text_state where
  "demo_writable = demo_kernel\<lparr>ktext := patch (ktext demo_kernel) 0x4000 (replicate 8 0)\<rparr>"

lemma demo_writable_stores: "ktext demo_kernel \<subseteq>\<^sub>m ktext demo_writable" "stores demo_env demo_writable 0x4000 8"
proof -
  have k: "k < 8 \<Longrightarrow> unat (0x4000 + of_nat k :: u64) = 0x4000 + k" for k using unat_plus_of_nat [of "0x4000" k] by simp
  have page: "k < 8 \<Longrightarrow> (0x4000 + k) div 4096 = (4 :: nat)" for k by (intro div_nat_eqI) simp_all
  have "\<forall>k<length (replicate 8 (0::byte)). ktext demo_kernel (0x4000 + of_nat k) = None"
    using demo_block by (simp add: fresh_block_def)
  then show "ktext demo_kernel \<subseteq>\<^sub>m ktext demo_writable" by (simp add: patch_fresh demo_writable_def)
  show "stores demo_env demo_writable 0x4000 8"
    using k page by (simp add: stores_def patch_at demo_env_def demo_writable_def) (simp add: demo_kernel_def)
qed

section \<open>Witnesses\<close>

lemma demo_near: "near (sym_addr demo_sym + of_nat OP_JMP_SIZE) 0x5000"
  by (simp add: near_def demo_sym_def OP_JMP_SIZE_def)

theorem hijack_redirects_witness:
  "\<exists>ks' s' i. symbol_hijack demo_env zero_sym (bytes ''vfs_mkdir'') 0x5000 demo_kernel = Some ((0, ks'), s') \<and> run_addr ks' = 0x4000 \<and>
     insn_get_length (ktext s') (insn_init 0x1000 True) = Some i \<and> fld_bytes (opcode i) ! 0 = OP_JMP_REL32"
proof -
  have sz: "sym_size demo_sym = 8" "sym_addr demo_sym = 0x1000" by (simp_all add: demo_sym_def)
  show ?thesis
    using hijack_redirects [OF demo_found demo_func_text demo_block [folded sz(1)] demo_near] unfolding sz by blast
qed

theorem restore_undoes_hijack_witness:
  "\<exists>ks' s'. symbol_hijack demo_env zero_sym (bytes ''vfs_mkdir'') 0x5000 demo_kernel = Some ((0, ks'), s') \<and>
     symbol_restore demo_env ks' s' = Some (ks'\<lparr>hijacked := False\<rparr>, demo_kernel\<lparr>mod_next := 1\<rparr>)"
proof -
  have sz: "sym_size demo_sym = 8" and na: "\<not> name_alloc demo_sym" by (simp_all add: demo_sym_def zero_sym_def)
  have "Suc (mod_next demo_kernel) = 1" by (simp add: demo_kernel_def)
  then show ?thesis
    using restore_undoes_hijack [OF demo_found demo_func_text demo_block [folded sz(1)] na, of "0x5000"] by simp
qed

theorem hijack_refused_witness:
  "\<exists>ks' s'. symbol_hijack demo_env zero_sym (bytes ''vfs_link'') 0x5000 demo_kernel = Some ((- EFAULT, ks'), s') \<and>
     ktext s' = ktext demo_kernel"
proof -
  have names: "cstr (bytes ''vfs_mkdir'') \<noteq> cstr (bytes ''vfs_link'')" "cstr (bytes ''vfs_rmdir'') \<noteq> cstr (bytes ''vfs_link'')"
    by code_simp+
  have "find_symbol_address demo_env zero_sym (bytes ''vfs_link'') =
      (- EFAULT, zero_sym\<lparr>sym_name := Some (bytes ''vfs_link''), found := False\<rparr>)"
    using names by (simp add: find_symbol_lookup demo_env_def Let_def)
  then show ?thesis
    using hijack_refused [of "- EFAULT" demo_env zero_sym "bytes ''vfs_link''" _ demo_kernel 0 "0x5000"]
    by (fastforce simp: EFAULT_def)
qed


end
