(* ===== verification/DecoderProps.thy ===== *)
theory DecoderProps
  imports HijackDemo
begin

text \<open>
  The promises of the instruction decoder, and the copy of a whole function that rests on them.
\<close>

section \<open>Where the operands are\<close>

text \<open>
  C31. A decoded instruction is its fields, one behind the other: the offsets the module patches
  at are the places of the operands, a near call or jump has a four-byte immediate, an operand
  relative to the instruction pointer a four-byte displacement, and the length is exact as long
  as the run of prefixes ends within 235 bytes.
\<close>

theorem instruction_layout:
  assumes "insn_get_length m (insn_init a True) = Some i" and "starts_within m a n" and "n \<le> 235"
  shows "kaddr i = a \<and> unat (insn_length i) \<le> n + 20 \<and> 0 < unat (insn_length i) \<and>
    unat (insn_length i) = insn_offset_immediate i + unat (nbytes (immediate i)) + unat (nbytes (immediate2 i)) \<and>
    m (a + of_nat (insn_offset_opcode i)) = Some (fld_bytes (opcode i) ! 0) \<and>
    holds m (a + of_nat (insn_offset_displacement i)) (displacement i) \<and>
    holds m (a + of_nat (insn_offset_immediate i)) (immediate i) \<and>
    (is_rel32 i \<longrightarrow> insn_is_avx i \<or> nbytes (immediate i) = 4 \<and> insn_offset_immediate i + 4 = unat (insn_length i)) \<and>
    insn_rip_relative m i = Some (nbytes (modrm i) \<noteq> 0 \<and> fld_value (modrm i) AND 0xC7 = 5, i) \<and>
    (nbytes (modrm i) \<noteq> 0 \<and> fld_value (modrm i) AND 0xC7 = 5 \<longrightarrow> nbytes (displacement i) = 4)"
proof -
  note w = insn_get_length_SomeD [OF assms] and r = rel32_layout [OF assms(1)] and p = rip_layout [OF assms(1)]
  have four: "taken x = 4 \<longleftrightarrow> nbytes x = 4" for x
    using word_unat_eq_iff [of "nbytes x" 4] by (simp add: taken_def)
  have zero: "taken x = 0 \<longleftrightarrow> nbytes x = 0" for x by (simp add: taken_def unat_eq_0)
  have "0 < unat (insn_length i)"
    using w(1) by (simp add: well_placed_def insn_offset_immediate_def insn_offset_displacement_def insn_offset_sib_def
        insn_offset_modrm_def taken_def)
  then show ?thesis using w r p unfolding well_placed_def four zero by (auto simp: taken_def)
qed

theorem instruction_layout_witness:
  "\<exists>i. insn_get_length (ktext demo_kernel) (insn_init 0x1000 True) = Some i \<and> kaddr i = 0x1000 \<and> unat (insn_length i) \<le> 35"
proof -
  obtain i where "insn_get_length (ktext demo_kernel) (insn_init 0x1000 True) = Some i"
    using demo_call by (auto simp: decode64_def)
  then show ?thesis using instruction_layout [of "ktext demo_kernel" "0x1000" i 15] demo_starts by auto
qed

section \<open>Termination\<close>

text \<open>
  C32. The decoder returns, with a length that is not 0, when the run of prefixes ends within
  235 bytes and 21 bytes behind it are mapped.
\<close>

theorem decoder_ends:
  assumes "mapped m a (n + 21)" and "starts_within m a n" and "n \<le> 235"
  shows "\<exists>i. insn_get_length m (insn_init a True) = Some i \<and> insn_length i \<noteq> 0"
proof -
  obtain i where i: "insn_get_length m (insn_init a True) = Some i" using length_total [of m a n] assms by (auto simp: room_def)
  then have "0 < unat (insn_length i)"
    using insn_get_length_SomeD(1) [OF i assms(2,3)]
    by (simp add: well_placed_def insn_offset_immediate_def insn_offset_displacement_def insn_offset_sib_def
        insn_offset_modrm_def taken_def)
  with i show ?thesis by auto
qed

theorem decoder_ends_witness: "\<exists>i. insn_get_length (\<lambda>_. Some 0xC3) (insn_init 0 True) = Some i \<and> insn_length i \<noteq> 0"
proof -
  have "starts_within (\<lambda>_. Some 0xC3) 0 1"
    unfolding starts_within_def using attr_ret by (auto simp: inat_tests)
  then show ?thesis using decoder_ends [of "\<lambda>_. Some 0xC3" 0 1] by (simp add: mapped_def)
qed

text \<open>
  Nothing in the decoder bounds the run of prefixes: in memory that holds one prefix byte
  only it never returns.
\<close>

theorem decoder_stuck_on_prefixes:
  assumes "\<forall>a. m a = Some b" and "inat_is_legacy_prefix (inat_get_opcode_attribute b)"
  shows "insn_get_length m (insn_init a x) = None"
  by (rule no_length_in_prefixes [OF assms])

theorem decoder_stuck_on_prefixes_witness: "insn_get_length (\<lambda>_. Some 0x26) (insn_init 0x1000 True) = None"
proof -
  have "inat_get_opcode_attribute 0x26 = INAT_MAKE_PREFIX INAT_PFX_ES"
    by (simp add: inat_get_opcode_attribute_def table_at_def inat_primary_table_def)
  then have "inat_is_legacy_prefix (inat_get_opcode_attribute 0x26)"
    by (simp add: inat_makers inat_tests inat_masks inat_numbers)
  then show ?thesis by (intro decoder_stuck_on_prefixes) simp_all
qed

section \<open>Copying a function\<close>



end
