(* ===== verification/Kernel_State.thy ===== *)
theory Kernel_State
  imports Codec
begin

text \<open>
  The module's data (\<open>fruk.h\<close>, \<open>module.h\<close>, \<open>usrlink.h\<close>), the global state
  \<open>FileReplData\<close> with the memory it points into, and the services of the Linux kernel
  the module calls. The services are not part of the repository: they are the fields of
  the record \<open>kernel\<close>, an argument of every operation that uses one, and what the
  module relies on is stated as predicates over that record.

  Memory is a supply of fresh blocks. The two kinds of tree entries live in the typed
  heaps \<open>set_mem\<close> and \<open>file_mem\<close>; \<open>kblocks\<close> records which other
  blocks are live and which allocator they came from.
\<close>

section \<open>Data\<close>

record GUID =
  Data1 :: u32
  Data2 :: u16
  Data3 :: u16
  Data4 :: "byte list"

definition guid_bytes :: "GUID \<Rightarrow> byte list" where
  "guid_bytes g = le_enc 4 (Data1 g) @ le_enc 2 (Data2 g) @ le_enc 2 (Data3 g) @ Data4 g"

definition FILEREPL_MAX_PATH :: nat where
  "FILEREPL_MAX_PATH = 260"

text \<open>
  The link words of \<open>struct rb_node\<close> are the tree itself, so the entry head keeps the
  GUID only; an entry starts with its head, which is a record extension here.
\<close>

record MONITOR_ENTRY_HEAD =
  guidSetId :: GUID

record MONITOR_SET_ENTRY = MONITOR_ENTRY_HEAD +
  wcsSetCacheDir :: "byte list"
  ullSetSeqNo :: u64
  ulFileCount :: u32

record MONITOR_FILE_ENTRY = MONITOR_ENTRY_HEAD +
  bInited :: u32
  bMonitor :: u32
  ullSeqNo :: u64
  bDirectory :: u32
  ulLength :: u32
  wcsMonitorFile :: "byte list"
  pSetEntry :: "addr option"

definition zero_guid :: GUID where
  "zero_guid = \<lparr>Data1 = 0, Data2 = 0, Data3 = 0, Data4 = replicate 8 0\<rparr>"

definition zero_set_entry :: MONITOR_SET_ENTRY where
  "zero_set_entry = \<lparr>guidSetId = zero_guid, wcsSetCacheDir = replicate FILEREPL_MAX_PATH 0,
     ullSetSeqNo = 0, ulFileCount = 0\<rparr>"

definition zero_file_entry :: MONITOR_FILE_ENTRY where
  "zero_file_entry = \<lparr>guidSetId = zero_guid, bInited = 0, bMonitor = 0, ullSeqNo = 0,
     bDirectory = 0, ulLength = 0, wcsMonitorFile = replicate FILEREPL_MAX_PATH 0,
     pSetEntry = None\<rparr>"

text \<open>
  One tree of entries. \<open>ItemLookAsideList\<close> says whether the slab cache exists; the
  fields \<open>listHead\<close> and \<open>ulSize\<close> are never used by the code.
\<close>

record MONITOR_ITEM_DATA =
  ulCounts :: u32
  ItemLookAsideList :: bool
  RBTree :: "addr tree"

text \<open>The I/O log record. The union after \<open>liSystemTime\<close> is kept in its \<open>write\<close> view.\<close>

record LOG_FILE_HEADER =
  ulHeaderSize :: u32
  ulType :: u32
  lhSeqNo :: u64
  lhGolbalSeqNo :: u64
  ulLogSize :: u32
  bIsDir :: u32
  wszFilePath :: "byte list"
  liSystemTime :: u64
  wrLength :: u32
  wrByteOffset :: u64

record LOG_FILE =
  hdr :: LOG_FILE_HEADER
  Reserved :: "byte list"
  Data :: "byte list"

record IOWRITE_CONTEXT =
  piowc :: addr
  iologpath_blk :: addr
  iologpath :: "byte list"
  logfile_blk :: addr
  logfile :: LOG_FILE

record FILEREPL_CONFIG =
  bMonitorFilesLoaded :: bool
  MonitorFiles :: MONITOR_ITEM_DATA
  MonitorSet :: MONITOR_ITEM_DATA
  bValid :: bool
  bNormalRunning :: bool
  dwLastNormalShutdown :: u32
  bDirty :: bool
  iowritequeue :: "IOWRITE_CONTEXT list"

record FILEREPL_DATA =
  Config :: FILEREPL_CONFIG
  bStopTask :: bool

section \<open>Messages from user space\<close>

record FILTER_ITEM =
  ulFileType :: u32
  wszFilterName :: "byte list"

record REALTIME_BACKUP_DATA =
  bdSize :: u32
  bdGuidSetId :: GUID
  ulFilterItemCounts :: u32
  wszBakCacheDir :: "byte list"
  FilterItems :: "FILTER_ITEM list"

record FILEREPL_NOTIFICATION =
  nType :: u32
  nNormalRunning :: u32
  BackupData :: REALTIME_BACKUP_DATA

text \<open>
  A message handed to the netlink socket by \<open>netlink_to_user\<close>: the length written into
  its header and its data.
\<close>

record user_message =
  um_dest :: int
  um_nlmsg_len :: nat
  um_data :: "byte list"

section \<open>The state of the module\<close>

datatype mm_segment = KERNEL_DS | USER_DS

datatype region = Kmalloc | Vmalloc | Page

record 'w kstate =
  FileReplData :: FILEREPL_DATA
  set_mem :: "addr \<Rightarrow> MONITOR_SET_ENTRY option"
  file_mem :: "addr \<Rightarrow> MONITOR_FILE_ENTRY option"
  next_blk :: addr
  kblocks :: "addr \<Rightarrow> region option"
  addr_limit :: mm_segment
  completions :: nat
  outbox :: "user_message list"
  world :: 'w

section \<open>The kernel's services\<close>

text \<open>
  \<open>k_alloc n\<close>: whether the allocation that would create block \<open>n\<close> succeeds.
  \<open>k_rb_*\<close>: the red-black tree functions of \<open>linux/rbtree.h\<close>; \<open>k_rb_stale t a\<close> is what
  reading the links of node \<open>a\<close> gives after it was erased from \<open>t\<close> and its memory
  returned to the slab cache (\<open>None\<close>: the read faults). \<open>k_rb_links\<close>: the raw link
  words of a node. \<open>k_open\<close>, \<open>k_read\<close>, \<open>k_write\<close>, \<open>k_close\<close>: \<open>filp_open\<close>,
  \<open>vfs_read\<close>, \<open>vfs_write\<close>, \<open>filp_close\<close>. \<open>k_time\<close>: \<open>current_kernel_time\<close> as
  seconds and nanoseconds. \<open>k_skb\<close>: whether \<open>alloc_skb\<close> succeeds. \<open>k_cache_*\<close>: whether
  \<open>kmem_cache_create\<close> succeeds. \<open>k_stack_int\<close>: the address of a local array of
  \<open>ConfigAddMonitorSet\<close>, converted to \<open>int\<close>.
\<close>

record 'w kernel =
  k_alloc :: "addr \<Rightarrow> bool"
  k_rb_insert_color :: "addr tree \<Rightarrow> addr \<Rightarrow> addr tree"
  k_rb_erase :: "addr tree \<Rightarrow> addr \<Rightarrow> addr tree"
  k_rb_first :: "addr tree \<Rightarrow> addr option"
  k_rb_next :: "addr tree \<Rightarrow> addr \<Rightarrow> addr option"
  k_rb_stale :: "addr tree \<Rightarrow> addr \<Rightarrow> addr option option"
  k_rb_links :: "addr tree \<Rightarrow> addr \<Rightarrow> byte list"
  k_open :: "mm_segment \<Rightarrow> byte list \<Rightarrow> nat \<Rightarrow> nat \<Rightarrow> 'w \<Rightarrow> (int + nat) \<times> 'w"
  k_read :: "mm_segment \<Rightarrow> nat \<Rightarrow> nat \<Rightarrow> nat \<Rightarrow> 'w \<Rightarrow> (int \<times> byte list) \<times> 'w"
  k_write :: "mm_segment \<Rightarrow> nat \<Rightarrow> nat \<Rightarrow> byte list \<Rightarrow> 'w \<Rightarrow> int \<times> 'w"
  k_close :: "nat \<Rightarrow> 'w \<Rightarrow> 'w"
  k_time :: "'w \<Rightarrow> u64 \<times> u64"
  k_skb :: "'w \<Rightarrow> bool"
  k_cache_files :: bool
  k_cache_sets :: bool
  k_stack_int :: int

text \<open>
  What \<open>linux/rbtree.h\<close> documents: rebalancing keeps the in-order sequence, erasing a
  node of the tree removes it from the sequence, first and next walk the sequence. A
  \<open>struct rb_node\<close> is 24 bytes.
\<close>

fun next_in :: "addr list \<Rightarrow> addr \<Rightarrow> addr option" where
  "next_in [] a = None"
| "next_in (x # xs) a = (if x = a then (case xs of [] \<Rightarrow> None | y # _ \<Rightarrow> Some y) else next_in xs a)"

definition first_of :: "addr list \<Rightarrow> addr option" where
  "first_of xs = (case xs of [] \<Rightarrow> None | x # _ \<Rightarrow> Some x)"

definition rbtree_laws :: "'w kernel \<Rightarrow> bool" where
  "rbtree_laws K \<longleftrightarrow>
     (\<forall>t a. inorder (k_rb_insert_color K t a) = inorder t) \<and>
     (\<forall>t a. a \<in> set_tree t \<longrightarrow> distinct (inorder t) \<longrightarrow>
        inorder (k_rb_erase K t a) = remove1 a (inorder t)) \<and>
     (\<forall>t. k_rb_first K t = first_of (inorder t)) \<and>
     (\<forall>t a. a \<in> set_tree t \<longrightarrow> k_rb_next K t a = next_in (inorder t) a) \<and>
     (\<forall>t a. length (k_rb_links K t a) = 24)"

lemma rbtree_lawsD:
  assumes "rbtree_laws K"
  shows "inorder (k_rb_insert_color K t a) = inorder t"
    and "a \<in> set_tree t \<Longrightarrow> distinct (inorder t) \<Longrightarrow> inorder (k_rb_erase K t a) = remove1 a (inorder t)"
    and "k_rb_first K t = first_of (inorder t)"
    and "a \<in> set_tree t \<Longrightarrow> k_rb_next K t a = next_in (inorder t) a"
    and "length (k_rb_links K t a) = 24"
  using assms by (auto simp: rbtree_laws_def)

text \<open>
  What the links of an erased and freed node can say. \<open>stale_in_tree\<close>: the read faults,
  or gives NULL or a node still in the tree. \<open>stale_next\<close>: the memory is still intact and
  the links lead to the in-order successor. The kernel promises neither; the second is
  what the deletion loops silently assume.
\<close>

definition stale_in_tree :: "'w kernel \<Rightarrow> bool" where
  "stale_in_tree K \<longleftrightarrow>
     (\<forall>t a b. a \<in> set_tree t \<longrightarrow> distinct (inorder t) \<longrightarrow> k_rb_stale K t a = Some (Some b) \<longrightarrow>
        b \<in> set_tree t \<and> b \<noteq> a)"

definition stale_next :: "'w kernel \<Rightarrow> bool" where
  "stale_next K \<longleftrightarrow> (\<forall>t a. a \<in> set_tree t \<longrightarrow> k_rb_stale K t a = Some (next_in (inorder t) a))"

lemma next_in_mem: "next_in xs a = Some b \<Longrightarrow> b \<in> set xs"
  by (induction xs) (auto split: if_splits list.splits)

lemma next_in_neq: "distinct xs \<Longrightarrow> next_in xs a = Some b \<Longrightarrow> b \<noteq> a"
  by (induction xs) (auto split: if_splits list.splits)

lemma stale_next_in_tree: "stale_next K \<Longrightarrow> stale_in_tree K"
  unfolding stale_next_def stale_in_tree_def
  using next_in_mem next_in_neq by (metis option.inject set_inorder)

lemma first_of_simps [simp]: "first_of [] = None" "first_of (x # xs) = Some x"
  by (simp_all add: first_of_def)

lemma next_in_append: "a \<notin> set xs \<Longrightarrow> next_in (xs @ a # ys) a = first_of ys"
  by (induction xs) (auto simp: first_of_def)

section \<open>Accessing the global state\<close>

abbreviation cfg :: "'w kstate \<Rightarrow> FILEREPL_CONFIG" where
  "cfg s \<equiv> Config (FileReplData s)"

definition upd_cfg :: "(FILEREPL_CONFIG \<Rightarrow> FILEREPL_CONFIG) \<Rightarrow> 'w kstate \<Rightarrow> 'w kstate" where
  "upd_cfg f s = s\<lparr>FileReplData := (FileReplData s)\<lparr>Config := f (cfg s)\<rparr>\<rparr>"

abbreviation set_tree_of :: "'w kstate \<Rightarrow> addr tree" where
  "set_tree_of s \<equiv> RBTree (MonitorSet (cfg s))"

abbreviation file_tree_of :: "'w kstate \<Rightarrow> addr tree" where
  "file_tree_of s \<equiv> RBTree (MonitorFiles (cfg s))"

text \<open>
  \<open>DelMonitorItemsBySetId\<close> is called on either tree through a \<open>MONITOR_FILE_DATA\<close>
  pointer: \<open>which\<close> is that pointer.
\<close>

datatype which = Files | Sets

fun items :: "which \<Rightarrow> 'w kstate \<Rightarrow> MONITOR_ITEM_DATA" where
  "items Files s = MonitorFiles (cfg s)"
| "items Sets s = MonitorSet (cfg s)"

fun upd_items :: "which \<Rightarrow> (MONITOR_ITEM_DATA \<Rightarrow> MONITOR_ITEM_DATA) \<Rightarrow> 'w kstate \<Rightarrow> 'w kstate" where
  "upd_items Files f s = upd_cfg (\<lambda>c. c\<lparr>MonitorFiles := f (MonitorFiles c)\<rparr>) s"
| "upd_items Sets f s = upd_cfg (\<lambda>c. c\<lparr>MonitorSet := f (MonitorSet c)\<rparr>) s"

fun head_guid :: "which \<Rightarrow> 'w kstate \<Rightarrow> addr \<Rightarrow> GUID option" where
  "head_guid Files s a = map_option guidSetId (file_mem s a)"
| "head_guid Sets s a = map_option guidSetId (set_mem s a)"

lemma upd_cfg_simps [simp]:
  "cfg (upd_cfg f s) = f (cfg s)"
  "bStopTask (FileReplData (upd_cfg f s)) = bStopTask (FileReplData s)"
  "set_mem (upd_cfg f s) = set_mem s"
  "file_mem (upd_cfg f s) = file_mem s"
  "next_blk (upd_cfg f s) = next_blk s"
  "kblocks (upd_cfg f s) = kblocks s"
  "addr_limit (upd_cfg f s) = addr_limit s"
  "completions (upd_cfg f s) = completions s"
  "outbox (upd_cfg f s) = outbox s"
  "world (upd_cfg f s) = world s"
  by (simp_all add: upd_cfg_def)

section \<open>Memory\<close>

text \<open>\<open>kmalloc\<close>, \<open>kzalloc\<close> and \<open>vmalloc\<close>: a fresh block, or NULL.\<close>

definition alloc_block :: "'w kernel \<Rightarrow> region \<Rightarrow> 'w kstate \<Rightarrow> addr option \<times> 'w kstate" where
  "alloc_block K r s =
     (if k_alloc K (next_blk s)
      then (Some (next_blk s),
            s\<lparr>next_blk := Suc (next_blk s), kblocks := (kblocks s)(next_blk s \<mapsto> r)\<rparr>)
      else (None, s\<lparr>next_blk := Suc (next_blk s)\<rparr>))"

text \<open>\<open>kfree\<close> and \<open>vfree\<close> of a block that is not live, or came from the other allocator, fault.\<close>

definition free_block :: "region \<Rightarrow> addr \<Rightarrow> 'w kstate \<Rightarrow> 'w kstate option" where
  "free_block r a s =
     (if kblocks s a = Some r then Some (s\<lparr>kblocks := (kblocks s)(a := None)\<rparr>) else None)"

text \<open>Freeing through a pointer that may be NULL.\<close>

definition free_opt :: "region \<Rightarrow> addr option \<Rightarrow> 'w kstate \<Rightarrow> 'w kstate option" where
  "free_opt r p s = (case p of None \<Rightarrow> Some s | Some a \<Rightarrow> free_block r a s)"

end
