(* ===== verification/Example.thy ===== *)
theory Example
  imports Kernel_State
begin

text \<open>
  A concrete kernel: allocation always succeeds, trees are rebuilt as lists, the only file
  with a content is the configuration file, and that content is the outside world. It
  shows that what the module relies on can hold, and the examples run on it.
\<close>

definition rtb_cnf :: "byte list" where
  "rtb_cnf = bytes ''/etc/rtb.cnf''"

text \<open>Writing \<open>d\<close> at offset \<open>off\<close> of a file with content \<open>b\<close>; a gap is filled with zeros.\<close>

definition write_at :: "nat \<Rightarrow> byte list \<Rightarrow> byte list \<Rightarrow> byte list" where
  "write_at off d b = take off (pad off b) @ d @ drop (off + length d) b"

fun spine :: "addr list \<Rightarrow> addr tree" where
  "spine [] = Leaf"
| "spine (a # as) = Node Leaf a (spine as)"

lemma inorder_spine [simp]: "inorder (spine as) = as"
  by (induction as) auto

definition example_kernel :: "byte list kernel" where
  "example_kernel =
     \<lparr>k_alloc = \<lambda>_. True,
      k_rb_insert_color = \<lambda>t a. t,
      k_rb_erase = \<lambda>t a. spine (remove1 a (inorder t)),
      k_rb_first = \<lambda>t. first_of (inorder t),
      k_rb_next = \<lambda>t a. next_in (inorder t) a,
      k_rb_stale = \<lambda>t a. Some (next_in (inorder t) a),
      k_rb_links = \<lambda>t a. replicate 24 0,
      k_open = \<lambda>seg path flags mode w. (Inr (if path = rtb_cnf then 3 else 4), w),
      k_read = \<lambda>seg f off n w. ((int (length (take n (drop off w))), take n (drop off w)), w),
      k_write = \<lambda>seg f off d w. (int (length d), if f = 3 then write_at off d w else w),
      k_close = \<lambda>f w. w,
      k_time = \<lambda>w. (1000, 500),
      k_skb = \<lambda>w. True,
      k_cache_files = True,
      k_cache_sets = True,
      k_stack_int = 4096\<rparr>"

lemma example_rbtree_laws: "rbtree_laws example_kernel"
  by (simp add: rbtree_laws_def example_kernel_def)

lemma example_stale_next: "stale_next example_kernel"
  by (simp add: stale_next_def example_kernel_def)

lemma example_kernel_simps [simp]:
  "k_alloc example_kernel a" "k_stack_int example_kernel = 4096"
  "k_cache_files example_kernel" "k_cache_sets example_kernel" "k_skb example_kernel w"
  "k_rb_insert_color example_kernel t a = t"
  by (simp_all add: example_kernel_def)

text \<open>A module with empty trees and the given configuration file.\<close>

definition example_state :: "byte list \<Rightarrow> byte list kstate" where
  "example_state w =
     \<lparr>FileReplData = \<lparr>Config = \<lparr>bMonitorFilesLoaded = False,
        MonitorFiles = \<lparr>ulCounts = 0, ItemLookAsideList = True, RBTree = Leaf\<rparr>,
        MonitorSet = \<lparr>ulCounts = 0, ItemLookAsideList = True, RBTree = Leaf\<rparr>,
        bValid = True, bNormalRunning = True, dwLastNormalShutdown = 0, bDirty = False,
        iowritequeue = []\<rparr>, bStopTask = False\<rparr>,
      set_mem = (\<lambda>_. None), file_mem = (\<lambda>_. None), next_blk = 1, kblocks = (\<lambda>_. None),
      addr_limit = USER_DS, completions = 0, outbox = [], world = w\<rparr>"

end
