(* ===== verification/RbTree.thy ===== *)
theory RbTree
  imports Example
begin

text \<open>
  \<open>rb.c\<close>: the search, insertion and removal routines the module writes over the kernel's
  red-black trees. A tree is an \<open>addr tree\<close>, its nodes are the addresses of the entries,
  and a node's entry is read through the typed heap, so a descent over a freed entry
  faults. The monitor sets are ordered by GUID; the monitored files are compared by
  \<open>strncmp\<close> with the length of the entry's path, so an entry matches every path it is a
  prefix of.
\<close>

section \<open>Monitor sets, by GUID\<close>

fun ms_search :: "(addr \<Rightarrow> MONITOR_SET_ENTRY option) \<Rightarrow> addr tree \<Rightarrow> GUID \<Rightarrow> addr option option" where
  "ms_search h Leaf guid = Some None"
| "ms_search h (Node l a r) guid =
     (case h a of
        None \<Rightarrow> None
      | Some data \<Rightarrow>
          let result = memcmp (guid_bytes guid) (guid_bytes (guidSetId data))
          in if result < 0 then ms_search h l guid
             else if result > 0 then ms_search h r guid
             else Some (Some a))"

text \<open>
  The descent of \<open>ms_insert\<close>: \<open>Some None\<close> is the \<open>return -1\<close> on an equal GUID,
  otherwise the new node \<open>a\<close> is stored in the NULL link the descent stops at
  (\<open>rb_link_node\<close>).
\<close>

fun ms_link :: "(addr \<Rightarrow> MONITOR_SET_ENTRY option) \<Rightarrow> GUID \<Rightarrow> addr \<Rightarrow> addr tree \<Rightarrow> addr tree option option" where
  "ms_link h guid a Leaf = Some (Some (Node Leaf a Leaf))"
| "ms_link h guid a (Node l b r) =
     (case h b of
        None \<Rightarrow> None
      | Some this \<Rightarrow>
          let result = memcmp (guid_bytes guid) (guid_bytes (guidSetId this))
          in if result < 0 then map_option (map_option (\<lambda>l'. Node l' b r)) (ms_link h guid a l)
             else if result > 0 then map_option (map_option (\<lambda>r'. Node l b r')) (ms_link h guid a r)
             else Some None)"

definition ms_insert ::
  "'w kernel \<Rightarrow> (addr \<Rightarrow> MONITOR_SET_ENTRY option) \<Rightarrow> addr tree \<Rightarrow> addr \<Rightarrow> (int \<times> addr tree) option" where
  "ms_insert K h root data =
     do { e \<leftarrow> h data;
          r \<leftarrow> ms_link h (guidSetId e) data root;
          Some (case r of
                  None \<Rightarrow> (-1, root)
                | Some root' \<Rightarrow> (0, k_rb_insert_color K root' data)) }"

definition ms_remove ::
  "'w kernel \<Rightarrow> (addr \<Rightarrow> MONITOR_SET_ENTRY option) \<Rightarrow> addr tree \<Rightarrow> GUID \<Rightarrow> (addr option \<times> addr tree) option" where
  "ms_remove K h root guid =
     do { pmse \<leftarrow> ms_search h root guid;
          Some (pmse, case pmse of None \<Rightarrow> root | Some a \<Rightarrow> k_rb_erase K root a) }"

section \<open>Monitored files, by path\<close>

fun mi_search :: "(addr \<Rightarrow> MONITOR_FILE_ENTRY option) \<Rightarrow> addr tree \<Rightarrow> byte list \<Rightarrow> addr option option" where
  "mi_search h Leaf pathname = Some None"
| "mi_search h (Node l a r) pathname =
     (case h a of
        None \<Rightarrow> None
      | Some data \<Rightarrow>
          let result = strncmp pathname (wcsMonitorFile data) (strlen (wcsMonitorFile data))
          in if result < 0 then mi_search h l pathname
             else if result > 0 then mi_search h r pathname
             else Some (Some a))"

fun mi_link :: "(addr \<Rightarrow> MONITOR_FILE_ENTRY option) \<Rightarrow> byte list \<Rightarrow> addr \<Rightarrow> addr tree \<Rightarrow> addr tree option option" where
  "mi_link h file a Leaf = Some (Some (Node Leaf a Leaf))"
| "mi_link h file a (Node l b r) =
     (case h b of
        None \<Rightarrow> None
      | Some this \<Rightarrow>
          let result = strncmp file (wcsMonitorFile this) (strlen (wcsMonitorFile this))
          in if result < 0 then map_option (map_option (\<lambda>l'. Node l' b r)) (mi_link h file a l)
             else if result > 0 then map_option (map_option (\<lambda>r'. Node l b r')) (mi_link h file a r)
             else Some None)"

definition mi_insert ::
  "'w kernel \<Rightarrow> (addr \<Rightarrow> MONITOR_FILE_ENTRY option) \<Rightarrow> addr tree \<Rightarrow> addr \<Rightarrow> (int \<times> addr tree) option" where
  "mi_insert K h root data =
     do { e \<leftarrow> h data;
          r \<leftarrow> mi_link h (wcsMonitorFile e) data root;
          Some (case r of
                  None \<Rightarrow> (-1, root)
                | Some root' \<Rightarrow> (0, k_rb_insert_color K root' data)) }"

definition mi_remove ::
  "'w kernel \<Rightarrow> (addr \<Rightarrow> MONITOR_FILE_ENTRY option) \<Rightarrow> addr tree \<Rightarrow> byte list \<Rightarrow> (addr option \<times> addr tree) option" where
  "mi_remove K h root pathname =
     do { pmfe \<leftarrow> mi_search h root pathname;
          Some (pmfe, case pmfe of None \<Rightarrow> root | Some a \<Rightarrow> k_rb_erase K root a) }"

section \<open>Search trees over a heap\<close>

text \<open>
  The nodes are live and their keys strictly increase along the in-order sequence. The
  definition goes over the sequence, which is all that rebalancing preserves.
\<close>

definition bst_list :: "('e \<Rightarrow> 'o::linorder) \<Rightarrow> (addr \<Rightarrow> 'e option) \<Rightarrow> addr list \<Rightarrow> bool" where
  "bst_list key h xs \<longleftrightarrow>
     (\<forall>a\<in>set xs. h a \<noteq> None) \<and> sorted_wrt (<) (map (\<lambda>a. key (the (h a))) xs)"

definition bst_ok :: "('e \<Rightarrow> 'o::linorder) \<Rightarrow> (addr \<Rightarrow> 'e option) \<Rightarrow> addr tree \<Rightarrow> bool" where
  "bst_ok key h t \<longleftrightarrow> bst_list key h (inorder t)"

lemma bst_list_Nil [simp]: "bst_list key h []"
  by (simp add: bst_list_def)

lemma bst_ok_Leaf [simp]: "bst_ok key h Leaf"
  by (simp add: bst_ok_def)

lemma bst_list_append:
  "bst_list key h (xs @ ys) \<longleftrightarrow>
     bst_list key h xs \<and> bst_list key h ys \<and>
     (\<forall>a\<in>set xs. \<forall>b\<in>set ys. key (the (h a)) < key (the (h b)))"
  by (auto simp: bst_list_def sorted_wrt_append)

lemma bst_list_Cons:
  "bst_list key h (x # xs) \<longleftrightarrow>
     h x \<noteq> None \<and> bst_list key h xs \<and> (\<forall>b\<in>set xs. key (the (h x)) < key (the (h b)))"
  by (auto simp: bst_list_def)

lemma bst_list_distinct: "bst_list key h xs \<Longrightarrow> distinct xs"
  by (induction xs) (auto simp: bst_list_Cons)

lemma bst_list_live: "bst_list key h xs \<Longrightarrow> a \<in> set xs \<Longrightarrow> \<exists>e. h a = Some e"
  by (auto simp: bst_list_def)

lemma bst_list_filter: "bst_list key h xs \<Longrightarrow> bst_list key h (filter P xs)"
  by (induction xs) (auto simp: bst_list_Cons)

lemma bst_list_remove1: "bst_list key h xs \<Longrightarrow> bst_list key h (remove1 a xs)"
  by (simp add: bst_list_filter bst_list_distinct distinct_remove1_removeAll removeAll_filter_not_eq)

lemma bst_list_cong:
  assumes eq: "\<And>a. a \<in> set xs \<Longrightarrow> map_option key (h a) = map_option key (h' a)"
  shows "bst_list key h xs = bst_list key h' xs"
proof -
  have live: "(\<forall>a\<in>set xs. h a \<noteq> None) \<longleftrightarrow> (\<forall>a\<in>set xs. h' a \<noteq> None)"
    using eq by (metis map_option_is_None)
  have "map (\<lambda>a. key (the (h a))) xs = map (\<lambda>a. key (the (h' a))) xs"
    if "\<forall>a\<in>set xs. h a \<noteq> None"
  proof (rule map_cong [OF refl])
    fix a assume a: "a \<in> set xs"
    with that live have "h a \<noteq> None" "h' a \<noteq> None" by auto
    with eq [OF a] show "key (the (h a)) = key (the (h' a))" by (auto simp: option.map_sel)
  qed
  then show ?thesis unfolding bst_list_def using live by metis
qed

lemma bst_list_key_inj:
  "bst_list key h xs \<Longrightarrow> a \<in> set xs \<Longrightarrow> b \<in> set xs \<Longrightarrow>
   key (the (h a)) = key (the (h b)) \<Longrightarrow> a = b"
  by (induction xs) (auto simp: bst_list_Cons)

lemma bst_ok_Node:
  "bst_ok key h (Node l a r) \<longleftrightarrow>
     bst_ok key h l \<and> bst_ok key h r \<and> h a \<noteq> None \<and>
     (\<forall>b\<in>set_tree l. key (the (h b)) < key (the (h a))) \<and>
     (\<forall>b\<in>set_tree r. key (the (h a)) < key (the (h b)))"
  by (auto simp: bst_ok_def bst_list_append bst_list_Cons) (meson less_trans)

lemma bst_ok_live: "bst_ok key h t \<Longrightarrow> a \<in> set_tree t \<Longrightarrow> \<exists>e. h a = Some e"
  by (simp add: bst_ok_def bst_list_live)

lemma bst_ok_distinct: "bst_ok key h t \<Longrightarrow> distinct (inorder t)"
  unfolding bst_ok_def by (rule bst_list_distinct)

section \<open>The contract of the two descents\<close>

text \<open>
  What \<open>ms_*\<close> and \<open>mi_*\<close> share: a search and an insertion descent steered by the sign of
  the same comparison of a probe with an entry, where a nonzero result agrees with a
  linear order on keys. A zero result need not mean equal keys (for paths it means
  prefix).
\<close>

locale ordered_descent =
  fixes cmp :: "'k \<Rightarrow> 'e \<Rightarrow> int"
    and key :: "'e \<Rightarrow> 'o::linorder"
    and pkey :: "'k \<Rightarrow> 'o"
    and search :: "(addr \<Rightarrow> 'e option) \<Rightarrow> addr tree \<Rightarrow> 'k \<Rightarrow> addr option option"
    and link :: "(addr \<Rightarrow> 'e option) \<Rightarrow> 'k \<Rightarrow> addr \<Rightarrow> addr tree \<Rightarrow> addr tree option option"
  assumes cmp_less: "cmp k e < 0 \<Longrightarrow> pkey k < key e"
    and cmp_greater: "0 < cmp k e \<Longrightarrow> key e < pkey k"
    and search_Leaf: "search h Leaf k = Some None"
    and search_Node: "search h (Node l a r) k =
      (case h a of None \<Rightarrow> None
       | Some e \<Rightarrow> if cmp k e < 0 then search h l k
                 else if 0 < cmp k e then search h r k else Some (Some a))"
    and link_Leaf: "link h k a Leaf = Some (Some (Node Leaf a Leaf))"
    and link_Node: "link h k a (Node l b r) =
      (case h b of None \<Rightarrow> None
       | Some e \<Rightarrow> if cmp k e < 0 then map_option (map_option (\<lambda>l'. Node l' b r)) (link h k a l)
                 else if 0 < cmp k e then map_option (map_option (\<lambda>r'. Node l b r')) (link h k a r)
                 else Some None)"
begin

lemma search_total: "\<forall>b\<in>set_tree t. h b \<noteq> None \<Longrightarrow> \<exists>r. search h t k = Some r"
  by (induction t) (auto simp: search_Leaf search_Node)

lemma search_hit:
  "search h t k = Some (Some a) \<Longrightarrow> a \<in> set_tree t \<and> (\<exists>e. h a = Some e \<and> cmp k e = 0)"
  by (induction t) (auto simp: search_Leaf search_Node split: option.splits if_splits)

text \<open>
  The search finds a matching entry when the comparison sends it the right way at every
  other node of the tree.
\<close>

lemma search_finds:
  assumes "bst_ok key h t" and "a \<in> set_tree t" and "h a = Some e" and "cmp k e = 0"
    and "\<And>b e'. b \<in> set_tree t \<Longrightarrow> h b = Some e' \<Longrightarrow>
           (key e < key e' \<longrightarrow> cmp k e' < 0) \<and> (key e' < key e \<longrightarrow> 0 < cmp k e')"
  shows "search h t k = Some (Some a)"
  using assms
proof (induction t)
  case Leaf
  then show ?case by simp
next
  case (Node l b r)
  from Node.prems(1) obtain e' where e': "h b = Some e'"
    by (auto simp: bst_ok_Node)
  from Node.prems(2) consider "a = b" | "a \<in> set_tree l" | "a \<in> set_tree r" by auto
  then show ?case
  proof cases
    case 1
    with Node.prems show ?thesis by (simp add: search_Node)
  next
    case 2
    with Node.prems e' have "key e < key e'" by (force simp: bst_ok_Node)
    with Node.prems(5)[of b] e' have "cmp k e' < 0" by simp
    moreover have "search h l k = Some (Some a)"
      using Node.prems 2 by (intro Node.IH(1)) (auto simp: bst_ok_Node)
    ultimately show ?thesis using e' by (simp add: search_Node)
  next
    case 3
    with Node.prems e' have "key e' < key e" by (force simp: bst_ok_Node)
    with Node.prems(5)[of b] e' have "0 < cmp k e'" by simp
    moreover have "search h r k = Some (Some a)"
      using Node.prems 3 by (intro Node.IH(2)) (auto simp: bst_ok_Node)
    ultimately show ?thesis using e' by (simp add: search_Node)
  qed
qed

lemma link_total: "\<forall>b\<in>set_tree t. h b \<noteq> None \<Longrightarrow> \<exists>r. link h k a t = Some r"
  by (induction t) (auto simp: link_Leaf link_Node split: option.splits)

text \<open>Search and insertion take the same way down: a refused insertion is a search that hits.\<close>

lemma link_refused_iff: "link h k a t = Some None \<longleftrightarrow> (\<exists>b. search h t k = Some (Some b))"
  by (induction t) (auto simp: search_Leaf search_Node link_Leaf link_Node split: option.splits)

lemma link_inorder:
  "link h k a t = Some (Some t') \<Longrightarrow> \<exists>xs ys. inorder t = xs @ ys \<and> inorder t' = xs @ a # ys"
proof (induction t arbitrary: t')
  case Leaf
  then show ?case by (auto simp: link_Leaf)
next
  case (Node l b r)
  from Node.prems obtain e where e: "h b = Some e"
    by (auto simp: link_Node split: option.splits)
  consider "cmp k e < 0" | "0 < cmp k e" | "cmp k e = 0" by linarith
  then show ?case
  proof cases
    case 1
    with Node.prems e obtain l' where "link h k a l = Some (Some l')" and "t' = Node l' b r"
      by (auto simp: link_Node)
    with Node.IH(1) show ?thesis by fastforce
  next
    case 2
    with Node.prems e obtain r' where r': "link h k a r = Some (Some r')" "t' = Node l b r'"
      by (auto simp: link_Node)
    from Node.IH(2)[OF r'(1)] obtain xs ys where "inorder r = xs @ ys" "inorder r' = xs @ a # ys"
      by blast
    with r'(2) show ?thesis by (intro exI [of _ "inorder l @ b # xs"] exI [of _ ys]) simp
  next
    case 3
    with Node.prems e show ?thesis by (simp add: link_Node)
  qed
qed

lemma link_set: "link h k a t = Some (Some t') \<Longrightarrow> set_tree t' = insert a (set_tree t)"
proof -
  assume "link h k a t = Some (Some t')"
  then obtain xs ys where "inorder t = xs @ ys" "inorder t' = xs @ a # ys"
    using link_inorder by blast
  then have "set (inorder t') = insert a (set (inorder t))" by auto
  then show ?thesis by simp
qed

lemma link_sorted:
  "bst_ok key h t \<Longrightarrow> h a = Some e \<Longrightarrow> key e = pkey k \<Longrightarrow>
   link h k a t = Some (Some t') \<Longrightarrow> bst_ok key h t'"
proof (induction t arbitrary: t')
  case Leaf
  then show ?case by (auto simp: link_Leaf bst_ok_Node)
next
  case (Node l b r)
  from Node.prems obtain e' where e': "h b = Some e'" by (auto simp: bst_ok_Node)
  consider "cmp k e' < 0" | "0 < cmp k e'" | "cmp k e' = 0" by linarith
  then show ?case
  proof cases
    case 1
    with Node.prems e' obtain l' where l': "link h k a l = Some (Some l')" "t' = Node l' b r"
      by (auto simp: link_Node)
    from Node.prems have "bst_ok key h l" by (simp add: bst_ok_Node)
    then have "bst_ok key h l'" by (rule Node.IH(1) [OF _ Node.prems(2,3) l'(1)])
    moreover have "key (the (h a)) < key e'"
      using cmp_less [OF 1] Node.prems(2,3) by simp
    ultimately show ?thesis
      using Node.prems(1) e' by (simp add: bst_ok_Node l'(2) link_set [OF l'(1)])
  next
    case 2
    with Node.prems e' obtain r' where r': "link h k a r = Some (Some r')" "t' = Node l b r'"
      by (auto simp: link_Node)
    from Node.prems have "bst_ok key h r" by (simp add: bst_ok_Node)
    then have "bst_ok key h r'" by (rule Node.IH(2) [OF _ Node.prems(2,3) r'(1)])
    moreover have "key e' < key (the (h a))"
      using cmp_greater [OF 2] Node.prems(2,3) by simp
    ultimately show ?thesis
      using Node.prems(1) e' by (simp add: bst_ok_Node r'(2) link_set [OF r'(1)])
  next
    case 3
    with Node.prems e' show ?thesis by (simp add: link_Node)
  qed
qed

lemma search_misses:
  "bst_ok key h t \<Longrightarrow> (\<And>b e. b \<in> set_tree t \<Longrightarrow> h b = Some e \<Longrightarrow> cmp k e \<noteq> 0) \<Longrightarrow>
   search h t k = Some None"
  using search_total [of t h k] search_hit [of h t k] bst_ok_live [of key h t]
  by (metis not_None_eq)

lemma link_accepts:
  "bst_ok key h t \<Longrightarrow> (\<And>b e. b \<in> set_tree t \<Longrightarrow> h b = Some e \<Longrightarrow> cmp k e \<noteq> 0) \<Longrightarrow>
   \<exists>t'. link h k a t = Some (Some t')"
  using search_misses [of h t k] link_total [of t h k a] link_refused_iff [of h k a t]
    bst_ok_live [of key h t]
  by (metis not_None_eq option.inject)

text \<open>A key beyond all others goes to the end of the sequence.\<close>

lemma link_last:
  assumes ok: "bst_ok key h t" and a: "h a = Some e" "key e = pkey k"
    and max: "\<And>b. b \<in> set_tree t \<Longrightarrow> key (the (h b)) < pkey k"
    and link: "link h k a t = Some (Some t')"
  shows "inorder t' = inorder t @ [a]"
proof -
  from link_inorder [OF link] obtain xs ys
    where split: "inorder t = xs @ ys" "inorder t' = xs @ a # ys" by blast
  have "bst_list key h (xs @ a # ys)"
    using link_sorted [OF ok a link] by (simp add: bst_ok_def split)
  then have above: "\<forall>b\<in>set ys. key e < key (the (h b))"
    using a by (simp add: bst_list_append bst_list_Cons)
  have "set (inorder t) = set_tree t" by simp
  then have "b \<in> set_tree t" if "b \<in> set ys" for b
    using that split(1) by auto
  with above max a(2) have "ys = []"
    by (metis less_asym list.set_intros(1) neq_Nil_conv)
  with split show ?thesis by simp
qed

end

text \<open>When a zero comparison means equal keys, the tree is a dictionary.\<close>

locale exact_descent = ordered_descent +
  assumes cmp_zero: "cmp k e = 0 \<longleftrightarrow> pkey k = key e"
begin

lemma search_iff:
  assumes ok: "bst_ok key h t"
  shows "search h t k = Some (Some a) \<longleftrightarrow>
     a \<in> set_tree t \<and> (\<exists>e. h a = Some e \<and> key e = pkey k)"
proof
  assume "search h t k = Some (Some a)"
  from search_hit [OF this] show "a \<in> set_tree t \<and> (\<exists>e. h a = Some e \<and> key e = pkey k)"
    by (auto simp: cmp_zero)
next
  assume "a \<in> set_tree t \<and> (\<exists>e. h a = Some e \<and> key e = pkey k)"
  then obtain e where a: "a \<in> set_tree t" "h a = Some e" "key e = pkey k" by blast
  have sign: "(key e < key e' \<longrightarrow> cmp k e' < 0) \<and> (key e' < key e \<longrightarrow> 0 < cmp k e')" for e'
    by (metis a(3) cmp_greater cmp_less cmp_zero less_imp_not_less linorder_cases)
  show "search h t k = Some (Some a)"
    using a sign by (intro search_finds [OF ok]) (auto simp: cmp_zero)
qed

lemma search_None_iff:
  assumes ok: "bst_ok key h t"
  shows "search h t k = Some None \<longleftrightarrow> (\<forall>a\<in>set_tree t. \<forall>e. h a = Some e \<longrightarrow> key e \<noteq> pkey k)"
proof -
  have "\<forall>b\<in>set_tree t. h b \<noteq> None" using bst_ok_live [OF ok] by blast
  then obtain r where "search h t k = Some r" using search_total by blast
  show ?thesis
  proof (cases r)
    case None
    with \<open>search h t k = Some r\<close> search_iff [OF ok, of k] show ?thesis by fastforce
  next
    case (Some a)
    with \<open>search h t k = Some r\<close> search_iff [OF ok, of k a] show ?thesis by auto
  qed
qed

end

section \<open>The module's descents keep the contract\<close>

abbreviation set_key :: "MONITOR_SET_ENTRY \<Rightarrow> byte list" where
  "set_key e \<equiv> guid_bytes (guidSetId e)"

abbreviation file_key :: "MONITOR_FILE_ENTRY \<Rightarrow> byte list" where
  "file_key e \<equiv> cstr (wcsMonitorFile e)"

interpretation ms: exact_descent
  "\<lambda>g e. memcmp (guid_bytes g) (set_key e)" set_key guid_bytes ms_search ms_link
  by unfold_locales (simp_all add: memcmp_order Let_def cong: option.case_cong)

interpretation mi: ordered_descent
  "\<lambda>p e. strncmp p (wcsMonitorFile e) (strlen (wcsMonitorFile e))" file_key cstr mi_search mi_link
  by unfold_locales (simp_all add: strncmp_less strncmp_greater Let_def cong: option.case_cong)

section \<open>Insertion and removal\<close>

lemma ms_insert_free:
  assumes "rbtree_laws K" and ok: "bst_ok set_key h t" and a: "h a = Some e"
    and free: "ms_search h t (guidSetId e) = Some None"
  shows "\<exists>t'. ms_insert K h t a = Some (0, t') \<and> bst_ok set_key h t' \<and>
    set_tree t' = insert a (set_tree t) \<and>
    ((\<forall>b\<in>set_tree t. set_key (the (h b)) < set_key e) \<longrightarrow> inorder t' = inorder t @ [a])"
proof -
  obtain t1 where t1: "ms_link h (guidSetId e) a t = Some (Some t1)"
    using free ms.link_total [of t h "guidSetId e" a] ms.link_refused_iff [of h "guidSetId e" a t]
      bst_ok_live [OF ok] by fastforce
  have in1: "inorder (k_rb_insert_color K t1 a) = inorder t1"
    by (rule rbtree_lawsD(1) [OF assms(1)])
  have "ms_insert K h t a = Some (0, k_rb_insert_color K t1 a)"
    using a t1 by (simp add: ms_insert_def)
  moreover have "bst_ok set_key h (k_rb_insert_color K t1 a)"
    using ms.link_sorted [OF ok a refl t1] by (simp add: bst_ok_def in1)
  moreover have "set_tree (k_rb_insert_color K t1 a) = insert a (set_tree t)"
    using ms.link_set [OF t1] in1 by (metis set_inorder)
  ultimately show ?thesis
    using in1 ms.link_last [OF ok a refl _ t1] by auto
qed

lemma ms_insert_ok:
  assumes "rbtree_laws K" and ok: "bst_ok set_key h t" and a: "h a = Some e"
    and new: "\<And>b e'. b \<in> set_tree t \<Longrightarrow> h b = Some e' \<Longrightarrow> set_key e' \<noteq> set_key e"
  shows "\<exists>t'. ms_insert K h t a = Some (0, t') \<and> bst_ok set_key h t' \<and>
    set_tree t' = insert a (set_tree t) \<and>
    ((\<forall>b\<in>set_tree t. set_key (the (h b)) < set_key e) \<longrightarrow> inorder t' = inorder t @ [a])"
proof (rule ms_insert_free [OF assms(1) ok a])
  show "ms_search h t (guidSetId e) = Some None"
    by (rule ms.search_misses [OF ok]) (metis memcmp_order(3) new)
qed

lemma ms_insert_taken:
  assumes "h a = Some e" and "ms_search h t (guidSetId e) = Some (Some b)"
  shows "ms_insert K h t a = Some (-1, t)"
  using assms ms.link_refused_iff [of h "guidSetId e" a t] by (auto simp: ms_insert_def)

lemma ms_search_cong:
  "(\<And>b. b \<in> set_tree t \<Longrightarrow> h b = h' b) \<Longrightarrow> ms_search h t k = ms_search h' t k"
  by (induction t) (auto simp: Let_def split: option.splits)

lemma mi_insert_free:
  assumes "rbtree_laws K" and ok: "bst_ok file_key h t" and a: "h a = Some e"
    and free: "mi_search h t (wcsMonitorFile e) = Some None"
  shows "\<exists>t'. mi_insert K h t a = Some (0, t') \<and> bst_ok file_key h t' \<and>
    set_tree t' = insert a (set_tree t) \<and>
    ((\<forall>b\<in>set_tree t. file_key (the (h b)) < file_key e) \<longrightarrow> inorder t' = inorder t @ [a])"
proof -
  obtain t1 where t1: "mi_link h (wcsMonitorFile e) a t = Some (Some t1)"
    using free mi.link_total [of t h "wcsMonitorFile e" a] mi.link_refused_iff [of h "wcsMonitorFile e" a t]
      bst_ok_live [OF ok] by fastforce
  have in1: "inorder (k_rb_insert_color K t1 a) = inorder t1"
    by (rule rbtree_lawsD(1) [OF assms(1)])
  have "mi_insert K h t a = Some (0, k_rb_insert_color K t1 a)"
    using a t1 by (simp add: mi_insert_def)
  moreover have "bst_ok file_key h (k_rb_insert_color K t1 a)"
    using mi.link_sorted [OF ok a refl t1] by (simp add: bst_ok_def in1)
  moreover have "set_tree (k_rb_insert_color K t1 a) = insert a (set_tree t)"
    using mi.link_set [OF t1] in1 by (metis set_inorder)
  ultimately show ?thesis
    using in1 mi.link_last [OF ok a refl _ t1] by auto
qed

lemma mi_insert_ok:
  assumes "rbtree_laws K" and ok: "bst_ok file_key h t" and a: "h a = Some e"
    and new: "\<And>b e'. b \<in> set_tree t \<Longrightarrow> h b = Some e' \<Longrightarrow> \<not> prefix (file_key e') (file_key e)"
  shows "\<exists>t'. mi_insert K h t a = Some (0, t') \<and> bst_ok file_key h t' \<and>
    set_tree t' = insert a (set_tree t) \<and>
    ((\<forall>b\<in>set_tree t. file_key (the (h b)) < file_key e) \<longrightarrow> inorder t' = inorder t @ [a])"
proof (rule mi_insert_free [OF assms(1) ok a])
  show "mi_search h t (wcsMonitorFile e) = Some None"
    by (rule mi.search_misses [OF ok]) (metis strncmp_zero new)
qed

lemma mi_insert_taken:
  assumes "h a = Some e" and "mi_search h t (wcsMonitorFile e) = Some (Some b)"
  shows "mi_insert K h t a = Some (-1, t)"
  using assms mi.link_refused_iff [of h "wcsMonitorFile e" a t] by (auto simp: mi_insert_def)

lemma mi_search_cong:
  "(\<And>b. b \<in> set_tree t \<Longrightarrow> h b = h' b) \<Longrightarrow> mi_search h t k = mi_search h' t k"
  by (induction t) (auto simp: Let_def split: option.splits)

lemma bst_ok_erase:
  assumes "rbtree_laws K" and ok: "bst_ok key h t" and a: "a \<in> set_tree t"
  shows "bst_ok key h (k_rb_erase K t a)" and "set_tree (k_rb_erase K t a) = set_tree t - {a}"
    and "inorder (k_rb_erase K t a) = remove1 a (inorder t)"
proof -
  show in1: "inorder (k_rb_erase K t a) = remove1 a (inorder t)"
    using rbtree_lawsD(2) [OF assms(1) a bst_ok_distinct [OF ok]] .
  show "bst_ok key h (k_rb_erase K t a)"
    using ok by (simp add: bst_ok_def in1 bst_list_remove1)
  show "set_tree (k_rb_erase K t a) = set_tree t - {a}"
    using in1 bst_ok_distinct [OF ok] by (metis set_inorder set_remove1_eq)
qed

section \<open>Prefix-free paths\<close>

text \<open>
  \<open>mi_search\<close> compares by prefix, so the order of the tree guides it only when no
  monitored path is a proper prefix of another.
\<close>

definition prefix_free :: "(addr \<Rightarrow> MONITOR_FILE_ENTRY option) \<Rightarrow> addr tree \<Rightarrow> bool" where
  "prefix_free h t \<longleftrightarrow>
     (\<forall>a\<in>set_tree t. \<forall>b\<in>set_tree t. \<forall>e e'. h a = Some e \<longrightarrow> h b = Some e' \<longrightarrow>
        prefix (file_key e) (file_key e') \<longrightarrow> a = b)"

lemma prefix_less_extend:
  fixes a b p :: "byte list"
  assumes "prefix a p" and "\<not> prefix a b" and "\<not> prefix b a"
  shows "a < b \<longleftrightarrow> p < b" and "b < a \<longleftrightarrow> b < p"
proof -
  from assms have "a \<parallel> b" by auto
  then obtain as x xs y ys where dec: "x \<noteq> y" "a = as @ x # xs" "b = as @ y # ys"
    using parallel_decomp by blast
  with assms(1) obtain zs where "p = as @ x # zs" by (auto simp: prefix_def)
  with dec show "a < b \<longleftrightarrow> p < b" "b < a \<longleftrightarrow> b < p"
    by (simp_all add: list_less_def lexord_append_leftI lexord_same_pref_iff)
qed

lemma mi_search_prefix_free:
  assumes ok: "bst_ok file_key h t" and free: "prefix_free h t"
  shows "mi_search h t p = Some (Some a) \<longleftrightarrow>
    a \<in> set_tree t \<and> (\<exists>e. h a = Some e \<and> prefix (file_key e) (cstr p))"
proof
  assume "mi_search h t p = Some (Some a)"
  from mi.search_hit [OF this] show "a \<in> set_tree t \<and> (\<exists>e. h a = Some e \<and> prefix (file_key e) (cstr p))"
    by (auto simp: strncmp_zero)
next
  assume "a \<in> set_tree t \<and> (\<exists>e. h a = Some e \<and> prefix (file_key e) (cstr p))"
  then obtain e where a: "a \<in> set_tree t" "h a = Some e" "prefix (file_key e) (cstr p)" by blast
  have dir: "(file_key e < file_key e' \<longrightarrow> strncmp p (wcsMonitorFile e') (strlen (wcsMonitorFile e')) < 0) \<and>
      (file_key e' < file_key e \<longrightarrow> 0 < strncmp p (wcsMonitorFile e') (strlen (wcsMonitorFile e')))"
    if b: "b \<in> set_tree t" "h b = Some e'" for b e'
  proof (cases "a = b")
    case True
    with a b show ?thesis by simp
  next
    case False
    then have par: "\<not> prefix (file_key e) (file_key e')" "\<not> prefix (file_key e') (file_key e)"
      using free a b unfolding prefix_free_def by metis+
    have "\<not> prefix (file_key e') (cstr p)"
      using a(3) par prefix_same_cases by blast
    then have "strncmp p (wcsMonitorFile e') (strlen (wcsMonitorFile e')) \<noteq> 0"
      by (simp add: strncmp_zero)
    with prefix_less_extend [OF a(3) par] strncmp_less [of p "wcsMonitorFile e'"]
      strncmp_greater [of p "wcsMonitorFile e'"]
    show ?thesis by (metis less_asym linorder_neqE_linordered_idom)
  qed
  show "mi_search h t p = Some (Some a)"
    using a dir by (intro mi.search_finds [OF ok]) (auto simp: strncmp_zero)
qed

end
