(* ===== verification/FileOp.thy ===== *)
theory FileOp
  imports RbTree
begin

text \<open>
  \<open>fileop.c\<close>: file access from inside the kernel. Every operation lifts the address
  limit of the current task around the one kernel call it makes and puts it back, so the
  kernel accepts a buffer of its own. \<open>filp_open\<close> gives an \<open>ERR_PTR\<close> (\<open>Inl\<close>) or a file.
\<close>

definition O_RDONLY :: nat where "O_RDONLY = 0"
definition O_WRONLY :: nat where "O_WRONLY = 1"
definition O_CREAT :: nat where "O_CREAT = 64"

text \<open>The result of \<open>vfs_read\<close> and \<open>vfs_write\<close> is stored in an \<open>int\<close>.\<close>

definition as_int :: "int \<Rightarrow> int" where
  "as_int r = sint (word_of_int r :: u32)"

definition set_fs :: "mm_segment \<Rightarrow> 'w kstate \<Rightarrow> 'w kstate" where
  "set_fs seg s = s\<lparr>addr_limit := seg\<rparr>"

definition file_open ::
  "'w kernel \<Rightarrow> byte list \<Rightarrow> nat \<Rightarrow> nat \<Rightarrow> 'w kstate \<Rightarrow> (int + nat) \<times> 'w kstate" where
  "file_open K path flags rights s =
     (let oldfs = addr_limit s;
          s = set_fs KERNEL_DS s;
          (filp, w) = k_open K (addr_limit s) path flags rights (world s)
      in (filp, set_fs oldfs (s\<lparr>world := w\<rparr>)))"

text \<open>
  \<open>file_read\<close> fills the front of the caller's buffer \<open>data\<close> with what the kernel
  delivers; \<open>file_write\<close> hands the first \<open>n\<close> bytes of its buffer to the kernel.
\<close>

definition file_read ::
  "'w kernel \<Rightarrow> nat \<Rightarrow> nat \<Rightarrow> byte list \<Rightarrow> nat \<Rightarrow> 'w kstate \<Rightarrow> (int \<times> byte list) \<times> 'w kstate" where
  "file_read K filp offset data n s =
     (let oldfs = addr_limit s;
          s = set_fs KERNEL_DS s;
          ((ret, b), w) = k_read K (addr_limit s) filp offset n (world s);
          got = take n b
      in ((as_int ret, got @ drop (length got) data), set_fs oldfs (s\<lparr>world := w\<rparr>)))"

definition file_write ::
  "'w kernel \<Rightarrow> nat \<Rightarrow> nat \<Rightarrow> byte list \<Rightarrow> nat \<Rightarrow> 'w kstate \<Rightarrow> int \<times> 'w kstate" where
  "file_write K filp offset data n s =
     (let oldfs = addr_limit s;
          s = set_fs KERNEL_DS s;
          (ret, w) = k_write K (addr_limit s) filp offset (take n data) (world s)
      in (as_int ret, set_fs oldfs (s\<lparr>world := w\<rparr>)))"

definition file_sync :: "nat \<Rightarrow> 'w kstate \<Rightarrow> int \<times> 'w kstate" where
  "file_sync filp s = (0, s)"

definition file_close :: "'w kernel \<Rightarrow> nat \<Rightarrow> 'w kstate \<Rightarrow> 'w kstate" where
  "file_close K filp s = s\<lparr>world := k_close K filp (world s)\<rparr>"

section \<open>What the operations do to the state\<close>

text \<open>
  Each is the kernel's answer under \<open>KERNEL_DS\<close>, and only the outside world changes: in
  particular the address limit is what it was.
\<close>

lemma file_open_eq:
  "file_open K path flags rights s =
     (let (r, w) = k_open K KERNEL_DS path flags rights (world s) in (r, s\<lparr>world := w\<rparr>))"
  by (simp add: file_open_def set_fs_def Let_def split: prod.split)

lemma file_read_eq:
  "file_read K f off data n s =
     (let ((r, b), w) = k_read K KERNEL_DS f off n (world s)
      in ((as_int r, take n b @ drop (length (take n b)) data), s\<lparr>world := w\<rparr>))"
  by (simp add: file_read_def set_fs_def Let_def split: prod.split)

lemma file_write_eq:
  "file_write K f off data n s =
     (let (r, w) = k_write K KERNEL_DS f off (take n data) (world s)
      in (as_int r, s\<lparr>world := w\<rparr>))"
  by (simp add: file_write_def set_fs_def Let_def split: prod.split)

lemma as_int_id: "- (2 ^ 31) \<le> r \<Longrightarrow> r < 2 ^ 31 \<Longrightarrow> as_int r = r"
  by (simp add: as_int_def signed_take_bit_int_eq_self sint_sbintrunc')

text \<open>Two states that differ in the outside world only.\<close>

definition same_kernel :: "'w kstate \<Rightarrow> 'w kstate \<Rightarrow> bool" where
  "same_kernel s s' \<longleftrightarrow> s' = s\<lparr>world := world s'\<rparr>"

lemma same_kernel_refl [simp]: "same_kernel s s"
  by (simp add: same_kernel_def)

lemma same_kernelE: "same_kernel s s' \<Longrightarrow> (\<And>w. s' = s\<lparr>world := w\<rparr> \<Longrightarrow> P) \<Longrightarrow> P"
  unfolding same_kernel_def by blast

lemma same_kernel_trans: "same_kernel a b \<Longrightarrow> same_kernel b c \<Longrightarrow> same_kernel a c"
  by (elim same_kernelE) (simp add: same_kernel_def)

lemma same_kernel_world [simp]: "same_kernel s (s\<lparr>world := w\<rparr>)"
  by (simp add: same_kernel_def)

lemma same_kernel_simps:
  assumes "same_kernel s s'"
  shows "FileReplData s' = FileReplData s" "set_mem s' = set_mem s" "file_mem s' = file_mem s"
    "next_blk s' = next_blk s" "kblocks s' = kblocks s" "addr_limit s' = addr_limit s"
    "completions s' = completions s" "outbox s' = outbox s"
  using assms by (auto elim: same_kernelE)

lemma file_open_same: "file_open K path flags rights s = (r, s') \<Longrightarrow> same_kernel s s'"
  by (auto simp: file_open_eq Let_def split: prod.splits)

lemma file_read_same: "file_read K f off data n s = (r, s') \<Longrightarrow> same_kernel s s'"
  by (auto simp: file_read_eq Let_def split: prod.splits)

lemma file_write_same: "file_write K f off data n s = (r, s') \<Longrightarrow> same_kernel s s'"
  by (auto simp: file_write_eq Let_def split: prod.splits)

lemma file_write_same' [simp]: "same_kernel s (snd (file_write K f off data n s))"
  by (metis file_write_same prod.collapse)

lemma file_close_same: "same_kernel s (file_close K f s)"
  by (simp add: file_close_def)

end
