(* ===== verification/Entry.thy ===== *)
theory Entry
  imports FileOp
begin

text \<open>
  The entries of the two trees (\<open>monitorset.c\<close>: \<open>EntryAlloc\<close>, \<open>EntryFree\<close> and their
  typed wrappers), the reading view of a monitored file's entry, the walk over a whole
  tree, and the invariants of the monitoring configuration.
\<close>

section \<open>Allocating and freeing entries\<close>

text \<open>
  The slab cache of a tree tells which typed heap an entry comes from. \<open>EntryAlloc\<close> gives
  NULL without a cache or without memory, and a zeroed entry otherwise.
\<close>

fun zero_entry :: "which \<Rightarrow> addr \<Rightarrow> 'w kstate \<Rightarrow> 'w kstate" where
  "zero_entry Sets a s = s\<lparr>set_mem := (set_mem s)(a \<mapsto> zero_set_entry)\<rparr>"
| "zero_entry Files a s = s\<lparr>file_mem := (file_mem s)(a \<mapsto> zero_file_entry)\<rparr>"

definition EntryAlloc :: "'w kernel \<Rightarrow> which \<Rightarrow> 'w kstate \<Rightarrow> addr option \<times> 'w kstate" where
  "EntryAlloc K c s =
     (if \<not> ItemLookAsideList (items c s) then (None, s)
      else let a = next_blk s; s1 = s\<lparr>next_blk := Suc a\<rparr>
           in if k_alloc K a then (Some a, zero_entry c a s1) else (None, s1))"

text \<open>\<open>kmem_cache_free\<close> of an object that is not live faults.\<close>

fun clear_entry :: "which \<Rightarrow> addr \<Rightarrow> 'w kstate \<Rightarrow> 'w kstate option" where
  "clear_entry Sets a s =
     (if set_mem s a = None then None else Some (s\<lparr>set_mem := (set_mem s)(a := None)\<rparr>))"
| "clear_entry Files a s =
     (if file_mem s a = None then None else Some (s\<lparr>file_mem := (file_mem s)(a := None)\<rparr>))"

definition EntryFree :: "which \<Rightarrow> addr option \<Rightarrow> 'w kstate \<Rightarrow> 'w kstate option" where
  "EntryFree c p s =
     (case p of
        Some a \<Rightarrow> if ItemLookAsideList (items c s) then clear_entry c a s else Some s
      | None \<Rightarrow> Some s)"

definition MonitorSetEntryAlloc :: "'w kernel \<Rightarrow> 'w kstate \<Rightarrow> addr option \<times> 'w kstate" where
  "MonitorSetEntryAlloc K s = EntryAlloc K Sets s"

definition MonitorSetEntryFree :: "addr option \<Rightarrow> 'w kstate \<Rightarrow> 'w kstate option" where
  "MonitorSetEntryFree pmse s = (if pmse \<noteq> None then EntryFree Sets pmse s else Some s)"

definition MonitorFileEntryAlloc :: "'w kernel \<Rightarrow> 'w kstate \<Rightarrow> addr option \<times> 'w kstate" where
  "MonitorFileEntryAlloc K s = EntryAlloc K Files s"

definition MonitorFileEntryFree :: "addr option \<Rightarrow> 'w kstate \<Rightarrow> 'w kstate option" where
  "MonitorFileEntryFree pmfe s = (if pmfe \<noteq> None then EntryFree Files pmfe s else Some s)"

section \<open>Reading the path of an entry\<close>

text \<open>
  The searches call \<open>strlen\<close> on the path of every entry they pass, which runs off an
  entry whose path holds no NUL. They therefore see the heap through \<open>file_view\<close>, where
  such an entry is not readable.
\<close>

definition readable :: "(addr \<Rightarrow> MONITOR_FILE_ENTRY option) \<Rightarrow> addr \<Rightarrow> MONITOR_FILE_ENTRY option" where
  "readable h a =
     (case h a of
        Some e \<Rightarrow> if terminated (wcsMonitorFile e) then Some e else None
      | None \<Rightarrow> None)"

abbreviation file_view :: "'w kstate \<Rightarrow> addr \<Rightarrow> MONITOR_FILE_ENTRY option" where
  "file_view s \<equiv> readable (file_mem s)"

lemma readable_Some: "readable h a = Some e \<longleftrightarrow> h a = Some e \<and> terminated (wcsMonitorFile e)"
  by (auto simp: readable_def split: option.splits)

lemma readable_upd:
  "readable (h(a := x)) = (readable h)(a := (case x of
     Some e \<Rightarrow> if terminated (wcsMonitorFile e) then Some e else None | None \<Rightarrow> None))"
  by (auto simp: readable_def fun_eq_iff)

section \<open>Walking a tree\<close>

text \<open>
  A loop over a tree whose body either goes on with the in-order successor or leaves the
  loop ends, with \<open>P\<close> on the whole sequence or with the exit condition.
\<close>

lemma rb_for_walk:
  assumes step: "\<And>ys a zs s. xs = ys @ a # zs \<Longrightarrow> P ys s \<Longrightarrow>
      \<exists>n s'. body a s = Some (n, s') \<and> (n = first_of zs \<and> P (ys @ [a]) s' \<or> n = None \<and> Q s')"
    and init: "P [] s"
  shows "\<exists>s'. rb_for body (first_of xs) s = Some s' \<and> (P xs s' \<or> Q s')"
proof -
  have "\<exists>s'. rb_for body (first_of zs) s = Some s' \<and> (P xs s' \<or> Q s')"
    if "xs = ys @ zs" and "P ys s" for ys zs s
    using that
  proof (induction zs arbitrary: ys s)
    case Nil
    then show ?case by simp
  next
    case (Cons a zs)
    from step [OF Cons.prems] obtain n s' where body: "body a s = Some (n, s')"
      and cont: "n = first_of zs \<and> P (ys @ [a]) s' \<or> n = None \<and> Q s'" by blast
    from cont show ?case
    proof
      assume "n = first_of zs \<and> P (ys @ [a]) s'"
      with Cons.IH [of "ys @ [a]" s'] Cons.prems(1) body show ?thesis
        by (simp add: rb_for_node)
    next
      assume "n = None \<and> Q s'"
      with body show ?thesis by (simp add: rb_for_node)
    qed
  qed
  from this [of "[]" xs s] init show ?thesis by simp
qed

section \<open>The invariants\<close>

definition wf_guid :: "GUID \<Rightarrow> bool" where
  "wf_guid g \<longleftrightarrow> length (Data4 g) = 8"

definition wf_set_entry :: "MONITOR_SET_ENTRY \<Rightarrow> bool" where
  "wf_set_entry e \<longleftrightarrow> wf_guid (guidSetId e) \<and> length (wcsSetCacheDir e) = FILEREPL_MAX_PATH"

definition wf_file_entry :: "MONITOR_FILE_ENTRY \<Rightarrow> bool" where
  "wf_file_entry e \<longleftrightarrow> wf_guid (guidSetId e) \<and> length (wcsMonitorFile e) = FILEREPL_MAX_PATH"

text \<open>
  \<open>config_inv\<close>: both slab caches exist, both trees are search trees over live (and, for
  files, readable) entries, no address is handed out twice, and arrays keep their size.
\<close>

definition config_inv :: "'w kstate \<Rightarrow> bool" where
  "config_inv s \<longleftrightarrow>
     ItemLookAsideList (MonitorSet (cfg s)) \<and> ItemLookAsideList (MonitorFiles (cfg s)) \<and>
     bst_ok set_key (set_mem s) (set_tree_of s) \<and>
     bst_ok file_key (file_view s) (file_tree_of s) \<and>
     (\<forall>a e. set_mem s a = Some e \<longrightarrow> a < next_blk s \<and> wf_set_entry e) \<and>
     (\<forall>a e. file_mem s a = Some e \<longrightarrow> a < next_blk s \<and> wf_file_entry e)"

text \<open>
  \<open>link_inv\<close>: a monitored file that caches a pointer to its set points to the live set
  with its GUID.
\<close>

definition link_inv :: "'w kstate \<Rightarrow> bool" where
  "link_inv s \<longleftrightarrow>
     (\<forall>a\<in>set_tree (file_tree_of s). \<forall>e p. file_mem s a = Some e \<longrightarrow> pSetEntry e = Some p \<longrightarrow>
        p \<in> set_tree (set_tree_of s) \<and>
        map_option set_key (set_mem s p) = Some (guid_bytes (guidSetId e)))"

lemma config_invD:
  assumes "config_inv s"
  shows "ItemLookAsideList (items c s)"
    and "bst_ok set_key (set_mem s) (set_tree_of s)"
    and "bst_ok file_key (file_view s) (file_tree_of s)"
    and "set_mem s a = Some e \<Longrightarrow> a < next_blk s \<and> wf_set_entry e"
    and "file_mem s a = Some f \<Longrightarrow> a < next_blk s \<and> wf_file_entry f"
  using assms by (cases c; simp add: config_inv_def)+

lemma wf_zero_entries [simp]:
  "wf_guid zero_guid" "wf_set_entry zero_set_entry" "wf_file_entry zero_file_entry"
  by (simp_all add: wf_guid_def wf_set_entry_def wf_file_entry_def zero_guid_def
      zero_set_entry_def zero_file_entry_def)

lemma guid_bytes_inj:
  assumes "wf_guid g" and "wf_guid g'" and eq: "guid_bytes g = guid_bytes g'"
  shows "g = g'"
proof -
  have "le_enc 4 (Data1 g) = le_enc 4 (Data1 g')" "le_enc 2 (Data2 g) = le_enc 2 (Data2 g')"
    "le_enc 2 (Data3 g) = le_enc 2 (Data3 g')" "Data4 g = Data4 g'"
    using eq by (simp_all add: guid_bytes_def)
  then show ?thesis
    using le32.enc_inj le16.enc_inj by (intro GUID.equality) simp_all
qed

lemma config_inv_same: "same_kernel s s' \<Longrightarrow> config_inv s' = config_inv s"
  by (simp add: config_inv_def same_kernel_simps)

lemma link_inv_same: "same_kernel s s' \<Longrightarrow> link_inv s' = link_inv s"
  by (simp add: link_inv_def same_kernel_simps)

lemma set_node_live:
  "config_inv s \<Longrightarrow> a \<in> set_tree (set_tree_of s) \<Longrightarrow> \<exists>e. set_mem s a = Some e \<and> wf_set_entry e"
  by (metis bst_ok_live config_invD(2,4))

lemma file_node_live:
  "config_inv s \<Longrightarrow> a \<in> set_tree (file_tree_of s) \<Longrightarrow>
   \<exists>e. file_mem s a = Some e \<and> terminated (wcsMonitorFile e) \<and> wf_file_entry e"
  by (metis bst_ok_live config_invD(3,5) readable_Some)

lemma bst_ok_upd:
  "a \<notin> set_tree t \<Longrightarrow> bst_ok key (h(a := x)) t = bst_ok key h t"
  unfolding bst_ok_def by (rule bst_list_cong) auto

lemma config_inv_fresh:
  assumes "config_inv s"
  shows "next_blk s \<notin> set_tree (set_tree_of s)" "next_blk s \<notin> set_tree (file_tree_of s)"
    "set_mem s (next_blk s) = None" "file_mem s (next_blk s) = None"
  using assms by (meson config_invD(4,5) file_node_live less_irrefl set_node_live not_Some_eq)+

end
