(* ===== verification/ConfigFile.thy ===== *)
theory ConfigFile
  imports Entry
begin

text \<open>
  The configuration file \<open>/etc/rtb.cnf\<close> (\<open>SaveConfig\<close> and \<open>LoadConfig\<close> of
  \<open>monitorset.c\<close>): the on-disk image of the header and of the two kinds of entries (the
  raw structures of \<open>fruk.h\<close>, packed, on a 64-bit machine), the writer, the reader.
\<close>

section \<open>Images of the structures\<close>

record CONFIG_FILE_HEADER =
  cfHeaderSize :: u32
  ulOffsetSet :: u32
  ulSizeSet :: u32
  ulOffsetFiles :: u32
  ulSizeFiles :: u32
  ulLastShutdownStatus :: u32

definition sizeof_CONFIG_FILE_HEADER :: nat where "sizeof_CONFIG_FILE_HEADER = 24"
definition sizeof_MONITOR_SET_ENTRY :: nat where "sizeof_MONITOR_SET_ENTRY = 312"
definition sizeof_MONITOR_FILE_ENTRY :: nat where "sizeof_MONITOR_FILE_ENTRY = 332"

lemmas sizeof_defs = sizeof_CONFIG_FILE_HEADER_def sizeof_MONITOR_SET_ENTRY_def
  sizeof_MONITOR_FILE_ENTRY_def

definition enc_header :: "CONFIG_FILE_HEADER \<Rightarrow> byte list" where
  "enc_header c = le_enc 4 (cfHeaderSize c) @ le_enc 4 (ulOffsetSet c) @ le_enc 4 (ulSizeSet c) @
     le_enc 4 (ulOffsetFiles c) @ le_enc 4 (ulSizeFiles c) @ le_enc 4 (ulLastShutdownStatus c)"

definition dec_header :: "byte list \<Rightarrow> CONFIG_FILE_HEADER" where
  "dec_header b = \<lparr>cfHeaderSize = le_dec (field 0 4 b), ulOffsetSet = le_dec (field 4 4 b),
     ulSizeSet = le_dec (field 8 4 b), ulOffsetFiles = le_dec (field 12 4 b),
     ulSizeFiles = le_dec (field 16 4 b), ulLastShutdownStatus = le_dec (field 20 4 b)\<rparr>"

definition dec_guid :: "byte list \<Rightarrow> GUID" where
  "dec_guid b = \<lparr>Data1 = le_dec (field 0 4 b), Data2 = le_dec (field 4 2 b),
     Data3 = le_dec (field 6 2 b), Data4 = field 8 8 b\<rparr>"

text \<open>An entry on disk starts with the raw link words of its tree node.\<close>

fun enc_set_entry :: "byte list \<times> MONITOR_SET_ENTRY \<Rightarrow> byte list" where
  "enc_set_entry (links, e) = links @ guid_bytes (guidSetId e) @ wcsSetCacheDir e @
     le_enc 8 (ullSetSeqNo e) @ le_enc 4 (ulFileCount e)"

definition dec_set_entry :: "byte list \<Rightarrow> MONITOR_SET_ENTRY" where
  "dec_set_entry b = \<lparr>guidSetId = dec_guid (field 24 16 b), wcsSetCacheDir = field 40 260 b,
     ullSetSeqNo = le_dec (field 300 8 b), ulFileCount = le_dec (field 308 4 b)\<rparr>"

definition enc_ptr :: "addr option \<Rightarrow> u64" where
  "enc_ptr p = (case p of None \<Rightarrow> 0 | Some a \<Rightarrow> of_nat a)"

definition dec_ptr :: "u64 \<Rightarrow> addr option" where
  "dec_ptr w = (if w = 0 then None else Some (unat w))"

fun enc_file_entry :: "byte list \<times> MONITOR_FILE_ENTRY \<Rightarrow> byte list" where
  "enc_file_entry (links, e) = links @ guid_bytes (guidSetId e) @
     le_enc 4 (bInited e) @ le_enc 4 (bMonitor e) @ le_enc 8 (ullSeqNo e) @
     le_enc 4 (bDirectory e) @ le_enc 4 (ulLength e) @ wcsMonitorFile e @
     le_enc 8 (enc_ptr (pSetEntry e))"

definition dec_file_entry :: "byte list \<Rightarrow> MONITOR_FILE_ENTRY" where
  "dec_file_entry b = \<lparr>guidSetId = dec_guid (field 24 16 b),
     bInited = le_dec (field 40 4 b), bMonitor = le_dec (field 44 4 b),
     ullSeqNo = le_dec (field 48 8 b), bDirectory = le_dec (field 56 4 b),
     ulLength = le_dec (field 60 4 b), wcsMonitorFile = field 64 260 b,
     pSetEntry = dec_ptr (le_dec (field 324 8 b))\<rparr>"

section \<open>Writing\<close>

text \<open>
  The loop over the sets; the loop's state holds whether no write failed so far, the
  offset, the header under construction and the module's state.
\<close>

definition save_set ::
  "'w kernel \<Rightarrow> nat \<Rightarrow> addr \<Rightarrow> bool \<times> u32 \<times> CONFIG_FILE_HEADER \<times> 'w kstate \<Rightarrow>
   (addr option \<times> bool \<times> u32 \<times> CONFIG_FILE_HEADER \<times> 'w kstate) option" where
  "save_set K filep node st =
     (case st of (_, writeoffset, cfh, s) \<Rightarrow>
      do { pmse \<leftarrow> set_mem s node;
           let (n, s1) = file_write K filep (unat writeoffset)
                 (enc_set_entry (k_rb_links K (set_tree_of s) node, pmse)) sizeof_MONITOR_SET_ENTRY s
           in if n \<noteq> int sizeof_MONITOR_SET_ENTRY
              then Some (None, False, writeoffset, cfh, s1)
              else Some (k_rb_next K (set_tree_of s1) node, True,
                     writeoffset + of_nat sizeof_MONITOR_SET_ENTRY,
                     cfh\<lparr>ulSizeSet := ulSizeSet cfh + of_nat sizeof_MONITOR_SET_ENTRY\<rparr>, s1) })"

definition save_file ::
  "'w kernel \<Rightarrow> nat \<Rightarrow> addr \<Rightarrow> bool \<times> u32 \<times> CONFIG_FILE_HEADER \<times> 'w kstate \<Rightarrow>
   (addr option \<times> bool \<times> u32 \<times> CONFIG_FILE_HEADER \<times> 'w kstate) option" where
  "save_file K filep node st =
     (case st of (_, writeoffset, cfh, s) \<Rightarrow>
      do { pmfe \<leftarrow> file_mem s node;
           let (n, s1) = file_write K filep (unat writeoffset)
                 (enc_file_entry (k_rb_links K (file_tree_of s) node, pmfe)) sizeof_MONITOR_FILE_ENTRY s
           in if n \<noteq> int sizeof_MONITOR_FILE_ENTRY
              then Some (None, False, writeoffset, cfh, s1)
              else Some (k_rb_next K (file_tree_of s1) node, True,
                     writeoffset + of_nat sizeof_MONITOR_FILE_ENTRY,
                     cfh\<lparr>ulSizeFiles := ulSizeFiles cfh + of_nat sizeof_MONITOR_FILE_ENTRY\<rparr>, s1) })"

definition SaveConfig :: "'w kernel \<Rightarrow> 'w kstate \<Rightarrow> (int \<times> 'w kstate) option" where
  "SaveConfig K s =
     (let cfh = \<lparr>cfHeaderSize = of_nat sizeof_CONFIG_FILE_HEADER, ulOffsetSet = 0, ulSizeSet = 0,
                 ulOffsetFiles = 0, ulSizeFiles = 0,
                 ulLastShutdownStatus = dwLastNormalShutdown (cfg s)\<rparr>
      in case file_open K rtb_cnf O_WRONLY 0 s of
           (Inl err, s) \<Rightarrow> Some (0, s)
         | (Inr filep, s) \<Rightarrow>
             let (n, s) = file_write K filep 0 (enc_header cfh) sizeof_CONFIG_FILE_HEADER s
             in if n \<noteq> int sizeof_CONFIG_FILE_HEADER then Some (0, file_close K filep s)
                else let writeoffset = of_nat sizeof_CONFIG_FILE_HEADER;
                         cfh = cfh\<lparr>ulOffsetSet := writeoffset\<rparr>
                     in do { (ok, writeoffset, cfh, s) \<leftarrow>
                               rb_for (save_set K filep) (k_rb_first K (set_tree_of s))
                                 (True, writeoffset, cfh, s);
                             if \<not> ok then Some (0, file_close K filep s)
                             else do {
                               let cfh = cfh\<lparr>ulOffsetFiles := writeoffset\<rparr>;
                               (ok, writeoffset, cfh, s) \<leftarrow>
                                 rb_for (save_file K filep) (k_rb_first K (file_tree_of s))
                                   (True, writeoffset, cfh, s);
                               if \<not> ok then Some (0, file_close K filep s)
                               else let (n, s) = file_write K filep 0 (enc_header cfh)
                                                   sizeof_CONFIG_FILE_HEADER s
                                    in Some (0, file_close K filep s) } })"

section \<open>Reading\<close>

definition put_set :: "addr \<Rightarrow> MONITOR_SET_ENTRY \<Rightarrow> 'w kstate \<Rightarrow> 'w kstate" where
  "put_set a e s = s\<lparr>set_mem := (set_mem s)(a \<mapsto> e)\<rparr>"

definition put_file :: "addr \<Rightarrow> MONITOR_FILE_ENTRY \<Rightarrow> 'w kstate \<Rightarrow> 'w kstate" where
  "put_file a e s = s\<lparr>file_mem := (file_mem s)(a \<mapsto> e)\<rparr>"

definition set_root :: "which \<Rightarrow> addr tree \<Rightarrow> 'w kstate \<Rightarrow> 'w kstate" where
  "set_root c t s = upd_items c (\<lambda>d. d\<lparr>RBTree := t\<rparr>) s"

text \<open>
  The two reading loops from index \<open>i\<close> with \<open>n\<close> iterations left; the flag says whether
  the loop ran to its end (\<open>False\<close>: \<open>goto out\<close>). The result of the insertion is ignored.
\<close>

fun load_sets ::
  "'w kernel \<Rightarrow> nat \<Rightarrow> CONFIG_FILE_HEADER \<Rightarrow> nat \<Rightarrow> nat \<Rightarrow> 'w kstate \<Rightarrow> (bool \<times> 'w kstate) option" where
  "load_sets K filep cfh i 0 s = Some (True, s)"
| "load_sets K filep cfh i (Suc n) s =
     (case MonitorSetEntryAlloc K s of
        (None, s) \<Rightarrow> Some (False, s)
      | (Some pmse, s) \<Rightarrow>
          let ((ret, b), s) = file_read K filep
                (unat (ulOffsetSet cfh) + i * sizeof_MONITOR_SET_ENTRY)
                (replicate sizeof_MONITOR_SET_ENTRY 0) sizeof_MONITOR_SET_ENTRY s;
              s = put_set pmse (dec_set_entry b) s
          in if ret \<noteq> int sizeof_MONITOR_SET_ENTRY then Some (False, s)
             else do { (_, t) \<leftarrow> ms_insert K (set_mem s) (set_tree_of s) pmse;
                       load_sets K filep cfh (Suc i) n (set_root Sets t s) })"

fun load_files ::
  "'w kernel \<Rightarrow> nat \<Rightarrow> CONFIG_FILE_HEADER \<Rightarrow> nat \<Rightarrow> nat \<Rightarrow> 'w kstate \<Rightarrow> (bool \<times> 'w kstate) option" where
  "load_files K filep cfh i 0 s = Some (True, s)"
| "load_files K filep cfh i (Suc n) s =
     (case MonitorFileEntryAlloc K s of
        (None, s) \<Rightarrow> Some (False, s)
      | (Some pmfe, s) \<Rightarrow>
          let ((ret, b), s) = file_read K filep
                (unat (ulOffsetFiles cfh) + i * sizeof_MONITOR_FILE_ENTRY)
                (replicate sizeof_MONITOR_FILE_ENTRY 0) sizeof_MONITOR_FILE_ENTRY s;
              e = dec_file_entry b;
              s = put_file pmfe e s
          in if ret \<noteq> int sizeof_MONITOR_FILE_ENTRY then Some (False, s)
             else do {
               pmse \<leftarrow> ms_search (set_mem s) (set_tree_of s) (guidSetId e);
               case pmse of
                 Some p \<Rightarrow> do {
                   let s = put_file pmfe (e\<lparr>pSetEntry := Some p\<rparr>) s;
                   (_, t) \<leftarrow> mi_insert K ((file_view s)(pmfe := file_mem s pmfe)) (file_tree_of s) pmfe;
                   load_files K filep cfh (Suc i) n (set_root Files t s) }
               | None \<Rightarrow> do {
                   s \<leftarrow> MonitorFileEntryFree (Some pmfe) s;
                   load_files K filep cfh (Suc i) n s } })"

text \<open>
  When the file cannot be opened, the exit path closes the \<open>ERR_PTR\<close>: a fault.
\<close>

definition LoadConfig :: "'w kernel \<Rightarrow> 'w kstate \<Rightarrow> (int \<times> 'w kstate) option" where
  "LoadConfig K s =
     (case file_open K rtb_cnf (O_RDONLY + O_CREAT) 384 s of
        (Inl err, s) \<Rightarrow> None
      | (Inr filep, s) \<Rightarrow>
          let ((ret, b), s) = file_read K filep 0 (replicate sizeof_CONFIG_FILE_HEADER 0)
                                sizeof_CONFIG_FILE_HEADER s;
              cfh = dec_header b
          in if ret \<noteq> int sizeof_CONFIG_FILE_HEADER then Some (0, file_close K filep s)
             else do {
               let s = upd_cfg (\<lambda>c. c\<lparr>dwLastNormalShutdown := ulLastShutdownStatus cfh\<rparr>) s;
               (ok, s) \<leftarrow> load_sets K filep cfh 0
                           (unat (ulSizeSet cfh) div sizeof_MONITOR_SET_ENTRY) s;
               if \<not> ok then Some (0, file_close K filep s)
               else do {
                 (ok, s) \<leftarrow> load_files K filep cfh 0
                             (unat (ulSizeFiles cfh) div sizeof_MONITOR_FILE_ENTRY) s;
                 Some (0, file_close K filep s) } })"

section \<open>The images are fixed-width codecs\<close>

lemma length_guid_bytes: "wf_guid g \<Longrightarrow> length (guid_bytes g) = 16"
  by (simp add: guid_bytes_def wf_guid_def)

lemma dec_guid_bytes: "wf_guid g \<Longrightarrow> dec_guid (guid_bytes g) = g"
  by (simp add: dec_guid_def guid_bytes_def wf_guid_def field_def le_dec_enc)

lemma length_enc_header [simp]: "length (enc_header c) = 24"
  by (simp add: enc_header_def)

lemma length_enc_set_entry [simp]:
  "length l = 24 \<Longrightarrow> wf_set_entry e \<Longrightarrow> length (enc_set_entry (l, e)) = 312"
  by (simp add: wf_set_entry_def length_guid_bytes FILEREPL_MAX_PATH_def)

lemma length_enc_file_entry [simp]:
  "length l = 24 \<Longrightarrow> wf_file_entry e \<Longrightarrow> length (enc_file_entry (l, e)) = 332"
  by (simp add: wf_file_entry_def length_guid_bytes FILEREPL_MAX_PATH_def)

lemma dec_enc_header: "dec_header (enc_header c) = c"
  by (simp add: dec_header_def enc_header_def field_def le_dec_enc)

lemma dec_enc_set_entry:
  "length l = 24 \<Longrightarrow> wf_set_entry e \<Longrightarrow> dec_set_entry (enc_set_entry (l, e)) = e"
  by (simp add: dec_set_entry_def wf_set_entry_def field_def le_dec_enc
      length_guid_bytes dec_guid_bytes FILEREPL_MAX_PATH_def)

text \<open>The link to the set is a pointer: it survives when it fits a machine word and is not NULL.\<close>

lemma dec_enc_file_entry:
  "length l = 24 \<Longrightarrow> wf_file_entry e \<Longrightarrow>
   dec_file_entry (enc_file_entry (l, e)) = e\<lparr>pSetEntry := dec_ptr (enc_ptr (pSetEntry e))\<rparr>"
  by (simp add: dec_file_entry_def wf_file_entry_def field_def le_dec_enc
      length_guid_bytes dec_guid_bytes FILEREPL_MAX_PATH_def)

lemma dec_enc_ptr: "(\<forall>a. p = Some a \<longrightarrow> 0 < a \<and> a < 2 ^ 64) \<Longrightarrow> dec_ptr (enc_ptr p) = p"
  by (cases p) (auto simp: dec_ptr_def enc_ptr_def unat_of_nat take_bit_nat_eq_self
      word_of_nat_eq_0_iff dest: nat_dvd_not_less)

interpretation header: fixed_codec enc_header dec_header sizeof_CONFIG_FILE_HEADER "\<lambda>_. True"
  by unfold_locales (simp_all add: dec_enc_header sizeof_defs)

interpretation set_image: fixed_codec enc_set_entry "\<lambda>b. (take 24 b, dec_set_entry b)"
  sizeof_MONITOR_SET_ENTRY "\<lambda>(l, e). length l = 24 \<and> wf_set_entry e"
  by unfold_locales
     (auto simp: dec_enc_set_entry sizeof_defs simp del: enc_set_entry.simps, simp)

interpretation file_image: fixed_codec enc_file_entry "\<lambda>b. (take 24 b, dec_file_entry b)"
  sizeof_MONITOR_FILE_ENTRY
  "\<lambda>(l, e). length l = 24 \<and> wf_file_entry e \<and> (\<forall>a. pSetEntry e = Some a \<longrightarrow> 0 < a \<and> a < 2 ^ 64)"
  by unfold_locales
     (auto simp: dec_enc_file_entry dec_enc_ptr sizeof_defs simp del: enc_file_entry.simps, simp)

declare enc_set_entry.simps [simp del] enc_file_entry.simps [simp del]

section \<open>The writer\<close>

text \<open>Whatever the file system answers, writing the file leaves the module's state alone.\<close>

lemma save_set_same:
  "save_set K f a (ok, off, c, s) = Some (n, ok', off', c', s') \<Longrightarrow> same_kernel s s'"
  by (auto simp: save_set_def bind_eq_Some_conv split_beta split: if_splits)

lemma save_file_same:
  "save_file K f a (ok, off, c, s) = Some (n, ok', off', c', s') \<Longrightarrow> same_kernel s s'"
  by (auto simp: save_file_def bind_eq_Some_conv split_beta split: if_splits)

lemma save_loop_same:
  assumes "rb_for body n (ok, off, c, s) = Some (ok', off', c', s')"
    and step: "\<And>a ok off c s n ok' off' c' s'.
      body a (ok, off, c, s) = Some (n, ok', off', c', s') \<Longrightarrow> same_kernel s s'"
  shows "same_kernel s s'"
  using rb_for_invariant [OF assms(1), of "\<lambda>(_, _, _, s1). same_kernel s s1"]
  by (auto dest: step intro: same_kernel_trans)

lemma save_sets_same:
  "rb_for (save_set K f) n (ok, off, c, s) = Some (ok', off', c', s') \<Longrightarrow> same_kernel s s'"
  by (erule save_loop_same) (rule save_set_same)

lemma save_files_same:
  "rb_for (save_file K f) n (ok, off, c, s) = Some (ok', off', c', s') \<Longrightarrow> same_kernel s s'"
  by (erule save_loop_same) (rule save_file_same)

lemma SaveConfig_same:
  assumes run: "SaveConfig K s = Some (r, s')"
  shows "r = 0 \<and> same_kernel s s'"
proof -
  obtain o1 s1 where o1: "file_open K rtb_cnf O_WRONLY 0 s = (o1, s1)" by fastforce
  from file_open_same [OF this] have s1: "same_kernel s s1" .
  show ?thesis
  proof (cases o1)
    case (Inl err)
    with run o1 s1 show ?thesis by (simp add: SaveConfig_def Let_def)
  next
    case (Inr f)
    have wr: "same_kernel s (snd (file_write K f off d n s2))" if "same_kernel s s2" for off d n s2
      using that file_write_same by (metis prod.collapse same_kernel_trans)
    have cl: "same_kernel s (file_close K f s2)" if "same_kernel s s2" for s2
      using that file_close_same same_kernel_trans by blast
    have sets: "same_kernel s s3"
      if "rb_for (save_set K f) n (ok, off, c, s2) = Some (ok', off', c', s3)" "same_kernel s s2"
      for n ok off c s2 ok' off' c' s3
      using save_sets_same [OF that(1)] that(2) same_kernel_trans by blast
    have files: "same_kernel s s3"
      if "rb_for (save_file K f) n (ok, off, c, s2) = Some (ok', off', c', s3)" "same_kernel s s2"
      for n ok off c s2 ok' off' c' s3
      using save_files_same [OF that(1)] that(2) same_kernel_trans by blast
    from run o1 Inr s1 show ?thesis
      by (auto simp: SaveConfig_def Let_def bind_eq_Some_conv split_beta split: if_splits
          intro!: cl wr dest!: files sets)
  qed
qed

text \<open>
  What the module relies on when the file system works: the configuration file exists,
  \<open>cnf w\<close> is its content in the world \<open>w\<close>, \<open>hnd f w\<close> says that \<open>f\<close> is open on it.
\<close>

definition cnf_laws :: "'w kernel \<Rightarrow> ('w \<Rightarrow> byte list) \<Rightarrow> (nat \<Rightarrow> 'w \<Rightarrow> bool) \<Rightarrow> bool" where
  "cnf_laws K cnf hnd \<longleftrightarrow>
     (\<forall>fl\<in>{O_WRONLY, O_RDONLY + O_CREAT}. \<forall>r w. \<exists>f w'.
        k_open K KERNEL_DS rtb_cnf fl r w = (Inr f, w') \<and> hnd f w' \<and> cnf w' = cnf w) \<and>
     (\<forall>f off d w. hnd f w \<longrightarrow> (\<exists>w'. k_write K KERNEL_DS f off d w = (int (length d), w') \<and>
        hnd f w' \<and> cnf w' = write_at off d (cnf w))) \<and>
     (\<forall>f off n w. hnd f w \<longrightarrow> (\<exists>w'. k_read K KERNEL_DS f off n w =
        ((int (length (field off n (cnf w))), field off n (cnf w)), w') \<and> hnd f w' \<and> cnf w' = cnf w)) \<and>
     (\<forall>f w. cnf (k_close K f w) = cnf w)"

lemma example_cnf_laws: "cnf_laws example_kernel id (\<lambda>f _. f = 3)"
  by (simp add: cnf_laws_def example_kernel_def field_def)

lemma cnf_open:
  "cnf_laws K cnf hnd \<Longrightarrow> fl = O_WRONLY \<or> fl = O_RDONLY + O_CREAT \<Longrightarrow>
   \<exists>f w'. k_open K KERNEL_DS rtb_cnf fl r w = (Inr f, w') \<and> hnd f w' \<and> cnf w' = cnf w"
  unfolding cnf_laws_def by blast

lemma cnf_write:
  "cnf_laws K cnf hnd \<Longrightarrow> hnd f w \<Longrightarrow> length d = n \<Longrightarrow>
   \<exists>w'. k_write K KERNEL_DS f off d w = (int n, w') \<and> hnd f w' \<and> cnf w' = write_at off d (cnf w)"
  unfolding cnf_laws_def by blast

lemma cnf_read:
  "cnf_laws K cnf hnd \<Longrightarrow> hnd f w \<Longrightarrow> length (field off n (cnf w)) = n \<Longrightarrow>
   \<exists>w'. k_read K KERNEL_DS f off n w = ((int n, field off n (cnf w)), w') \<and> hnd f w' \<and> cnf w' = cnf w"
  unfolding cnf_laws_def by metis

lemma cnf_close: "cnf_laws K cnf hnd \<Longrightarrow> cnf (k_close K f w) = cnf w"
  unfolding cnf_laws_def by blast

definition set_images :: "'w kernel \<Rightarrow> 'w kstate \<Rightarrow> (byte list \<times> MONITOR_SET_ENTRY) list" where
  "set_images K s =
     map (\<lambda>a. (k_rb_links K (set_tree_of s) a, the (set_mem s a))) (inorder (set_tree_of s))"

definition file_images :: "'w kernel \<Rightarrow> 'w kstate \<Rightarrow> (byte list \<times> MONITOR_FILE_ENTRY) list" where
  "file_images K s =
     map (\<lambda>a. (k_rb_links K (file_tree_of s) a, the (file_mem s a))) (inorder (file_tree_of s))"

definition saved_header :: "'w kstate \<Rightarrow> CONFIG_FILE_HEADER" where
  "saved_header s =
     (let n = length (inorder (set_tree_of s)); m = length (inorder (file_tree_of s))
      in \<lparr>cfHeaderSize = 24, ulOffsetSet = 24, ulSizeSet = of_nat (312 * n),
          ulOffsetFiles = of_nat (24 + 312 * n), ulSizeFiles = of_nat (332 * m),
          ulLastShutdownStatus = dwLastNormalShutdown (cfg s)\<rparr>)"

definition config_image :: "'w kernel \<Rightarrow> 'w kstate \<Rightarrow> byte list" where
  "config_image K s = enc_header (saved_header s) @
     concat (map enc_set_entry (set_images K s)) @ concat (map enc_file_entry (file_images K s))"

definition config_fits :: "'w kstate \<Rightarrow> bool" where
  "config_fits s \<longleftrightarrow>
     24 + 312 * length (inorder (set_tree_of s)) + 332 * length (inorder (file_tree_of s)) < 2 ^ 32"

lemma write_at_prefix: "prefix p b \<Longrightarrow> prefix (p @ d) (write_at (length p) d b)"
  by (auto simp: prefix_def write_at_def pad_def)

lemma rewrite_header:
  "length h = length h' \<Longrightarrow> prefix (h @ r) b \<Longrightarrow> prefix (h' @ r) (write_at 0 h' b)"
  by (auto simp: prefix_def write_at_def)

lemma next_in_split: "distinct (ys @ a # zs) \<Longrightarrow> next_in (ys @ a # zs) a = first_of zs"
  by (rule next_in_append) simp

lemma save_walk:
  assumes laws: "cnf_laws K cnf hnd"
    and body: "\<And>a ok (off :: u32) c s1. a \<in> set xs \<Longrightarrow> same_kernel s0 s1 \<Longrightarrow> body a (ok, off, c, s1) =
      (let (n, s2) = file_write K f (unat off) (img a) w s1
       in if n \<noteq> int w then Some (None, False, off, c, s2)
          else Some (next_in xs a, True, off + of_nat w, bump c, s2))"
    and img: "\<And>a. a \<in> set xs \<Longrightarrow> length (img a) = w" and w: "w < 2 ^ 31"
    and dist: "distinct xs" and fits: "length pre + w * length xs < 2 ^ 32"
    and init: "same_kernel s0 s1" "hnd f (world s1)" "prefix pre (cnf (world s1))"
  shows "\<exists>s2. rb_for body (first_of xs) (True, of_nat (length pre) :: u32, c, s1) =
      Some (True, of_nat (length pre + w * length xs), (bump ^^ length xs) c, s2) \<and>
    same_kernel s0 s2 \<and> hnd f (world s2) \<and> prefix (pre @ concat (map img xs)) (cnf (world s2))"
proof -
  define P where "P = (\<lambda>ys (ok, off :: u32, c', s2). ok \<and>
    off = of_nat (length pre + w * length ys) \<and> c' = (bump ^^ length ys) c \<and>
    same_kernel s0 s2 \<and> hnd f (world s2) \<and> prefix (pre @ concat (map img ys)) (cnf (world s2)))"
  have "\<exists>st. rb_for body (first_of xs) (True, of_nat (length pre), c, s1) = Some st \<and> (P xs st \<or> False)"
  proof (rule rb_for_walk)
    show "P [] (True, of_nat (length pre), c, s1)"
      using init by (simp add: P_def)
  next
    fix ys a zs st
    assume xs: "xs = ys @ a # zs" and "P ys st"
    then obtain s2 where st: "st = (True, of_nat (length pre + w * length ys), (bump ^^ length ys) c, s2)"
      and same: "same_kernel s0 s2" and h: "hnd f (world s2)"
      and pre: "prefix (pre @ concat (map img ys)) (cnf (world s2))"
      by (cases st) (auto simp: P_def)
    have len: "length (pre @ concat (map img ys)) = length pre + w * length ys"
      using img xs by (simp add: length_concat_const)
    have off: "unat (of_nat (length pre + w * length ys) :: u32) = length (pre @ concat (map img ys))"
      unfolding len using fits xs by (intro unat_u32) (simp add: algebra_simps)
    from laws h obtain w' where wr: "k_write K KERNEL_DS f (length (pre @ concat (map img ys))) (img a) (world s2) = (int w, w')"
      and w': "hnd f w'" "cnf w' = write_at (length (pre @ concat (map img ys))) (img a) (cnf (world s2))"
      using cnf_write [OF laws h img [of a]] xs by auto
    have "body a st = Some (next_in xs a, True, of_nat (length pre + w * length ys) + of_nat w,
        bump ((bump ^^ length ys) c), s2\<lparr>world := w'\<rparr>)"
      using img [of a] xs w same by (simp add: st body file_write_eq off wr as_int_id del: of_nat_add of_nat_mult length_append)
    moreover have "P (ys @ [a]) (True, of_nat (length pre + w * length ys) + of_nat w,
        bump ((bump ^^ length ys) c), s2\<lparr>world := w'\<rparr>)"
      using same w' write_at_prefix [OF pre, of "img a"]
      by (simp add: P_def same_kernel_trans [OF same] algebra_simps)
    moreover have "next_in xs a = first_of zs"
      using dist unfolding xs by (rule next_in_split)
    ultimately show "\<exists>n st'. body a st = Some (n, st') \<and> (n = first_of zs \<and> P (ys @ [a]) st' \<or> n = None \<and> False)"
      by blast
  qed
  then show ?thesis by (auto simp: P_def)
qed

lemma bump_set: "((\<lambda>c. c\<lparr>ulSizeSet := ulSizeSet c + x\<rparr>) ^^ n) c = c\<lparr>ulSizeSet := ulSizeSet c + of_nat n * x\<rparr>"
  by (induction n) (simp_all add: algebra_simps)

lemma bump_files:
  "((\<lambda>c. c\<lparr>ulSizeFiles := ulSizeFiles c + x\<rparr>) ^^ n) c = c\<lparr>ulSizeFiles := ulSizeFiles c + of_nat n * x\<rparr>"
  by (induction n) (simp_all add: algebra_simps)

text \<open>On a working file system the file begins with the image of the configuration.\<close>

lemma SaveConfig_image:
  assumes rb: "rbtree_laws K" and laws: "cnf_laws K cnf hnd" and inv: "config_inv s"
    and fits: "config_fits s"
  shows "\<exists>s'. SaveConfig K s = Some (0, s') \<and> same_kernel s s' \<and>
    prefix (config_image K s) (cnf (world s'))"
proof -
  let ?h0 = "\<lparr>cfHeaderSize = 24, ulOffsetSet = 0, ulSizeSet = 0, ulOffsetFiles = 0, ulSizeFiles = 0,
      ulLastShutdownStatus = dwLastNormalShutdown (cfg s)\<rparr>"
  let ?xs = "inorder (set_tree_of s)" and ?ys = "inorder (file_tree_of s)"
  let ?si = "\<lambda>a. enc_set_entry (k_rb_links K (set_tree_of s) a, the (set_mem s a))"
  let ?fi = "\<lambda>a. enc_file_entry (k_rb_links K (file_tree_of s) a, the (file_mem s a))"
  obtain f w1 where opn: "k_open K KERNEL_DS rtb_cnf O_WRONLY 0 (world s) = (Inr f, w1)"
    and f: "hnd f w1" using cnf_open [OF laws] by blast
  obtain w2 where w2: "k_write K KERNEL_DS f 0 (enc_header ?h0) w1 = (24, w2)" "hnd f w2"
    "cnf w2 = write_at 0 (enc_header ?h0) (cnf w1)"
    using cnf_write [OF laws f length_enc_header] by auto
  have live: "\<exists>e. set_mem s a = Some e \<and> wf_set_entry e" if "a \<in> set ?xs" for a
    using that set_node_live [OF inv] by simp
  have flive: "\<exists>e. file_mem s a = Some e \<and> wf_file_entry e" if "a \<in> set ?ys" for a
    using that file_node_live [OF inv] by auto
  have slen: "length (?si a) = 312" if "a \<in> set_tree (set_tree_of s)" for a
    using live [of a] that by (auto simp: rbtree_lawsD [OF rb])
  have flen: "length (?fi a) = 332" if "a \<in> set_tree (file_tree_of s)" for a
    using flive [of a] that by (auto simp: rbtree_lawsD [OF rb])
  have "\<exists>s3. rb_for (save_set K f) (first_of ?xs) (True, of_nat (length (enc_header ?h0)), ?h0\<lparr>ulOffsetSet := 24\<rparr>, s\<lparr>world := w2\<rparr>) =
      Some (True, of_nat (length (enc_header ?h0) + 312 * length ?xs),
        ((\<lambda>c. c\<lparr>ulSizeSet := ulSizeSet c + 312\<rparr>) ^^ length ?xs) (?h0\<lparr>ulOffsetSet := 24\<rparr>), s3) \<and>
    same_kernel s s3 \<and> hnd f (world s3) \<and> prefix (enc_header ?h0 @ concat (map ?si ?xs)) (cnf (world s3))"
  proof (rule save_walk [OF laws])
    fix a ok c s1 and off :: u32 assume a: "a \<in> set ?xs" and same: "same_kernel s s1"
    have "set_tree_of (snd (file_write K f (unat off) d n s1)) = set_tree_of s" for d n
      using same_kernel_simps(1) [OF same_kernel_trans [OF same file_write_same']] by simp
    with live [OF a] a same show "save_set K f a (ok, off, c, s1) =
      (let (n, s2) = file_write K f (unat off) (?si a) 312 s1
       in if n \<noteq> int 312 then Some (None, False, off, c, s2)
          else Some (next_in ?xs a, True, off + of_nat 312, c\<lparr>ulSizeSet := ulSizeSet c + 312\<rparr>, s2))"
      by (auto simp: save_set_def same_kernel_simps rbtree_lawsD [OF rb] sizeof_defs split_beta)
  qed (use slen fits w2 in \<open>auto simp: config_fits_def write_at_def
      bst_ok_distinct [OF config_invD(2) [OF inv]]\<close>)
  then obtain s3 where sets: "rb_for (save_set K f) (first_of ?xs) (True, 24, ?h0\<lparr>ulOffsetSet := 24\<rparr>, s\<lparr>world := w2\<rparr>) =
      Some (True, of_nat (24 + 312 * length ?xs), ?h0\<lparr>ulOffsetSet := 24, ulSizeSet := of_nat (312 * length ?xs)\<rparr>, s3)"
    and s3: "same_kernel s s3" "hnd f (world s3)" "prefix (enc_header ?h0 @ concat (map ?si ?xs)) (cnf (world s3))"
    by (auto simp: bump_set algebra_simps)
  let ?h1 = "?h0\<lparr>ulOffsetSet := 24, ulSizeSet := of_nat (312 * length ?xs), ulOffsetFiles := of_nat (24 + 312 * length ?xs)\<rparr>"
  let ?pre = "enc_header ?h0 @ concat (map ?si ?xs)"
  have "length (concat (map ?si ?xs)) = 312 * length ?xs"
    using slen by (intro length_concat_const) simp
  then have len: "length ?pre = 24 + 312 * length ?xs" by simp
  have "\<exists>s4. rb_for (save_file K f) (first_of ?ys) (True, of_nat (length ?pre), ?h1, s3) =
      Some (True, of_nat (length ?pre + 332 * length ?ys),
        ((\<lambda>c. c\<lparr>ulSizeFiles := ulSizeFiles c + 332\<rparr>) ^^ length ?ys) ?h1, s4) \<and>
    same_kernel s s4 \<and> hnd f (world s4) \<and> prefix (?pre @ concat (map ?fi ?ys)) (cnf (world s4))"
  proof (rule save_walk [OF laws])
    fix a ok c s1 and off :: u32 assume a: "a \<in> set ?ys" and same: "same_kernel s s1"
    have "file_tree_of (snd (file_write K f (unat off) d n s1)) = file_tree_of s" for d n
      using same_kernel_simps(1) [OF same_kernel_trans [OF same file_write_same']] by simp
    with flive [OF a] a same show "save_file K f a (ok, off, c, s1) =
      (let (n, s2) = file_write K f (unat off) (?fi a) 332 s1
       in if n \<noteq> int 332 then Some (None, False, off, c, s2)
          else Some (next_in ?ys a, True, off + of_nat 332, c\<lparr>ulSizeFiles := ulSizeFiles c + 332\<rparr>, s2))"
      by (auto simp: save_file_def same_kernel_simps rbtree_lawsD [OF rb] sizeof_defs split_beta)
  qed (use flen fits s3 len in \<open>auto simp: config_fits_def
      bst_ok_distinct [OF config_invD(3) [OF inv]]\<close>)
  then obtain s4 where files: "rb_for (save_file K f) (first_of ?ys) (True, of_nat (24 + 312 * length ?xs), ?h1, s3) =
      Some (True, of_nat (24 + 312 * length ?xs + 332 * length ?ys), saved_header s, s4)"
    and s4: "same_kernel s s4" "hnd f (world s4)" "prefix (?pre @ concat (map ?fi ?ys)) (cnf (world s4))"
    unfolding len by (auto simp: bump_files saved_header_def Let_def algebra_simps)
  obtain w5 where w5: "k_write K KERNEL_DS f 0 (enc_header (saved_header s)) (world s4) = (24, w5)"
    "cnf w5 = write_at 0 (enc_header (saved_header s)) (cnf (world s4))"
    using cnf_write [OF laws s4(2) length_enc_header] by auto
  have image: "config_image K s = enc_header (saved_header s) @ concat (map ?si ?xs) @ concat (map ?fi ?ys)"
    by (simp add: config_image_def set_images_def file_images_def comp_def)
  have "prefix (config_image K s) (cnf w5)"
    using s4(3) unfolding image w5(2) by (intro rewrite_header [of "enc_header ?h0"]) simp_all
  moreover have "SaveConfig K s = Some (0, file_close K f (s4\<lparr>world := w5\<rparr>))"
    using sets files s3(1)
    by (simp add: SaveConfig_def file_open_eq opn file_write_eq w2 w5 sizeof_defs as_int_id
        rbtree_lawsD [OF rb] same_kernel_simps)
  moreover have "cnf (world (file_close K f (s4\<lparr>world := w5\<rparr>))) = cnf w5"
    by (simp add: file_close_def cnf_close [OF laws])
  ultimately show ?thesis
    using s4(1) by (metis SaveConfig_same)
qed

text \<open>Writing the configuration never faults, whatever the file system does.\<close>

lemma SaveConfig_total:
  fixes s :: "'w kstate"
  assumes rb: "rbtree_laws K" and inv: "config_inv s"
  shows "\<exists>s'. SaveConfig K s = Some (0, s')"
proof -
  let ?xs = "inorder (set_tree_of s)" and ?ys = "inorder (file_tree_of s)"
  have dist: "distinct ?xs" "distinct ?ys"
    using config_invD(2,3) [OF inv] bst_ok_distinct by blast+
  have sets: "\<exists>st. rb_for (save_set K f) (k_rb_first K (set_tree_of s1)) (ok, off, c, s1) = Some st"
    if s1: "same_kernel s s1" for f ok c s1 and off :: u32
  proof -
    have "\<exists>st. rb_for (save_set K f) (first_of ?xs) (ok, off, c, s1) = Some st \<and>
        (same_kernel s (snd (snd (snd st))) \<or> True)"
    proof (rule rb_for_walk [where P = "\<lambda>_ st. same_kernel s (snd (snd (snd st)))"])
      fix ys a zs and st :: "bool \<times> u32 \<times> CONFIG_FILE_HEADER \<times> 'w kstate" assume xs: "?xs = ys @ a # zs" and "same_kernel s (snd (snd (snd st)))"
      then obtain ok' off' c' s2 where st: "st = (ok', off', c', s2)" and s2: "same_kernel s s2"
        by (cases st) auto
      have a: "a \<in> set_tree (set_tree_of s)" using xs by (metis in_set_conv_decomp set_inorder)
      obtain e where e: "set_mem s2 a = Some e"
        using set_node_live [OF inv a] by (auto simp: same_kernel_simps [OF s2])
      let ?w = "file_write K f (unat off') (enc_set_entry (k_rb_links K (set_tree_of s2) a, e)) sizeof_MONITOR_SET_ENTRY s2"
      have w: "same_kernel s (snd ?w)" using s2 file_write_same' same_kernel_trans by blast
      have "next_in ?xs a = first_of zs" using dist(1) unfolding xs by (rule next_in_split)
      then have "k_rb_next K (set_tree_of (snd ?w)) a = first_of zs"
        using a by (simp add: rbtree_lawsD(4) [OF rb] same_kernel_simps [OF w])
      with e w show "\<exists>n st'. save_set K f a st = Some (n, st') \<and>
          (n = first_of zs \<and> same_kernel s (snd (snd (snd st'))) \<or> n = None \<and> True)"
        by (auto simp: save_set_def st split_beta)
    qed (simp add: s1)
    then show ?thesis by (auto simp: rbtree_lawsD(3) [OF rb] same_kernel_simps [OF s1])
  qed
  have files: "\<exists>st. rb_for (save_file K f) (k_rb_first K (file_tree_of s1)) (ok, off, c, s1) = Some st"
    if s1: "same_kernel s s1" for f ok c s1 and off :: u32
  proof -
    have "\<exists>st. rb_for (save_file K f) (first_of ?ys) (ok, off, c, s1) = Some st \<and>
        (same_kernel s (snd (snd (snd st))) \<or> True)"
    proof (rule rb_for_walk [where P = "\<lambda>_ st. same_kernel s (snd (snd (snd st)))"])
      fix ys a zs and st :: "bool \<times> u32 \<times> CONFIG_FILE_HEADER \<times> 'w kstate" assume xs: "?ys = ys @ a # zs" and "same_kernel s (snd (snd (snd st)))"
      then obtain ok' off' c' s2 where st: "st = (ok', off', c', s2)" and s2: "same_kernel s s2"
        by (cases st) auto
      have a: "a \<in> set_tree (file_tree_of s)" using xs by (metis in_set_conv_decomp set_inorder)
      obtain e where e: "file_mem s2 a = Some e"
        using file_node_live [OF inv a] by (auto simp: same_kernel_simps [OF s2])
      let ?w = "file_write K f (unat off') (enc_file_entry (k_rb_links K (file_tree_of s2) a, e)) sizeof_MONITOR_FILE_ENTRY s2"
      have w: "same_kernel s (snd ?w)" using s2 file_write_same' same_kernel_trans by blast
      have "next_in ?ys a = first_of zs" using dist(2) unfolding xs by (rule next_in_split)
      then have "k_rb_next K (file_tree_of (snd ?w)) a = first_of zs"
        using a by (simp add: rbtree_lawsD(4) [OF rb] same_kernel_simps [OF w])
      with e w show "\<exists>n st'. save_file K f a st = Some (n, st') \<and>
          (n = first_of zs \<and> same_kernel s (snd (snd (snd st'))) \<or> n = None \<and> True)"
        by (auto simp: save_file_def st split_beta)
    qed (simp add: s1)
    then show ?thesis by (auto simp: rbtree_lawsD(3) [OF rb] same_kernel_simps [OF s1])
  qed
  obtain o1 s1 where o1: "file_open K rtb_cnf O_WRONLY 0 s = (o1, s1)" by fastforce
  from file_open_same [OF this] have s1: "same_kernel s s1" .
  have "\<exists>r s'. SaveConfig K s = Some (r, s')"
  proof (cases o1)
    case (Inl err)
    with o1 show ?thesis by (simp add: SaveConfig_def Let_def)
  next
    case (Inr f)
    have wr: "same_kernel s (snd (file_write K f off d n s1))" for off d n
      using s1 file_write_same' same_kernel_trans by blast
    let ?h = "\<lparr>cfHeaderSize = of_nat sizeof_CONFIG_FILE_HEADER, ulOffsetSet = 0, ulSizeSet = 0,
        ulOffsetFiles = 0, ulSizeFiles = 0, ulLastShutdownStatus = dwLastNormalShutdown (cfg s)\<rparr>"
    let ?w = "file_write K f 0 (enc_header ?h) sizeof_CONFIG_FILE_HEADER s1"
    obtain ok off c s2 where l1: "rb_for (save_set K f) (k_rb_first K (set_tree_of (snd ?w)))
        (True, of_nat sizeof_CONFIG_FILE_HEADER, ?h\<lparr>ulOffsetSet := of_nat sizeof_CONFIG_FILE_HEADER\<rparr>, snd ?w) =
        Some (ok, off, c, s2)" using sets [OF wr] by (metis prod.exhaust)
    have s2: "same_kernel s s2"
      using save_sets_same [OF l1] wr same_kernel_trans by blast
    obtain ok' off' c' s3 where l2: "rb_for (save_file K f) (k_rb_first K (file_tree_of s2))
        (True, off, c\<lparr>ulOffsetFiles := off\<rparr>, s2) = Some (ok', off', c', s3)"
      using files [OF s2] by (metis prod.exhaust)
    from o1 Inr l1 l2 show ?thesis
      by (auto simp: SaveConfig_def Let_def split_beta)
  qed
  then show ?thesis using SaveConfig_same by blast
qed

end
