(* ===== verification/RoundTrip.thy ===== *)
theory RoundTrip
  imports ConfigFile
begin

text \<open>
  What \<open>SaveConfig\<close> writes, \<open>LoadConfig\<close> brings back: the entries in tree order, each
  file linked to its set. The proof loads the image entry by entry; the trees are built
  in key order, so every insertion goes to the end of the sequence.
\<close>

definition set_entries :: "'w kstate \<Rightarrow> MONITOR_SET_ENTRY list" where
  "set_entries s = map (\<lambda>a. the (set_mem s a)) (inorder (set_tree_of s))"

definition file_entries :: "'w kstate \<Rightarrow> MONITOR_FILE_ENTRY list" where
  "file_entries s = map (\<lambda>a. the (file_mem s a)) (inorder (file_tree_of s))"

text \<open>The entries of a configuration that can be loaded again without loss.\<close>

definition loadable :: "MONITOR_SET_ENTRY list \<Rightarrow> MONITOR_FILE_ENTRY list \<Rightarrow> bool" where
  "loadable ss fs \<longleftrightarrow>
     (\<forall>e\<in>set fs. \<forall>e'\<in>set fs. prefix (file_key e) (file_key e') \<longrightarrow> file_key e = file_key e') \<and>
     (\<forall>e\<in>set fs. \<exists>m\<in>set ss. set_key m = guid_bytes (guidSetId e))"

lemma MonitorSetEntryAlloc_ok:
  "ItemLookAsideList (MonitorSet (cfg s)) \<Longrightarrow> k_alloc K (next_blk s) \<Longrightarrow>
   MonitorSetEntryAlloc K s =
     (Some (next_blk s), put_set (next_blk s) zero_set_entry (s\<lparr>next_blk := Suc (next_blk s)\<rparr>))"
  by (simp add: MonitorSetEntryAlloc_def EntryAlloc_def Let_def put_set_def)

lemma MonitorFileEntryAlloc_ok:
  "ItemLookAsideList (MonitorFiles (cfg s)) \<Longrightarrow> k_alloc K (next_blk s) \<Longrightarrow>
   MonitorFileEntryAlloc K s =
     (Some (next_blk s), put_file (next_blk s) zero_file_entry (s\<lparr>next_blk := Suc (next_blk s)\<rparr>))"
  by (simp add: MonitorFileEntryAlloc_def EntryAlloc_def Let_def put_file_def)

text \<open>The state after one round of the loop over the sets.\<close>

definition loaded_set :: "addr \<Rightarrow> MONITOR_SET_ENTRY \<Rightarrow> addr tree \<Rightarrow> 'w \<Rightarrow> 'w kstate \<Rightarrow> 'w kstate" where
  "loaded_set a e t w s =
     set_root Sets t (s\<lparr>next_blk := Suc a, world := w, set_mem := (set_mem s)(a \<mapsto> e)\<rparr>)"

definition loaded_file :: "addr \<Rightarrow> MONITOR_FILE_ENTRY \<Rightarrow> addr tree \<Rightarrow> 'w \<Rightarrow> 'w kstate \<Rightarrow> 'w kstate" where
  "loaded_file a e t w s =
     set_root Files t (s\<lparr>next_blk := Suc a, world := w, file_mem := (file_mem s)(a \<mapsto> e)\<rparr>)"

lemma loaded_set_simps [simp]:
  "set_mem (loaded_set a e t w s) = (set_mem s)(a \<mapsto> e)"
  "file_mem (loaded_set a e t w s) = file_mem s"
  "next_blk (loaded_set a e t w s) = Suc a"
  "world (loaded_set a e t w s) = w"
  "set_tree_of (loaded_set a e t w s) = t"
  "file_tree_of (loaded_set a e t w s) = file_tree_of s"
  "MonitorFiles (cfg (loaded_set a e t w s)) = MonitorFiles (cfg s)"
  "ItemLookAsideList (MonitorSet (cfg (loaded_set a e t w s))) = ItemLookAsideList (MonitorSet (cfg s))"
  "dwLastNormalShutdown (cfg (loaded_set a e t w s)) = dwLastNormalShutdown (cfg s)"
  "ulCounts (MonitorSet (cfg (loaded_set a e t w s))) = ulCounts (MonitorSet (cfg s))"
  by (simp_all add: loaded_set_def set_root_def)

lemma loaded_file_simps [simp]:
  "set_mem (loaded_file a e t w s) = set_mem s"
  "file_mem (loaded_file a e t w s) = (file_mem s)(a \<mapsto> e)"
  "next_blk (loaded_file a e t w s) = Suc a"
  "world (loaded_file a e t w s) = w"
  "set_tree_of (loaded_file a e t w s) = set_tree_of s"
  "file_tree_of (loaded_file a e t w s) = t"
  "MonitorSet (cfg (loaded_file a e t w s)) = MonitorSet (cfg s)"
  "ItemLookAsideList (MonitorFiles (cfg (loaded_file a e t w s))) = ItemLookAsideList (MonitorFiles (cfg s))"
  "dwLastNormalShutdown (cfg (loaded_file a e t w s)) = dwLastNormalShutdown (cfg s)"
  by (simp_all add: loaded_file_def set_root_def)

lemma config_inv_loaded_set:
  assumes inv: "config_inv s" and a: "a = next_blk s" and e: "wf_set_entry e"
    and t: "bst_ok set_key ((set_mem s)(a \<mapsto> e)) t"
  shows "config_inv (loaded_set a e t w s)"
  unfolding config_inv_def
proof (intro conjI allI impI)
  fix b x assume "set_mem (loaded_set a e t w s) b = Some x"
  then show "b < next_blk (loaded_set a e t w s)" "wf_set_entry x"
    using config_invD(4) [OF inv, of b x] a e by (auto split: if_splits)
next
  fix b x assume "file_mem (loaded_set a e t w s) b = Some x"
  then show "b < next_blk (loaded_set a e t w s)" "wf_file_entry x"
    using config_invD(5) [OF inv, of b x] a by auto
qed (use inv t in \<open>simp_all add: config_inv_def\<close>)

lemma config_inv_loaded_file:
  assumes inv: "config_inv s" and a: "a = next_blk s" and e: "wf_file_entry e"
    and t: "bst_ok file_key (readable ((file_mem s)(a \<mapsto> e))) t"
  shows "config_inv (loaded_file a e t w s)"
  unfolding config_inv_def
proof (intro conjI allI impI)
  fix b x assume "file_mem (loaded_file a e t w s) b = Some x"
  then show "b < next_blk (loaded_file a e t w s)" "wf_file_entry x"
    using config_invD(5) [OF inv, of b x] a e by (auto split: if_splits)
next
  fix b x assume "set_mem (loaded_file a e t w s) b = Some x"
  then show "b < next_blk (loaded_file a e t w s)" "wf_set_entry x"
    using config_invD(4) [OF inv, of b x] a by auto
qed (use inv t in \<open>simp_all add: config_inv_def\<close>)

lemma entries_below:
  assumes "map g (inorder t) = take i ys" and "sorted_wrt (<) (map key ys)" and "i < length ys"
    and "b \<in> set_tree t"
  shows "key (g b) < key (ys ! i)"
proof -
  have "g b \<in> set (take i ys)"
    using assms(1,4) by (metis image_eqI list.set_map set_inorder)
  then obtain j where "j < i" "g b = ys ! j"
    by (metis in_set_conv_nth length_take min_less_iff_conj nth_take)
  with assms(2,3) show ?thesis by (simp add: sorted_wrt_iff_nth_less)
qed

lemma load_sets_round:
  assumes rb: "rbtree_laws K" and laws: "cnf_laws K cnf hnd" and inv: "config_inv s"
    and h: "hnd f (world s)" and alloc: "k_alloc K (next_blk s)"
    and image: "field (unat (ulOffsetSet cfh) + i * 312) 312 (cnf (world s)) = enc_set_entry (l, e)"
    and wf: "length l = 24" "wf_set_entry e"
    and max: "\<And>b. b \<in> set_tree (set_tree_of s) \<Longrightarrow> set_key (the (set_mem s b)) < set_key e"
  shows "\<exists>t w. load_sets K f cfh i (Suc n) s = load_sets K f cfh (Suc i) n (loaded_set (next_blk s) e t w s) \<and>
    hnd f w \<and> cnf w = cnf (world s) \<and> config_inv (loaded_set (next_blk s) e t w s) \<and>
    set_entries (loaded_set (next_blk s) e t w s) = set_entries s @ [e]"
proof -
  let ?a = "next_blk s" and ?h = "(set_mem s)(next_blk s \<mapsto> e)"
  note a = config_inv_fresh(1) [OF inv]
  obtain w where w: "k_read K KERNEL_DS f (unat (ulOffsetSet cfh) + i * 312) 312 (world s) =
      ((312, enc_set_entry (l, e)), w)" "hnd f w" "cnf w = cnf (world s)"
    using cnf_read [OF laws h, of "unat (ulOffsetSet cfh) + i * 312" 312] wf by (auto simp: image)
  have ok: "bst_ok set_key ?h (set_tree_of s)"
    using config_invD(2) [OF inv] a by (simp add: bst_ok_upd)
  have max': "set_key (the (?h b)) < set_key e" if "b \<in> set_tree (set_tree_of s)" for b
    using max [OF that] a that by auto
  then have new: "set_key e' \<noteq> set_key e" if "b \<in> set_tree (set_tree_of s)" "?h b = Some e'" for b e'
    using that by fastforce
  obtain t where t: "ms_insert K ?h (set_tree_of s) ?a = Some (0, t)" "bst_ok set_key ?h t"
    "inorder t = inorder (set_tree_of s) @ [?a]"
    using ms_insert_ok [OF rb ok, of ?a e] new max' by auto
  have "load_sets K f cfh i (Suc n) s = load_sets K f cfh (Suc i) n (loaded_set ?a e t w s)"
    using config_invD(1) [OF inv, of Sets] alloc wf t(1) w(1)
    by (simp add: MonitorSetEntryAlloc_ok file_read_eq sizeof_defs as_int_id put_set_def
        dec_enc_set_entry loaded_set_def)
  moreover have "config_inv (loaded_set ?a e t w s)"
    using config_inv_loaded_set [OF inv refl wf(2) t(2)] .
  moreover have "set_entries (loaded_set ?a e t w s) = set_entries s @ [e]"
    using a by (auto simp: set_entries_def t(3) map_eq_conv)
  ultimately show ?thesis using w by blast
qed

lemma load_sets_ok:
  assumes rb: "rbtree_laws K" and laws: "cnf_laws K cnf hnd" and alloc: "\<forall>a\<ge>N. k_alloc K a"
    and image: "\<forall>j<length xs. field (unat (ulOffsetSet cfh) + j * 312) 312 c = enc_set_entry (xs ! j)"
    and wf: "\<forall>(l, e)\<in>set xs. length l = 24 \<and> wf_set_entry e"
    and sorted: "sorted_wrt (<) (map set_key (map snd xs))"
  shows "i + n = length xs \<Longrightarrow> config_inv s \<Longrightarrow> hnd f (world s) \<Longrightarrow> cnf (world s) = c \<Longrightarrow>
    N \<le> next_blk s \<Longrightarrow> set_entries s = map snd (take i xs) \<Longrightarrow>
    \<exists>s'. load_sets K f cfh i n s = Some (True, s') \<and> config_inv s' \<and> hnd f (world s') \<and>
      cnf (world s') = c \<and> N \<le> next_blk s' \<and> set_entries s' = map snd xs \<and>
      MonitorFiles (cfg s') = MonitorFiles (cfg s) \<and>
      dwLastNormalShutdown (cfg s') = dwLastNormalShutdown (cfg s) \<and>
      ulCounts (MonitorSet (cfg s')) = ulCounts (MonitorSet (cfg s))"
proof (induction n arbitrary: i s)
  case 0
  then show ?case by simp
next
  case (Suc n)
  then have i: "i < length xs" by simp
  obtain l e where le: "xs ! i = (l, e)" by fastforce
  have wf': "length l = 24" "wf_set_entry e" using bspec [OF wf nth_mem [OF i]] le by simp_all
  have "set_key (the (set_mem s b)) < set_key (map snd xs ! i)" if "b \<in> set_tree (set_tree_of s)" for b
    using Suc.prems(6) i sorted that
    by (intro entries_below [where t = "set_tree_of s"]) (simp_all add: set_entries_def take_map)
  then have max: "set_key (the (set_mem s b)) < set_key e" if "b \<in> set_tree (set_tree_of s)" for b
    using that i le by simp
  have "field (unat (ulOffsetSet cfh) + i * 312) 312 (cnf (world s)) = enc_set_entry (l, e)"
    using image i le Suc.prems(4) by metis
  from load_sets_round [OF rb laws Suc.prems(2,3) _ this wf' max, of n] alloc Suc.prems(5)
  obtain t w where tw: "load_sets K f cfh i (Suc n) s = load_sets K f cfh (Suc i) n (loaded_set (next_blk s) e t w s)"
    "hnd f w" "cnf w = cnf (world s)" "config_inv (loaded_set (next_blk s) e t w s)"
    "set_entries (loaded_set (next_blk s) e t w s) = set_entries s @ [e]" by blast
  have "\<exists>s'. load_sets K f cfh (Suc i) n (loaded_set (next_blk s) e t w s) = Some (True, s') \<and> config_inv s' \<and>
      hnd f (world s') \<and> cnf (world s') = c \<and> N \<le> next_blk s' \<and> set_entries s' = map snd xs \<and>
      MonitorFiles (cfg s') = MonitorFiles (cfg (loaded_set (next_blk s) e t w s)) \<and>
      dwLastNormalShutdown (cfg s') = dwLastNormalShutdown (cfg (loaded_set (next_blk s) e t w s)) \<and>
      ulCounts (MonitorSet (cfg s')) = ulCounts (MonitorSet (cfg (loaded_set (next_blk s) e t w s)))"
    using Suc.prems tw i le by (intro Suc.IH) (simp_all add: take_Suc_conv_app_nth)
  with tw(1) show ?case by simp
qed

section \<open>Loading the files\<close>

abbreviation unlink :: "MONITOR_FILE_ENTRY \<Rightarrow> MONITOR_FILE_ENTRY" where
  "unlink e \<equiv> e\<lparr>pSetEntry := None\<rparr>"

text \<open>Every monitored file has its set cached.\<close>

definition linked :: "'w kstate \<Rightarrow> bool" where
  "linked s \<longleftrightarrow>
     (\<forall>a\<in>set_tree (file_tree_of s). \<exists>p. pSetEntry (the (file_mem s a)) = Some p \<and>
        p \<in> set_tree (set_tree_of s) \<and>
        set_key (the (set_mem s p)) = guid_bytes (guidSetId (the (file_mem s a))))"

lemma linked_link_inv: "config_inv s \<Longrightarrow> linked s \<Longrightarrow> link_inv s"
  unfolding link_inv_def linked_def using set_node_live by fastforce

lemma load_files_round:
  assumes rb: "rbtree_laws K" and laws: "cnf_laws K cnf hnd" and inv: "config_inv s" and lk: "linked s"
    and h: "hnd f (world s)" and alloc: "k_alloc K (next_blk s)"
    and image: "field (unat (ulOffsetFiles cfh) + i * 332) 332 (cnf (world s)) = enc_file_entry (l, e)"
    and wf: "length l = 24" "wf_file_entry e" "terminated (wcsMonitorFile e)"
    and max: "\<And>b. b \<in> set_tree (file_tree_of s) \<Longrightarrow> file_key (the (file_mem s b)) < file_key e"
    and anti: "\<And>b. b \<in> set_tree (file_tree_of s) \<Longrightarrow> \<not> prefix (file_key (the (file_mem s b))) (file_key e)"
    and owner: "p \<in> set_tree (set_tree_of s)" "set_key (the (set_mem s p)) = guid_bytes (guidSetId e)"
  shows "\<exists>t w. load_files K f cfh i (Suc n) s =
      load_files K f cfh (Suc i) n (loaded_file (next_blk s) (e\<lparr>pSetEntry := Some p\<rparr>) t w s) \<and>
    hnd f w \<and> cnf w = cnf (world s) \<and>
    config_inv (loaded_file (next_blk s) (e\<lparr>pSetEntry := Some p\<rparr>) t w s) \<and>
    linked (loaded_file (next_blk s) (e\<lparr>pSetEntry := Some p\<rparr>) t w s) \<and>
    file_entries (loaded_file (next_blk s) (e\<lparr>pSetEntry := Some p\<rparr>) t w s) =
      file_entries s @ [e\<lparr>pSetEntry := Some p\<rparr>]"
proof -
  let ?a = "next_blk s" and ?e = "e\<lparr>pSetEntry := Some p\<rparr>"
  let ?h = "readable ((file_mem s)(next_blk s \<mapsto> ?e))"
  note a = config_inv_fresh(2) [OF inv]
  obtain w where w: "k_read K KERNEL_DS f (unat (ulOffsetFiles cfh) + i * 332) 332 (world s) =
      ((332, enc_file_entry (l, e)), w)" "hnd f w" "cnf w = cnf (world s)"
    using cnf_read [OF laws h, of "unat (ulOffsetFiles cfh) + i * 332" 332] wf by (auto simp: image)
  have ha: "?h ?a = Some ?e" using wf by (simp add: readable_def)
  have hb: "?h b = Some (the (file_mem s b)) \<and> b \<noteq> ?a" if "b \<in> set_tree (file_tree_of s)" for b
    using file_node_live [OF inv that] a that by (auto simp: readable_def)
  have ok: "bst_ok file_key ?h (file_tree_of s)"
    using config_invD(3) [OF inv] a wf by (simp add: readable_upd bst_ok_upd)
  have search: "ms_search (set_mem s) (set_tree_of s) (guidSetId e) = Some (Some p)"
    using owner set_node_live [OF inv owner(1)]
    by (subst ms.search_iff [OF config_invD(2) [OF inv]]) auto
  have new: "\<not> prefix (file_key e') (file_key ?e)" if "b \<in> set_tree (file_tree_of s)" "?h b = Some e'" for b e'
    using anti [OF that(1)] hb [OF that(1)] that(2) by simp
  have "\<exists>t'. mi_insert K ?h (file_tree_of s) ?a = Some (0, t') \<and> bst_ok file_key ?h t' \<and>
    set_tree t' = insert ?a (set_tree (file_tree_of s)) \<and>
    ((\<forall>b\<in>set_tree (file_tree_of s). file_key (the (?h b)) < file_key ?e) \<longrightarrow>
      inorder t' = inorder (file_tree_of s) @ [?a])"
    by (rule mi_insert_ok [OF rb ok ha new])
  then obtain t where t: "mi_insert K ?h (file_tree_of s) ?a = Some (0, t)" "bst_ok file_key ?h t"
    "inorder t = inorder (file_tree_of s) @ [?a]" "set_tree t = insert ?a (set_tree (file_tree_of s))"
    using hb max by auto
  have heap: "(readable ((file_mem s)(?a \<mapsto> ?e)))(?a \<mapsto> ?e) = ?h"
    using ha by (simp add: fun_upd_idem)
  have "load_files K f cfh i (Suc n) s = load_files K f cfh (Suc i) n (loaded_file ?a ?e t w s)"
    using config_invD(1) [OF inv, of Files] alloc wf w(1) search t(1) heap
    by (simp add: MonitorFileEntryAlloc_ok file_read_eq sizeof_defs as_int_id put_file_def
        dec_enc_file_entry loaded_file_def)
  moreover have "config_inv (loaded_file ?a ?e t w s)"
    using config_inv_loaded_file [OF inv refl _ t(2)] wf(2) by (simp add: wf_file_entry_def)
  moreover have "linked (loaded_file ?a ?e t w s)"
    using lk owner hb unfolding linked_def by (auto simp: t(4))
  moreover have "file_entries (loaded_file ?a ?e t w s) = file_entries s @ [?e]"
    using hb by (auto simp: file_entries_def t(3))
  ultimately show ?thesis using w by blast
qed

lemma load_files_ok:
  assumes rb: "rbtree_laws K" and laws: "cnf_laws K cnf hnd" and alloc: "\<forall>a\<ge>N. k_alloc K a"
    and image: "\<forall>j<length ys. field (unat (ulOffsetFiles cfh) + j * 332) 332 c = enc_file_entry (ys ! j)"
    and wf: "\<forall>(l, e)\<in>set ys. length l = 24 \<and> wf_file_entry e \<and> terminated (wcsMonitorFile e)"
    and sorted: "sorted_wrt (<) (map file_key (map snd ys))"
    and load: "loadable ss (map snd ys)"
  shows "i + n = length ys \<Longrightarrow> config_inv s \<Longrightarrow> linked s \<Longrightarrow> hnd f (world s) \<Longrightarrow>
    cnf (world s) = c \<Longrightarrow> N \<le> next_blk s \<Longrightarrow> set_entries s = ss \<Longrightarrow>
    map unlink (file_entries s) = map unlink (map snd (take i ys)) \<Longrightarrow>
    \<exists>s'. load_files K f cfh i n s = Some (True, s') \<and> config_inv s' \<and> linked s' \<and>
      cnf (world s') = c \<and> set_entries s' = ss \<and>
      map unlink (file_entries s') = map unlink (map snd ys) \<and>
      MonitorSet (cfg s') = MonitorSet (cfg s) \<and>
      dwLastNormalShutdown (cfg s') = dwLastNormalShutdown (cfg s)"
proof (induction n arbitrary: i s)
  case 0
  then show ?case by simp
next
  case (Suc n)
  then have i: "i < length ys" by simp
  obtain l e where le: "ys ! i = (l, e)" by fastforce
  have wf': "length l = 24" "wf_file_entry e" "terminated (wcsMonitorFile e)"
    using bspec [OF wf nth_mem [OF i]] le by simp_all
  have e: "e \<in> set (map snd ys)" using i le by (metis length_map nth_map nth_mem snd_conv)
  have done_keys: "map (\<lambda>b. unlink (the (file_mem s b))) (inorder (file_tree_of s)) = take i (map (unlink \<circ> snd) ys)"
    using Suc.prems(8) by (simp add: file_entries_def take_map comp_def)
  have below: "file_key (the (file_mem s b)) < file_key e" if "b \<in> set_tree (file_tree_of s)" for b
    using entries_below [OF done_keys, of file_key b] sorted i le that by (simp add: comp_def)
  have anti: "\<not> prefix (file_key (the (file_mem s b))) (file_key e)" if b: "b \<in> set_tree (file_tree_of s)" for b
  proof
    assume pre: "prefix (file_key (the (file_mem s b))) (file_key e)"
    have "unlink (the (file_mem s b)) \<in> set (take i (map (unlink \<circ> snd) ys))"
      using b unfolding done_keys [symmetric] by force
    then obtain x where "x \<in> set ys" "unlink (the (file_mem s b)) = unlink (snd x)"
      by (auto dest!: in_set_takeD)
    then have x: "wcsMonitorFile (the (file_mem s b)) = wcsMonitorFile (snd x)" "snd x \<in> set (map snd ys)"
      by (auto dest: arg_cong [of _ _ wcsMonitorFile])
    have "file_key (snd x) = file_key e"
      using load pre e x unfolding loadable_def by metis
    with below [OF b] x(1) show False by simp
  qed
  from load e obtain m where "m \<in> set (set_entries s)" "set_key m = guid_bytes (guidSetId e)"
    unfolding loadable_def Suc.prems(7) by blast
  then obtain p where p: "p \<in> set_tree (set_tree_of s)" "set_key (the (set_mem s p)) = guid_bytes (guidSetId e)"
    by (auto simp: set_entries_def)
  have "field (unat (ulOffsetFiles cfh) + i * 332) 332 (cnf (world s)) = enc_file_entry (l, e)"
    using image i le Suc.prems(5) by metis
  from load_files_round [OF rb laws Suc.prems(2,3,4) _ this wf' below anti p, of n] alloc Suc.prems(6)
  obtain t w where tw: "load_files K f cfh i (Suc n) s =
      load_files K f cfh (Suc i) n (loaded_file (next_blk s) (e\<lparr>pSetEntry := Some p\<rparr>) t w s)"
    "hnd f w" "cnf w = cnf (world s)" "config_inv (loaded_file (next_blk s) (e\<lparr>pSetEntry := Some p\<rparr>) t w s)"
    "linked (loaded_file (next_blk s) (e\<lparr>pSetEntry := Some p\<rparr>) t w s)"
    "file_entries (loaded_file (next_blk s) (e\<lparr>pSetEntry := Some p\<rparr>) t w s) =
      file_entries s @ [e\<lparr>pSetEntry := Some p\<rparr>]" by blast
  let ?s = "loaded_file (next_blk s) (e\<lparr>pSetEntry := Some p\<rparr>) t w s"
  have "\<exists>s'. load_files K f cfh (Suc i) n ?s = Some (True, s') \<and> config_inv s' \<and> linked s' \<and>
      cnf (world s') = c \<and> set_entries s' = ss \<and>
      map unlink (file_entries s') = map unlink (map snd ys) \<and>
      MonitorSet (cfg s') = MonitorSet (cfg ?s) \<and>
      dwLastNormalShutdown (cfg s') = dwLastNormalShutdown (cfg ?s)"
    using Suc.prems tw i le
    by (intro Suc.IH) (simp_all add: take_Suc_conv_app_nth set_entries_def)
  with tw(1) show ?case by simp
qed

section \<open>The round trip\<close>

lemma set_entries_sorted: "config_inv s \<Longrightarrow> sorted_wrt (<) (map set_key (set_entries s))"
  using config_invD(2) [of s] by (simp add: bst_ok_def bst_list_def set_entries_def comp_def)

lemma file_entries_sorted: "config_inv s \<Longrightarrow> sorted_wrt (<) (map file_key (file_entries s))"
proof -
  assume inv: "config_inv s"
  have "the (file_view s a) = the (file_mem s a)" if "a \<in> set_tree (file_tree_of s)" for a
    using file_node_live [OF inv that] by (auto simp: readable_def)
  then have eq: "map (\<lambda>a. file_key (the (file_view s a))) (inorder (file_tree_of s)) =
      map (\<lambda>a. file_key (the (file_mem s a))) (inorder (file_tree_of s))"
    by (intro map_cong) auto
  show ?thesis
    using config_invD(3) [OF inv] eq by (simp add: bst_ok_def bst_list_def file_entries_def comp_def)
qed

lemma config_image_fields:
  assumes rb: "rbtree_laws K" and inv: "config_inv s" and pre: "prefix (config_image K s) c"
  shows "field 0 24 c = enc_header (saved_header s)"
    and "j < length (set_images K s) \<Longrightarrow> field (24 + j * 312) 312 c = enc_set_entry (set_images K s ! j)"
    and "j < length (file_images K s) \<Longrightarrow>
      field (24 + 312 * length (set_images K s) + j * 332) 332 c = enc_file_entry (file_images K s ! j)"
proof -
  obtain r where c: "c = enc_header (saved_header s) @ concat (map enc_set_entry (set_images K s)) @
      concat (map enc_file_entry (file_images K s)) @ r"
    using pre by (auto simp: config_image_def prefix_def)
  have slen: "length (enc_set_entry x) = 312" if "x \<in> set (set_images K s)" for x
    using that set_node_live [OF inv] by (fastforce simp: set_images_def rbtree_lawsD [OF rb])
  have flen: "length (enc_file_entry x) = 332" if "x \<in> set (file_images K s)" for x
    using that file_node_live [OF inv] by (fastforce simp: file_images_def rbtree_lawsD [OF rb])
  show "field 0 24 c = enc_header (saved_header s)"
    by (simp add: c field_def)
  show "field (24 + j * 312) 312 c = enc_set_entry (set_images K s ! j)" if "j < length (set_images K s)"
  proof -
    have "drop (24 + j * 312) c = drop (j * 312) (concat (map enc_set_entry (set_images K s)) @
        concat (map enc_file_entry (file_images K s)) @ r)"
      by (simp add: c)
    then show ?thesis
      unfolding field_def using slen that by (simp only: take_concat_const)
  qed
  have "drop (24 + 312 * length (set_images K s) + k) c = drop k (concat (map enc_file_entry (file_images K s)) @ r)" for k
    using length_concat_const [of "set_images K s" enc_set_entry 312] slen by (simp add: c)
  then show "field (24 + 312 * length (set_images K s) + j * 332) 332 c = enc_file_entry (file_images K s ! j)"
    if "j < length (file_images K s)"
    unfolding field_def using flen that by (simp only: take_concat_const)
qed

lemma config_roundtrip_run:
  assumes rb: "rbtree_laws K" and laws: "cnf_laws K cnf hnd" and inv: "config_inv s"
    and fits: "config_fits s" and load: "loadable (set_entries s) (file_entries s)"
    and boot: "config_inv s0" "set_tree_of s0 = Leaf" "file_tree_of s0 = Leaf"
    and alloc: "\<forall>a\<ge>next_blk s0. k_alloc K a"
  shows "\<exists>s1 s2. SaveConfig K s = Some (0, s1) \<and> LoadConfig K (s0\<lparr>world := world s1\<rparr>) = Some (0, s2) \<and>
    set_entries s2 = set_entries s \<and> map unlink (file_entries s2) = map unlink (file_entries s) \<and>
    config_inv s2 \<and> linked s2 \<and> dwLastNormalShutdown (cfg s2) = dwLastNormalShutdown (cfg s) \<and>
    ulCounts (MonitorSet (cfg s2)) = ulCounts (MonitorSet (cfg s0))"
proof -
  obtain s1 where s1: "SaveConfig K s = Some (0, s1)" "prefix (config_image K s) (cnf (world s1))"
    using SaveConfig_image [OF rb laws inv fits] by blast
  let ?c = "cnf (world s1)" and ?xs = "set_images K s" and ?ys = "file_images K s"
  let ?h = "saved_header s"
  note fields = config_image_fields [OF rb inv s1(2)]
  have ns: "length ?xs = length (inorder (set_tree_of s))" "map snd ?xs = set_entries s"
    by (simp_all add: set_images_def set_entries_def comp_def)
  have nf: "length ?ys = length (inorder (file_tree_of s))" "map snd ?ys = file_entries s"
    by (simp_all add: file_images_def file_entries_def comp_def)
  have n32: "unat (of_nat (312 * length ?xs) :: u32) = 312 * length ?xs"
      "unat (of_nat (332 * length ?ys) :: u32) = 332 * length ?ys"
      "unat (of_nat (24 + 312 * length ?xs) :: u32) = 24 + 312 * length ?xs"
    using fits ns nf by (simp_all only: config_fits_def) (rule unat_u32, simp)+
  have h: "ulOffsetSet ?h = 24" "unat (ulSizeSet ?h) = 312 * length ?xs"
      "unat (ulOffsetFiles ?h) = 24 + 312 * length ?xs" "unat (ulSizeFiles ?h) = 332 * length ?ys"
      "ulLastShutdownStatus ?h = dwLastNormalShutdown (cfg s)"
    using n32 by (simp_all add: saved_header_def Let_def ns nf)
  obtain f w1 where opn: "k_open K KERNEL_DS rtb_cnf (O_RDONLY + O_CREAT) 384 (world s1) = (Inr f, w1)"
    and f: "hnd f w1" "cnf w1 = ?c" using cnf_open [OF laws] by blast
  obtain w2 where w2: "k_read K KERNEL_DS f 0 24 w1 = ((24, enc_header ?h), w2)" "hnd f w2" "cnf w2 = ?c"
    using cnf_read [OF laws f(1), of 0 24] f(2) fields(1) by auto
  let ?s0 = "upd_cfg (\<lambda>c. c\<lparr>dwLastNormalShutdown := ulLastShutdownStatus ?h\<rparr>) (s0\<lparr>world := w2\<rparr>)"
  have inv0: "config_inv ?s0" using boot(1) by (simp add: config_inv_def)
  have "\<exists>s3. load_sets K f ?h 0 (length ?xs) ?s0 = Some (True, s3) \<and> config_inv s3 \<and> hnd f (world s3) \<and>
      cnf (world s3) = ?c \<and> next_blk s0 \<le> next_blk s3 \<and> set_entries s3 = map snd ?xs \<and>
      MonitorFiles (cfg s3) = MonitorFiles (cfg ?s0) \<and>
      dwLastNormalShutdown (cfg s3) = dwLastNormalShutdown (cfg ?s0) \<and>
      ulCounts (MonitorSet (cfg s3)) = ulCounts (MonitorSet (cfg ?s0))"
  proof (rule load_sets_ok [OF rb laws alloc])
    show "\<forall>j<length ?xs. field (unat (ulOffsetSet ?h) + j * 312) 312 ?c = enc_set_entry (?xs ! j)"
      using fields(2) by (simp add: h)
    show "\<forall>(l, e)\<in>set ?xs. length l = 24 \<and> wf_set_entry e"
      using set_node_live [OF inv] by (fastforce simp: set_images_def rbtree_lawsD [OF rb])
    show "sorted_wrt (<) (map set_key (map snd ?xs))"
      using set_entries_sorted [OF inv] by (simp add: ns)
  qed (use inv0 w2 boot in \<open>simp_all add: set_entries_def\<close>)
  then obtain s3 where s3: "load_sets K f ?h 0 (length ?xs) ?s0 = Some (True, s3)" "config_inv s3"
      "hnd f (world s3)" "cnf (world s3) = ?c" "next_blk s0 \<le> next_blk s3" "set_entries s3 = set_entries s"
      "file_tree_of s3 = Leaf" "dwLastNormalShutdown (cfg s3) = dwLastNormalShutdown (cfg s)"
      "ulCounts (MonitorSet (cfg s3)) = ulCounts (MonitorSet (cfg s0))"
    using boot h(5) by (auto simp: ns)
  have "\<exists>s4. load_files K f ?h 0 (length ?ys) s3 = Some (True, s4) \<and> config_inv s4 \<and> linked s4 \<and>
      cnf (world s4) = ?c \<and> set_entries s4 = set_entries s \<and>
      map unlink (file_entries s4) = map unlink (map snd ?ys) \<and>
      MonitorSet (cfg s4) = MonitorSet (cfg s3) \<and>
      dwLastNormalShutdown (cfg s4) = dwLastNormalShutdown (cfg s3)"
  proof (rule load_files_ok [OF rb laws alloc])
    show "\<forall>j<length ?ys. field (unat (ulOffsetFiles ?h) + j * 332) 332 ?c = enc_file_entry (?ys ! j)"
      using fields(3) by (simp add: h)
    show "\<forall>(l, e)\<in>set ?ys. length l = 24 \<and> wf_file_entry e \<and> terminated (wcsMonitorFile e)"
      using file_node_live [OF inv] by (fastforce simp: file_images_def rbtree_lawsD [OF rb])
    show "sorted_wrt (<) (map file_key (map snd ?ys))"
      using file_entries_sorted [OF inv] by (simp add: nf)
    show "loadable (set_entries s) (map snd ?ys)" using load by (simp add: nf)
  qed (use s3 in \<open>simp_all add: linked_def file_entries_def\<close>)
  then obtain s4 where s4: "load_files K f ?h 0 (length ?ys) s3 = Some (True, s4)" "config_inv s4" "linked s4"
      "set_entries s4 = set_entries s" "map unlink (file_entries s4) = map unlink (file_entries s)"
      "MonitorSet (cfg s4) = MonitorSet (cfg s3)"
      "dwLastNormalShutdown (cfg s4) = dwLastNormalShutdown (cfg s3)"
    by (auto simp: nf)
  have "LoadConfig K (s0\<lparr>world := world s1\<rparr>) = Some (0, file_close K f s4)"
    using s3(1) s4(1)
    by (simp add: LoadConfig_def file_open_eq opn file_read_eq w2(1) sizeof_defs as_int_id
        dec_enc_header h)
  moreover note same = file_close_same [of s4 K f]
  ultimately show ?thesis
    using s1(1) s3 s4 config_inv_same [OF same]
    by (auto simp: set_entries_def file_entries_def linked_def same_kernel_simps [OF same])
qed

end
