(* ===== verification/MonitorSet.thy ===== *)
theory MonitorSet
  imports RoundTrip
begin

text \<open>
  The rest of \<open>monitorset.c\<close>: adding and deleting backup sets and monitored files, the
  commands the netlink handler calls, sequence numbers, start and stop.
\<close>

section \<open>Lookup\<close>

definition GetMonitorFileEntryByabspath :: "byte list \<Rightarrow> 'w kstate \<Rightarrow> addr option option" where
  "GetMonitorFileEntryByabspath abspath s = mi_search (file_view s) (file_tree_of s) abspath"

definition checkneedtolog :: "byte list \<Rightarrow> 'w kstate \<Rightarrow> int option" where
  "checkneedtolog path s =
     do { pmfe \<leftarrow> mi_search (file_view s) (file_tree_of s) path;
          Some (if pmfe \<noteq> None then 1 else 0) }"

definition GetMonitorSetEntry :: "GUID \<Rightarrow> 'w kstate \<Rightarrow> addr option option" where
  "GetMonitorSetEntry guidSet s =
     (if 0 < ulCounts (MonitorSet (cfg s))
      then ms_search (set_mem s) (set_tree_of s) guidSet else Some None)"

section \<open>Deleting\<close>

text \<open>
  All three loops free the node they stand on and then ask \<open>rb_next\<close> for the successor
  of the freed node: the next node is \<open>k_rb_stale\<close>.
\<close>

definition del_node :: "'w kernel \<Rightarrow> which \<Rightarrow> addr \<Rightarrow> 'w kstate \<Rightarrow> (addr option \<times> 'w kstate) option" where
  "del_node K c a s =
     do { let t = RBTree (items c s);
          let s = set_root c (k_rb_erase K t a) s;
          s \<leftarrow> EntryFree c (Some a) s;
          n \<leftarrow> k_rb_stale K t a;
          Some (n, s) }"

definition DelAllMonitorSet :: "'w kernel \<Rightarrow> 'w kstate \<Rightarrow> (int \<times> 'w kstate) option" where
  "DelAllMonitorSet K s =
     do { s \<leftarrow> rb_for (del_node K Files) (k_rb_first K (file_tree_of s)) s;
          let s = upd_items Files (\<lambda>d. d\<lparr>ulCounts := 0\<rparr>) s;
          s \<leftarrow> rb_for (del_node K Sets) (k_rb_first K (set_tree_of s)) s;
          let s = upd_items Sets (\<lambda>d. d\<lparr>ulCounts := 0\<rparr>) s;
          Some (0, s) }"

definition ConfigDelAllMonitorSet :: "'w kernel \<Rightarrow> 'w kstate \<Rightarrow> (int \<times> 'w kstate) option" where
  "ConfigDelAllMonitorSet K s =
     do { (ret, s) \<leftarrow> DelAllMonitorSet K s; (_, s) \<leftarrow> SaveConfig K s; Some (ret, s) }"

definition DelAllMonitorSetinMemory :: "'w kernel \<Rightarrow> 'w kstate \<Rightarrow> (int \<times> 'w kstate) option" where
  "DelAllMonitorSetinMemory K s = DelAllMonitorSet K s"

text \<open>The dump reads every entry and prints it.\<close>

definition dump_set :: "'w kernel \<Rightarrow> addr \<Rightarrow> 'w kstate \<Rightarrow> (addr option \<times> 'w kstate) option" where
  "dump_set K a s = do { _ \<leftarrow> set_mem s a; Some (k_rb_next K (set_tree_of s) a, s) }"

definition dump_file :: "'w kernel \<Rightarrow> addr \<Rightarrow> 'w kstate \<Rightarrow> (addr option \<times> 'w kstate) option" where
  "dump_file K a s = do { _ \<leftarrow> file_view s a; Some (k_rb_next K (file_tree_of s) a, s) }"

definition DumpAllMonitorSet :: "'w kernel \<Rightarrow> 'w kstate \<Rightarrow> (int \<times> 'w kstate) option" where
  "DumpAllMonitorSet K s =
     do { s \<leftarrow> rb_for (dump_set K) (k_rb_first K (set_tree_of s)) s;
          s \<leftarrow> rb_for (dump_file K) (k_rb_first K (file_tree_of s)) s;
          Some (0, s) }"

definition del_by_set :: "'w kernel \<Rightarrow> which \<Rightarrow> GUID \<Rightarrow> addr \<Rightarrow> 'w kstate \<Rightarrow> (addr option \<times> 'w kstate) option" where
  "del_by_set K c guidSet a s =
     do { g \<leftarrow> head_guid c s a;
          let t = RBTree (items c s);
          if memcmp (guid_bytes g) (guid_bytes guidSet) = 0
          then do {
            let s = set_root c (k_rb_erase K t a) s;
            let s = (if 0 < ulCounts (items c s)
                     then upd_items c (\<lambda>d. d\<lparr>ulCounts := ulCounts d - 1\<rparr>) s else s);
            s \<leftarrow> EntryFree c (Some a) s;
            n \<leftarrow> k_rb_stale K t a;
            Some (n, s) }
          else Some (k_rb_next K t a, s) }"

definition DelMonitorItemsBySetId :: "'w kernel \<Rightarrow> which \<Rightarrow> GUID \<Rightarrow> 'w kstate \<Rightarrow> (int \<times> 'w kstate) option" where
  "DelMonitorItemsBySetId K c guidSet s =
     do { s \<leftarrow> rb_for (del_by_set K c guidSet) (k_rb_first K (RBTree (items c s))) s;
          Some (0, s) }"

definition DelMonitorSet :: "'w kernel \<Rightarrow> GUID \<Rightarrow> bool \<Rightarrow> 'w kstate \<Rightarrow> (int \<times> 'w kstate) option" where
  "DelMonitorSet K pSet bNeedSync s =
     do { let status = 0;
          (status1, s) \<leftarrow> DelMonitorItemsBySetId K Files pSet s;
          let status = (if status1 \<noteq> 0 then status1 else status);
          (status1, s) \<leftarrow> DelMonitorItemsBySetId K Sets pSet s;
          let status = (if status1 \<noteq> 0 then status1 else status);
          Some (status, s) }"

definition ConfigDelMonitorSet :: "'w kernel \<Rightarrow> REALTIME_BACKUP_DATA option \<Rightarrow> 'w kstate \<Rightarrow> (int \<times> 'w kstate) option" where
  "ConfigDelMonitorSet K pfn s =
     (case pfn of
        None \<Rightarrow> Some (-1, s)
      | Some bd \<Rightarrow>
          do { (status, s) \<leftarrow> DelMonitorSet K (bdGuidSetId bd) True s;
               (_, s) \<leftarrow> SaveConfig K s;
               Some (status, s) })"

definition FILTER_TYPE_FILE :: u32 where "FILTER_TYPE_FILE = 0"
definition FILTER_TYPE_DIR :: u32 where "FILTER_TYPE_DIR = 1"

text \<open>
  One round of the loop of \<open>ConfigDelMonitorItem\<close>. The name is copied into an array of
  the stack before its type is looked at.
\<close>

definition del_item :: "'w kernel \<Rightarrow> FILTER_ITEM \<Rightarrow> 'w kstate \<Rightarrow> 'w kstate option" where
  "del_item K pItem s =
     do { n \<leftarrow> c_strlen (wszFilterName pItem);
          name \<leftarrow> c_strncpy (replicate FILEREPL_MAX_PATH 0) (wszFilterName pItem) n;
          if ulFileType pItem = FILTER_TYPE_FILE \<or> ulFileType pItem = FILTER_TYPE_DIR
          then do { (pmfeFound, t) \<leftarrow> mi_remove K (file_view s) (file_tree_of s) name;
                    let s = set_root Files t s;
                    EntryFree Files pmfeFound s }
          else Some s }"

fun del_items :: "'w kernel \<Rightarrow> FILTER_ITEM list \<Rightarrow> nat \<Rightarrow> 'w kstate \<Rightarrow> 'w kstate option" where
  "del_items K pItem 0 s = Some s"
| "del_items K [] (Suc n) s = None"
| "del_items K (it # pItem) (Suc n) s = do { s \<leftarrow> del_item K it s; del_items K pItem n s }"

definition ConfigDelMonitorItem :: "'w kernel \<Rightarrow> REALTIME_BACKUP_DATA option \<Rightarrow> 'w kstate \<Rightarrow> (int \<times> 'w kstate) option" where
  "ConfigDelMonitorItem K pfn s =
     (case pfn of
        None \<Rightarrow> Some (-1, s)
      | Some bd \<Rightarrow>
          do { s \<leftarrow> del_items K (FilterItems bd) (unat (ulFilterItemCounts bd)) s;
               (_, s) \<leftarrow> SaveConfig K s;
               Some (0, s) })"

section \<open>Adding\<close>

definition AddMonitorItem :: "'w kernel \<Rightarrow> MONITOR_FILE_ENTRY option \<Rightarrow> 'w kstate \<Rightarrow> (int \<times> 'w kstate) option" where
  "AddMonitorItem K pmfe s =
     (case pmfe of
        None \<Rightarrow> Some (-1, s)
      | Some mfe \<Rightarrow>
          do { n \<leftarrow> c_strlen (wcsMonitorFile mfe);
               if n < 2 \<or> hd (wcsMonitorFile mfe) \<noteq> of_char (CHR ''/'') then Some (-1, s)
               else do {
                 pmfeFound \<leftarrow> mi_search (file_view s) (file_tree_of s) (wcsMonitorFile mfe);
                 if pmfeFound = None
                 then (case MonitorFileEntryAlloc K s of
                         (None, s) \<Rightarrow> Some (-3, s)
                       | (Some pmfeNew, s) \<Rightarrow>
                           do { let s = put_file pmfeNew mfe s;
                                (status, t) \<leftarrow> mi_insert K (file_view s) (file_tree_of s) pmfeNew;
                                let s = set_root Files t s;
                                if status \<noteq> 0
                                then do { s \<leftarrow> MonitorFileEntryFree (Some pmfeNew) s; Some (-2, s) }
                                else do {
                                  let s = put_file pmfeNew (mfe\<lparr>bMonitor := 1, pSetEntry := None\<rparr>) s;
                                  Some (status, upd_items Files (\<lambda>d. d\<lparr>ulCounts := ulCounts d + 1\<rparr>) s) } })
                 else Some (0, s) } })"

definition AddMonitorFile :: "'w kernel \<Rightarrow> MONITOR_FILE_ENTRY option \<Rightarrow> 'w kstate \<Rightarrow> (int \<times> 'w kstate) option" where
  "AddMonitorFile K pmfe s = AddMonitorItem K pmfe s"

definition AddMonitorSet :: "'w kernel \<Rightarrow> MONITOR_SET_ENTRY option \<Rightarrow> bool \<Rightarrow> 'w kstate \<Rightarrow> (int \<times> 'w kstate) option" where
  "AddMonitorSet K pSet bDelExist s =
     (case pSet of
        None \<Rightarrow> Some (-1, s)
      | Some mse \<Rightarrow>
          do { pmse \<leftarrow> GetMonitorSetEntry (guidSetId mse) s;
               if pmse \<noteq> None \<and> \<not> bDelExist then Some (-2, s)
               else do {
                 (_, s) \<leftarrow> (if pmse \<noteq> None then DelMonitorSet K (guidSetId mse) False s else Some (0, s));
                 (case MonitorSetEntryAlloc K s of
                    (None, s) \<Rightarrow> Some (-3, s)
                  | (Some pmse, s) \<Rightarrow>
                      do { e \<leftarrow> set_mem s pmse;
                           dir \<leftarrow> c_strncat (wcsSetCacheDir e) (wcsSetCacheDir mse) FILEREPL_MAX_PATH;
                           let s = put_set pmse (e\<lparr>wcsSetCacheDir := dir, guidSetId := guidSetId mse,
                                     ullSetSeqNo := ullSetSeqNo mse, ulFileCount := 0\<rparr>) s;
                           (ret, t) \<leftarrow> ms_insert K (set_mem s) (set_tree_of s) pmse;
                           let s = set_root Sets t s;
                           if ret \<noteq> 0
                           then do { s \<leftarrow> MonitorSetEntryFree (Some pmse) s; Some (-1, s) }
                           else Some (0, upd_items Sets (\<lambda>d. d\<lparr>ulCounts := ulCounts d + 1\<rparr>) s) }) } })"

text \<open>
  The loop of \<open>ConfigAddMonitorSet\<close> over the filter items, with \<open>ulI\<close> the index and \<open>n\<close>
  rounds left; the flag of the result says whether the function returned from inside the
  loop. For an unknown type \<open>status\<close> keeps the pointer \<open>strncat\<close> returned. The arrays of
  the message hold \<open>ulFilterItemCounts\<close> items only if the sender was honest: a round past
  the end faults.
\<close>

definition filter_entry :: "REALTIME_BACKUP_DATA \<Rightarrow> addr \<Rightarrow> FILTER_ITEM \<Rightarrow> byte list \<Rightarrow> MONITOR_FILE_ENTRY" where
  "filter_entry bd pmse it name = zero_file_entry\<lparr>pSetEntry := Some pmse, guidSetId := bdGuidSetId bd,
     wcsMonitorFile := name, bDirectory := (if ulFileType it = FILTER_TYPE_DIR then 1 else 0),
     ulLength := of_nat (strlen name)\<rparr>"

fun add_items ::
  "'w kernel \<Rightarrow> REALTIME_BACKUP_DATA \<Rightarrow> addr \<Rightarrow> FILTER_ITEM list \<Rightarrow> nat \<Rightarrow> nat \<Rightarrow> int \<Rightarrow> 'w kstate \<Rightarrow>
   (bool \<times> int \<times> 'w kstate) option" where
  "add_items K bd pmse pItem ulI 0 status s = Some (False, status, s)"
| "add_items K bd pmse [] ulI (Suc n) status s = None"
| "add_items K bd pmse (it # pItem) ulI (Suc n) status s =
     do { len \<leftarrow> c_strlen (wszFilterName it);
          name \<leftarrow> c_strncat (replicate FILEREPL_MAX_PATH 0) (wszFilterName it) len;
          if ulFileType it = FILTER_TYPE_FILE \<or> ulFileType it = FILTER_TYPE_DIR
          then do {
            (status, s) \<leftarrow> AddMonitorFile K (Some (filter_entry bd pmse it name)) s;
            if status \<noteq> 0
            then if status = -5
                 then do {
                   (_, s) \<leftarrow> ConfigDelMonitorItem K
                     (Some (bd\<lparr>ulFilterItemCounts := of_nat ulI - 1\<rparr>)) s;
                   Some (False, status, s) }
                 else Some (True, status, s)
            else do {
              e \<leftarrow> set_mem s pmse;
              let s = put_set pmse (e\<lparr>ulFileCount := ulFileCount e + 1\<rparr>) s;
              add_items K bd pmse pItem (Suc ulI) n status s } }
          else add_items K bd pmse pItem (Suc ulI) n (k_stack_int K) s }"

definition ConfigAddMonitorSet ::
  "'w kernel \<Rightarrow> REALTIME_BACKUP_DATA option \<Rightarrow> bool \<Rightarrow> 'w kstate \<Rightarrow> (int \<times> 'w kstate) option" where
  "ConfigAddMonitorSet K pfn bDelExistSet s =
     (case pfn of
        None \<Rightarrow> Some (-1, s)
      | Some bd \<Rightarrow>
          do { len \<leftarrow> c_strlen (wszBakCacheDir bd);
               dir \<leftarrow> c_strncat (replicate FILEREPL_MAX_PATH 0) (wszBakCacheDir bd) len;
               let mse = zero_set_entry\<lparr>guidSetId := bdGuidSetId bd, ullSetSeqNo := 0, wcsSetCacheDir := dir\<rparr>;
               (status, s) \<leftarrow> AddMonitorSet K (Some mse) bDelExistSet s;
               if status \<noteq> 0 \<and> \<not> (status = -2 \<and> \<not> bDelExistSet) then Some (status, s)
               else do {
                 pmse \<leftarrow> ms_search (set_mem s) (set_tree_of s) (guidSetId mse);
                 (case pmse of
                    None \<Rightarrow> Some (-3, s)
                  | Some p \<Rightarrow>
                      do { (returned, status, s) \<leftarrow> add_items K bd p (FilterItems bd) 0
                             (unat (ulFilterItemCounts bd)) status s;
                           if returned then Some (status, s)
                           else do { (_, s) \<leftarrow> SaveConfig K s; Some (status, s) } }) } })"

section \<open>Sequence numbers\<close>

text \<open>
  The outputs are those of the callers, who pass variables and a directory buffer they
  have zeroed: sequence number in the file, in the set, time, log directory.
\<close>

definition GetMonitorFileSeqNoByMonitorFileEntry ::
  "'w kernel \<Rightarrow> addr option \<Rightarrow> 'w kstate \<Rightarrow> ((int \<times> u64 \<times> u64 \<times> u64 \<times> byte list) \<times> 'w kstate) option" where
  "GetMonitorFileSeqNoByMonitorFileEntry K pmfe s =
     (case pmfe of
        None \<Rightarrow> Some ((-1, 0, 0, 0, []), s)
      | Some a \<Rightarrow>
          do { e \<leftarrow> file_mem s a;
               (pmse, s) \<leftarrow>
                 (case pSetEntry e of
                    Some p \<Rightarrow> Some (Some p, s)
                  | None \<Rightarrow> do { p \<leftarrow> GetMonitorSetEntry (guidSetId e) s;
                                Some (p, put_file a (e\<lparr>pSetEntry := p\<rparr>) s) });
               (case pmse of
                  None \<Rightarrow> Some ((-3, 0, 0, 0, []), s)
                | Some p \<Rightarrow>
                    do { e \<leftarrow> file_mem s a;
                         m \<leftarrow> set_mem s p;
                         let (tv_sec, tv_nsec) = k_time K (world s);
                         let timesecs = tv_sec * 1000 * 10000 + tv_nsec div 100;
                         let s = put_file a (e\<lparr>ullSeqNo := ullSeqNo e + 1\<rparr>) s;
                         let s = put_set p (m\<lparr>ullSetSeqNo := ullSetSeqNo m + 1\<rparr>) s;
                         n \<leftarrow> c_strlen (wcsSetCacheDir m);
                         Some ((0, ullSeqNo e, ullSetSeqNo m, timesecs, cstr (wcsSetCacheDir m)), s) }) })"

section \<open>Start and stop\<close>

definition zero_items :: MONITOR_ITEM_DATA where
  "zero_items = \<lparr>ulCounts = 0, ItemLookAsideList = False, RBTree = Leaf\<rparr>"

definition zero_FileReplData :: FILEREPL_DATA where
  "zero_FileReplData = \<lparr>Config = \<lparr>bMonitorFilesLoaded = False, MonitorFiles = zero_items,
     MonitorSet = zero_items, bValid = False, bNormalRunning = False, dwLastNormalShutdown = 0,
     bDirty = False, iowritequeue = []\<rparr>, bStopTask = False\<rparr>"

definition InitMonitorSet :: "'w kernel \<Rightarrow> 'w kstate \<Rightarrow> (int \<times> 'w kstate) option" where
  "InitMonitorSet K s =
     do { let s = s\<lparr>FileReplData := zero_FileReplData\<rparr>;
          let s = upd_cfg (\<lambda>c. c\<lparr>bValid := True, bNormalRunning := True\<rparr>) s;
          let s = upd_items Files (\<lambda>d. d\<lparr>ItemLookAsideList := k_cache_files K\<rparr>) s;
          if \<not> k_cache_files K then Some (-1, s)
          else do {
            let s = upd_items Sets (\<lambda>d. d\<lparr>ItemLookAsideList := k_cache_sets K\<rparr>) s;
            if \<not> k_cache_sets K then Some (-1, s)
            else do {
              let s = set_root Files Leaf (set_root Sets Leaf s);
              let s = upd_cfg (\<lambda>c. c\<lparr>iowritequeue := []\<rparr>) s;
              (_, s) \<leftarrow> LoadConfig K s;
              Some (0, s) } } }"

text \<open>The slab caches are destroyed last; nothing of the module runs afterwards.\<close>

definition UninitMonitorSet :: "'w kernel \<Rightarrow> 'w kstate \<Rightarrow> (int \<times> 'w kstate) option" where
  "UninitMonitorSet K s =
     do { let s = upd_cfg (\<lambda>c. c\<lparr>bValid := False\<rparr>) s;
          let s = s\<lparr>FileReplData := (FileReplData s)\<lparr>bStopTask := True\<rparr>\<rparr>;
          (_, s) \<leftarrow> DumpAllMonitorSet K s;
          (_, s) \<leftarrow> DelAllMonitorSetinMemory K s;
          (_, s) \<leftarrow> DumpAllMonitorSet K s;
          Some (0, s) }"

end
