(* ===== verification/MonitorInv.thy ===== *)
theory MonitorInv
  imports MonitorSet
begin

text \<open>
  The operations on the monitoring configuration keep its invariants. The deletion loops
  are described by the state they end in: the entries they removed are gone from one tree
  and its heap, and nothing else has changed.
\<close>

section \<open>The deletion loops\<close>

text \<open>The state \<open>s\<close> without the nodes \<open>D\<close> of one tree, the tree now \<open>t\<close> and its counter \<open>n\<close>.\<close>

fun without :: "which \<Rightarrow> addr set \<Rightarrow> addr tree \<Rightarrow> u32 \<Rightarrow> 'w kstate \<Rightarrow> 'w kstate" where
  "without Sets D t n s =
     (upd_items Sets (\<lambda>d. d\<lparr>ulCounts := n, RBTree := t\<rparr>) s)\<lparr>set_mem := (set_mem s) |` (- D)\<rparr>"
| "without Files D t n s =
     (upd_items Files (\<lambda>d. d\<lparr>ulCounts := n, RBTree := t\<rparr>) s)\<lparr>file_mem := (file_mem s) |` (- D)\<rparr>"

abbreviation nodes :: "which \<Rightarrow> 'w kstate \<Rightarrow> addr set" where
  "nodes c s \<equiv> set_tree (RBTree (items c s))"

definition pruned :: "which \<Rightarrow> addr set \<Rightarrow> 'w kstate \<Rightarrow> 'w kstate \<Rightarrow> bool" where
  "pruned c D s s' \<longleftrightarrow>
     D \<subseteq> nodes c s \<and>
     (\<exists>t n. s' = without c D t n s \<and>
        inorder t = filter (\<lambda>a. a \<notin> D) (inorder (RBTree (items c s))))"

lemma without_items [simp]:
  "RBTree (items c (without c D t n s)) = t"
  "ItemLookAsideList (items c' (without c D t n s)) = ItemLookAsideList (items c' s)"
  by (cases c; cases c'; simp)+

lemma restrict_UNIV [simp]: "m |` UNIV = m"
  by (auto simp: restrict_map_def)

lemma upd_items_twice: "upd_items c f (upd_items c g s) = upd_items c (f \<circ> g) s"
  by (cases c) (simp_all add: upd_cfg_def)

lemma EntryFree_without:
  assumes "ItemLookAsideList (items c s)" and "head_guid c s a \<noteq> None" and "a \<notin> D"
  shows "EntryFree c (Some a) (set_root c t' (without c D t n s)) = Some (without c (insert a D) t' n s)"
    and "EntryFree c (Some a) (upd_items c (\<lambda>d. d\<lparr>ulCounts := ulCounts d - 1\<rparr>)
           (set_root c t' (without c D t n s))) = Some (without c (insert a D) t' (n - 1) s)"
  using assms
  subgoal by (cases c) (simp_all add: EntryFree_def set_root_def upd_cfg_def Compl_insert)
  subgoal using assms by (cases c) (simp_all add: EntryFree_def set_root_def upd_cfg_def Compl_insert)
  done

lemma pruned_refl [simp]: "pruned c {} s s"
proof -
  have "s = without c {} (RBTree (items c s)) (ulCounts (items c s)) s"
    by (cases c) (simp_all add: upd_cfg_def)
  then show ?thesis unfolding pruned_def by auto
qed

text \<open>Pruning keeps the invariants: every remaining node is as it was.\<close>

lemma config_inv_pruned:
  assumes inv: "config_inv s" and pr: "pruned c D s s'"
  shows "config_inv s'"
proof -
  from pr obtain t n where s': "s' = without c D t n s"
    and t: "inorder t = filter (\<lambda>a. a \<notin> D) (inorder (RBTree (items c s)))"
    by (auto simp: pruned_def)
  have keep: "bst_ok key (h |` (- D)) t" if "bst_ok key h (RBTree (items c s))" for key :: "'b \<Rightarrow> byte list" and h
  proof -
    have "bst_list key h (inorder t)" using that by (simp add: bst_ok_def t bst_list_filter)
    moreover have "bst_list key h (inorder t) = bst_list key (h |` (- D)) (inorder t)"
      by (rule bst_list_cong) (simp add: t)
    ultimately show ?thesis by (simp add: bst_ok_def)
  qed
  have "readable (h |` (- D)) = readable h |` (- D)" for h
    by (auto simp: readable_def restrict_map_def fun_eq_iff)
  then show ?thesis
    using inv keep [of set_key "set_mem s"] keep [of file_key "file_view s"] unfolding s' config_inv_def
    by (cases c) (auto simp: restrict_map_def split: if_splits)
qed

lemma pruned_nodes: "pruned c D s s' \<Longrightarrow> nodes c s' = nodes c s - D"
proof -
  assume "pruned c D s s'"
  then have "inorder (RBTree (items c s')) = filter (\<lambda>a. a \<notin> D) (inorder (RBTree (items c s)))"
    by (auto simp: pruned_def)
  then have "set (inorder (RBTree (items c s'))) = set (inorder (RBTree (items c s))) - D" by auto
  then show ?thesis by simp
qed

lemma pruned_head: "pruned c D s s' \<Longrightarrow> a \<notin> D \<Longrightarrow> head_guid c s' a = head_guid c s a"
  by (cases c) (auto simp: pruned_def restrict_map_def)

lemma node_head: "config_inv s \<Longrightarrow> a \<in> nodes c s \<Longrightarrow> \<exists>g. head_guid c s a = Some g"
  using set_node_live [of s a] file_node_live [of s a] by (cases c) auto

lemma nodes_distinct: "config_inv s \<Longrightarrow> distinct (inorder (RBTree (items c s)))"
  using config_invD(2) [of s, THEN bst_ok_distinct] config_invD(3) [of s, THEN bst_ok_distinct]
  by (cases c) simp_all

text \<open>Erasing and freeing one node, with or without counting it off.\<close>

lemma pruned_step:
  assumes rb: "rbtree_laws K" and inv: "config_inv s0" and pr: "pruned c D s0 s" and a: "a \<in> nodes c s"
    and dec: "s1 = set_root c (k_rb_erase K (RBTree (items c s)) a) s \<or>
      s1 = upd_items c (\<lambda>d. d\<lparr>ulCounts := ulCounts d - 1\<rparr>)
             (set_root c (k_rb_erase K (RBTree (items c s)) a) s)"
  shows "\<exists>s2. EntryFree c (Some a) s1 = Some s2 \<and> pruned c (insert a D) s0 s2"
proof -
  from pr obtain t n where s: "s = without c D t n s0" and D: "D \<subseteq> nodes c s0"
    and t: "inorder t = filter (\<lambda>a. a \<notin> D) (inorder (RBTree (items c s0)))"
    by (auto simp: pruned_def)
  have a': "a \<in> nodes c s0" "a \<notin> D" using a pruned_nodes [OF pr] by auto
  have "distinct (inorder t)" using nodes_distinct [OF inv] by (simp add: t)
  moreover have "a \<in> set_tree t" using a by (simp add: s)
  ultimately have er: "inorder (k_rb_erase K t a) = filter (\<lambda>b. b \<notin> insert a D) (inorder (RBTree (items c s0)))"
    using rbtree_lawsD(2) [OF rb]
    by (auto simp: t distinct_remove1_removeAll removeAll_filter_not_eq intro!: filter_cong)
  have live: "ItemLookAsideList (items c s0)" "head_guid c s0 a \<noteq> None"
    using config_invD(1) [OF inv] node_head [OF inv a'(1)] by auto
  obtain m where "EntryFree c (Some a) s1 = Some (without c (insert a D) (k_rb_erase K t a) m s0)"
    using dec EntryFree_without [OF live a'(2), of "k_rb_erase K t a" t n] by (auto simp: s)
  then show ?thesis using er D a'(1) unfolding pruned_def by blast
qed

text \<open>What each loop removes, whatever the stale links say, as long as they stay in the tree.\<close>

lemma next_node: "rbtree_laws K \<Longrightarrow> a \<in> set_tree t \<Longrightarrow> k_rb_next K t a = Some b \<Longrightarrow> b \<in> set_tree t"
  by (metis next_in_mem rbtree_lawsD(4) set_inorder)

lemma first_node: "rbtree_laws K \<Longrightarrow> k_rb_first K t = Some b \<Longrightarrow> b \<in> set_tree t"
  by (cases "inorder t") (auto simp: rbtree_lawsD(3) simp flip: set_inorder)

lemma stale_node:
  assumes "rbtree_laws K" "stale_in_tree K" "a \<in> set_tree t" "distinct (inorder t)"
    "k_rb_stale K t a = Some (Some b)"
  shows "b \<in> set_tree (k_rb_erase K t a)"
proof -
  have "b \<in> set_tree t" "b \<noteq> a" using assms(2-5) unfolding stale_in_tree_def by blast+
  then have "b \<in> set (remove1 a (inorder t))" using assms(4) by (simp add: set_remove1_eq)
  then show ?thesis using rbtree_lawsD(2) [OF assms(1,3,4)] by (metis set_inorder)
qed

definition del_inv :: "which \<Rightarrow> (GUID \<Rightarrow> bool) \<Rightarrow> 'w kstate \<Rightarrow> addr option \<Rightarrow> 'w kstate \<Rightarrow> bool" where
  "del_inv c P s0 node s \<longleftrightarrow>
     (\<exists>D. pruned c D s0 s \<and> (\<forall>a\<in>D. \<exists>g. head_guid c s0 a = Some g \<and> P g)) \<and>
     (\<forall>a. node = Some a \<longrightarrow> a \<in> nodes c s)"

lemma EntryFree_nodes: "EntryFree c p s = Some s' \<Longrightarrow> RBTree (items c' s') = RBTree (items c' s)"
  by (cases c; cases c') (auto simp: EntryFree_def split: option.splits if_splits)

lemma nodes_set_root [simp]: "RBTree (items c (set_root c t s)) = t"
    "RBTree (items c (upd_items c (\<lambda>d. d\<lparr>ulCounts := f d\<rparr>) s)) = RBTree (items c s)"
  subgoal by (cases c) (simp_all add: set_root_def)
  subgoal by (cases c) simp_all
  done

lemma erase_step_inv:
  assumes rb: "rbtree_laws K" and st: "stale_in_tree K" and inv: "config_inv s0"
    and I: "del_inv c P s0 (Some a) s" and g: "head_guid c s a = Some g" "P g"
    and dec: "s1 = set_root c (k_rb_erase K (RBTree (items c s)) a) s \<or>
      s1 = upd_items c (\<lambda>d. d\<lparr>ulCounts := ulCounts d - 1\<rparr>)
             (set_root c (k_rb_erase K (RBTree (items c s)) a) s)"
    and free: "EntryFree c (Some a) s1 = Some s2" and stale: "k_rb_stale K (RBTree (items c s)) a = Some n"
  shows "del_inv c P s0 n s2"
proof -
  from I obtain D where D: "pruned c D s0 s" "\<forall>a\<in>D. \<exists>g. head_guid c s0 a = Some g \<and> P g"
    and a: "a \<in> nodes c s" by (auto simp: del_inv_def)
  have "pruned c (insert a D) s0 s2"
    using pruned_step [OF rb inv D(1) a dec] free by auto
  moreover have "head_guid c s0 a = Some g"
    using g(1) pruned_head [OF D(1)] pruned_nodes [OF D(1)] a by auto
  moreover have "nodes c s2 = set_tree (k_rb_erase K (RBTree (items c s)) a)"
    using dec EntryFree_nodes [OF free, of c] by auto
  moreover have "b \<in> set_tree (k_rb_erase K (RBTree (items c s)) a)" if "n = Some b" for b
    using stale_node [OF rb st a] nodes_distinct [OF config_inv_pruned [OF inv D(1)]] stale that by blast
  ultimately show ?thesis
    using D(2) g(2) unfolding del_inv_def by blast
qed

lemma del_by_set_inv:
  assumes rb: "rbtree_laws K" and st: "stale_in_tree K" and inv: "config_inv s0"
    and I: "del_inv c (\<lambda>g. guid_bytes g = guid_bytes guid) s0 (Some a) s"
    and run: "del_by_set K c guid a s = Some (n, s')"
  shows "del_inv c (\<lambda>g. guid_bytes g = guid_bytes guid) s0 n s'"
proof -
  from run obtain g where g: "head_guid c s a = Some g"
    by (auto simp: del_by_set_def bind_eq_Some_conv)
  show ?thesis
  proof (cases "guid_bytes g = guid_bytes guid")
    case True
    let ?s = "set_root c (k_rb_erase K (RBTree (items c s)) a) s"
    let ?s1 = "if 0 < ulCounts (items c ?s) then upd_items c (\<lambda>d. d\<lparr>ulCounts := ulCounts d - 1\<rparr>) ?s else ?s"
    from run g True have "EntryFree c (Some a) ?s1 = Some s'" "k_rb_stale K (RBTree (items c s)) a = Some n"
      by (auto simp: del_by_set_def bind_eq_Some_conv Let_def memcmp_order simp del: word_neq_0_conv)
    moreover have "?s1 = ?s \<or> ?s1 = upd_items c (\<lambda>d. d\<lparr>ulCounts := ulCounts d - 1\<rparr>) ?s" by simp
    ultimately show ?thesis
      using erase_step_inv [where P = "\<lambda>g. guid_bytes g = guid_bytes guid", OF rb st inv I g True] by blast
  next
    case False
    with run g have "s' = s" "n = k_rb_next K (RBTree (items c s)) a"
      by (auto simp: del_by_set_def memcmp_order)
    with I show ?thesis
      using next_node [OF rb, of a "RBTree (items c s)"] by (auto simp: del_inv_def)
  qed
qed

lemma del_node_inv:
  assumes rb: "rbtree_laws K" and st: "stale_in_tree K" and inv: "config_inv s0"
    and I: "del_inv c (\<lambda>_. True) s0 (Some a) s" and run: "del_node K c a s = Some (n, s')"
  shows "del_inv c (\<lambda>_. True) s0 n s'"
proof -
  from I have "config_inv s" "a \<in> nodes c s"
    using config_inv_pruned [OF inv] by (auto simp: del_inv_def)
  from node_head [OF this] obtain g where g: "head_guid c s a = Some g" by blast
  from run show ?thesis
    by (auto simp: del_node_def bind_eq_Some_conv Let_def
        intro: erase_step_inv [OF rb st inv I g TrueI disjI1 [OF refl]])
qed

lemma del_inv_init: "rbtree_laws K \<Longrightarrow> del_inv c P s (k_rb_first K (RBTree (items c s))) s"
  unfolding del_inv_def by (auto intro: exI [of _ "{}"] dest: first_node)

lemma DelMonitorItemsBySetId_pruned:
  assumes "rbtree_laws K" "stale_in_tree K" "config_inv s"
    and "DelMonitorItemsBySetId K c guid s = Some (r, s')"
  shows "r = 0 \<and> (\<exists>D. pruned c D s s' \<and>
    (\<forall>a\<in>D. \<exists>g. head_guid c s a = Some g \<and> guid_bytes g = guid_bytes guid))"
proof -
  let ?I = "del_inv c (\<lambda>g. guid_bytes g = guid_bytes guid) s"
  from assms(4) have r: "r = 0"
    and loop: "rb_for (del_by_set K c guid) (k_rb_first K (RBTree (items c s))) s = Some s'"
    by (auto simp: DelMonitorItemsBySetId_def bind_eq_Some_conv)
  have "?I None s'"
    by (rule rb_for_node_invariant [where I = ?I, OF loop del_inv_init [OF assms(1)]])
       (rule del_by_set_inv [OF assms(1-3)])
  with r show ?thesis by (auto simp: del_inv_def)
qed

text \<open>When the stale links lead on, the loop ends and removes exactly the entries of the set.\<close>

abbreviation matching :: "which \<Rightarrow> GUID \<Rightarrow> 'w kstate \<Rightarrow> addr set" where
  "matching c guid s \<equiv>
     {a \<in> nodes c s. map_option guid_bytes (head_guid c s a) = Some (guid_bytes guid)}"

lemma pruned_next:
  assumes pr: "pruned c D s0 s" and seq: "inorder (RBTree (items c s0)) = ys @ a # zs"
    and dist: "distinct (ys @ a # zs)" and D: "D \<subseteq> set ys"
  shows "a \<in> nodes c s" and "next_in (inorder (RBTree (items c s))) a = first_of zs"
proof -
  have "filter (\<lambda>b. b \<notin> D) (a # zs) = a # zs"
    using D dist by (intro filter_True) auto
  then have seq': "inorder (RBTree (items c s)) = filter (\<lambda>b. b \<notin> D) ys @ a # zs"
    using pr seq by (auto simp: pruned_def)
  then have "a \<in> set (inorder (RBTree (items c s)))" by simp
  then show "a \<in> nodes c s" by simp
  show "next_in (inorder (RBTree (items c s))) a = first_of zs"
    unfolding seq' using dist by (intro next_in_append) auto
qed

lemma DelMonitorItemsBySetId_exact:
  assumes rb: "rbtree_laws K" and st: "stale_next K" and inv: "config_inv s"
  shows "\<exists>s'. DelMonitorItemsBySetId K c guid s = Some (0, s') \<and> pruned c (matching c guid s) s s'"
proof -
  let ?xs = "inorder (RBTree (items c s))"
  let ?D = "\<lambda>ys. {a \<in> set ys. map_option guid_bytes (head_guid c s a) = Some (guid_bytes guid)}"
  have "\<exists>s'. rb_for (del_by_set K c guid) (first_of ?xs) s = Some s' \<and> (pruned c (?D ?xs) s s' \<or> False)"
  proof (rule rb_for_walk)
    show "pruned c (?D []) s s" by simp
  next
    fix ys a zs s1 assume xs: "?xs = ys @ a # zs" and pr: "pruned c (?D ys) s s1"
    have dist: "distinct (ys @ a # zs)" using nodes_distinct [OF inv] xs by metis
    note nx = pruned_next [OF pr xs dist]
    have a: "a \<in> nodes c s1" and nxt: "next_in (inorder (RBTree (items c s1))) a = first_of zs"
      using nx by auto
    have a0: "a \<in> nodes c s" using xs by (metis in_set_conv_decomp set_inorder)
    obtain g where g0: "head_guid c s a = Some g" using node_head [OF inv a0] by blast
    have g: "head_guid c s1 a = Some g" using pruned_head [OF pr, of a] g0 dist by auto
    show "\<exists>n s'. del_by_set K c guid a s1 = Some (n, s') \<and>
        (n = first_of zs \<and> pruned c (?D (ys @ [a])) s s' \<or> n = None \<and> False)"
    proof (cases "guid_bytes g = guid_bytes guid")
      case True
      let ?s = "set_root c (k_rb_erase K (RBTree (items c s1)) a) s1"
      let ?s1 = "if 0 < ulCounts (items c ?s) then upd_items c (\<lambda>d. d\<lparr>ulCounts := ulCounts d - 1\<rparr>) ?s else ?s"
      have "?s1 = ?s \<or> ?s1 = upd_items c (\<lambda>d. d\<lparr>ulCounts := ulCounts d - 1\<rparr>) ?s" by simp
      from pruned_step [OF rb inv pr a this] obtain s2
        where s2: "EntryFree c (Some a) ?s1 = Some s2" "pruned c (insert a (?D ys)) s s2" by blast
      have "del_by_set K c guid a s1 = Some (first_of zs, s2)"
        using g True s2(1) st a nxt
        by (simp add: del_by_set_def memcmp_order stale_next_def Let_def del: word_neq_0_conv)
      moreover have "insert a (?D ys) = ?D (ys @ [a])" using g0 True by auto
      ultimately show ?thesis using s2(2) by auto
    next
      case False
      then have "del_by_set K c guid a s1 = Some (first_of zs, s1)"
        using g a nxt by (simp add: del_by_set_def memcmp_order rbtree_lawsD(4) [OF rb])
      moreover have "?D ys = ?D (ys @ [a])" using g0 False by auto
      ultimately show ?thesis using pr by auto
    qed
  qed
  then show ?thesis
    by (auto simp: DelMonitorItemsBySetId_def rbtree_lawsD(3) [OF rb])
qed

text \<open>The other tree and its heap are out of reach.\<close>

lemma pruned_other:
  assumes "pruned c D s s'"
  shows "c = Files \<Longrightarrow> set_mem s' = set_mem s \<and> MonitorSet (cfg s') = MonitorSet (cfg s) \<and>
      file_mem s' = (file_mem s) |` (- D)"
    and "c = Sets \<Longrightarrow> file_mem s' = file_mem s \<and> MonitorFiles (cfg s') = MonitorFiles (cfg s) \<and>
      set_mem s' = (set_mem s) |` (- D)"
    and "next_blk s' = next_blk s" "kblocks s' = kblocks s" "world s' = world s"
      "addr_limit s' = addr_limit s" "completions s' = completions s" "outbox s' = outbox s"
      "iowritequeue (cfg s') = iowritequeue (cfg s)" "bValid (cfg s') = bValid (cfg s)"
      "bNormalRunning (cfg s') = bNormalRunning (cfg s)"
      "dwLastNormalShutdown (cfg s') = dwLastNormalShutdown (cfg s)"
  using assms by (cases c; auto simp: pruned_def)+

lemma DelMonitorItemsBySetId_inv:
  "rbtree_laws K \<Longrightarrow> stale_in_tree K \<Longrightarrow> config_inv s \<Longrightarrow>
   DelMonitorItemsBySetId K c guid s = Some (r, s') \<Longrightarrow> config_inv s'"
  using DelMonitorItemsBySetId_pruned config_inv_pruned by blast

lemma DelMonitorSet_inv:
  assumes "rbtree_laws K" "stale_in_tree K" "config_inv s" "DelMonitorSet K guid b s = Some (r, s')"
  shows "config_inv s'"
  using assms(3,4)
  by (auto simp: DelMonitorSet_def bind_eq_Some_conv split: if_splits
      intro: DelMonitorItemsBySetId_inv [OF assms(1,2)])

lemma DelMonitorSet_exact:
  assumes rb: "rbtree_laws K" and st: "stale_next K" and inv: "config_inv s"
  shows "\<exists>s1 s'. DelMonitorSet K guid b s = Some (0, s') \<and>
    pruned Files (matching Files guid s) s s1 \<and> pruned Sets (matching Sets guid s) s1 s'"
proof -
  obtain s1 where s1: "DelMonitorItemsBySetId K Files guid s = Some (0, s1)"
    "pruned Files (matching Files guid s) s s1"
    using DelMonitorItemsBySetId_exact [OF rb st inv] by blast
  obtain s2 where s2: "DelMonitorItemsBySetId K Sets guid s1 = Some (0, s2)"
    "pruned Sets (matching Sets guid s1) s1 s2"
    using DelMonitorItemsBySetId_exact [OF rb st config_inv_pruned [OF inv s1(2)]] by blast
  have "matching Sets guid s1 = matching Sets guid s"
    using pruned_other(1) [OF s1(2)] by simp
  with s1 s2 show ?thesis by (auto simp: DelMonitorSet_def)
qed

lemma DelMonitorSet_link:
  assumes rb: "rbtree_laws K" and st: "stale_next K" and inv: "config_inv s" and lk: "link_inv s"
    and run: "DelMonitorSet K guid b s = Some (r, s')"
  shows "link_inv s'"
  unfolding link_inv_def
proof (intro ballI allI impI)
  from DelMonitorSet_exact [OF rb st inv, of guid b] run obtain s1
    where s1: "pruned Files (matching Files guid s) s s1" "pruned Sets (matching Sets guid s) s1 s'" by auto
  note o1 = pruned_other(1) [OF s1(1) refl] and o2 = pruned_other(2) [OF s1(2) refl]
  fix a e p
  assume a: "a \<in> set_tree (file_tree_of s')" and e: "file_mem s' a = Some e" and p: "pSetEntry e = Some p"
  have a': "a \<in> set_tree (file_tree_of s)" "a \<notin> matching Files guid s" "file_mem s a = Some e"
    using a e o1 o2 pruned_nodes [OF s1(1)] by (auto simp: restrict_map_def split: if_splits)
  then have ne: "guid_bytes (guidSetId e) \<noteq> guid_bytes guid" by auto
  have "p \<in> set_tree (set_tree_of s)" "map_option set_key (set_mem s p) = Some (guid_bytes (guidSetId e))"
    using lk a' p unfolding link_inv_def by blast+
  moreover from this ne have "p \<notin> matching Sets guid s" by auto
  ultimately show "p \<in> set_tree (set_tree_of s') \<and>
      map_option set_key (set_mem s' p) = Some (guid_bytes (guidSetId e))"
    using o1 o2 pruned_nodes [OF s1(2)] by auto
qed

end
