(* ===== verification/MonitorAdd.thy ===== *)
theory MonitorAdd
  imports MonitorInv
begin

text \<open>
  Adding files and sets, and the configuration commands as a whole: what each branch
  returns, and that the invariants survive.
\<close>

section \<open>Small steps\<close>

lemma set_root_simps [simp]:
  "set_mem (set_root c t s) = set_mem s" "file_mem (set_root c t s) = file_mem s"
  "next_blk (set_root c t s) = next_blk s" "world (set_root c t s) = world s"
  by (cases c; simp add: set_root_def; fail)+

lemma put_simps [simp]:
  "set_mem (put_set a m s) = (set_mem s)(a \<mapsto> m)" "file_mem (put_set a m s) = file_mem s"
  "cfg (put_set a m s) = cfg s" "next_blk (put_set a m s) = next_blk s" "world (put_set a m s) = world s"
  "set_mem (put_file a e s) = set_mem s" "file_mem (put_file a e s) = (file_mem s)(a \<mapsto> e)"
  "cfg (put_file a e s) = cfg s" "next_blk (put_file a e s) = next_blk s" "world (put_file a e s) = world s"
  by (simp_all add: put_set_def put_file_def)

lemma bst_ok_cong:
  "(\<And>a. a \<in> set_tree t \<Longrightarrow> map_option key (h a) = map_option key (h' a)) \<Longrightarrow> bst_ok key h t = bst_ok key h' t"
  unfolding bst_ok_def by (rule bst_list_cong) simp

text \<open>Rewriting an entry without touching its key, and consuming an address.\<close>

lemma config_inv_put_file:
  assumes inv: "config_inv s" and e: "file_mem s a = Some e" "wf_file_entry e'"
    and key: "wcsMonitorFile e' = wcsMonitorFile e"
  shows "config_inv (put_file a e' s)"
proof -
  have "bst_ok file_key (readable ((file_mem s)(a \<mapsto> e'))) (file_tree_of s) =
      bst_ok file_key (file_view s) (file_tree_of s)"
    by (rule bst_ok_cong) (use e key in \<open>auto simp: readable_def\<close>)
  then show ?thesis
    using inv e config_invD(5) [OF inv e(1)] by (auto simp: config_inv_def)
qed

lemma config_inv_put_set:
  assumes inv: "config_inv s" and m: "set_mem s a = Some m" "wf_set_entry m'"
    and key: "guidSetId m' = guidSetId m"
  shows "config_inv (put_set a m' s)"
proof -
  have "bst_ok set_key ((set_mem s)(a \<mapsto> m')) (set_tree_of s) = bst_ok set_key (set_mem s) (set_tree_of s)"
    by (rule bst_ok_cong) (use m key in auto)
  then show ?thesis
    using inv m config_invD(4) [OF inv m(1)] by (auto simp: config_inv_def)
qed

lemma config_inv_next_blk: "config_inv s \<Longrightarrow> config_inv (s\<lparr>next_blk := Suc (next_blk s)\<rparr>)"
  by (auto simp: config_inv_def less_SucI)

lemma config_inv_counts [simp]:
  "config_inv (upd_items c (\<lambda>d. d\<lparr>ulCounts := f d\<rparr>) s) = config_inv s"
  by (cases c) (simp_all add: config_inv_def)

lemma link_inv_counts [simp]:
  "link_inv (upd_items c (\<lambda>d. d\<lparr>ulCounts := f d\<rparr>) s) = link_inv s"
  by (cases c) (simp_all add: link_inv_def)

lemma link_inv_put_set:
  "link_inv s \<Longrightarrow> set_mem s a = Some m \<Longrightarrow> guidSetId m' = guidSetId m \<Longrightarrow> link_inv (put_set a m' s)"
  by (auto simp: link_inv_def)

section \<open>Adding a file\<close>

text \<open>The state with the new entry in the tree.\<close>

definition added_file :: "'w kernel \<Rightarrow> MONITOR_FILE_ENTRY \<Rightarrow> 'w kstate \<Rightarrow> 'w kstate \<Rightarrow> bool" where
  "added_file K mfe s s' \<longleftrightarrow>
     (\<exists>t. s' = upd_items Files (\<lambda>d. d\<lparr>ulCounts := ulCounts d + 1\<rparr>)
                 (loaded_file (next_blk s) (mfe\<lparr>bMonitor := 1, pSetEntry := None\<rparr>) t (world s) s) \<and>
        bst_ok file_key (readable ((file_mem s)(next_blk s \<mapsto> mfe\<lparr>bMonitor := 1, pSetEntry := None\<rparr>))) t \<and>
        set_tree t = insert (next_blk s) (set_tree (file_tree_of s)))"

lemma AddMonitorItem_run:
  assumes rb: "rbtree_laws K" and inv: "config_inv s"
    and path: "c_strlen (wcsMonitorFile mfe) = Some n" "2 \<le> n" "hd (wcsMonitorFile mfe) = of_char (CHR ''/'')"
    and search: "mi_search (file_view s) (file_tree_of s) (wcsMonitorFile mfe) = Some None"
    and alloc: "k_alloc K (next_blk s)"
  shows "\<exists>s'. AddMonitorItem K (Some mfe) s = Some (0, s') \<and> added_file K mfe s s'"
proof -
  let ?a = "next_blk s" and ?e = "mfe\<lparr>bMonitor := 1, pSetEntry := None\<rparr>"
  let ?h = "readable ((file_mem s)(?a \<mapsto> mfe))" and ?h' = "readable ((file_mem s)(?a \<mapsto> ?e))"
  note a = config_inv_fresh(2) [OF inv]
  have ter: "terminated (wcsMonitorFile mfe)" using path(1) by (simp add: c_strlen_def split: if_splits)
  have ha: "?h ?a = Some mfe" using ter by (simp add: readable_def)
  have ok: "bst_ok file_key ?h (file_tree_of s)"
    using config_invD(3) [OF inv] a by (simp add: readable_upd bst_ok_upd)
  have "?h b = file_view s b" if "b \<in> set_tree (file_tree_of s)" for b
    using a that by (auto simp: readable_def)
  from mi_search_cong [OF this] search
  have "mi_search ?h (file_tree_of s) (wcsMonitorFile mfe) = Some None" by simp
  from mi_insert_free [OF rb ok ha this] obtain t
    where t: "mi_insert K ?h (file_tree_of s) ?a = Some (0, t)" "bst_ok file_key ?h t"
      "set_tree t = insert ?a (set_tree (file_tree_of s))" by blast
  have "bst_ok file_key ?h' t"
    using t(2) by (subst bst_ok_cong [where h' = ?h]) (auto simp: readable_def)
  moreover have "AddMonitorItem K (Some mfe) s = Some (0, upd_items Files (\<lambda>d. d\<lparr>ulCounts := ulCounts d + 1\<rparr>)
      (loaded_file ?a ?e t (world s) s))"
    using path search alloc config_invD(1) [OF inv, of Files] t(1)
    by (simp add: AddMonitorItem_def MonitorFileEntryAlloc_ok loaded_file_def put_file_def set_root_def
        upd_cfg_def)
  ultimately show ?thesis using t(3) unfolding added_file_def by blast
qed

lemma AddMonitorItem_cases:
  assumes rb: "rbtree_laws K" and inv: "config_inv s" and run: "AddMonitorItem K (Some mfe) s = Some (r, s')"
  shows "(r = -1 \<and> s' = s) \<or> (r = 0 \<and> s' = s) \<or>
     (r = -3 \<and> s' = s\<lparr>next_blk := Suc (next_blk s)\<rparr>) \<or>
     (r = 0 \<and> terminated (wcsMonitorFile mfe) \<and> added_file K mfe s s')"
proof -
  from run obtain n where n: "c_strlen (wcsMonitorFile mfe) = Some n"
    by (auto simp: AddMonitorItem_def bind_eq_Some_conv)
  show ?thesis
  proof (cases "n < 2 \<or> hd (wcsMonitorFile mfe) \<noteq> of_char (CHR ''/'')")
    case True
    with run n show ?thesis by (simp add: AddMonitorItem_def)
  next
    case False
    with run n obtain f where f: "mi_search (file_view s) (file_tree_of s) (wcsMonitorFile mfe) = Some f"
      by (auto simp: AddMonitorItem_def bind_eq_Some_conv)
    show ?thesis
    proof (cases "f = None \<and> k_alloc K (next_blk s)")
      case True
      with AddMonitorItem_run [OF rb inv n _ _ _ ] False f run n show ?thesis
        by (auto simp: c_strlen_def split: if_splits)
    next
      case no: False
      show ?thesis
      proof (cases f)
        case None
        with no False n f run config_invD(1) [OF inv, of Files] show ?thesis
          by (simp add: AddMonitorItem_def MonitorFileEntryAlloc_def EntryAlloc_def Let_def)
      next
        case (Some b)
        with False n f run show ?thesis by (simp add: AddMonitorItem_def)
      qed
    qed
  qed
qed

lemma added_file_inv:
  assumes inv: "config_inv s" and wf: "wf_file_entry mfe" and add: "added_file K mfe s s'"
  shows "config_inv s'"
proof -
  have "wf_file_entry (mfe\<lparr>bMonitor := 1, pSetEntry := None\<rparr>)" using wf by (simp add: wf_file_entry_def)
  with add show ?thesis
    using config_inv_loaded_file [OF inv refl] by (auto simp: added_file_def simp del: upd_items.simps)
qed

lemma added_file_link:
  assumes inv: "config_inv s" and lk: "link_inv s" and add: "added_file K mfe s s'"
  shows "link_inv s'"
  using add lk config_inv_fresh(2) [OF inv] unfolding added_file_def
  by (auto simp: link_inv_def split: if_splits)

lemma AddMonitorItem_inv:
  assumes "rbtree_laws K" "config_inv s" "wf_file_entry mfe" "AddMonitorItem K (Some mfe) s = Some (r, s')"
  shows "config_inv s'" and "link_inv s \<Longrightarrow> link_inv s'"
proof -
  have nb: "link_inv (s\<lparr>next_blk := n\<rparr>) = link_inv s" for n by (simp add: link_inv_def)
  note cs = AddMonitorItem_cases [OF assms(1,2,4)]
  show "config_inv s'"
    using cs assms(2,3) added_file_inv config_inv_next_blk by blast
  show "link_inv s'" if "link_inv s"
    using cs that nb added_file_link [OF assms(2)] by blast
qed

section \<open>Adding a set\<close>

definition added_set :: "'w kernel \<Rightarrow> MONITOR_SET_ENTRY \<Rightarrow> 'w kstate \<Rightarrow> 'w kstate \<Rightarrow> bool" where
  "added_set K e s s' \<longleftrightarrow>
     (\<exists>t. s' = upd_items Sets (\<lambda>d. d\<lparr>ulCounts := ulCounts d + 1\<rparr>) (loaded_set (next_blk s) e t (world s) s) \<and>
        bst_ok set_key ((set_mem s)(next_blk s \<mapsto> e)) t \<and>
        set_tree t = insert (next_blk s) (set_tree (set_tree_of s)))"

definition new_set :: "MONITOR_SET_ENTRY \<Rightarrow> byte list \<Rightarrow> MONITOR_SET_ENTRY" where
  "new_set mse dir = zero_set_entry\<lparr>wcsSetCacheDir := dir, guidSetId := guidSetId mse,
     ullSetSeqNo := ullSetSeqNo mse, ulFileCount := 0\<rparr>"

lemma length_c_strncat: "c_strncat d b n = Some r \<Longrightarrow> length r = length d"
  by (auto simp: c_strncat_def Let_def split: if_splits)

lemma terminated_c_strncat: "c_strncat d b n = Some r \<Longrightarrow> terminated r"
  by (auto simp: c_strncat_def Let_def terminated_def split: if_splits)

text \<open>Allocation, initialisation and insertion, from a state without the set or with it.\<close>

definition insert_set :: "'w kernel \<Rightarrow> MONITOR_SET_ENTRY \<Rightarrow> 'w kstate \<Rightarrow> (int \<times> 'w kstate) option" where
  "insert_set K mse s =
     (case MonitorSetEntryAlloc K s of
        (None, s) \<Rightarrow> Some (-3, s)
      | (Some pmse, s) \<Rightarrow>
          do { e \<leftarrow> set_mem s pmse;
               dir \<leftarrow> c_strncat (wcsSetCacheDir e) (wcsSetCacheDir mse) FILEREPL_MAX_PATH;
               let s = put_set pmse (e\<lparr>wcsSetCacheDir := dir, guidSetId := guidSetId mse,
                         ullSetSeqNo := ullSetSeqNo mse, ulFileCount := 0\<rparr>) s;
               (ret, t) \<leftarrow> ms_insert K (set_mem s) (set_tree_of s) pmse;
               let s = set_root Sets t s;
               if ret \<noteq> 0
               then do { s \<leftarrow> MonitorSetEntryFree (Some pmse) s; Some (-1, s) }
               else Some (0, upd_items Sets (\<lambda>d. d\<lparr>ulCounts := ulCounts d + 1\<rparr>) s) })"

lemma AddMonitorSet_eq:
  "AddMonitorSet K (Some mse) b s =
     do { pmse \<leftarrow> GetMonitorSetEntry (guidSetId mse) s;
          if pmse \<noteq> None \<and> \<not> b then Some (-2, s)
          else do { (_, s) \<leftarrow> (if pmse \<noteq> None then DelMonitorSet K (guidSetId mse) False s else Some (0, s));
                    insert_set K mse s } }"
  unfolding AddMonitorSet_def insert_set_def by simp

lemma insert_set_cases:
  assumes rb: "rbtree_laws K" and inv: "config_inv s" and run: "insert_set K mse s = Some (r, s')"
  shows "(r = -3 \<and> s' = s\<lparr>next_blk := Suc (next_blk s)\<rparr>) \<or>
    (\<exists>dir. c_strncat (replicate FILEREPL_MAX_PATH 0) (wcsSetCacheDir mse) FILEREPL_MAX_PATH = Some dir \<and>
      (r = -1 \<and> s' = s\<lparr>next_blk := Suc (next_blk s)\<rparr> \<and>
         (\<exists>p. ms_search (set_mem s) (set_tree_of s) (guidSetId mse) = Some (Some p)) \<or>
       r = 0 \<and> added_set K (new_set mse dir) s s' \<and>
         ms_search (set_mem s) (set_tree_of s) (guidSetId mse) = Some None))"
proof (cases "k_alloc K (next_blk s)")
  case False
  with run config_invD(1) [OF inv, of Sets] show ?thesis
    by (simp add: insert_set_def MonitorSetEntryAlloc_def EntryAlloc_def Let_def)
next
  case True
  let ?a = "next_blk s"
  note a = config_inv_fresh [OF inv]
  from run True config_invD(1) [OF inv, of Sets] obtain dir
    where dir: "c_strncat (replicate FILEREPL_MAX_PATH 0) (wcsSetCacheDir mse) FILEREPL_MAX_PATH = Some dir"
    by (auto simp: insert_set_def MonitorSetEntryAlloc_ok zero_set_entry_def bind_eq_Some_conv)
  let ?e = "new_set mse dir"
  let ?h = "(set_mem s)(?a \<mapsto> ?e)"
  have ok: "bst_ok set_key ?h (set_tree_of s)"
    using config_invD(2) [OF inv] a(1) by (simp add: bst_ok_upd)
  have e: "guidSetId ?e = guidSetId mse" by (simp add: new_set_def)
  have "?h b = set_mem s b" if "b \<in> set_tree (set_tree_of s)" for b
    using a(1) that by auto
  from ms_search_cong [OF this]
  have search: "ms_search ?h (set_tree_of s) g = ms_search (set_mem s) (set_tree_of s) g" for g .
  have zdir: "wcsSetCacheDir zero_set_entry = replicate FILEREPL_MAX_PATH 0" by (simp add: zero_set_entry_def)
  obtain f where f: "ms_search (set_mem s) (set_tree_of s) (guidSetId mse) = Some f"
    using ms.search_total [of "set_tree_of s" "set_mem s"] bst_ok_live [OF config_invD(2) [OF inv]]
    by (metis option.distinct(1))
  show ?thesis
  proof (cases f)
    case (Some p)
    have "ms_insert K ?h (set_tree_of s) ?a = Some (-1, set_tree_of s)"
      using f Some search e by (intro ms_insert_taken [where e = ?e and b = p]) auto
    with run True config_invD(1) [OF inv, of Sets] dir a(3) have "r = -1 \<and> s' = s\<lparr>next_blk := Suc ?a\<rparr>"
      by (simp add: insert_set_def MonitorSetEntryAlloc_ok zdir new_set_def put_set_def MonitorSetEntryFree_def
          EntryFree_def set_root_def upd_cfg_def fun_upd_idem)
    with dir f Some show ?thesis by blast
  next
    case None
    have "ms_search ?h (set_tree_of s) (guidSetId ?e) = Some None"
      using f None search e by simp
    from ms_insert_free [OF rb ok fun_upd_same this] obtain t
      where t: "ms_insert K ?h (set_tree_of s) ?a = Some (0, t)" "bst_ok set_key ?h t"
        "set_tree t = insert ?a (set_tree (set_tree_of s))" by auto
    with run True config_invD(1) [OF inv, of Sets] dir
    have "r = 0 \<and> s' = upd_items Sets (\<lambda>d. d\<lparr>ulCounts := ulCounts d + 1\<rparr>) (loaded_set ?a ?e t (world s) s)"
      by (simp add: insert_set_def MonitorSetEntryAlloc_ok zdir new_set_def put_set_def loaded_set_def
          set_root_def upd_cfg_def)
    with dir f None t show ?thesis unfolding added_set_def by blast
  qed
qed

lemma wf_new_set:
  "wf_guid (guidSetId mse) \<Longrightarrow>
   c_strncat (replicate FILEREPL_MAX_PATH 0) d n = Some dir \<Longrightarrow> wf_set_entry (new_set mse dir)"
  by (auto simp: wf_set_entry_def new_set_def dest: length_c_strncat)

lemma added_set_inv:
  "config_inv s \<Longrightarrow> wf_set_entry e \<Longrightarrow> added_set K e s s' \<Longrightarrow> config_inv s'"
  by (auto simp: added_set_def config_inv_loaded_set simp del: upd_items.simps)

lemma added_set_link:
  assumes inv: "config_inv s" and lk: "link_inv s" and add: "added_set K e s s'"
  shows "link_inv s'"
proof -
  have "p \<noteq> next_blk s" if "p \<in> set_tree (set_tree_of s)" for p
    using config_inv_fresh(1) [OF inv] that by auto
  with add lk show ?thesis unfolding added_set_def by (fastforce simp: link_inv_def)
qed

lemma link_inv_next_blk [simp]: "link_inv (s\<lparr>next_blk := n\<rparr>) = link_inv s"
  by (simp add: link_inv_def)

lemma insert_set_inv:
  assumes "rbtree_laws K" "config_inv s" "wf_guid (guidSetId mse)" "insert_set K mse s = Some (r, s')"
  shows "config_inv s'" and "link_inv s \<Longrightarrow> link_inv s'"
  using insert_set_cases [OF assms(1,2,4)] assms(2,3) wf_new_set added_set_inv added_set_link config_inv_next_blk
  by (metis, metis link_inv_next_blk)

lemma AddMonitorSet_split:
  assumes run: "AddMonitorSet K (Some mse) b s = Some (r, s')"
  shows "(r = -2 \<and> s' = s) \<or>
    (\<exists>s1. (s1 = s \<or> (\<exists>r0. DelMonitorSet K (guidSetId mse) False s = Some (r0, s1))) \<and>
       insert_set K mse s1 = Some (r, s'))"
proof -
  from run obtain p where p: "GetMonitorSetEntry (guidSetId mse) s = Some p"
    by (auto simp: AddMonitorSet_eq bind_eq_Some_conv)
  show ?thesis
  proof (cases "p \<noteq> None \<and> \<not> b")
    case True
    with run p show ?thesis by (simp add: AddMonitorSet_eq)
  next
    case False
    with run p obtain r0 s1 where "(if p \<noteq> None then DelMonitorSet K (guidSetId mse) False s else Some (0, s)) = Some (r0, s1)"
      "insert_set K mse s1 = Some (r, s')"
      by (auto simp: AddMonitorSet_eq bind_eq_Some_conv)
    then show ?thesis by (metis option.inject prod.inject)
  qed
qed

lemma AddMonitorSet_inv:
  assumes rb: "rbtree_laws K" and st: "stale_in_tree K" and inv: "config_inv s" and wf: "wf_guid (guidSetId mse)"
    and run: "AddMonitorSet K (Some mse) b s = Some (r, s')"
  shows "config_inv s'"
  using AddMonitorSet_split [OF run] inv DelMonitorSet_inv [OF rb st inv] insert_set_inv(1) [OF rb _ wf]
  by blast

lemma AddMonitorSet_link:
  assumes rb: "rbtree_laws K" and st: "stale_next K" and inv: "config_inv s" and lk: "link_inv s"
    and wf: "wf_guid (guidSetId mse)" and run: "AddMonitorSet K (Some mse) b s = Some (r, s')"
  shows "link_inv s'"
proof -
  have "config_inv s1 \<and> link_inv s1" if "DelMonitorSet K g c s = Some (r1, s1)" for g c r1 s1
    using DelMonitorSet_inv [OF rb stale_next_in_tree [OF st] inv that] DelMonitorSet_link [OF rb st inv lk that] ..
  then show ?thesis
    using AddMonitorSet_split [OF run] inv lk insert_set_inv(2) [OF rb _ wf] by blast
qed

section \<open>The commands\<close>

lemma SaveConfig_inv:
  "SaveConfig K s = Some (r, s') \<Longrightarrow> config_inv s' = config_inv s \<and> link_inv s' = link_inv s"
  using SaveConfig_same config_inv_same link_inv_same by blast

text \<open>A single node leaves the file tree.\<close>

lemma EntryFree_removed:
  assumes rb: "rbtree_laws K" and inv: "config_inv s" and a: "a \<in> set_tree (file_tree_of s)"
  shows "\<exists>s'. EntryFree Files (Some a) (set_root Files (k_rb_erase K (file_tree_of s) a) s) = Some s' \<and>
    pruned Files {a} s s'"
  using pruned_step [OF rb inv pruned_refl, of a Files] a by auto

lemma link_inv_pruned_files: "link_inv s \<Longrightarrow> pruned Files D s s' \<Longrightarrow> link_inv s'"
  using pruned_other(1) [of Files D s s'] pruned_nodes [of Files D s s']
  by (auto simp: link_inv_def restrict_map_def split: if_splits)

lemma del_item_cases:
  assumes rb: "rbtree_laws K" and inv: "config_inv s" and run: "del_item K it s = Some s'"
  shows "s' = s \<or> (\<exists>a. mi_search (file_view s) (file_tree_of s) (wszFilterName it) = Some (Some a) \<and>
    pruned Files {a} s s')"
proof -
  have self: "set_root Files (file_tree_of s) s = s" by (simp add: set_root_def upd_cfg_def)
  from run obtain n name where n: "c_strlen (wszFilterName it) = Some n"
    and name: "c_strncpy (replicate FILEREPL_MAX_PATH 0) (wszFilterName it) n = Some name"
    by (auto simp: del_item_def bind_eq_Some_conv)
  have "n \<le> FILEREPL_MAX_PATH" using name by (auto simp: c_strncpy_def split: if_splits)
  moreover have "take n (cstr (wszFilterName it)) = cstr (wszFilterName it)"
    using n by (auto simp: c_strlen_def strlen_def split: if_splits)
  ultimately have "cstr name = cstr (wszFilterName it)"
    using name c_strncpy_zeros [of n FILEREPL_MAX_PATH "wszFilterName it"] by auto
  have probe: "mi_search h t name = mi_search h t (wszFilterName it)" for h t
  proof -
    have "strncmp name b k = strncmp (wszFilterName it) b k" for b k
      using strncmp_cstr \<open>cstr name = cstr (wszFilterName it)\<close> by metis
    then show ?thesis by (induction t) (auto simp: Let_def split: option.splits)
  qed
  show ?thesis
  proof (cases "ulFileType it = FILTER_TYPE_FILE \<or> ulFileType it = FILTER_TYPE_DIR")
    case False
    with run n name show ?thesis by (simp add: del_item_def)
  next
    case True
    with run n name obtain f where f: "mi_search (file_view s) (file_tree_of s) (wszFilterName it) = Some f"
      by (auto simp: del_item_def mi_remove_def bind_eq_Some_conv probe)
    show ?thesis
    proof (cases f)
      case None
      with True run n name f self show ?thesis
        by (simp add: del_item_def mi_remove_def probe EntryFree_def)
    next
      case (Some a)
      with f have "a \<in> set_tree (file_tree_of s)" using mi.search_hit by blast
      from EntryFree_removed [OF rb inv this] True run n name f Some show ?thesis
        by (auto simp: del_item_def mi_remove_def probe)
    qed
  qed
qed

lemma del_item_inv:
  assumes "rbtree_laws K" "config_inv s" "del_item K it s = Some s'"
  shows "config_inv s' \<and> (link_inv s \<longrightarrow> link_inv s')"
  using del_item_cases [OF assms] assms(2) config_inv_pruned link_inv_pruned_files by blast

lemma del_items_inv:
  assumes rb: "rbtree_laws K"
  shows "del_items K its n s = Some s' \<Longrightarrow> config_inv s \<Longrightarrow> config_inv s' \<and> (link_inv s \<longrightarrow> link_inv s')"
proof (induction its arbitrary: n s)
  case Nil
  then show ?case by (cases n) auto
next
  case (Cons it its)
  show ?case
  proof (cases n)
    case 0
    with Cons.prems show ?thesis by simp
  next
    case (Suc m)
    with Cons.prems obtain s1 where s1: "del_item K it s = Some s1" "del_items K its m s1 = Some s'"
      by (auto simp: bind_eq_Some_conv)
    from del_item_inv [OF rb Cons.prems(2) s1(1)] Cons.IH [OF s1(2)] show ?thesis by blast
  qed
qed

lemma ConfigDelMonitorItem_inv:
  assumes rb: "rbtree_laws K" and inv: "config_inv s" and run: "ConfigDelMonitorItem K pfn s = Some (r, s')"
  shows "config_inv s' \<and> (link_inv s \<longrightarrow> link_inv s')"
proof (cases pfn)
  case None
  with run inv show ?thesis by (simp add: ConfigDelMonitorItem_def)
next
  case (Some bd)
  with run obtain s1 r1 where "del_items K (FilterItems bd) (unat (ulFilterItemCounts bd)) s = Some s1"
    "SaveConfig K s1 = Some (r1, s')"
    by (auto simp: ConfigDelMonitorItem_def bind_eq_Some_conv)
  with del_items_inv [OF rb _ inv] SaveConfig_inv show ?thesis by blast
qed

lemma wf_filter_entry:
  "wf_guid (bdGuidSetId bd) \<Longrightarrow> c_strncat (replicate FILEREPL_MAX_PATH 0) x n = Some name \<Longrightarrow>
   wf_file_entry (filter_entry bd p it name)"
  by (auto simp: wf_file_entry_def filter_entry_def dest: length_c_strncat)

lemma add_items_inv:
  assumes rb: "rbtree_laws K" and wf: "wf_guid (bdGuidSetId bd)"
  shows "add_items K bd p its i n st s = Some (b, r, s') \<Longrightarrow> config_inv s \<Longrightarrow>
    config_inv s' \<and> (link_inv s \<longrightarrow> link_inv s')"
proof (induction its arbitrary: i n st s)
  case Nil
  then show ?case by (cases n) auto
next
  case (Cons it its)
  show ?case
  proof (cases n)
    case 0
    with Cons.prems show ?thesis by simp
  next
    case (Suc m)
    with Cons.prems obtain len name where name: "c_strlen (wszFilterName it) = Some len"
      "c_strncat (replicate FILEREPL_MAX_PATH 0) (wszFilterName it) len = Some name"
      by (auto simp: bind_eq_Some_conv)
    show ?thesis
    proof (cases "ulFileType it = FILTER_TYPE_FILE \<or> ulFileType it = FILTER_TYPE_DIR")
      case False
      with Cons Suc name show ?thesis by auto
    next
      case True
      with Cons.prems Suc name obtain r1 s1
        where s1: "AddMonitorItem K (Some (filter_entry bd p it name)) s = Some (r1, s1)"
        by (auto simp: bind_eq_Some_conv AddMonitorFile_def)
      note wfe = wf_filter_entry [OF wf name(2), of p it]
      note inv1 = AddMonitorItem_inv [OF rb Cons.prems(2) wfe s1]
      have r1: "r1 \<noteq> -5" using AddMonitorItem_cases [OF rb Cons.prems(2) s1] by auto
      show ?thesis
      proof (cases "r1 = 0")
        case False
        with True Cons.prems Suc name s1 r1 inv1 show ?thesis by (auto simp: AddMonitorFile_def)
      next
        case zero: True
        with True Cons.prems(1) Suc name s1 obtain e where e: "set_mem s1 p = Some e"
          and rest: "add_items K bd p its (Suc i) m 0 (put_set p (e\<lparr>ulFileCount := ulFileCount e + 1\<rparr>) s1) = Some (b, r, s')"
          by (auto simp: AddMonitorFile_def bind_eq_Some_conv Let_def)
        let ?e = "e\<lparr>ulFileCount := ulFileCount e + 1\<rparr>"
        have "wf_set_entry ?e" using config_invD(4) [OF inv1(1) e] by (simp add: wf_set_entry_def)
        then have "config_inv (put_set p ?e s1)" "link_inv s1 \<Longrightarrow> link_inv (put_set p ?e s1)"
          using config_inv_put_set [OF inv1(1) e] link_inv_put_set [OF _ e] by simp_all
        with Cons.IH [OF rest] inv1(2) show ?thesis by blast
      qed
    qed
  qed
qed

lemma ConfigAddMonitorSet_split:
  assumes run: "ConfigAddMonitorSet K (Some bd) b s = Some (r, s')"
  shows "\<exists>dir st s1. AddMonitorSet K (Some (zero_set_entry\<lparr>guidSetId := bdGuidSetId bd, ullSetSeqNo := 0,
        wcsSetCacheDir := dir\<rparr>)) b s = Some (st, s1) \<and>
     (s' = s1 \<or> (\<exists>p x st' s2. add_items K bd p (FilterItems bd) 0 (unat (ulFilterItemCounts bd)) st s1 =
        Some (x, st', s2) \<and> (s' = s2 \<or> (\<exists>r'. SaveConfig K s2 = Some (r', s')))))"
proof -
  from run obtain len dir where dir: "c_strlen (wszBakCacheDir bd) = Some len"
    "c_strncat (replicate FILEREPL_MAX_PATH 0) (wszBakCacheDir bd) len = Some dir"
    by (auto simp: ConfigAddMonitorSet_def bind_eq_Some_conv)
  let ?mse = "zero_set_entry\<lparr>guidSetId := bdGuidSetId bd, ullSetSeqNo := 0, wcsSetCacheDir := dir\<rparr>"
  from run dir obtain st s1 where s1: "AddMonitorSet K (Some ?mse) b s = Some (st, s1)"
    by (auto simp: ConfigAddMonitorSet_def Let_def bind_eq_Some_conv)
  show ?thesis
  proof (cases "st \<noteq> 0 \<and> \<not> (st = -2 \<and> \<not> b)")
    case True
    with run dir s1 have "s' = s1" by (simp add: ConfigAddMonitorSet_def Let_def)
    with s1 show ?thesis by blast
  next
    case False
    with run dir s1 obtain f where f: "ms_search (set_mem s1) (set_tree_of s1) (bdGuidSetId bd) = Some f"
      by (auto simp: ConfigAddMonitorSet_def Let_def bind_eq_Some_conv split: if_splits)
    show ?thesis
    proof (cases f)
      case None
      with run dir s1 False f have "s' = s1" by (auto simp: ConfigAddMonitorSet_def Let_def split: if_splits)
      with s1 show ?thesis by blast
    next
      case (Some p)
      with run dir s1 False f obtain x st' s2
        where s2: "add_items K bd p (FilterItems bd) 0 (unat (ulFilterItemCounts bd)) st s1 = Some (x, st', s2)"
          "(if x then Some (st', s2) else do { (_, s) \<leftarrow> SaveConfig K s2; Some (st', s) }) = Some (r, s')"
        by (auto simp: ConfigAddMonitorSet_def Let_def bind_eq_Some_conv split: if_splits)
      then have "s' = s2 \<or> (\<exists>r'. SaveConfig K s2 = Some (r', s'))"
        by (auto simp: bind_eq_Some_conv split: if_splits)
      with s1 s2 show ?thesis by blast
    qed
  qed
qed

lemma ConfigAddMonitorSet_inv:
  assumes rb: "rbtree_laws K" and st: "stale_in_tree K" and inv: "config_inv s"
    and wf: "wf_guid (bdGuidSetId bd)" and run: "ConfigAddMonitorSet K (Some bd) b s = Some (r, s')"
  shows "config_inv s'" and "stale_next K \<Longrightarrow> link_inv s \<Longrightarrow> link_inv s'"
proof -
  from ConfigAddMonitorSet_split [OF run] obtain dir st1 s1
    where s1: "AddMonitorSet K (Some (zero_set_entry\<lparr>guidSetId := bdGuidSetId bd, ullSetSeqNo := 0,
        wcsSetCacheDir := dir\<rparr>)) b s = Some (st1, s1)"
      and rest: "s' = s1 \<or> (\<exists>p x st' s2. add_items K bd p (FilterItems bd) 0 (unat (ulFilterItemCounts bd)) st1 s1 =
        Some (x, st', s2) \<and> (s' = s2 \<or> (\<exists>r'. SaveConfig K s2 = Some (r', s'))))" by blast
  have i1: "config_inv s1" using AddMonitorSet_inv [OF rb st inv _ s1] wf by simp
  with rest show "config_inv s'"
    using add_items_inv [OF rb wf] SaveConfig_inv by blast
  show "link_inv s'" if "stale_next K" "link_inv s"
  proof -
    have "link_inv s1" using AddMonitorSet_link [OF rb that(1) inv that(2) _ s1] wf by simp
    with rest i1 show ?thesis using add_items_inv [OF rb wf] SaveConfig_inv by blast
  qed
qed

end
