(* ===== verification/MonitorCmd.thy ===== *)
theory MonitorCmd
  imports MonitorAdd
begin

text \<open>
  Deleting everything, handing out sequence numbers, and starting the module.
\<close>

section \<open>Deleting everything\<close>

lemma del_all_pruned:
  assumes rb: "rbtree_laws K" and st: "stale_in_tree K" and inv: "config_inv s"
    and run: "rb_for (del_node K c) (k_rb_first K (RBTree (items c s))) s = Some s'"
  shows "\<exists>D. pruned c D s s'"
proof -
  have "del_inv c (\<lambda>_. True) s None s'"
    by (rule rb_for_node_invariant [where I = "del_inv c (\<lambda>_. True) s", OF run del_inv_init [OF rb]])
       (rule del_node_inv [OF rb st inv])
  then show ?thesis by (auto simp: del_inv_def)
qed

lemma del_all_exact:
  assumes rb: "rbtree_laws K" and st: "stale_next K" and inv: "config_inv s"
  shows "\<exists>s'. rb_for (del_node K c) (k_rb_first K (RBTree (items c s))) s = Some s' \<and>
    pruned c (nodes c s) s s'"
proof -
  let ?xs = "inorder (RBTree (items c s))"
  have "\<exists>s'. rb_for (del_node K c) (first_of ?xs) s = Some s' \<and> (pruned c (set ?xs) s s' \<or> False)"
  proof (rule rb_for_walk)
    show "pruned c (set []) s s" by simp
  next
    fix ys a zs s1 assume xs: "?xs = ys @ a # zs" and pr: "pruned c (set ys) s s1"
    have dist: "distinct (ys @ a # zs)" using nodes_distinct [OF inv] xs by metis
    note nx = pruned_next [OF pr xs dist subset_refl]
    from pruned_step [OF rb inv pr nx(1) disjI1 [OF refl]] obtain s2
      where s2: "EntryFree c (Some a) (set_root c (k_rb_erase K (RBTree (items c s1)) a) s1) = Some s2"
        "pruned c (insert a (set ys)) s s2" by blast
    then have "del_node K c a s1 = Some (first_of zs, s2)"
      using st nx by (simp add: del_node_def stale_next_def Let_def)
    with s2(2) show "\<exists>n s'. del_node K c a s1 = Some (n, s') \<and>
        (n = first_of zs \<and> pruned c (set (ys @ [a])) s s' \<or> n = None \<and> False)" by simp
  qed
  then show ?thesis by (simp add: rbtree_lawsD(3) [OF rb])
qed

lemma pruned_all_Leaf: "pruned c (nodes c s) s s' \<Longrightarrow> RBTree (items c s') = Leaf"
  using pruned_nodes [of c "nodes c s" s s'] by (cases "RBTree (items c s')") auto

lemma DelAllMonitorSet_split:
  "DelAllMonitorSet K s = Some (r, s') \<longleftrightarrow> r = 0 \<and>
     (\<exists>s1 s2. rb_for (del_node K Files) (k_rb_first K (RBTree (items Files s))) s = Some s1 \<and>
        rb_for (del_node K Sets) (k_rb_first K (RBTree (items Sets (upd_items Files (\<lambda>d. d\<lparr>ulCounts := 0\<rparr>) s1))))
          (upd_items Files (\<lambda>d. d\<lparr>ulCounts := 0\<rparr>) s1) = Some s2 \<and>
        s' = upd_items Sets (\<lambda>d. d\<lparr>ulCounts := 0\<rparr>) s2)"
  by (auto simp: DelAllMonitorSet_def bind_eq_Some_conv Let_def simp del: upd_items.simps)

lemma DelAllMonitorSet_inv:
  assumes rb: "rbtree_laws K" and st: "stale_in_tree K" and inv: "config_inv s"
    and run: "DelAllMonitorSet K s = Some (r, s')"
  shows "config_inv s'"
proof -
  have loop: "config_inv s2" if "config_inv s1" "rb_for (del_node K c) (k_rb_first K (RBTree (items c s1))) s1 = Some s2"
    for c s1 s2
    using del_all_pruned [OF rb st that] config_inv_pruned [OF that(1)] by blast
  from run obtain s1 s2 where
      s1: "rb_for (del_node K Files) (k_rb_first K (RBTree (items Files s))) s = Some s1"
    and s2: "rb_for (del_node K Sets) (k_rb_first K (RBTree (items Sets (upd_items Files (\<lambda>d. d\<lparr>ulCounts := 0\<rparr>) s1))))
        (upd_items Files (\<lambda>d. d\<lparr>ulCounts := 0\<rparr>) s1) = Some s2"
    and s': "s' = upd_items Sets (\<lambda>d. d\<lparr>ulCounts := 0\<rparr>) s2"
    unfolding DelAllMonitorSet_split by blast
  have "config_inv (upd_items Files (\<lambda>d. d\<lparr>ulCounts := 0\<rparr>) s1)"
    using loop [OF inv s1] by (simp only: config_inv_counts)
  from loop [OF this s2] show ?thesis unfolding s' by (simp only: config_inv_counts)
qed

lemma DelAllMonitorSet_exact:
  assumes rb: "rbtree_laws K" and st: "stale_next K" and inv: "config_inv s"
  shows "\<exists>s'. DelAllMonitorSet K s = Some (0, s') \<and> config_inv s' \<and>
    file_tree_of s' = Leaf \<and> set_tree_of s' = Leaf \<and>
    ulCounts (MonitorFiles (cfg s')) = 0 \<and> ulCounts (MonitorSet (cfg s')) = 0 \<and>
    file_mem s' = (file_mem s) |` (- nodes Files s) \<and> set_mem s' = (set_mem s) |` (- nodes Sets s)"
proof -
  from del_all_exact [OF rb st inv, of Files] obtain s1
    where s1: "rb_for (del_node K Files) (k_rb_first K (RBTree (items Files s))) s = Some s1"
      "pruned Files (nodes Files s) s s1" by blast
  let ?s1 = "upd_items Files (\<lambda>d. d\<lparr>ulCounts := 0\<rparr>) s1"
  have i1: "config_inv ?s1" using config_inv_pruned [OF inv s1(2)] by (simp del: upd_items.simps)
  from del_all_exact [OF rb st i1, of Sets] obtain s2
    where s2: "rb_for (del_node K Sets) (k_rb_first K (RBTree (items Sets ?s1))) ?s1 = Some s2"
      "pruned Sets (nodes Sets ?s1) ?s1 s2" by blast
  let ?s2 = "upd_items Sets (\<lambda>d. d\<lparr>ulCounts := 0\<rparr>) s2"
  have "DelAllMonitorSet K s = Some (0, ?s2)" using s1(1) s2(1) DelAllMonitorSet_split by blast
  moreover have "config_inv ?s2" using config_inv_pruned [OF i1 s2(2)] by (simp del: upd_items.simps)
  moreover have "file_tree_of ?s2 = Leaf \<and> set_tree_of ?s2 = Leaf"
    using pruned_all_Leaf [OF s1(2)] pruned_all_Leaf [OF s2(2)] pruned_other(2) [OF s2(2) refl] by simp
  ultimately show ?thesis
    using pruned_other(1) [OF s1(2) refl] pruned_other(2) [OF s2(2) refl] by auto
qed

lemma ConfigDelAllMonitorSet_inv:
  assumes "rbtree_laws K" "stale_in_tree K" "config_inv s" "ConfigDelAllMonitorSet K s = Some (r, s')"
  shows "config_inv s'" and "stale_next K \<Longrightarrow> link_inv s'"
proof -
  from assms(4) obtain s1 r1 where s1: "DelAllMonitorSet K s = Some (r, s1)" "SaveConfig K s1 = Some (r1, s')"
    by (auto simp: ConfigDelAllMonitorSet_def bind_eq_Some_conv)
  show "config_inv s'"
    using DelAllMonitorSet_inv [OF assms(1-3) s1(1)] SaveConfig_inv [OF s1(2)] by simp
  show "link_inv s'" if "stale_next K"
    using DelAllMonitorSet_exact [OF assms(1) that assms(3)] s1 SaveConfig_inv [OF s1(2)]
    by (auto simp: link_inv_def)
qed

lemma ConfigDelMonitorSet_inv:
  assumes rb: "rbtree_laws K" and st: "stale_in_tree K" and inv: "config_inv s"
    and run: "ConfigDelMonitorSet K pfn s = Some (r, s')"
  shows "config_inv s'" and "stale_next K \<Longrightarrow> link_inv s \<Longrightarrow> link_inv s'"
proof -
  have "s' = s \<or> (\<exists>g s1 r1. DelMonitorSet K g True s = Some (r, s1) \<and> SaveConfig K s1 = Some (r1, s'))"
    using run by (auto simp: ConfigDelMonitorSet_def bind_eq_Some_conv split: option.splits)
  then show "config_inv s'" "stale_next K \<Longrightarrow> link_inv s \<Longrightarrow> link_inv s'"
    using inv DelMonitorSet_inv [OF rb st inv] DelMonitorSet_link [OF rb _ inv] SaveConfig_inv by metis+
qed

section \<open>Sequence numbers\<close>

text \<open>A successful call, spelt out: which set it charges and what changes.\<close>

definition seq_taken ::
  "addr \<Rightarrow> addr \<Rightarrow> MONITOR_FILE_ENTRY \<Rightarrow> MONITOR_SET_ENTRY \<Rightarrow> 'w kstate \<Rightarrow> 'w kstate \<Rightarrow> bool" where
  "seq_taken a p e m s s' \<longleftrightarrow>
     file_mem s a = Some e \<and> set_mem s p = Some m \<and> terminated (wcsSetCacheDir m) \<and>
     (pSetEntry e = Some p \<or> pSetEntry e = None \<and> GetMonitorSetEntry (guidSetId e) s = Some (Some p)) \<and>
     s' = put_set p (m\<lparr>ullSetSeqNo := ullSetSeqNo m + 1\<rparr>)
            (put_file a (e\<lparr>pSetEntry := Some p, ullSeqNo := ullSeqNo e + 1\<rparr>) s)"

lemma GetSeqNo_ok:
  assumes "GetMonitorFileSeqNoByMonitorFileEntry K (Some a) s = Some ((0, seq, gseq, t, dir), s')"
  shows "\<exists>p e m. seq_taken a p e m s s' \<and> seq = ullSeqNo e \<and> gseq = ullSetSeqNo m \<and>
    dir = cstr (wcsSetCacheDir m)"
proof -
  from assms obtain e where e: "file_mem s a = Some e"
    by (auto simp: GetMonitorFileSeqNoByMonitorFileEntry_def bind_eq_Some_conv)
  show ?thesis
  proof (cases "pSetEntry e")
    case (Some p)
    have "put_file a (e\<lparr>ullSeqNo := ullSeqNo e + 1\<rparr>) s = put_file a (e\<lparr>pSetEntry := Some p, ullSeqNo := ullSeqNo e + 1\<rparr>) s"
      using Some by (cases e) simp
    with assms e Some show ?thesis
      by (auto simp: GetMonitorFileSeqNoByMonitorFileEntry_def bind_eq_Some_conv seq_taken_def c_strlen_def
          Let_def split_beta split: if_splits)
  next
    case None
    with assms e obtain p where p: "GetMonitorSetEntry (guidSetId e) s = Some (Some p)"
      by (auto simp: GetMonitorFileSeqNoByMonitorFileEntry_def bind_eq_Some_conv split: option.splits)
    with assms e None show ?thesis
      by (auto simp: GetMonitorFileSeqNoByMonitorFileEntry_def bind_eq_Some_conv seq_taken_def c_strlen_def
          Let_def split_beta put_file_def put_set_def split: if_splits)
  qed
qed

lemma GetMonitorSetEntry_hit:
  assumes inv: "config_inv s" and hit: "GetMonitorSetEntry g s = Some (Some p)"
  shows "p \<in> set_tree (set_tree_of s)" and "map_option set_key (set_mem s p) = Some (guid_bytes g)"
  using hit ms.search_iff [OF config_invD(2) [OF inv], of g p]
  by (auto simp: GetMonitorSetEntry_def split: if_splits)

lemma seq_taken_owner:
  assumes inv: "config_inv s" and lk: "link_inv s" and a: "a \<in> set_tree (file_tree_of s)"
    and tk: "seq_taken a p e m s s'"
  shows "p \<in> set_tree (set_tree_of s) \<and> set_key m = guid_bytes (guidSetId e)"
proof (cases "pSetEntry e")
  case None
  with tk have "GetMonitorSetEntry (guidSetId e) s = Some (Some p)" "set_mem s p = Some m"
    by (auto simp: seq_taken_def)
  with GetMonitorSetEntry_hit [OF inv this(1)] show ?thesis by simp
next
  case (Some q)
  with tk have "file_mem s a = Some e" "q = p" "set_mem s p = Some m" by (auto simp: seq_taken_def)
  with lk a Some show ?thesis unfolding link_inv_def by fastforce
qed

lemma seq_taken_inv:
  assumes inv: "config_inv s" and lk: "link_inv s" and a: "a \<in> set_tree (file_tree_of s)"
    and tk: "seq_taken a p e m s s'"
  shows "config_inv s'" and "link_inv s'"
proof -
  let ?e = "e\<lparr>pSetEntry := Some p, ullSeqNo := ullSeqNo e + 1\<rparr>"
  let ?m = "m\<lparr>ullSetSeqNo := ullSetSeqNo m + 1\<rparr>"
  have s': "s' = put_set p ?m (put_file a ?e s)" and e: "file_mem s a = Some e" and m: "set_mem s p = Some m"
    using tk by (auto simp: seq_taken_def)
  note own = seq_taken_owner [OF inv lk a tk]
  have "config_inv (put_file a ?e s)"
    by (rule config_inv_put_file [OF inv e]) (use config_invD(5) [OF inv e] in \<open>simp_all add: wf_file_entry_def\<close>)
  then show "config_inv s'"
    unfolding s' by (rule config_inv_put_set) (use m config_invD(4) [OF inv m] in \<open>simp_all add: wf_set_entry_def\<close>)
  have "link_inv (put_file a ?e s)"
    using lk own m by (auto simp: link_inv_def)
  then show "link_inv s'"
    unfolding s' by (rule link_inv_put_set) (use m in simp_all)
qed

text \<open>A run of calls for a list of monitored files: the numbers in the set it hands out.\<close>

fun take_seqs :: "'w kernel \<Rightarrow> addr list \<Rightarrow> 'w kstate \<Rightarrow> (u64 list \<times> 'w kstate) option" where
  "take_seqs K [] s = Some ([], s)"
| "take_seqs K (a # as) s =
     do { ((r, _, gseq, _, _), s) \<leftarrow> GetMonitorFileSeqNoByMonitorFileEntry K (Some a) s;
          if r \<noteq> 0 then take_seqs K as s
          else do { (gs, s) \<leftarrow> take_seqs K as s; Some (gseq # gs, s) } }"

lemma GetSeqNo_fail:
  assumes "GetMonitorFileSeqNoByMonitorFileEntry K (Some a) s = Some ((r, out), s')" and "r \<noteq> 0"
  shows "\<exists>e. file_mem s a = Some e \<and> pSetEntry e = None \<and> GetMonitorSetEntry (guidSetId e) s = Some None \<and> s' = s"
proof -
  from assms obtain e where e: "file_mem s a = Some e"
    by (auto simp: GetMonitorFileSeqNoByMonitorFileEntry_def bind_eq_Some_conv)
  have self: "put_file a (e\<lparr>pSetEntry := None\<rparr>) s = s" if "pSetEntry e = None"
  proof -
    have "e\<lparr>pSetEntry := None\<rparr> = e" using that by (cases e) simp
    with e show ?thesis by (simp add: put_file_def fun_upd_idem)
  qed
  show ?thesis
  proof (cases "pSetEntry e")
    case (Some p)
    with assms e show ?thesis
      by (auto simp: GetMonitorFileSeqNoByMonitorFileEntry_def bind_eq_Some_conv Let_def split_beta)
  next
    case None
    with assms e self show ?thesis
      by (auto simp: GetMonitorFileSeqNoByMonitorFileEntry_def bind_eq_Some_conv Let_def split_beta
          split: option.splits)
  qed
qed

lemma GetSeqNo_inv:
  assumes inv: "config_inv s" and lk: "link_inv s" and a: "a \<in> set_tree (file_tree_of s)"
    and run: "GetMonitorFileSeqNoByMonitorFileEntry K (Some a) s = Some ((r, seq, gseq, t, dir), s')"
  shows "config_inv s' \<and> link_inv s' \<and> FileReplData s' = FileReplData s"
proof (cases "r = 0")
  case True
  with GetSeqNo_ok [of K a s seq gseq t dir s'] run obtain p e m where "seq_taken a p e m s s'" by auto
  with seq_taken_inv [OF inv lk a this] show ?thesis by (auto simp: seq_taken_def put_set_def put_file_def)
next
  case False
  from GetSeqNo_fail [OF run False] inv lk show ?thesis by auto
qed

text \<open>
  All files of one set draw from the counter of that set: the numbers are consecutive,
  whatever the order of the files.
\<close>

lemma take_seqs_consecutive:
  assumes "take_seqs K as s = Some (gs, s')" and "config_inv s" and "link_inv s"
    and "set as \<subseteq> set_tree (file_tree_of s)"
    and "\<forall>a\<in>set as. map_option (\<lambda>e. guid_bytes (guidSetId e)) (file_mem s a) = Some (guid_bytes g)"
    and "p \<in> set_tree (set_tree_of s)" and "set_mem s p = Some m" and "set_key m = guid_bytes g"
  shows "gs = map (\<lambda>i. ullSetSeqNo m + of_nat i) [0..<length gs]"
  using assms
proof (induction as arbitrary: s gs m)
  case Nil
  then show ?case by simp
next
  case (Cons a as)
  from Cons.prems(1) obtain r seq gseq t dir s1 where
      run: "GetMonitorFileSeqNoByMonitorFileEntry K (Some a) s = Some ((r, seq, gseq, t, dir), s1)"
    and rest: "(if r \<noteq> 0 then take_seqs K as s1
          else do { (gs, s) \<leftarrow> take_seqs K as s1; Some (gseq # gs, s) }) = Some (gs, s')"
    by (auto simp: bind_eq_Some_conv)
  have a: "a \<in> set_tree (file_tree_of s)" using Cons.prems(4) by simp
  note keep = GetSeqNo_inv [OF Cons.prems(2,3) a run]
  show ?case
  proof (cases "r = 0")
    case False
    from GetSeqNo_fail [OF run False] have s1: "s1 = s" by auto
    show ?thesis
      using Cons.IH [of s1 gs m] rest False Cons.prems(2-8) unfolding s1 by simp
  next
    case True
    with GetSeqNo_ok [of K a s seq gseq t dir s1] run obtain p' e m' where
        tk: "seq_taken a p' e m' s s1" and g: "gseq = ullSetSeqNo m'" by auto
    have e: "file_mem s a = Some e" "set_mem s p' = Some m'" using tk by (auto simp: seq_taken_def)
    then have "set_key m' = guid_bytes g" "p' \<in> set_tree (set_tree_of s)"
      using seq_taken_owner [OF Cons.prems(2,3) a tk] Cons.prems(5) by auto
    then have p': "p' = p" "m' = m"
      using bst_list_key_inj [of set_key "set_mem s" "inorder (set_tree_of s)" p' p]
        config_invD(2) [OF Cons.prems(2)] Cons.prems(6-8) e(2) by (auto simp: bst_ok_def)
    let ?m = "m\<lparr>ullSetSeqNo := ullSetSeqNo m + 1\<rparr>"
    have s1: "set_mem s1 p = Some ?m" "file_tree_of s1 = file_tree_of s" "set_tree_of s1 = set_tree_of s"
      "file_mem s1 = (file_mem s)(a \<mapsto> e\<lparr>pSetEntry := Some p, ullSeqNo := ullSeqNo e + 1\<rparr>)"
      using tk p' by (auto simp: seq_taken_def)
    from rest True obtain gs' where gs: "gs = gseq # gs'" and run': "take_seqs K as s1 = Some (gs', s')"
      by (auto simp: bind_eq_Some_conv)
    have "gs' = map (\<lambda>i. ullSetSeqNo ?m + of_nat i) [0..<length gs']"
    proof (rule Cons.IH [OF run'])
      show "config_inv s1" "link_inv s1" using keep by auto
      show "set as \<subseteq> set_tree (file_tree_of s1)" "p \<in> set_tree (set_tree_of s1)" "set_mem s1 p = Some ?m"
        "set_key ?m = guid_bytes g"
        using Cons.prems s1 by auto
      show "\<forall>a\<in>set as. map_option (\<lambda>e. guid_bytes (guidSetId e)) (file_mem s1 a) = Some (guid_bytes g)"
        using Cons.prems(5) s1(4) e by auto
    qed
    then have eq: "map (\<lambda>i. ullSetSeqNo m + 1 + of_nat i) [0..<length gs'] = gs'" by simp
    show ?thesis
      unfolding gs g p' by (simp add: upt_conv_Cons map_Suc_upt [symmetric] comp_def algebra_simps del: upt_Suc)
        (subst eq [symmetric], simp add: algebra_simps)
  qed
qed

end
