(* ===== verification/Notify.thy ===== *)
theory Notify
  imports MonitorCmd
begin

text \<open>
  The sending half of \<open>rtbnetlink.c\<close>: a status message to the user-space agent. A message
  that reaches the socket is appended to \<open>outbox\<close>.
\<close>

definition NET_ERROR :: int where "NET_ERROR = 0"
definition NET_OK :: int where "NET_OK = 1"
definition NET_PARAM :: int where "NET_PARAM = 2"
definition RTB_CMD :: int where "RTB_CMD = 1"

definition NOTIFY_TYPE_USER_TO_DRV_START :: u32 where "NOTIFY_TYPE_USER_TO_DRV_START = 0x4000"
definition NOTIFY_TYPE_CLIENT_ERROR :: u32 where
  "NOTIFY_TYPE_CLIENT_ERROR = 13 + NOTIFY_TYPE_USER_TO_DRV_START"

definition sizeof_FILEREPL_NOTIFICATION :: nat where "sizeof_FILEREPL_NOTIFICATION = 556"

definition netlink_to_user :: "'w kernel \<Rightarrow> int \<Rightarrow> byte list option \<Rightarrow> nat \<Rightarrow> 'w kstate \<Rightarrow> 'w kstate" where
  "netlink_to_user K dest buf len s =
     (case buf of
        None \<Rightarrow> s
      | Some d \<Rightarrow>
          if \<not> k_skb K (world s) then s
          else s\<lparr>outbox := outbox s @ [\<lparr>um_dest = dest, um_nlmsg_len = len, um_data = take len d\<rparr>]\<rparr>)"

text \<open>A zeroed notification with its first two fields set.\<close>

definition status_message :: "u32 \<Rightarrow> int \<Rightarrow> byte list" where
  "status_message ty status = pad sizeof_FILEREPL_NOTIFICATION (le_enc 4 ty @ le_enc 4 (word_of_int status :: u32))"

text \<open>The notification is allocated, not checked, and never freed.\<close>

definition notify_user_status :: "'w kernel \<Rightarrow> u32 \<Rightarrow> int \<Rightarrow> 'w kstate \<Rightarrow> (int \<times> 'w kstate) option" where
  "notify_user_status K ty status s =
     (case alloc_block K Kmalloc s of
        (None, s) \<Rightarrow> None
      | (Some preplnotify, s) \<Rightarrow>
          Some (NET_OK, netlink_to_user K RTB_CMD (Some (status_message ty status)) sizeof_FILEREPL_NOTIFICATION s))"

lemma netlink_to_user_simps [simp]:
  "FileReplData (netlink_to_user K d m n s) = FileReplData s"
  "set_mem (netlink_to_user K d m n s) = set_mem s" "file_mem (netlink_to_user K d m n s) = file_mem s"
  "next_blk (netlink_to_user K d m n s) = next_blk s" "kblocks (netlink_to_user K d m n s) = kblocks s"
  "completions (netlink_to_user K d m n s) = completions s"
  "addr_limit (netlink_to_user K d m n s) = addr_limit s" "world (netlink_to_user K d m n s) = world s"
  by (simp_all add: netlink_to_user_def split: option.split)

text \<open>Besides the message, a notification costs the block it leaks.\<close>

definition leaked_block :: "'w kstate \<Rightarrow> 'w kstate \<Rightarrow> bool" where
  "leaked_block s s' \<longleftrightarrow>
     FileReplData s' = FileReplData s \<and> set_mem s' = set_mem s \<and> file_mem s' = file_mem s \<and>
     next_blk s' = Suc (next_blk s) \<and> kblocks s' = (kblocks s)(next_blk s \<mapsto> Kmalloc) \<and>
     completions s' = completions s \<and> addr_limit s' = addr_limit s \<and> world s' = world s"

lemma notify_user_status_run:
  "k_alloc K (next_blk s) \<Longrightarrow> \<exists>s'. notify_user_status K ty st s = Some (NET_OK, s') \<and> leaked_block s s'"
  by (simp add: notify_user_status_def alloc_block_def leaked_block_def)

lemma notify_user_status_inv:
  assumes "notify_user_status K ty st s = Some (r, s')"
  shows "leaked_block s s'"
  using assms by (auto simp: notify_user_status_def alloc_block_def leaked_block_def split: if_splits)

lemma leaked_config_inv: "leaked_block s s' \<Longrightarrow> config_inv s \<Longrightarrow> config_inv s'"
  unfolding leaked_block_def config_inv_def by (metis less_Suc_eq)

lemma leaked_link_inv: "leaked_block s s' \<Longrightarrow> link_inv s' = link_inv s"
  by (simp add: leaked_block_def link_inv_def)

end
