(* ===== verification/IoLog.thy ===== *)
theory IoLog
  imports Notify
begin

text \<open>
  \<open>createiolog.c\<close>: the record of one file system operation. Every \<open>createiologfor*\<close>
  builds a record and the name of its file, and appends both to the write queue
  (\<open>ASYNC_IOWRITE\<close> is defined, so the synchronous branch is not compiled);
  \<open>createiolog\<close> writes a record to its file.
\<close>

section \<open>The record on disk\<close>

definition LOG_FILE_TYPE_WRITE :: u32 where "LOG_FILE_TYPE_WRITE = 1"
definition LOG_FILE_TYPE_NEWFILE :: u32 where "LOG_FILE_TYPE_NEWFILE = 4"
definition LOG_FILE_TYPE_DELETEFILE :: u32 where "LOG_FILE_TYPE_DELETEFILE = 5"
definition LOG_FILE_TYPE_RENAMEFILE :: u32 where "LOG_FILE_TYPE_RENAMEFILE = 6"
definition LOG_FILE_TYPE_HARDLINK :: u32 where "LOG_FILE_TYPE_HARDLINK = 8"
definition LOG_FILE_TYPE_SOFTLINK :: u32 where "LOG_FILE_TYPE_SOFTLINK = 9"
definition LOG_FILE_TYPE_ERROR :: u32 where "LOG_FILE_TYPE_ERROR = 10"

lemmas log_types = LOG_FILE_TYPE_WRITE_def LOG_FILE_TYPE_NEWFILE_def LOG_FILE_TYPE_DELETEFILE_def
  LOG_FILE_TYPE_RENAMEFILE_def LOG_FILE_TYPE_HARDLINK_def LOG_FILE_TYPE_SOFTLINK_def
  LOG_FILE_TYPE_ERROR_def

definition sizeof_LOG_FILE_HEADER :: nat where "sizeof_LOG_FILE_HEADER = 312"
definition LOG_FILE_HEADER_SIZE :: nat where "LOG_FILE_HEADER_SIZE = 1024"
definition sizeof_LOG_FILE :: nat where "sizeof_LOG_FILE = 1028"
definition NAME_MAX :: nat where "NAME_MAX = 255"

definition enc_log_header :: "LOG_FILE_HEADER \<Rightarrow> byte list" where
  "enc_log_header h = le_enc 4 (ulHeaderSize h) @ le_enc 4 (ulType h) @ le_enc 8 (lhSeqNo h) @
     le_enc 8 (lhGolbalSeqNo h) @ le_enc 4 (ulLogSize h) @ le_enc 4 (bIsDir h) @ wszFilePath h @
     le_enc 8 (liSystemTime h) @ le_enc 4 (wrLength h) @ le_enc 8 (wrByteOffset h)"

definition dec_log_header :: "byte list \<Rightarrow> LOG_FILE_HEADER" where
  "dec_log_header b = \<lparr>ulHeaderSize = le_dec (field 0 4 b), ulType = le_dec (field 4 4 b),
     lhSeqNo = le_dec (field 8 8 b), lhGolbalSeqNo = le_dec (field 16 8 b),
     ulLogSize = le_dec (field 24 4 b), bIsDir = le_dec (field 28 4 b), wszFilePath = field 32 260 b,
     liSystemTime = le_dec (field 292 8 b), wrLength = le_dec (field 300 4 b),
     wrByteOffset = le_dec (field 304 8 b)\<rparr>"

definition log_image :: "LOG_FILE \<Rightarrow> byte list" where
  "log_image l = enc_log_header (hdr l) @ Reserved l @ Data l"

definition wf_log_header :: "LOG_FILE_HEADER \<Rightarrow> bool" where
  "wf_log_header h \<longleftrightarrow> length (wszFilePath h) = FILEREPL_MAX_PATH"

interpretation log_header: fixed_codec enc_log_header dec_log_header sizeof_LOG_FILE_HEADER wf_log_header
  by unfold_locales
     (simp_all add: enc_log_header_def dec_log_header_def wf_log_header_def sizeof_LOG_FILE_HEADER_def
       FILEREPL_MAX_PATH_def field_def le_dec_enc)

section \<open>The name of the record's file\<close>

text \<open>\<open>snprintf (iologpath, NAME_MAX, "%s%lld", iologdir, seqno)\<close>: the number is printed signed.\<close>

fun digits :: "nat \<Rightarrow> byte list" where
  "digits n = (if n < 10 then [of_nat (48 + n)] else digits (n div 10) @ [of_nat (48 + n mod 10)])"

declare digits.simps [simp del]

definition lld :: "u64 \<Rightarrow> byte list" where
  "lld w = (if sint w < 0 then of_char (CHR ''-'') # digits (nat (- sint w)) else digits (nat (sint w)))"

definition log_path :: "byte list \<Rightarrow> u64 \<Rightarrow> byte list" where
  "log_path iologdir gseqno = take (NAME_MAX - 1) (cstr iologdir @ lld gseqno)"

section \<open>The write queue\<close>

definition push_iowrite :: "IOWRITE_CONTEXT \<Rightarrow> 'w kstate \<Rightarrow> 'w kstate" where
  "push_iowrite c s = upd_cfg (\<lambda>f. f\<lparr>iowritequeue := iowritequeue f @ [c]\<rparr>) s"

definition pop_iowrite :: "'w kstate \<Rightarrow> (IOWRITE_CONTEXT \<times> 'w kstate) option" where
  "pop_iowrite s =
     (case iowritequeue (cfg s) of
        [] \<Rightarrow> None
      | c # q \<Rightarrow> Some (c, upd_cfg (\<lambda>f. f\<lparr>iowritequeue := q\<rparr>) s))"

definition completecompletion :: "'w kstate \<Rightarrow> 'w kstate" where
  "completecompletion s = s\<lparr>completions := Suc (completions s)\<rparr>"

text \<open>
  The end of every \<open>createiologfor*\<close>: neither of the two allocations is checked. The
  record is \<open>l\<close>, in block \<open>b\<close>.
\<close>

definition queue_log ::
  "'w kernel \<Rightarrow> addr \<Rightarrow> LOG_FILE \<Rightarrow> byte list \<Rightarrow> u64 \<Rightarrow> 'w kstate \<Rightarrow> (int \<times> 'w kstate) option" where
  "queue_log K b l iologdir ullGlobalSeqNo s =
     (case alloc_block K Kmalloc s of
        (None, s) \<Rightarrow> None
      | (Some p, s) \<Rightarrow>
          (case alloc_block K Kmalloc s of
             (None, s) \<Rightarrow> None
           | (Some c, s) \<Rightarrow>
               let s = push_iowrite \<lparr>piowc = c, iologpath_blk = p,
                         iologpath = log_path iologdir ullGlobalSeqNo,
                         logfile_blk = b, logfile = l\<rparr> s
               in Some (0, completecompletion s)))"

section \<open>One function per kind of operation\<close>

definition log_header ::
  "u32 \<Rightarrow> u32 \<Rightarrow> u64 \<Rightarrow> u64 \<Rightarrow> u64 \<Rightarrow> nat \<Rightarrow> byte list \<Rightarrow> LOG_FILE_HEADER" where
  "log_header ty isdir seqno ullGlobalSeqNo timesecs logsize path =
     \<lparr>ulHeaderSize = of_nat sizeof_LOG_FILE_HEADER, ulType = ty, lhSeqNo = seqno,
      lhGolbalSeqNo = ullGlobalSeqNo, ulLogSize = of_nat logsize, bIsDir = isdir,
      wszFilePath = path, liSystemTime = timesecs, wrLength = 0, wrByteOffset = 0\<rparr>"

text \<open>Lengths of paths are cut to 260, the size of the array: a longer path loses its end and its NUL.\<close>

definition path_len :: "byte list \<Rightarrow> nat" where
  "path_len p = min (strlen p) 260"

definition log_plain ::
  "'w kernel \<Rightarrow> u32 \<Rightarrow> u32 \<Rightarrow> u64 \<Rightarrow> u64 \<Rightarrow> u64 \<Rightarrow> byte list \<Rightarrow> byte list \<Rightarrow> 'w kstate \<Rightarrow>
   (int \<times> 'w kstate) option" where
  "log_plain K ty isdir seqno ullGlobalSeqNo timesecs iologdir abspath s =
     (case alloc_block K Kmalloc s of
        (None, s) \<Rightarrow> Some (-1, s)
      | (Some b, s) \<Rightarrow>
          do { path \<leftarrow> c_strncpy (replicate FILEREPL_MAX_PATH 0) abspath (path_len abspath);
               queue_log K b
                 \<lparr>hdr = log_header ty isdir seqno ullGlobalSeqNo timesecs sizeof_LOG_FILE path,
                  Reserved = replicate (LOG_FILE_HEADER_SIZE - sizeof_LOG_FILE_HEADER) 0,
                  Data = replicate 4 0\<rparr> iologdir ullGlobalSeqNo s })"

text \<open>The record of an operation with two paths: the second is the data, without a NUL.\<close>

definition log_two ::
  "'w kernel \<Rightarrow> u32 \<Rightarrow> u64 \<Rightarrow> u64 \<Rightarrow> u64 \<Rightarrow> byte list \<Rightarrow> byte list \<Rightarrow> byte list \<Rightarrow> 'w kstate \<Rightarrow>
   (int \<times> 'w kstate) option" where
  "log_two K ty seqno ullGlobalSeqNo timesecs iologdir oldabspath newabspath s =
     (case alloc_block K Kmalloc s of
        (None, s) \<Rightarrow> Some (-1, s)
      | (Some b, s) \<Rightarrow>
          do { let newlen = path_len newabspath;
               path \<leftarrow> c_strncpy (replicate FILEREPL_MAX_PATH 0) oldabspath (path_len oldabspath);
               d \<leftarrow> c_strncpy (replicate newlen 0) newabspath newlen;
               queue_log K b
                 \<lparr>hdr = log_header ty 0 seqno ullGlobalSeqNo timesecs (sizeof_LOG_FILE + newlen - 4) path,
                  Reserved = replicate (LOG_FILE_HEADER_SIZE - sizeof_LOG_FILE_HEADER) 0,
                  Data = d\<rparr> iologdir ullGlobalSeqNo s })"

definition createiologformkdir ::
  "'w kernel \<Rightarrow> u64 \<Rightarrow> u64 \<Rightarrow> u64 \<Rightarrow> byte list \<Rightarrow> byte list \<Rightarrow> int \<Rightarrow> 'w kstate \<Rightarrow> (int \<times> 'w kstate) option" where
  "createiologformkdir K seqno ullGlobalSeqNo timesecs iologdir abspath mode s =
     log_plain K LOG_FILE_TYPE_NEWFILE 1 seqno ullGlobalSeqNo timesecs iologdir abspath s"

definition createiologforcreatefile ::
  "'w kernel \<Rightarrow> u64 \<Rightarrow> u64 \<Rightarrow> u64 \<Rightarrow> byte list \<Rightarrow> byte list \<Rightarrow> int \<Rightarrow> 'w kstate \<Rightarrow> (int \<times> 'w kstate) option" where
  "createiologforcreatefile K seqno ullGlobalSeqNo timesecs iologdir abspath mode s =
     log_plain K LOG_FILE_TYPE_NEWFILE 0 seqno ullGlobalSeqNo timesecs iologdir abspath s"

definition createiologforrmdir ::
  "'w kernel \<Rightarrow> u64 \<Rightarrow> u64 \<Rightarrow> u64 \<Rightarrow> byte list \<Rightarrow> byte list \<Rightarrow> 'w kstate \<Rightarrow> (int \<times> 'w kstate) option" where
  "createiologforrmdir K seqno ullGlobalSeqNo timesecs iologdir abspath s =
     log_plain K LOG_FILE_TYPE_DELETEFILE 1 seqno ullGlobalSeqNo timesecs iologdir abspath s"

definition createiologforrmfile ::
  "'w kernel \<Rightarrow> u64 \<Rightarrow> u64 \<Rightarrow> u64 \<Rightarrow> byte list \<Rightarrow> byte list \<Rightarrow> 'w kstate \<Rightarrow> (int \<times> 'w kstate) option" where
  "createiologforrmfile K seqno ullGlobalSeqNo timesecs iologdir abspath s =
     log_plain K LOG_FILE_TYPE_DELETEFILE 0 seqno ullGlobalSeqNo timesecs iologdir abspath s"

definition createiologforerror ::
  "'w kernel \<Rightarrow> u64 \<Rightarrow> u64 \<Rightarrow> u64 \<Rightarrow> byte list \<Rightarrow> byte list \<Rightarrow> 'w kstate \<Rightarrow> (int \<times> 'w kstate) option" where
  "createiologforerror K seqno ullGlobalSeqNo timesecs iologdir abspath s =
     log_plain K LOG_FILE_TYPE_ERROR 0 seqno ullGlobalSeqNo timesecs iologdir abspath s"

definition createiologforrename ::
  "'w kernel \<Rightarrow> u64 \<Rightarrow> u64 \<Rightarrow> u64 \<Rightarrow> byte list \<Rightarrow> byte list \<Rightarrow> byte list \<Rightarrow> 'w kstate \<Rightarrow> (int \<times> 'w kstate) option" where
  "createiologforrename K seqno ullGlobalSeqNo timesecs iologdir oldabspath newabspath s =
     log_two K LOG_FILE_TYPE_RENAMEFILE seqno ullGlobalSeqNo timesecs iologdir oldabspath newabspath s"

definition createiologforcreatesymlink ::
  "'w kernel \<Rightarrow> u64 \<Rightarrow> u64 \<Rightarrow> u64 \<Rightarrow> byte list \<Rightarrow> byte list \<Rightarrow> byte list \<Rightarrow> 'w kstate \<Rightarrow> (int \<times> 'w kstate) option" where
  "createiologforcreatesymlink K seqno ullGlobalSeqNo timesecs iologdir symlinkabspath dstabspath s =
     log_two K LOG_FILE_TYPE_SOFTLINK seqno ullGlobalSeqNo timesecs iologdir dstabspath symlinkabspath s"

definition createiologforcreatelink ::
  "'w kernel \<Rightarrow> u64 \<Rightarrow> u64 \<Rightarrow> u64 \<Rightarrow> byte list \<Rightarrow> byte list \<Rightarrow> byte list \<Rightarrow> 'w kstate \<Rightarrow> (int \<times> 'w kstate) option" where
  "createiologforcreatelink K seqno ullGlobalSeqNo timesecs iologdir linkabspath dstabspath s =
     log_two K LOG_FILE_TYPE_HARDLINK seqno ullGlobalSeqNo timesecs iologdir dstabspath linkabspath s"

text \<open>
  The length of a write record is an \<open>int\<close>; a size that is not positive there cannot be
  allocated, one that has lost its upper half is too small for the data. The bytes are
  read from the caller's buffer, \<open>count\<close> of them.
\<close>

definition createiologforwrite ::
  "'w kernel \<Rightarrow> u64 \<Rightarrow> u64 \<Rightarrow> u64 \<Rightarrow> byte list \<Rightarrow> byte list \<Rightarrow> byte list \<Rightarrow> nat \<Rightarrow> u64 \<Rightarrow> 'w kstate \<Rightarrow>
   (int \<times> 'w kstate) option" where
  "createiologforwrite K seqno ullGlobalSeqNo timesecs iologdir abspath writebuff count pos s =
     (let iologfilelen = as_int (int sizeof_LOG_FILE + int count - 4)
      in if iologfilelen \<le> 0 then Some (-1, s)
         else case alloc_block K Vmalloc s of
                (None, s) \<Rightarrow> Some (-1, s)
              | (Some b, s) \<Rightarrow>
                  if iologfilelen < int (LOG_FILE_HEADER_SIZE + count) \<or> length writebuff < count then None
                  else do {
                    path \<leftarrow> c_strncpy (replicate FILEREPL_MAX_PATH 0) abspath (path_len abspath);
                    queue_log K b
                      \<lparr>hdr = (log_header LOG_FILE_TYPE_WRITE 0 seqno ullGlobalSeqNo timesecs
                                (nat iologfilelen) path)
                              \<lparr>wrLength := of_nat count, wrByteOffset := pos\<rparr>,
                       Reserved = replicate (LOG_FILE_HEADER_SIZE - sizeof_LOG_FILE_HEADER) 0,
                       Data = take count writebuff\<rparr> iologdir ullGlobalSeqNo s })"

section \<open>Writing a record\<close>

definition createiolog :: "'w kernel \<Rightarrow> byte list \<Rightarrow> LOG_FILE \<Rightarrow> 'w kstate \<Rightarrow> (int \<times> 'w kstate) option" where
  "createiolog K path iologfile s =
     (case file_open K path (O_WRONLY + O_CREAT) 777 s of
        (Inl err, s) \<Rightarrow>
          do { (_, s) \<leftarrow> notify_user_status K NOTIFY_TYPE_CLIENT_ERROR err s; Some (-1, s) }
      | (Inr filep, s) \<Rightarrow>
          let (n, s) = file_write K filep 0 (log_image iologfile) (unat (ulLogSize (hdr iologfile))) s
          in if word_of_int n \<noteq> ulLogSize (hdr iologfile) then Some (-1, s)
             else do { let s = file_close K filep s;
                       (_, s) \<leftarrow> SaveConfig K s;
                       Some (0, s) })"

definition getseqno :: "u64 \<Rightarrow> u64 \<times> u64" where
  "getseqno gseqno = (gseqno, gseqno + 1)"

section \<open>Numbers and names\<close>

definition undigits :: "byte list \<Rightarrow> nat" where
  "undigits b = foldl (\<lambda>v c. 10 * v + (unat c - 48)) 0 b"

lemma undigits_digits: "undigits (digits n) = n"
proof (induction n rule: digits.induct)
  case (1 n)
  have d: "unat (of_nat (48 + k) :: byte) - 48 = k" if "k < 10" for k
  proof -
    have "unat (of_nat (48 + k) :: byte) = 48 + k" using that by (simp only: unat_of_nat) (simp add: take_bit_nat_eq_self)
    then show ?thesis by simp
  qed
  show ?case
    by (subst digits.simps) (use 1 d [of n] d [of "n mod 10"] in \<open>simp add: undigits_def\<close>)
qed

lemma digits_inj: "digits m = digits n \<longleftrightarrow> m = n"
  by (metis undigits_digits)

lemma digits_chars: "c \<in> set (digits n) \<Longrightarrow> 48 \<le> unat c \<and> unat c < 58"
proof (induction n rule: digits.induct)
  case (1 n)
  have d: "unat (of_nat (48 + k) :: byte) = 48 + k" if "k < 10" for k
    using that by (simp only: unat_of_nat) (simp add: take_bit_nat_eq_self)
  have "c \<in> set (digits (n div 10)) \<or> c = of_nat (48 + n mod 10) \<or> (n < 10 \<and> c = of_nat (48 + n))"
    if "c \<in> set (digits n)" using that by (subst (asm) digits.simps) (auto split: if_splits)
  moreover have "n < 10 \<or> \<not> n < 10" by simp
  ultimately show ?case
    using 1 d [of "n mod 10"] d [of n] by (cases "n < 10") (auto simp: digits.simps [of n])
qed

lemma length_digits: "n < 10 ^ k \<Longrightarrow> 0 < k \<Longrightarrow> length (digits n) \<le> k"
proof (induction k arbitrary: n)
  case 0
  then show ?case by simp
next
  case (Suc k)
  show ?case
  proof (cases "n < 10")
    case True
    then show ?thesis by (simp add: digits.simps [of n])
  next
    case False
    with Suc.prems have "n div 10 < 10 ^ k" "0 < k" by (auto simp: less_mult_imp_div_less intro: Suc_leI gr0I)
    with Suc.IH [of "n div 10"] False show ?thesis by (simp add: digits.simps [of n])
  qed
qed

lemma digits_not_Nil: "digits n \<noteq> []"
  by (subst digits.simps) simp

lemma lld_inj: "lld a = lld b \<longleftrightarrow> a = b"
proof
  assume eq: "lld a = lld b"
  have minus: "hd (digits n) \<noteq> of_char (CHR ''-'')" for n
  proof -
    have "unat (hd (digits n)) \<ge> 48" using digits_chars [of "hd (digits n)" n] digits_not_Nil by simp
    then show ?thesis by auto
  qed
  have "sint a = sint b"
    using eq minus [of "nat (sint a)"] minus [of "nat (sint b)"]
    by (auto simp: lld_def digits_inj split: if_splits) (metis list.sel(1))+
  then show "a = b" by (rule signed_word_eqI)
qed simp

lemma length_lld: "length (lld w) \<le> 20"
proof -
  have "- (2 ^ 63) \<le> sint w" "sint w < 2 ^ 63"
    using sint_greater_eq [of w] sint_less [of w] by simp_all
  then have "nat (sint w) < 10 ^ 19" "nat (- sint w) < 10 ^ 19" by simp_all
  then show ?thesis
    using length_digits [of "nat (sint w)" 19] length_digits [of "nat (- sint w)" 19]
    by (auto simp: lld_def)
qed

lemma log_path_distinct:
  "strlen iologdir \<le> 234 \<Longrightarrow> log_path iologdir a = log_path iologdir b \<longleftrightarrow> a = b"
  using length_lld [of a] length_lld [of b] lld_inj [of a b]
  by (simp add: log_path_def NAME_MAX_def strlen_def)

lemma log_path_collides:
  "254 \<le> strlen iologdir \<Longrightarrow> log_path iologdir a = log_path iologdir b"
  by (simp add: log_path_def NAME_MAX_def strlen_def)

section \<open>The queue as an interface\<close>

text \<open>
  What the hooks and the writer thread share: records go in at the tail and come out at
  the head.
\<close>

locale work_queue =
  fixes push :: "'c \<Rightarrow> 's \<Rightarrow> 's"
    and pop :: "'s \<Rightarrow> ('c \<times> 's) option"
    and queue :: "'s \<Rightarrow> 'c list"
  assumes queue_push: "queue (push c s) = queue s @ [c]"
    and pop_empty: "queue s = [] \<Longrightarrow> pop s = None"
    and pop_head: "queue s = c # q \<Longrightarrow> \<exists>s'. pop s = Some (c, s') \<and> queue s' = q"
begin

lemma queue_pushes: "queue (fold push cs s) = queue s @ cs"
  by (induction cs arbitrary: s) (simp_all add: queue_push)

lemma pop_None_iff: "pop s = None \<longleftrightarrow> queue s = []"
  using pop_empty pop_head by (cases "queue s") fastforce+

lemma pop_SomeD: "pop s = Some (c, s') \<Longrightarrow> queue s = c # queue s'"
  using pop_empty pop_head by (cases "queue s") fastforce+

text \<open>First in, first out: what is pushed onto an empty queue is popped in that order.\<close>

lemma fifo_head: "queue s = [] \<Longrightarrow> \<exists>s'. pop (fold push (c # cs) s) = Some (c, s') \<and> queue s' = cs"
  using pop_head [of "fold push (c # cs) s" c cs] queue_pushes [of "c # cs" s] by simp

end

interpretation iowrite: work_queue push_iowrite pop_iowrite "\<lambda>s. iowritequeue (cfg s)"
  by unfold_locales (auto simp: push_iowrite_def pop_iowrite_def)

section \<open>What queueing a record does\<close>

definition queued :: "IOWRITE_CONTEXT \<Rightarrow> 'w kstate \<Rightarrow> 'w kstate \<Rightarrow> bool" where
  "queued c s s' \<longleftrightarrow>
     s' = (push_iowrite c (s\<lparr>next_blk := Suc (Suc (Suc (next_blk s))),
            kblocks := (kblocks s)(logfile_blk c \<mapsto>
                (if ulType (hdr (logfile c)) = LOG_FILE_TYPE_WRITE then Vmalloc else Kmalloc),
              iologpath_blk c \<mapsto> Kmalloc, piowc c \<mapsto> Kmalloc)\<rparr>))
            \<lparr>completions := Suc (completions s)\<rparr> \<and>
     logfile_blk c = next_blk s \<and> iologpath_blk c = Suc (next_blk s) \<and> piowc c = Suc (Suc (next_blk s))"

definition stored_path :: "byte list \<Rightarrow> byte list" where
  "stored_path p = pad FILEREPL_MAX_PATH (take 260 (cstr p))"

lemma strncpy_path:
  "c_strncpy (replicate FILEREPL_MAX_PATH 0) p (path_len p) = Some (stored_path p)"
  by (simp add: c_strncpy_zeros path_len_def FILEREPL_MAX_PATH_def stored_path_def strlen_def min_def)

lemma strncpy_data:
  "c_strncpy (replicate (path_len p) 0) p (path_len p) = Some (take 260 (cstr p))"
  by (simp add: c_strncpy_zeros path_len_def strlen_def min_def pad_def)

lemma length_stored_path: "length (stored_path p) = FILEREPL_MAX_PATH"
  by (simp add: stored_path_def length_pad FILEREPL_MAX_PATH_def)

text \<open>The record fields of the operations with one path.\<close>

definition plain_record :: "u32 \<Rightarrow> u32 \<Rightarrow> u64 \<Rightarrow> u64 \<Rightarrow> u64 \<Rightarrow> byte list \<Rightarrow> LOG_FILE" where
  "plain_record ty isdir sno gno t p =
     \<lparr>hdr = log_header ty isdir sno gno t sizeof_LOG_FILE (stored_path p),
      Reserved = replicate 712 0, Data = replicate 4 0\<rparr>"

definition two_record :: "u32 \<Rightarrow> u64 \<Rightarrow> u64 \<Rightarrow> u64 \<Rightarrow> byte list \<Rightarrow> byte list \<Rightarrow> LOG_FILE" where
  "two_record ty sno gno t p q =
     \<lparr>hdr = log_header ty 0 sno gno t (LOG_FILE_HEADER_SIZE + path_len q) (stored_path p),
      Reserved = replicate 712 0, Data = take 260 (cstr q)\<rparr>"

definition write_record :: "u64 \<Rightarrow> u64 \<Rightarrow> u64 \<Rightarrow> byte list \<Rightarrow> byte list \<Rightarrow> u64 \<Rightarrow> LOG_FILE" where
  "write_record sno gno t p d pos =
     \<lparr>hdr = (log_header LOG_FILE_TYPE_WRITE 0 sno gno t (LOG_FILE_HEADER_SIZE + length d) (stored_path p))
              \<lparr>wrLength := of_nat (length d), wrByteOffset := pos\<rparr>,
      Reserved = replicate 712 0, Data = d\<rparr>"

definition has_record :: "byte list \<Rightarrow> u64 \<Rightarrow> LOG_FILE \<Rightarrow> IOWRITE_CONTEXT \<Rightarrow> bool" where
  "has_record dir gno l c \<longleftrightarrow> iologpath c = log_path dir gno \<and> logfile c = l"

lemmas sizeof_log_defs = sizeof_LOG_FILE_def sizeof_LOG_FILE_HEADER_def LOG_FILE_HEADER_SIZE_def

lemma queue_log_run:
  assumes alloc: "\<forall>a\<ge>next_blk s. k_alloc K a"
    and r: "r = (if ulType (hdr l) = LOG_FILE_TYPE_WRITE then Vmalloc else Kmalloc)"
    and s1: "s1 = s\<lparr>next_blk := Suc (next_blk s), kblocks := (kblocks s)(next_blk s \<mapsto> r)\<rparr>"
  shows "\<exists>c s'. queue_log K (next_blk s) l dir gno s1 = Some (0, s') \<and> queued c s s' \<and> has_record dir gno l c"
proof -
  let ?c = "\<lparr>piowc = Suc (Suc (next_blk s)), iologpath_blk = Suc (next_blk s),
    iologpath = log_path dir gno, logfile_blk = next_blk s, logfile = l\<rparr>"
  have "\<exists>s'. queue_log K (next_blk s) l dir gno s1 = Some (0, s') \<and> queued ?c s s'"
    using alloc
    by (simp add: s1 queue_log_def alloc_block_def queued_def push_iowrite_def upd_cfg_def
        completecompletion_def r Let_def)
  then show ?thesis unfolding has_record_def by (metis IOWRITE_CONTEXT.select_convs(3,5))
qed

lemma log_plain_run:
  assumes "\<forall>a\<ge>next_blk s. k_alloc K a" and "ty \<noteq> LOG_FILE_TYPE_WRITE"
  shows "\<exists>c s'. log_plain K ty isdir sno gno t dir p s = Some (0, s') \<and> queued c s s' \<and>
    has_record dir gno (plain_record ty isdir sno gno t p) c"
  using assms queue_log_run [OF assms(1), of Kmalloc "plain_record ty isdir sno gno t p" _ dir gno]
  by (simp add: log_plain_def alloc_block_def strncpy_path plain_record_def sizeof_log_defs log_header_def)

lemma log_two_run:
  assumes "\<forall>a\<ge>next_blk s. k_alloc K a" and "ty \<noteq> LOG_FILE_TYPE_WRITE"
  shows "\<exists>c s'. log_two K ty sno gno t dir p q s = Some (0, s') \<and> queued c s s' \<and>
    has_record dir gno (two_record ty sno gno t p q) c"
  using assms queue_log_run [OF assms(1), of Kmalloc "two_record ty sno gno t p q" _ dir gno]
  by (simp add: log_two_def alloc_block_def strncpy_path strncpy_data two_record_def sizeof_log_defs
      log_header_def Let_def)

lemma createiologforwrite_run:
  assumes "\<forall>a\<ge>next_blk s. k_alloc K a" and "length d + 1024 < 2 ^ 31"
  shows "\<exists>c s'. createiologforwrite K sno gno t dir p d (length d) pos s = Some (0, s') \<and> queued c s s' \<and>
    has_record dir gno (write_record sno gno t p d pos) c"
proof -
  have len: "as_int (int sizeof_LOG_FILE + int (length d) - 4) = int (LOG_FILE_HEADER_SIZE + length d)"
    using assms(2) by (subst as_int_id) (simp_all add: sizeof_log_defs)
  then show ?thesis
    using assms queue_log_run [OF assms(1), of Vmalloc "write_record sno gno t p d pos" _ dir gno]
    by (simp add: createiologforwrite_def len alloc_block_def strncpy_path write_record_def log_header_def
        sizeof_log_defs)
qed

section \<open>A record on disk can be read back\<close>

text \<open>What a reader of a record file makes of it.\<close>

definition parse_log :: "byte list \<Rightarrow> LOG_FILE" where
  "parse_log b = \<lparr>hdr = dec_log_header (take 312 b), Reserved = take 712 (drop 312 b), Data = drop 1024 b\<rparr>"

definition wf_log :: "LOG_FILE \<Rightarrow> bool" where
  "wf_log l \<longleftrightarrow> wf_log_header (hdr l) \<and> length (Reserved l) = 712"

lemma length_log_image: "wf_log l \<Longrightarrow> length (log_image l) = 1024 + length (Data l)"
  using log_header.width [of "hdr l"] by (simp add: wf_log_def log_image_def sizeof_log_defs)

lemma parse_log_image: "wf_log l \<Longrightarrow> parse_log (log_image l) = l"
  using log_header.width [of "hdr l"] log_header.dec_append [of "hdr l"]
  by (simp add: wf_log_def parse_log_def log_image_def sizeof_log_defs)

lemma wf_records:
  "wf_log (plain_record ty isdir sno gno t p)" "wf_log (two_record ty sno gno t p q)"
  "wf_log (write_record sno gno t p d pos)"
  by (simp_all add: wf_log_def wf_log_header_def plain_record_def two_record_def write_record_def
      log_header_def length_stored_path)

text \<open>The announced size is the size of the image, so the writer writes all of it.\<close>

definition full_size :: "LOG_FILE \<Rightarrow> bool" where
  "full_size l \<longleftrightarrow> wf_log l \<and> unat (ulLogSize (hdr l)) = length (log_image l)"

lemma full_size_records:
  "full_size (plain_record ty isdir sno gno t p)" "full_size (two_record ty sno gno t p q)"
  "length d + 1024 < 2 ^ 32 \<Longrightarrow> full_size (write_record sno gno t p d pos)"
proof -
  show "full_size (plain_record ty isdir sno gno t p)"
    using wf_records(1) [of ty isdir sno gno t p] by (simp add: full_size_def length_log_image)
      (simp add: plain_record_def log_header_def sizeof_log_defs)
  have "path_len q \<le> 260" by (simp add: path_len_def)
  then have "unat (1024 + of_nat (path_len q) :: u32) = 1024 + path_len q"
    using unat_u32 [of "1024 + path_len q"] by simp
  then show "full_size (two_record ty sno gno t p q)"
    using wf_records(2) [of ty sno gno t p q] by (simp add: full_size_def length_log_image)
      (simp add: two_record_def log_header_def sizeof_log_defs path_len_def strlen_def min.commute)
  show "full_size (write_record sno gno t p d pos)" if "length d + 1024 < 2 ^ 32"
    using wf_records(3) [of sno gno t p d pos] unat_u32 [of "1024 + length d"] that
    by (simp add: full_size_def length_log_image)
      (simp add: write_record_def log_header_def sizeof_log_defs)
qed

lemma cstr_stored_path: "cstr (stored_path p) = take 260 (cstr p)"
proof -
  have "0 \<notin> set (take 260 (cstr p))" by (meson cstr_no_NUL in_set_takeD)
  then show ?thesis by (simp add: stored_path_def cstr_id)
qed

end
