(* ===== verification/IoWriteThread.thy ===== *)
theory IoWriteThread
  imports IoLog
begin

text \<open>
  \<open>iowritethread.c\<close>: the kernel thread that takes records off the queue, writes them and
  frees them.
\<close>

definition log_region :: "LOG_FILE \<Rightarrow> region" where
  "log_region l = (if ulType (hdr l) = LOG_FILE_TYPE_WRITE then Vmalloc else Kmalloc)"

text \<open>One round of the inner loop, after the context \<open>c\<close> has been taken off the queue.\<close>

definition iowrite_one :: "'w kernel \<Rightarrow> IOWRITE_CONTEXT \<Rightarrow> 'w kstate \<Rightarrow> 'w kstate option" where
  "iowrite_one K c s =
     do { (iret, s) \<leftarrow> createiolog K (iologpath c) (logfile c) s;
          s \<leftarrow> (if iret \<noteq> 0
               then do { (_, s) \<leftarrow> notify_user_status K NOTIFY_TYPE_CLIENT_ERROR (-2) s; Some s }
               else Some s);
          s \<leftarrow> free_block Kmalloc (iologpath_blk c) s;
          s \<leftarrow> free_block (log_region (logfile c)) (logfile_blk c) s;
          free_block Kmalloc (piowc c) s }"

partial_function (option) drain :: "'w kernel \<Rightarrow> 'w kstate \<Rightarrow> 'w kstate option" where
  "drain K s =
     (case pop_iowrite s of
        None \<Rightarrow> Some s
      | Some (c, s) \<Rightarrow> do { s \<leftarrow> iowrite_one K c s; drain K s })"

definition wait_for_completion :: "'w kstate \<Rightarrow> 'w kstate" where
  "wait_for_completion s = s\<lparr>completions := completions s - 1\<rparr>"

text \<open>The outer loop: \<open>n\<close> is how many times \<open>kthread_should_stop\<close> answers no.\<close>

fun thread_iowrite :: "'w kernel \<Rightarrow> nat \<Rightarrow> 'w kstate \<Rightarrow> (int \<times> 'w kstate) option" where
  "thread_iowrite K 0 s = do { s \<leftarrow> drain K (wait_for_completion s); Some (0, s) }"
| "thread_iowrite K (Suc n) s = do { s \<leftarrow> drain K (wait_for_completion s); thread_iowrite K n s }"

section \<open>Ownership of the queue\<close>

text \<open>
  Every context in the queue owns its three blocks: they are live, come from the allocator
  they will be given back to, and belong to no other context.
\<close>

definition ctx_blocks :: "IOWRITE_CONTEXT \<Rightarrow> addr list" where
  "ctx_blocks c = [iologpath_blk c, logfile_blk c, piowc c]"

definition owned :: "IOWRITE_CONTEXT list \<Rightarrow> 'w kstate \<Rightarrow> bool" where
  "owned q s \<longleftrightarrow>
     distinct (concat (map ctx_blocks q)) \<and>
     (\<forall>c\<in>set q. kblocks s (iologpath_blk c) = Some Kmalloc \<and>
        kblocks s (logfile_blk c) = Some (log_region (logfile c)) \<and>
        kblocks s (piowc c) = Some Kmalloc) \<and>
     (\<forall>a. kblocks s a \<noteq> None \<longrightarrow> a < next_blk s)"

abbreviation queue_of :: "'w kstate \<Rightarrow> IOWRITE_CONTEXT list" where
  "queue_of s \<equiv> iowritequeue (cfg s)"

definition queue_inv :: "'w kstate \<Rightarrow> bool" where
  "queue_inv s \<longleftrightarrow> owned (queue_of s) s"

text \<open>Queueing a record hands it three new blocks.\<close>

lemma queued_simps:
  assumes "queued c s s'"
  shows "queue_of s' = queue_of s @ [c]" "set_mem s' = set_mem s" "file_mem s' = file_mem s"
    "MonitorSet (cfg s') = MonitorSet (cfg s)" "MonitorFiles (cfg s') = MonitorFiles (cfg s)"
    "bNormalRunning (cfg s') = bNormalRunning (cfg s)" "bValid (cfg s') = bValid (cfg s)"
    "next_blk s' = Suc (Suc (Suc (next_blk s)))" "world s' = world s" "outbox s' = outbox s"
    "addr_limit s' = addr_limit s" "completions s' = Suc (completions s)"
  using assms by (auto simp: queued_def push_iowrite_def)

lemma queued_owned:
  assumes qi: "queue_inv s" and q: "queued c s s'"
  shows "queue_inv s'"
proof -
  from q have blk: "logfile_blk c = next_blk s" "iologpath_blk c = Suc (next_blk s)" "piowc c = Suc (Suc (next_blk s))"
    and kb: "kblocks s' = (kblocks s)(next_blk s \<mapsto> log_region (logfile c), Suc (next_blk s) \<mapsto> Kmalloc,
      Suc (Suc (next_blk s)) \<mapsto> Kmalloc)"
    by (auto simp: queued_def log_region_def push_iowrite_def)
  have old: "a < next_blk s" if "d \<in> set (queue_of s)" "a \<in> set (ctx_blocks d)" for d a
  proof -
    from qi that have "kblocks s a \<noteq> None"
      unfolding queue_inv_def owned_def ctx_blocks_def by auto
    with qi show ?thesis unfolding queue_inv_def owned_def by blast
  qed
  have "distinct (concat (map ctx_blocks (queue_of s @ [c])))"
    using qi old by (fastforce simp: queue_inv_def owned_def ctx_blocks_def blk)
  moreover have "kblocks s' a = kblocks s a" if "a < next_blk s" for a
    using that by (simp add: kb)
  moreover have "kblocks s' (iologpath_blk d) = Some Kmalloc \<and>
      kblocks s' (logfile_blk d) = Some (log_region (logfile d)) \<and> kblocks s' (piowc d) = Some Kmalloc"
    if "d \<in> set (queue_of s @ [c])" for d
  proof (cases "d = c")
    case True
    then show ?thesis by (simp add: kb blk)
  next
    case False
    with that have d: "d \<in> set (queue_of s)" by simp
    with qi have "kblocks s (iologpath_blk d) = Some Kmalloc \<and>
        kblocks s (logfile_blk d) = Some (log_region (logfile d)) \<and> kblocks s (piowc d) = Some Kmalloc"
      by (simp add: queue_inv_def owned_def)
    moreover have "iologpath_blk d < next_blk s" "logfile_blk d < next_blk s" "piowc d < next_blk s"
      using old [OF d] by (simp_all add: ctx_blocks_def)
    ultimately show ?thesis by (simp add: kb)
  qed
  moreover have "a < next_blk s'" if "kblocks s' a \<noteq> None" for a
    using qi that by (auto simp: kb queued_simps(8) [OF q] queue_inv_def owned_def less_SucI split: if_splits)
  ultimately show ?thesis
    unfolding queue_inv_def owned_def queued_simps(1) [OF q] by blast
qed

section \<open>One record\<close>

text \<open>The configuration stays, memory only grows.\<close>

definition grows :: "'w kstate \<Rightarrow> 'w kstate \<Rightarrow> bool" where
  "grows s s' \<longleftrightarrow>
     FileReplData s' = FileReplData s \<and> set_mem s' = set_mem s \<and> file_mem s' = file_mem s \<and>
     next_blk s \<le> next_blk s' \<and> (\<forall>a<next_blk s. kblocks s' a = kblocks s a) \<and>
     ((\<forall>a. kblocks s a \<noteq> None \<longrightarrow> a < next_blk s) \<longrightarrow> (\<forall>a. kblocks s' a \<noteq> None \<longrightarrow> a < next_blk s'))"

lemma grows_refl [simp]: "grows s s"
  by (simp add: grows_def)

lemma grows_trans: "grows a b \<Longrightarrow> grows b c \<Longrightarrow> grows a c"
  unfolding grows_def by auto

lemma same_kernel_grows: "same_kernel s s' \<Longrightarrow> grows s s'"
  by (simp add: grows_def same_kernel_simps)

lemma leaked_grows: "leaked_block s s' \<Longrightarrow> grows s s'"
  by (auto simp: grows_def leaked_block_def less_Suc_eq)

lemma grows_config_inv: "grows s s' \<Longrightarrow> config_inv s \<Longrightarrow> config_inv s'"
  unfolding grows_def config_inv_def by (metis order_less_le_trans)

lemma grows_owned: "grows s s' \<Longrightarrow> owned q s \<Longrightarrow> owned q s'"
  unfolding grows_def owned_def by (metis option.distinct(1))

lemma grows_queue: "grows s s' \<Longrightarrow> queue_of s' = queue_of s"
  by (simp add: grows_def)

lemma createiolog_run:
  assumes rb: "rbtree_laws K" and inv: "config_inv s" and alloc: "\<forall>a\<ge>next_blk s. k_alloc K a"
  shows "\<exists>r s'. createiolog K path l s = Some (r, s') \<and> grows s s' \<and> (r = 0 \<or> r = -1)"
proof -
  obtain o1 s1 where o1: "file_open K path (O_WRONLY + O_CREAT) 777 s = (o1, s1)" by fastforce
  have s1: "same_kernel s s1" using file_open_same [OF o1] .
  show ?thesis
  proof (cases o1)
    case (Inl err)
    obtain s2 where "notify_user_status K NOTIFY_TYPE_CLIENT_ERROR err s1 = Some (NET_OK, s2)" "leaked_block s1 s2"
      using notify_user_status_run [of K s1 NOTIFY_TYPE_CLIENT_ERROR err] alloc same_kernel_simps(4) [OF s1]
      by auto
    with o1 Inl s1 show ?thesis
      using grows_trans [OF same_kernel_grows leaked_grows] by (auto simp: createiolog_def)
  next
    case (Inr f)
    obtain n s2 where w: "file_write K f 0 (log_image l) (unat (ulLogSize (hdr l))) s1 = (n, s2)" by fastforce
    have s2: "same_kernel s s2" using file_write_same [OF w] s1 same_kernel_trans by blast
    have s3: "same_kernel s (file_close K f s2)" using s2 file_close_same same_kernel_trans by blast
    obtain s4 where s4: "SaveConfig K (file_close K f s2) = Some (0, s4)"
      using SaveConfig_total [OF rb] inv config_inv_same [OF s3] by blast
    have "same_kernel s s4" using SaveConfig_same [OF s4] s3 same_kernel_trans by blast
    with o1 Inr w s2 s4 show ?thesis
      by (auto simp: createiolog_def intro: same_kernel_grows)
  qed
qed

definition freed :: "addr set \<Rightarrow> 'w kstate \<Rightarrow> 'w kstate \<Rightarrow> bool" where
  "freed B s s' \<longleftrightarrow> s' = s\<lparr>kblocks := (kblocks s) |` (- B)\<rparr>"

lemma free_three:
  assumes "kblocks s a = Some Kmalloc" "kblocks s b = Some r" "kblocks s c = Some Kmalloc" "distinct [a, b, c]"
  shows "do { s \<leftarrow> free_block Kmalloc a s; s \<leftarrow> free_block r b s; free_block Kmalloc c s } =
    Some (s\<lparr>kblocks := (kblocks s) |` (- {a, b, c})\<rparr>)"
proof -
  have "(kblocks s)(a := None, b := None, c := None) = (kblocks s) |` (- {a, b, c})"
    by (auto simp: fun_eq_iff restrict_map_def)
  with assms show ?thesis by (simp add: free_block_def)
qed

lemma owned_pop:
  assumes own: "owned (c # q) s"
  shows "owned q (s\<lparr>kblocks := (kblocks s) |` (- set (ctx_blocks c))\<rparr>)"
proof -
  have "a \<notin> set (ctx_blocks c)" if "d \<in> set q" "a \<in> set (ctx_blocks d)" for d a
    using own that by (auto simp: owned_def)
  then have "((kblocks s) |` (- set (ctx_blocks c))) a = kblocks s a" if "d \<in> set q" "a \<in> set (ctx_blocks d)" for d a
    using that by (auto simp: restrict_map_def)
  then show ?thesis
    using own unfolding owned_def ctx_blocks_def
    by (auto simp: restrict_map_def split: if_splits)
qed

lemma iowrite_one_run:
  assumes rb: "rbtree_laws K" and inv: "config_inv s" and alloc: "\<forall>a\<ge>next_blk s. k_alloc K a"
    and own: "owned (c # q) s"
  shows "\<exists>s1 s'. iowrite_one K c s = Some s' \<and> grows s s1 \<and> freed (set (ctx_blocks c)) s1 s' \<and> owned q s'"
proof -
  obtain r s1 where s1: "createiolog K (iologpath c) (logfile c) s = Some (r, s1)" "grows s s1"
    using createiolog_run [OF rb inv alloc] by blast
  have "k_alloc K (next_blk s1)" using alloc s1(2) by (simp add: grows_def)
  from notify_user_status_run [OF this, of NOTIFY_TYPE_CLIENT_ERROR "-2"] obtain s3
    where s3: "notify_user_status K NOTIFY_TYPE_CLIENT_ERROR (-2) s1 = Some (NET_OK, s3)" "grows s1 s3"
    using leaked_grows by blast
  have "\<exists>s2. (if r \<noteq> 0 then do { (_, s) \<leftarrow> notify_user_status K NOTIFY_TYPE_CLIENT_ERROR (-2) s1; Some s }
      else Some s1) = Some s2 \<and> grows s1 s2"
    using s3 by simp
  then obtain s2 where s2: "(if r \<noteq> 0 then do { (_, s) \<leftarrow> notify_user_status K NOTIFY_TYPE_CLIENT_ERROR (-2) s1; Some s }
      else Some s1) = Some s2" and g2: "grows s s2" using grows_trans [OF s1(2)] by blast
  have own2: "owned (c # q) s2" using grows_owned [OF g2 own] .
  let ?s' = "s2\<lparr>kblocks := (kblocks s2) |` (- set (ctx_blocks c))\<rparr>"
  have "do { s \<leftarrow> free_block Kmalloc (iologpath_blk c) s2; s \<leftarrow> free_block (log_region (logfile c)) (logfile_blk c) s;
      free_block Kmalloc (piowc c) s } = Some ?s'"
    using own2 free_three [of s2 "iologpath_blk c" "logfile_blk c" "log_region (logfile c)" "piowc c"]
    by (simp add: owned_def ctx_blocks_def)
  then have "iowrite_one K c s = Some ?s'"
    by (simp add: iowrite_one_def s1(1) s2)
  moreover have "owned q ?s'" by (rule owned_pop [OF own2])
  ultimately show ?thesis using g2 by (auto simp: freed_def)
qed

section \<open>Draining the queue\<close>

text \<open>
  The inner loop ends, in the order of the queue, without a fault, and leaves the queue
  empty, every block of every context freed and the configuration as it was.
\<close>

lemma drain_empty: "queue_of s = [] \<Longrightarrow> drain K s = Some s"
  by (subst drain.simps) (simp add: iowrite.pop_empty)

lemma drain_run:
  assumes rb: "rbtree_laws K"
  shows "queue_of s = q \<Longrightarrow> config_inv s \<Longrightarrow> \<forall>a\<ge>next_blk s. k_alloc K a \<Longrightarrow> owned q s \<Longrightarrow>
    \<exists>s'. drain K s = Some s' \<and> queue_of s' = [] \<and> config_inv s' \<and> owned [] s' \<and>
      set_mem s' = set_mem s \<and> file_mem s' = file_mem s \<and>
      MonitorSet (cfg s') = MonitorSet (cfg s) \<and> MonitorFiles (cfg s') = MonitorFiles (cfg s) \<and>
      (\<forall>c\<in>set q. \<forall>a\<in>set (ctx_blocks c). kblocks s' a = None) \<and> next_blk s \<le> next_blk s' \<and>
      (\<forall>a<next_blk s. kblocks s a = None \<longrightarrow> kblocks s' a = None)"
proof (induction q arbitrary: s)
  case Nil
  then show ?case using drain_empty by fastforce
next
  case (Cons c q)
  let ?s0 = "upd_cfg (\<lambda>f. f\<lparr>iowritequeue := q\<rparr>) s"
  have pop: "pop_iowrite s = Some (c, ?s0)" using Cons.prems(1) by (simp add: pop_iowrite_def)
  have inv0: "config_inv ?s0" and own0: "owned (c # q) ?s0"
    using Cons.prems by (simp_all add: config_inv_def owned_def)
  obtain s1 s2 where s2: "iowrite_one K c ?s0 = Some s2" "grows ?s0 s1" "freed (set (ctx_blocks c)) s1 s2" "owned q s2"
    using iowrite_one_run [OF rb inv0 _ own0] Cons.prems(3) by auto
  have keep: "queue_of s2 = q" "config_inv s2" "\<forall>a\<ge>next_blk s2. k_alloc K a" "set_mem s2 = set_mem s"
    "file_mem s2 = file_mem s" "MonitorSet (cfg s2) = MonitorSet (cfg s)" "MonitorFiles (cfg s2) = MonitorFiles (cfg s)"
    "next_blk s \<le> next_blk s2"
    using grows_config_inv [OF s2(2) inv0] s2(2,3) Cons.prems(3)
    by (auto simp: grows_def freed_def config_inv_def)
  from Cons.IH [OF keep(1-3) s2(4)] obtain s' where s': "drain K s2 = Some s'" "queue_of s' = []" "config_inv s'"
    "owned [] s'" "set_mem s' = set_mem s2" "file_mem s' = file_mem s2" "MonitorSet (cfg s') = MonitorSet (cfg s2)"
    "MonitorFiles (cfg s') = MonitorFiles (cfg s2)" "\<forall>c\<in>set q. \<forall>a\<in>set (ctx_blocks c). kblocks s' a = None"
    "next_blk s2 \<le> next_blk s'" "\<forall>a<next_blk s2. kblocks s2 a = None \<longrightarrow> kblocks s' a = None" by blast
  have lt: "a < next_blk s" if "a \<in> set (ctx_blocks c)" for a
    using Cons.prems(4) that by (auto simp: owned_def ctx_blocks_def)
  have gone: "kblocks s2 a = None" if "a \<in> set (ctx_blocks c)" for a
    using s2(3) that by (simp add: freed_def)
  have old: "kblocks s2 a = None" if "a < next_blk s" "kblocks s a = None" for a
    using s2(2,3) that by (auto simp: freed_def grows_def restrict_map_def)
  have "drain K s = Some s'"
    by (subst drain.simps) (simp add: pop s2(1) s'(1))
  moreover have "kblocks s' a = None" if "a < next_blk s" "kblocks s a = None" for a
    using s'(11) old [OF that] that(1) keep(8) by auto
  moreover have "kblocks s' a = None" if "a \<in> set (ctx_blocks c)" for a
    using s'(11) gone [OF that] lt [OF that] keep(8) by auto
  ultimately show ?case using s' keep by auto
qed

end
