(* ===== verification/GetPath.thy ===== *)
theory GetPath
  imports IoWriteThread
begin

text \<open>
  \<open>getpath.c\<close>: the absolute path of what a hook was called on, from a directory entry,
  an open file or a lookup. The buffer the path is appended to has \<open>PATH_MAX\<close> bytes and
  is kept as the string in it.
\<close>

definition PATH_MAX :: nat where "PATH_MAX = 4096"

text \<open>
  A directory entry knows its name and its parent; the root is its own parent. \<open>d_name.len\<close>
  is the length of the name.
\<close>

datatype dentry = Root "byte list" | Child dentry "byte list"

fun d_name :: "dentry \<Rightarrow> byte list" where
  "d_name (Root n) = n"
| "d_name (Child p n) = n"

fun d_parent :: "dentry \<Rightarrow> dentry" where
  "d_parent (Root n) = Root n"
| "d_parent (Child p n) = p"

text \<open>Appending at most \<open>n\<close> bytes to the buffer; running past its end faults.\<close>

definition buf_cat :: "byte list \<Rightarrow> byte list \<Rightarrow> nat \<Rightarrow> byte list option" where
  "buf_cat abspath src n =
     (let r = abspath @ take n (cstr src) in if length r < PATH_MAX then Some r else None)"

abbreviation slash :: "byte list" where
  "slash \<equiv> [0x2F]"

section \<open>From a directory entry\<close>

text \<open>The loop that counts how deep \<open>pdentry\<close> is.\<close>

fun depth_of :: "dentry \<Rightarrow> nat" where
  "depth_of (Root n) = 0"
| "depth_of (Child p n) = Suc (depth_of p)"

text \<open>The outer loop: for each \<open>depth\<close> down to 1, climb from the entry and append the name found there.\<close>

fun cat_ancestors :: "dentry \<Rightarrow> nat \<Rightarrow> byte list \<Rightarrow> byte list option" where
  "cat_ancestors d 0 abspath = Some abspath"
| "cat_ancestors d (Suc depth) abspath =
     do { let pdentry = (d_parent ^^ Suc depth) d;
          abspath \<leftarrow> buf_cat abspath slash 2;
          abspath \<leftarrow> buf_cat abspath (d_name pdentry) (length (d_name pdentry));
          cat_ancestors d depth abspath }"

definition getabsparentpathfromdentry :: "dentry option \<Rightarrow> byte list \<Rightarrow> (int \<times> byte list) option" where
  "getabsparentpathfromdentry dentry abspath =
     (case dentry of
        None \<Rightarrow> Some (0, abspath)
      | Some d \<Rightarrow>
          let depth = depth_of (d_parent d);
              top = (d_parent ^^ depth) (d_parent d)
          in do { abspath \<leftarrow> (if depth < 1 then buf_cat abspath (d_name top) (length (d_name top))
                              else cat_ancestors d depth abspath);
                  Some (0, abspath) })"

definition getabsfullpathfromdentry :: "dentry option \<Rightarrow> byte list \<Rightarrow> (int \<times> byte list) option" where
  "getabsfullpathfromdentry dentry abspath =
     (case dentry of
        None \<Rightarrow> Some (0, abspath)
      | Some d \<Rightarrow>
          do { abspath \<leftarrow> (if strncmp (d_name (d_parent d)) slash 1 \<noteq> 0
                           then map_option snd (getabsparentpathfromdentry (Some d) abspath)
                           else Some abspath);
               abspath \<leftarrow> buf_cat abspath slash 1;
               abspath \<leftarrow> buf_cat abspath (d_name d) (length (d_name d));
               Some (0, abspath) })"

text \<open>\<open>fd\<close> is the table of open files of the current task.\<close>

definition getfilepath :: "(nat \<Rightarrow> dentry option) \<Rightarrow> nat \<Rightarrow> byte list \<Rightarrow> (int \<times> byte list) option" where
  "getfilepath fdt fd abspath =
     do { d \<leftarrow> fdt fd; getabsfullpathfromdentry (Some d) abspath }"

section \<open>From a path name\<close>

text \<open>
  \<open>path_lookup\<close> is the kernel's; its failure is not looked at, so the entry of a failed
  lookup (\<open>None\<close>) is read all the same.
\<close>

definition getabsparentpath ::
  "(byte list \<Rightarrow> int \<times> dentry option) \<Rightarrow> byte list \<Rightarrow> byte list \<Rightarrow> (int \<times> byte list) option" where
  "getabsparentpath path_lookup pathname abspath =
     (let (ret, nd) = path_lookup pathname
      in do { d \<leftarrow> nd;
              let depth = depth_of (d_parent d);
              let top = (d_parent ^^ depth) (d_parent d);
              abspath \<leftarrow> (if depth < 1 then buf_cat abspath (d_name top) (length (d_name top))
                          else cat_ancestors d depth abspath);
              Some (ret, abspath) })"

definition getabsfullpath ::
  "(byte list \<Rightarrow> int \<times> dentry option) \<Rightarrow> byte list \<Rightarrow> byte list \<Rightarrow> (int \<times> byte list) option" where
  "getabsfullpath path_lookup pathname abspath =
     (if strncmp pathname slash 1 = 0
      then if strlen pathname < PATH_MAX
           then Some (0, cstr pathname @ drop (strlen pathname) abspath) else None
      else do { (_, abspath) \<leftarrow> getabsparentpath path_lookup pathname abspath;
                abspath \<leftarrow> buf_cat abspath slash 2;
                abspath \<leftarrow> buf_cat abspath pathname (strlen pathname);
                Some (0, abspath) })"

section \<open>From an open file or a lookup in progress\<close>

text \<open>What \<open>d_path\<close> answers for the file is part of it: an \<open>ERR_PTR\<close>, never checked, or the path.\<close>

record struct_file =
  f_flags :: nat
  f_dpath :: "int + byte list"

definition getabsfullpathfromstructfile ::
  "'w kernel \<Rightarrow> struct_file option \<Rightarrow> byte list \<Rightarrow> 'w kstate \<Rightarrow> ((int \<times> byte list) \<times> 'w kstate) option" where
  "getabsfullpathfromstructfile K file abspath s =
     (case file of
        None \<Rightarrow> Some ((0, abspath), s)
      | Some f \<Rightarrow>
          (case alloc_block K Page s of
             (None, s) \<Rightarrow> Some ((- ENOMEM, abspath), s)
           | (Some tmp, s) \<Rightarrow>
               (case f_dpath f of
                  Inl err \<Rightarrow> None
                | Inr pathname \<Rightarrow>
                    do { abspath \<leftarrow> buf_cat abspath pathname (strlen pathname);
                         s \<leftarrow> free_block Page tmp s;
                         Some ((0, abspath), s) })))"

text \<open>\<open>nd\<close> is what \<open>d_path\<close> says about the directory a create is looked up in.\<close>

definition getabsfullpathfromnd ::
  "'w kernel \<Rightarrow> (int + byte list) option \<Rightarrow> dentry option \<Rightarrow> byte list \<Rightarrow> 'w kstate \<Rightarrow>
   ((int \<times> byte list) \<times> 'w kstate) option" where
  "getabsfullpathfromnd K nd dentry abspath s =
     (case (nd, dentry) of
        (Some dp, Some d) \<Rightarrow>
          (case alloc_block K Page s of
             (None, s) \<Rightarrow> Some ((- ENOMEM, abspath), s)
           | (Some tmp, s) \<Rightarrow>
               (case dp of
                  Inl err \<Rightarrow> None
                | Inr pathname \<Rightarrow>
                    do { abspath \<leftarrow> buf_cat abspath pathname (strlen pathname);
                         s \<leftarrow> free_block Page tmp s;
                         abspath \<leftarrow> buf_cat abspath slash 1;
                         abspath \<leftarrow> buf_cat abspath (d_name d) (length (d_name d));
                         Some ((0, abspath), s) }))
      | _ \<Rightarrow> Some ((0, abspath), s))"

section \<open>The path a directory entry stands for\<close>

fun components :: "dentry \<Rightarrow> byte list list" where
  "components (Root n) = []"
| "components (Child p n) = components p @ [n]"

definition join :: "byte list list \<Rightarrow> byte list" where
  "join cs = concat (map (\<lambda>n. slash @ n) cs)"

text \<open>The root is called \<open>/\<close>; every other name is not empty and holds neither a slash nor a NUL.\<close>

fun wf_dentry :: "dentry \<Rightarrow> bool" where
  "wf_dentry (Root n) \<longleftrightarrow> n = slash"
| "wf_dentry (Child p n) \<longleftrightarrow> wf_dentry p \<and> n \<noteq> [] \<and> 0 \<notin> set n \<and> 0x2F \<notin> set n"

lemma join_simps [simp]: "join [] = []" "join (c # cs) = slash @ c @ join cs" "join (xs @ ys) = join xs @ join ys"
  by (simp_all add: join_def)

lemma length_components: "length (components d) = depth_of d"
  by (induction d) auto

lemma d_parent_components:
  "k < depth_of d \<Longrightarrow> d_name ((d_parent ^^ k) d) = components d ! (depth_of d - 1 - k)"
proof (induction d arbitrary: k)
  case (Root n)
  then show ?case by simp
next
  case (Child p n)
  then show ?case
    by (cases k) (simp_all add: funpow_Suc_right nth_append length_components del: funpow.simps)
qed

lemma wf_component: "wf_dentry d \<Longrightarrow> n \<in> set (components d) \<Longrightarrow> n \<noteq> [] \<and> 0 \<notin> set n \<and> 0x2F \<notin> set n"
  by (induction d) auto

lemma buf_cat_whole:
  "0 \<notin> set n \<Longrightarrow> length b + length n < PATH_MAX \<Longrightarrow> length n \<le> k \<Longrightarrow> buf_cat b n k = Some (b @ n)"
  by (simp add: buf_cat_def cstr_id)


lemma cat_ancestors_run:
  assumes wf: "wf_dentry d"
  shows "k < depth_of d \<Longrightarrow> length b + length (join (drop (depth_of d - 1 - k) (butlast (components d)))) < PATH_MAX \<Longrightarrow>
    cat_ancestors d k b = Some (b @ join (drop (depth_of d - 1 - k) (butlast (components d))))"
proof (induction k arbitrary: b)
  case 0
  then show ?case by (simp add: length_components)
next
  case (Suc k)
  let ?cs = "components d" and ?i = "depth_of d - 1 - Suc k"
  let ?n = "?cs ! ?i"
  have i: "?i < length (butlast ?cs)" "Suc ?i = depth_of d - 1 - k" using Suc.prems by (simp_all add: length_components)
  have split: "drop ?i (butlast ?cs) = ?n # drop (Suc ?i) (butlast ?cs)"
    using i(1) by (simp add: Cons_nth_drop_Suc [symmetric] nth_butlast)
  have n: "0 \<notin> set ?n" "d_name ((d_parent ^^ Suc k) d) = ?n"
    using wf_component [OF wf, of ?n] Suc.prems d_parent_components [of "Suc k" d] i
    by (auto simp: length_components)
  have room: "length b + 1 + length ?n + length (join (drop (Suc ?i) (butlast ?cs))) < PATH_MAX"
    using Suc.prems(2) unfolding split by simp
  have "cat_ancestors d k (b @ slash @ ?n) = Some ((b @ slash @ ?n) @ join (drop (Suc ?i) (butlast ?cs)))"
    using Suc.IH [of "b @ slash @ ?n"] Suc.prems room i(2) by simp
  then show ?case
    unfolding split using room n by (simp add: buf_cat_whole Let_def del: funpow.simps)
qed

lemma root_name: "wf_dentry d \<Longrightarrow> d_name ((d_parent ^^ depth_of d) d) = slash"
  by (induction d) (simp_all add: funpow_Suc_right del: funpow.simps)

lemma parent_is_root: "wf_dentry (Child p n) \<Longrightarrow> strncmp (d_name p) slash 1 = 0 \<longleftrightarrow> depth_of p = 0"
proof (cases p)
  case (Root r)
  assume "wf_dentry (Child p n)"
  with Root show ?thesis by simp
next
  case (Child q m)
  assume "wf_dentry (Child p n)"
  with Child have "m \<noteq> []" "0x2F \<notin> set m" by auto
  with Child uint_diff_zero [of "hd m" "0x2F"] show ?thesis
    by (cases m) (auto simp del: right_minus_eq)
qed

text \<open>For every entry below the root the functions give the names from the root down.\<close>

lemma fullpath_run:
  assumes wf: "wf_dentry (Child p n)" and room: "length (join (components (Child p n))) < PATH_MAX"
  shows "getabsfullpathfromdentry (Some (Child p n)) [] = Some (0, join (components (Child p n)))"
proof (cases "depth_of p")
  case 0
  then have "components p = []" by (cases p) auto
  with 0 wf room parent_is_root [OF wf] show ?thesis
    by (simp add: getabsfullpathfromdentry_def buf_cat_whole)
next
  case (Suc k)
  have "cat_ancestors (Child p n) (depth_of p) [] = Some (join (components p))"
    using cat_ancestors_run [OF wf, of "depth_of p" "[]"] room by simp
  with Suc wf room parent_is_root [OF wf] show ?thesis
    by (simp add: getabsfullpathfromdentry_def getabsparentpathfromdentry_def Let_def buf_cat_whole
        del: cat_ancestors.simps)
qed

end
