(* ===== verification/Hooks.thy ===== *)
theory Hooks
  imports GetPath
begin

text \<open>
  \<open>hookvfs.c\<close>: the functions that replace the file system operations of the kernel. Each
  calls the original, \<open>run\<close>, which acts on the outside world, and queues a record when
  the path is monitored. The \<open>goto out\<close> and the early returns are the branches.
\<close>

type_synonym 'w orig = "'w \<Rightarrow> int \<times> 'w"

definition call_run :: "'w orig \<Rightarrow> 'w kstate \<Rightarrow> int \<times> 'w kstate" where
  "call_run run s = (let (ret, w) = run (world s) in (ret, s\<lparr>world := w\<rparr>))"

definition driver_off :: "'w kstate \<Rightarrow> bool" where
  "driver_off s \<longleftrightarrow> \<not> bNormalRunning (cfg s) \<or> \<not> bValid (cfg s)"

text \<open>
  The local variables a hook fills when the path is monitored (\<open>ineedtolog\<close>). They are
  zero when no number could be taken: the status of the call is ignored.
\<close>

record log_args =
  la_seq :: u64
  la_gseq :: u64
  la_time :: u64
  la_dir :: "byte list"

definition take_args ::
  "'w kernel \<Rightarrow> addr option \<Rightarrow> 'w kstate \<Rightarrow> (log_args option \<times> 'w kstate) option" where
  "take_args K pmfe s =
     (case pmfe of
        None \<Rightarrow> Some (None, s)
      | Some a \<Rightarrow>
          do { ((_, sno, gno, t, dir), s) \<leftarrow> GetMonitorFileSeqNoByMonitorFileEntry K (Some a) s;
               Some (Some \<lparr>la_seq = sno, la_gseq = gno, la_time = t, la_dir = dir\<rparr>, s) })"

text \<open>After the original has run: a record of the operation, or of its failure.\<close>

definition log_result ::
  "(log_args \<Rightarrow> 'w kstate \<Rightarrow> (int \<times> 'w kstate) option) \<Rightarrow> (log_args \<Rightarrow> 'w kstate \<Rightarrow> (int \<times> 'w kstate) option) \<Rightarrow>
   bool \<Rightarrow> log_args option \<Rightarrow> 'w kstate \<Rightarrow> (int option \<times> 'w kstate) option" where
  "log_result success failure ok args s =
     (case args of
        None \<Rightarrow> Some (None, s)
      | Some la \<Rightarrow> do { (iret, s) \<leftarrow> (if ok then success la s else failure la s); Some (Some iret, s) })"

definition log_error ::
  "'w kernel \<Rightarrow> byte list \<Rightarrow> log_args \<Rightarrow> 'w kstate \<Rightarrow> (int \<times> 'w kstate) option" where
  "log_error K abspath la s =
     createiologforerror K (la_seq la) (la_gseq la) (la_time la) (la_dir la) abspath s"

definition rtb_vfs_rename ::
  "'w kernel \<Rightarrow> 'w orig \<Rightarrow> dentry option \<Rightarrow> dentry option \<Rightarrow> 'w kstate \<Rightarrow> (int \<times> 'w kstate) option" where
  "rtb_vfs_rename K run old_dentry new_dentry s =
     (if driver_off s then Some (call_run run s)
      else
        let (iologdir, s) = alloc_block K Kmalloc s;
            (oldabspath, s) = alloc_block K Kmalloc s;
            (newabspath, s) = alloc_block K Kmalloc s
        in do { (args, old, new, s) \<leftarrow>
                  (if oldabspath = None \<or> newabspath = None \<or> iologdir = None
                   then Some (None, [], [], s)
                   else do {
                     (_, new) \<leftarrow> getabsfullpathfromdentry new_dentry [];
                     (_, old) \<leftarrow> getabsfullpathfromdentry old_dentry [];
                     pmfe \<leftarrow> GetMonitorFileEntryByabspath new s;
                     pmfe \<leftarrow> (if pmfe \<noteq> None then Some pmfe else GetMonitorFileEntryByabspath old s);
                     (args, s) \<leftarrow> take_args K pmfe s;
                     Some (args, old, new, s) });
                let (ret, s) = call_run run s;
                (_, s) \<leftarrow> log_result
                  (\<lambda>la. createiologforrename K (la_seq la) (la_gseq la) (la_time la) (la_dir la) old new)
                  (log_error K new) (ret = 0) args s;
                s \<leftarrow> free_opt Kmalloc oldabspath s;
                s \<leftarrow> free_opt Kmalloc newabspath s;
                s \<leftarrow> free_opt Kmalloc iologdir s;
                Some (ret, s) })"

text \<open>Without memory for a buffer, \<open>unlink\<close> returns and keeps the buffer it did get.\<close>

definition rtb_vfs_unlink ::
  "'w kernel \<Rightarrow> 'w orig \<Rightarrow> dentry option \<Rightarrow> 'w kstate \<Rightarrow> (int \<times> 'w kstate) option" where
  "rtb_vfs_unlink K run dentry s =
     (if driver_off s then Some (call_run run s)
      else
        let (iologdir, s) = alloc_block K Kmalloc s;
            (abspath, s) = alloc_block K Kmalloc s
        in if abspath = None \<or> iologdir = None then Some (call_run run s)
           else do {
             (_, p) \<leftarrow> getabsfullpathfromdentry dentry [];
             pmfe \<leftarrow> GetMonitorFileEntryByabspath p s;
             (args, s) \<leftarrow> take_args K pmfe s;
             let (ret, s) = call_run run s;
             (_, s) \<leftarrow> log_result
               (\<lambda>la. createiologforrmfile K (la_seq la) (la_gseq la) (la_time la) (la_dir la) p)
               (log_error K p) (ret = 0) args s;
             s \<leftarrow> free_opt Kmalloc abspath s;
             s \<leftarrow> free_opt Kmalloc iologdir s;
             Some (ret, s) })"

text \<open>\<open>rmdir\<close> only checks one of its buffers; it also reads the names of the entry for a message.\<close>

definition rtb_vfs_rmdir ::
  "'w kernel \<Rightarrow> 'w orig \<Rightarrow> dentry option \<Rightarrow> 'w kstate \<Rightarrow> (int \<times> 'w kstate) option" where
  "rtb_vfs_rmdir K run dentry s =
     (if driver_off s then Some (call_run run s)
      else
        let (iologdir, s) = alloc_block K Kmalloc s;
            (abspath, s) = alloc_block K Kmalloc s
        in if abspath = None then Some (call_run run s)
           else if iologdir = None \<or> dentry = None then None
           else do {
             (_, p) \<leftarrow> getabsfullpathfromdentry dentry [];
             pmfe \<leftarrow> GetMonitorFileEntryByabspath p s;
             (args, s) \<leftarrow> take_args K pmfe s;
             let (ret, s) = call_run run s;
             (_, s) \<leftarrow> log_result
               (\<lambda>la. createiologforrmdir K (la_seq la) (la_gseq la) (la_time la) (la_dir la) p)
               (log_error K p) (ret = 0) args s;
             s \<leftarrow> free_opt Kmalloc abspath s;
             s \<leftarrow> free_opt Kmalloc iologdir s;
             Some (ret, s) })"

text \<open>\<open>has_inode\<close>: the entry already names a file, which is an open and not a creation.\<close>

definition rtb_vfs_create ::
  "'w kernel \<Rightarrow> 'w orig \<Rightarrow> dentry \<Rightarrow> bool \<Rightarrow> int \<Rightarrow> (int + byte list) option \<Rightarrow> 'w kstate \<Rightarrow>
   (int \<times> 'w kstate) option" where
  "rtb_vfs_create K run dentry has_inode mode nd s =
     (if driver_off s then Some (call_run run s)
      else if has_inode then Some (call_run run s)
      else
        let (iologdir, s) = alloc_block K Kmalloc s;
            (abspath, s) = alloc_block K Kmalloc s
        in do { (args, p, s) \<leftarrow>
                  (if abspath = None \<or> iologdir = None then Some (None, [], s)
                   else do {
                     ((_, p), s) \<leftarrow> getabsfullpathfromnd K nd (Some dentry) [] s;
                     pmfe \<leftarrow> GetMonitorFileEntryByabspath p s;
                     (args, s) \<leftarrow> take_args K pmfe s;
                     Some (args, p, s) });
                let (ret, s) = call_run run s;
                (_, s) \<leftarrow> log_result
                  (\<lambda>la. createiologforcreatefile K (la_seq la) (la_gseq la) (la_time la) (la_dir la) p mode)
                  (log_error K p) (ret = 0) args s;
                s \<leftarrow> free_opt Kmalloc abspath s;
                s \<leftarrow> free_opt Kmalloc iologdir s;
                Some (ret, s) })"

definition rtb_vfs_symlink ::
  "'w kernel \<Rightarrow> 'w orig \<Rightarrow> (byte list \<Rightarrow> int \<times> dentry option) \<Rightarrow> dentry option \<Rightarrow> byte list \<Rightarrow> 'w kstate \<Rightarrow>
   (int \<times> 'w kstate) option" where
  "rtb_vfs_symlink K run path_lookup dentry oldname s =
     (if driver_off s then Some (call_run run s)
      else
        let (iologdir, s) = alloc_block K Kmalloc s;
            (oldabspath, s) = alloc_block K Kmalloc s;
            (newabspath, s) = alloc_block K Kmalloc s
        in do { (args, old, new, s) \<leftarrow>
                  (if oldabspath = None \<or> newabspath = None \<or> iologdir = None
                   then Some (None, [], [], s)
                   else do {
                     (_, old) \<leftarrow> getabsfullpath path_lookup oldname [];
                     (_, new) \<leftarrow> getabsfullpathfromdentry dentry [];
                     pmfe \<leftarrow> GetMonitorFileEntryByabspath new s;
                     (args, s) \<leftarrow> take_args K pmfe s;
                     Some (args, old, new, s) });
                let (ret, s) = call_run run s;
                (_, s) \<leftarrow> log_result
                  (\<lambda>la. createiologforcreatesymlink K (la_seq la) (la_gseq la) (la_time la) (la_dir la) new old)
                  (log_error K new) (ret = 0) args s;
                s \<leftarrow> free_opt Kmalloc oldabspath s;
                s \<leftarrow> free_opt Kmalloc newabspath s;
                s \<leftarrow> free_opt Kmalloc iologdir s;
                Some (ret, s) })"

definition rtb_vfs_link ::
  "'w kernel \<Rightarrow> 'w orig \<Rightarrow> dentry option \<Rightarrow> dentry option \<Rightarrow> 'w kstate \<Rightarrow> (int \<times> 'w kstate) option" where
  "rtb_vfs_link K run old_dentry new_dentry s =
     (if driver_off s then Some (call_run run s)
      else
        let (oldabspath, s) = alloc_block K Kmalloc s;
            (newabspath, s) = alloc_block K Kmalloc s;
            (iologdir, s) = alloc_block K Kmalloc s
        in do { (args, old, new, s) \<leftarrow>
                  (if oldabspath = None \<or> newabspath = None \<or> iologdir = None
                   then Some (None, [], [], s)
                   else do {
                     (_, old) \<leftarrow> getabsfullpathfromdentry old_dentry [];
                     (_, new) \<leftarrow> getabsfullpathfromdentry new_dentry [];
                     pmfe \<leftarrow> GetMonitorFileEntryByabspath new s;
                     (args, s) \<leftarrow> take_args K pmfe s;
                     Some (args, old, new, s) });
                let (ret, s) = call_run run s;
                (_, s) \<leftarrow> log_result
                  (\<lambda>la. createiologforcreatelink K (la_seq la) (la_gseq la) (la_time la) (la_dir la) new old)
                  (log_error K new) (ret = 0) args s;
                s \<leftarrow> free_opt Kmalloc oldabspath s;
                s \<leftarrow> free_opt Kmalloc newabspath s;
                s \<leftarrow> free_opt Kmalloc iologdir s;
                Some (ret, s) })"

definition rtb_vfs_mkdir ::
  "'w kernel \<Rightarrow> 'w orig \<Rightarrow> dentry option \<Rightarrow> int \<Rightarrow> 'w kstate \<Rightarrow> (int \<times> 'w kstate) option" where
  "rtb_vfs_mkdir K run dentry mode s =
     (if driver_off s then Some (call_run run s)
      else
        let (iologdir, s) = alloc_block K Kmalloc s;
            (abspath, s) = alloc_block K Kmalloc s
        in do { (ret, s) \<leftarrow>
                  (if abspath = None \<or> iologdir = None then Some (call_run run s)
                   else if dentry = None then None
                   else do {
                     (_, p) \<leftarrow> getabsfullpathfromdentry dentry [];
                     pmfe \<leftarrow> GetMonitorFileEntryByabspath p s;
                     (args, s) \<leftarrow> take_args K pmfe s;
                     let (ret, s) = call_run run s;
                     (_, s) \<leftarrow> log_result
                       (\<lambda>la. createiologformkdir K (la_seq la) (la_gseq la) (la_time la) (la_dir la) p mode)
                       (log_error K p) (ret = 0) args s;
                     Some (ret, s) });
                s \<leftarrow> free_opt Kmalloc abspath s;
                s \<leftarrow> free_opt Kmalloc iologdir s;
                Some (ret, s) })"

text \<open>
  \<open>vfs_write\<close> is hooked for every write in the system, the module's own included: those
  go through files opened write-only, whose flags are exactly 1. When the record cannot be
  queued, or the path cannot be had, the driver is switched off.
\<close>

definition rtb_vfs_write ::
  "'w kernel \<Rightarrow> 'w orig \<Rightarrow> struct_file \<Rightarrow> byte list \<Rightarrow> nat \<Rightarrow> u64 \<Rightarrow> 'w kstate \<Rightarrow> (int \<times> 'w kstate) option" where
  "rtb_vfs_write K run file buf count pos s =
     (if driver_off s then Some (call_run run s)
      else if f_flags file = 1 then Some (call_run run s)
      else
        let (abspath, s) = alloc_block K Kmalloc s;
            (iologdir, s) = alloc_block K Kmalloc s
        in if abspath = None \<or> iologdir = None then Some (call_run run s)
           else do {
             ((iret, p), s) \<leftarrow> getabsfullpathfromstructfile K (Some file) [] s;
             pmfe \<leftarrow> GetMonitorFileEntryByabspath p s;
             (args, s) \<leftarrow> take_args K pmfe s;
             let (ret, s) = call_run run s;
             (logged, s) \<leftarrow> log_result
               (\<lambda>la. createiologforwrite K (la_seq la) (la_gseq la) (la_time la) (la_dir la) p buf count pos)
               (log_error K p) (0 < ret) args s;
             let iret = (case logged of None \<Rightarrow> iret | Some r \<Rightarrow> r);
             s \<leftarrow> (if iret \<noteq> 0
                  then do {
                    let s = upd_cfg (\<lambda>c. c\<lparr>bNormalRunning := False\<rparr>) s;
                    (_, s) \<leftarrow> notify_user_status K NOTIFY_TYPE_CLIENT_ERROR (-3) s;
                    Some s }
                  else Some s);
             s \<leftarrow> free_opt Kmalloc abspath s;
             s \<leftarrow> free_opt Kmalloc iologdir s;
             Some (ret, s) })"

section \<open>Hooks that are not installed\<close>

definition rtb_sys_mkdir :: "'w orig \<Rightarrow> 'w kstate \<Rightarrow> int \<times> 'w kstate" where
  "rtb_sys_mkdir run s = call_run run s"

definition rtb_do_truncate :: "'w kernel \<Rightarrow> 'w orig \<Rightarrow> 'w kstate \<Rightarrow> (int \<times> 'w kstate) option" where
  "rtb_do_truncate K run s =
     (case alloc_block K Kmalloc s of
        (None, s) \<Rightarrow> Some (call_run run s)
      | (Some abspath, s) \<Rightarrow> do { s \<leftarrow> free_block Kmalloc abspath s; Some (call_run run s) })"

definition rtb_sys_write ::
  "'w kernel \<Rightarrow> 'w orig \<Rightarrow> (nat \<Rightarrow> dentry option) \<Rightarrow> nat \<Rightarrow> 'w kstate \<Rightarrow> (int \<times> 'w kstate) option" where
  "rtb_sys_write K run fdt fd s =
     (if driver_off s then Some (call_run run s)
      else case alloc_block K Kmalloc s of
             (None, s) \<Rightarrow> Some (call_run run s)
           | (Some abspath, s) \<Rightarrow>
               do { (_, p) \<leftarrow> getfilepath fdt fd [];
                    _ \<leftarrow> checkneedtolog p s;
                    let (ret, s) = call_run run s;
                    s \<leftarrow> free_block Kmalloc abspath s;
                    Some (ret, s) })"

end
