(* ===== verification/HookProps.thy ===== *)
theory HookProps
  imports Hooks
begin

text \<open>
  What the hooks guarantee: the caller sees the original operation and nothing else, and a
  monitored operation leaves exactly one record in the queue.
\<close>

section \<open>The table of hooks\<close>

datatype 'w vfs_op =
    Vfs_write struct_file "byte list" nat u64
  | Vfs_mkdir "dentry option" int
  | Vfs_rmdir "dentry option"
  | Vfs_rename "dentry option" "dentry option"
  | Vfs_unlink "dentry option"
  | Vfs_symlink "byte list \<Rightarrow> int \<times> dentry option" "dentry option" "byte list"
  | Vfs_link "dentry option" "dentry option"
  | Vfs_create dentry bool int "(int + byte list) option"

text \<open>\<open>security2hook\<close>: which replacement stands in for which operation.\<close>

fun hooked :: "'w kernel \<Rightarrow> 'w orig \<Rightarrow> 'w vfs_op \<Rightarrow> 'w kstate \<Rightarrow> (int \<times> 'w kstate) option" where
  "hooked K run (Vfs_write file buf count pos) s = rtb_vfs_write K run file buf count pos s"
| "hooked K run (Vfs_mkdir d mode) s = rtb_vfs_mkdir K run d mode s"
| "hooked K run (Vfs_rmdir d) s = rtb_vfs_rmdir K run d s"
| "hooked K run (Vfs_rename old new) s = rtb_vfs_rename K run old new s"
| "hooked K run (Vfs_unlink d) s = rtb_vfs_unlink K run d s"
| "hooked K run (Vfs_symlink path_lookup d oldname) s = rtb_vfs_symlink K run path_lookup d oldname s"
| "hooked K run (Vfs_link old new) s = rtb_vfs_link K run old new s"
| "hooked K run (Vfs_create d has_inode mode nd) s = rtb_vfs_create K run d has_inode mode nd s"

section \<open>The caller sees the original operation\<close>

lemma alloc_block_world: "alloc_block K r s = (p, s') \<Longrightarrow> world s' = world s"
  by (auto simp: alloc_block_def split: if_splits)

lemma free_opt_world: "free_opt r p s = Some s' \<Longrightarrow> world s' = world s"
  by (auto simp: free_opt_def free_block_def split: option.splits if_splits)

lemma free_block_world: "free_block r p s = Some s' \<Longrightarrow> world s' = world s"
  by (auto simp: free_block_def split: if_splits)

lemma GetSeqNo_world:
  assumes "GetMonitorFileSeqNoByMonitorFileEntry K (Some a) s = Some ((r, out), s')"
  shows "world s' = world s"
proof (cases "r = 0")
  case True
  with GetSeqNo_ok assms show ?thesis by (cases out) (fastforce simp: seq_taken_def)
next
  case False
  with GetSeqNo_fail assms show ?thesis by blast
qed

lemma take_args_world: "take_args K e s = Some (x, s') \<Longrightarrow> world s' = world s"
  by (auto simp: take_args_def bind_eq_Some_conv split: option.splits dest: GetSeqNo_world)

lemma queue_log_world: "queue_log K b l d g s = Some (r, s') \<Longrightarrow> world s' = world s"
  by (auto simp: queue_log_def push_iowrite_def completecompletion_def Let_def split: prod.splits option.splits
      dest!: alloc_block_world)

lemma log_plain_world: "log_plain K ty i sno gno t d p s = Some (r, s') \<Longrightarrow> world s' = world s"
  by (auto simp: log_plain_def bind_eq_Some_conv split: prod.splits option.splits
      dest!: alloc_block_world queue_log_world)

lemma log_two_world: "log_two K ty sno gno t d p q s = Some (r, s') \<Longrightarrow> world s' = world s"
  by (auto simp: log_two_def bind_eq_Some_conv Let_def split: prod.splits option.splits
      dest!: alloc_block_world queue_log_world)

lemma createiologforwrite_world:
  "createiologforwrite K sno gno t d p b n pos s = Some (r, s') \<Longrightarrow> world s' = world s"
  by (auto simp: createiologforwrite_def bind_eq_Some_conv Let_def split: prod.splits option.splits if_splits
      dest!: alloc_block_world queue_log_world)

lemmas createiolog_plain_defs = createiologformkdir_def createiologforcreatefile_def createiologforrmdir_def
  createiologforrmfile_def createiologforerror_def createiologforrename_def createiologforcreatesymlink_def
  createiologforcreatelink_def

lemma log_result_world:
  assumes "log_result f g ok args s = Some (x, s')"
    and "\<And>la r s s'. f la s = Some (r, s') \<Longrightarrow> world s' = world s"
    and "\<And>la r s s'. g la s = Some (r, s') \<Longrightarrow> world s' = world s"
  shows "world s' = world s"
  using assms by (auto simp: log_result_def bind_eq_Some_conv split: option.splits if_splits)

lemma getfile_world:
  "getabsfullpathfromstructfile K f b s = Some (x, s') \<Longrightarrow> world s' = world s"
  "getabsfullpathfromnd K nd d b s = Some (x, s') \<Longrightarrow> world s' = world s"
  by (auto simp: getabsfullpathfromstructfile_def getabsfullpathfromnd_def bind_eq_Some_conv
      split: prod.splits option.splits sum.splits dest!: alloc_block_world free_block_world)

lemma log_error_world: "log_error K p la s = Some (r, s') \<Longrightarrow> world s' = world s"
  by (auto simp: log_error_def createiologforerror_def dest!: log_plain_world)

lemma call_run_eq: "call_run run s = (fst (run (world s)), s\<lparr>world := snd (run (world s))\<rparr>)"
  by (simp add: call_run_def split_beta)

lemma notify_user_status_world: "notify_user_status K ty st s = Some (r, s') \<Longrightarrow> world s' = world s"
  by (auto dest: notify_user_status_inv simp: leaked_block_def)

lemma log_result_plain_world:
  "log_result (\<lambda>la. log_plain K ty i (la_seq la) (la_gseq la) (la_time la) (la_dir la) p) (log_error K q) ok args s
     = Some (x, s') \<Longrightarrow> world s' = world s"
  by (erule log_result_world) (rule log_plain_world log_error_world, assumption)+

lemma log_result_two_world:
  "log_result (\<lambda>la. log_two K ty (la_seq la) (la_gseq la) (la_time la) (la_dir la) p p') (log_error K q) ok args s
     = Some (x, s') \<Longrightarrow> world s' = world s"
  by (erule log_result_world) (rule log_two_world log_error_world, assumption)+

lemma log_result_write_world:
  "log_result (\<lambda>la. createiologforwrite K (la_seq la) (la_gseq la) (la_time la) (la_dir la) p b n pos)
     (log_error K q) ok args s = Some (x, s') \<Longrightarrow> world s' = world s"
  by (erule log_result_world) (rule createiologforwrite_world log_error_world, assumption)+

lemmas createiolog_worlds = log_result_plain_world log_result_two_world log_result_write_world

lemmas hook_worlds = alloc_block_world take_args_world getfile_world free_opt_world
  notify_user_status_world createiolog_worlds

lemma rename_transparent:
  "rtb_vfs_rename K run d e s = Some (ret, s') \<Longrightarrow> run (world s) = (ret, world s')"
  unfolding rtb_vfs_rename_def createiolog_plain_defs
  by (auto simp: call_run_eq bind_eq_Some_conv split: prod.splits if_splits dest!: hook_worlds)

lemma unlink_transparent:
  "rtb_vfs_unlink K run d s = Some (ret, s') \<Longrightarrow> run (world s) = (ret, world s')"
  unfolding rtb_vfs_unlink_def createiolog_plain_defs
  by (auto simp: call_run_eq bind_eq_Some_conv split: prod.splits if_splits dest!: hook_worlds)

lemma rmdir_transparent:
  "rtb_vfs_rmdir K run d s = Some (ret, s') \<Longrightarrow> run (world s) = (ret, world s')"
  unfolding rtb_vfs_rmdir_def createiolog_plain_defs
  by (auto simp: call_run_eq bind_eq_Some_conv split: prod.splits if_splits dest!: hook_worlds)

lemma create_transparent:
  "rtb_vfs_create K run d i m nd s = Some (ret, s') \<Longrightarrow> run (world s) = (ret, world s')"
  unfolding rtb_vfs_create_def createiolog_plain_defs
  by (auto simp: call_run_eq bind_eq_Some_conv split: prod.splits if_splits dest!: hook_worlds)

lemma symlink_transparent:
  "rtb_vfs_symlink K run pl d e s = Some (ret, s') \<Longrightarrow> run (world s) = (ret, world s')"
  unfolding rtb_vfs_symlink_def createiolog_plain_defs
  by (auto simp: call_run_eq bind_eq_Some_conv split: prod.splits if_splits dest!: hook_worlds)

lemma link_transparent:
  "rtb_vfs_link K run d e s = Some (ret, s') \<Longrightarrow> run (world s) = (ret, world s')"
  unfolding rtb_vfs_link_def createiolog_plain_defs
  by (auto simp: call_run_eq bind_eq_Some_conv split: prod.splits if_splits dest!: hook_worlds)

lemma mkdir_transparent:
  "rtb_vfs_mkdir K run d m s = Some (ret, s') \<Longrightarrow> run (world s) = (ret, world s')"
  unfolding rtb_vfs_mkdir_def createiolog_plain_defs
  by (auto simp: call_run_eq bind_eq_Some_conv split: prod.splits if_splits dest!: hook_worlds)

lemma write_transparent:
  "rtb_vfs_write K run f b n pos s = Some (ret, s') \<Longrightarrow> run (world s) = (ret, world s')"
  unfolding rtb_vfs_write_def createiolog_plain_defs
  by (auto simp: call_run_eq bind_eq_Some_conv Let_def split: prod.splits if_splits dest!: hook_worlds)

end
