(* ===== verification/HookLog.thy ===== *)
theory HookLog
  imports HookProps
begin

text \<open>
  What a hook does when the driver is on and there is memory: a monitored operation leaves
  exactly one record at the tail of the queue, with the next numbers of its file and of its
  set; the buffers of the hook are given back.
\<close>

section \<open>Looking up is independent of the allocator\<close>

definition with_blocks :: "nat \<Rightarrow> (addr \<Rightarrow> region option) \<Rightarrow> 'w kstate \<Rightarrow> 'w kstate" where
  "with_blocks n kb s = s\<lparr>next_blk := n, kblocks := kb\<rparr>"

lemma with_blocks_simps [simp]:
  "FileReplData (with_blocks n kb s) = FileReplData s" "set_mem (with_blocks n kb s) = set_mem s"
  "file_mem (with_blocks n kb s) = file_mem s" "next_blk (with_blocks n kb s) = n"
  "kblocks (with_blocks n kb s) = kb" "addr_limit (with_blocks n kb s) = addr_limit s"
  "completions (with_blocks n kb s) = completions s" "outbox (with_blocks n kb s) = outbox s"
  "world (with_blocks n kb s) = world s"
  "with_blocks n kb (with_blocks n' kb' s) = with_blocks n kb s"
  by (simp_all add: with_blocks_def)

lemma with_blocks_self: "with_blocks (next_blk s) (kblocks s) s = s"
  by (simp add: with_blocks_def)

lemma alloc_with_blocks:
  "k_alloc K n \<Longrightarrow> alloc_block K r (with_blocks n kb s) = (Some n, with_blocks (Suc n) (kb(n \<mapsto> r)) s)"
  by (simp add: alloc_block_def with_blocks_def)

lemma alloc_first:
  "k_alloc K (next_blk s) \<Longrightarrow>
   alloc_block K r s = (Some (next_blk s), with_blocks (Suc (next_blk s)) ((kblocks s)(next_blk s \<mapsto> r)) s)"
  by (simp add: alloc_block_def with_blocks_def)

lemma lookup_with_blocks [simp]:
  "GetMonitorFileEntryByabspath p (with_blocks n kb s) = GetMonitorFileEntryByabspath p s"
  "GetMonitorSetEntry g (with_blocks n kb s) = GetMonitorSetEntry g s"
  by (simp_all add: GetMonitorFileEntryByabspath_def GetMonitorSetEntry_def)

section \<open>The state after a record\<close>

text \<open>
  \<open>recorded\<close>: the state of \<open>s\<close> once the record \<open>l\<close> of an operation on monitored file
  \<open>a\<close> (entry \<open>e\<close>, set \<open>p\<close> with entry \<open>m\<close>) is queued in blocks \<open>n\<close>, \<open>n + 1\<close> and
  \<open>n + 2\<close>, and the operation has turned the outside world into \<open>w\<close>.
\<close>

definition new_context :: "nat \<Rightarrow> MONITOR_SET_ENTRY \<Rightarrow> LOG_FILE \<Rightarrow> IOWRITE_CONTEXT" where
  "new_context n m l =
     \<lparr>piowc = Suc (Suc n), iologpath_blk = Suc n,
      iologpath = log_path (cstr (wcsSetCacheDir m)) (ullSetSeqNo m), logfile_blk = n, logfile = l\<rparr>"

definition recorded ::
  "addr \<Rightarrow> addr \<Rightarrow> MONITOR_FILE_ENTRY \<Rightarrow> MONITOR_SET_ENTRY \<Rightarrow> LOG_FILE \<Rightarrow> nat \<Rightarrow> 'w \<Rightarrow> 'w kstate \<Rightarrow> 'w kstate" where
  "recorded a p e m l n w s =
     s\<lparr>FileReplData := (FileReplData s)\<lparr>Config := (cfg s)\<lparr>iowritequeue := queue_of s @ [new_context n m l]\<rparr>\<rparr>,
       set_mem := (set_mem s)(p \<mapsto> m\<lparr>ullSetSeqNo := ullSetSeqNo m + 1\<rparr>),
       file_mem := (file_mem s)(a \<mapsto> e\<lparr>pSetEntry := Some p, ullSeqNo := ullSeqNo e + 1\<rparr>),
       next_blk := n + 3,
       kblocks := (kblocks s)(n \<mapsto> log_region l, Suc n \<mapsto> Kmalloc, Suc (Suc n) \<mapsto> Kmalloc),
       completions := Suc (completions s), world := w\<rparr>"

definition op_time :: "'w kernel \<Rightarrow> 'w kstate \<Rightarrow> u64" where
  "op_time K s = (let (tv_sec, tv_nsec) = k_time K (world s) in tv_sec * 1000 * 10000 + tv_nsec div 100)"

definition op_args :: "'w kernel \<Rightarrow> 'w kstate \<Rightarrow> MONITOR_FILE_ENTRY \<Rightarrow> MONITOR_SET_ENTRY \<Rightarrow> log_args" where
  "op_args K s e m =
     \<lparr>la_seq = ullSeqNo e, la_gseq = ullSetSeqNo m, la_time = op_time K s, la_dir = cstr (wcsSetCacheDir m)\<rparr>"

text \<open>The set a monitored file is charged to, when a number can be taken.\<close>

definition charged :: "addr \<Rightarrow> MONITOR_FILE_ENTRY \<Rightarrow> addr \<Rightarrow> MONITOR_SET_ENTRY \<Rightarrow> 'w kstate \<Rightarrow> bool" where
  "charged a e p m s \<longleftrightarrow>
     file_mem s a = Some e \<and> set_mem s p = Some m \<and> terminated (wcsSetCacheDir m) \<and>
     (pSetEntry e = Some p \<or> pSetEntry e = None \<and> GetMonitorSetEntry (guidSetId e) s = Some (Some p))"

lemma charged_taken:
  "charged a e p m s \<Longrightarrow>
   seq_taken a p e m s (put_set p (m\<lparr>ullSetSeqNo := ullSetSeqNo m + 1\<rparr>)
     (put_file a (e\<lparr>pSetEntry := Some p, ullSeqNo := ullSeqNo e + 1\<rparr>) s))"
  by (cases e) (auto simp: charged_def seq_taken_def)

lemma put_file_swap:
  "put_set p m (put_file a e s) = put_file a e (put_set p m s)"
  by (simp add: put_set_def put_file_def)

lemma GetSeqNo_run:
  assumes "charged a e p m s"
  shows "GetMonitorFileSeqNoByMonitorFileEntry K (Some a) s =
    Some ((0, ullSeqNo e, ullSetSeqNo m, op_time K s, cstr (wcsSetCacheDir m)),
      put_set p (m\<lparr>ullSetSeqNo := ullSetSeqNo m + 1\<rparr>)
        (put_file a (e\<lparr>pSetEntry := Some p, ullSeqNo := ullSeqNo e + 1\<rparr>) s))"
proof (cases "pSetEntry e")
  case None
  with assms show ?thesis
    by (simp add: GetMonitorFileSeqNoByMonitorFileEntry_def charged_def c_strlen_def op_time_def Let_def split_beta
        put_set_def put_file_def)
next
  case (Some q)
  have self: "e\<lparr>pSetEntry := Some p, ullSeqNo := ullSeqNo e + 1\<rparr> = e\<lparr>ullSeqNo := ullSeqNo e + 1\<rparr>"
    using assms Some by (intro MONITOR_FILE_ENTRY.equality) (simp_all add: charged_def)
  from assms Some show ?thesis
    unfolding self
    by (simp add: GetMonitorFileSeqNoByMonitorFileEntry_def charged_def c_strlen_def op_time_def Let_def split_beta
        put_set_def put_file_def)
qed

lemma charged_with_blocks [simp]: "charged a e p m (with_blocks n kb s) = charged a e p m s"
  by (simp add: charged_def)

lemma take_args_run:
  assumes "charged a e p m s"
  shows "take_args K (Some a) (with_blocks n kb s) = Some (Some (op_args K s e m),
    with_blocks n kb (put_set p (m\<lparr>ullSetSeqNo := ullSetSeqNo m + 1\<rparr>)
      (put_file a (e\<lparr>pSetEntry := Some p, ullSeqNo := ullSeqNo e + 1\<rparr>) s)))"
proof -
  have "charged a e p m (with_blocks n kb s)" using assms by simp
  from GetSeqNo_run [OF this, of K] show ?thesis
    by (simp add: take_args_def op_args_def op_time_def) (simp add: put_set_def put_file_def with_blocks_def)
qed

section \<open>Queueing after the call\<close>

definition logs :: "('w kstate \<Rightarrow> (int \<times> 'w kstate) option) \<Rightarrow> 'w kernel \<Rightarrow> log_args \<Rightarrow> LOG_FILE \<Rightarrow> bool" where
  "logs f K la l \<longleftrightarrow>
     (\<forall>s. (\<forall>a\<ge>next_blk s. k_alloc K a) \<longrightarrow>
        (\<exists>c s'. f s = Some (0, s') \<and> queued c s s' \<and> has_record (la_dir la) (la_gseq la) l c))"

lemma logs_plain:
  "ty \<noteq> LOG_FILE_TYPE_WRITE \<Longrightarrow>
   logs (log_plain K ty i (la_seq la) (la_gseq la) (la_time la) (la_dir la) p) K la
     (plain_record ty i (la_seq la) (la_gseq la) (la_time la) p)"
  using log_plain_run unfolding logs_def by blast

lemma logs_two:
  "ty \<noteq> LOG_FILE_TYPE_WRITE \<Longrightarrow>
   logs (log_two K ty (la_seq la) (la_gseq la) (la_time la) (la_dir la) p q) K la
     (two_record ty (la_seq la) (la_gseq la) (la_time la) p q)"
  using log_two_run unfolding logs_def by blast

lemma logs_write:
  "length d + 1024 < 2 ^ 31 \<Longrightarrow>
   logs (createiologforwrite K (la_seq la) (la_gseq la) (la_time la) (la_dir la) p d (length d) pos) K la
     (write_record (la_seq la) (la_gseq la) (la_time la) p d pos)"
  using createiologforwrite_run unfolding logs_def by blast

definition error_record :: "log_args \<Rightarrow> byte list \<Rightarrow> LOG_FILE" where
  "error_record la p = plain_record LOG_FILE_TYPE_ERROR 0 (la_seq la) (la_gseq la) (la_time la) p"

lemma logs_error: "logs (log_error K p la) K la (error_record la p)"
  using logs_plain [of LOG_FILE_TYPE_ERROR K 0 la p]
  by (simp add: log_error_def createiologforerror_def logs_def log_types error_record_def)

lemma logs_at:
  assumes "logs f K la l" and "\<forall>a\<ge>n. k_alloc K a"
    and la: "la_dir la = cstr (wcsSetCacheDir m)" "la_gseq la = ullSetSeqNo m"
  shows "f (with_blocks n kb s) = Some (0, (push_iowrite (new_context n m l)
    (with_blocks (n + 3) (kb(n \<mapsto> log_region l, Suc n \<mapsto> Kmalloc, Suc (Suc n) \<mapsto> Kmalloc)) s))
      \<lparr>completions := Suc (completions s)\<rparr>)"
proof -
  have "\<exists>c s'. f (with_blocks n kb s) = Some (0, s') \<and> queued c (with_blocks n kb s) s' \<and>
      has_record (la_dir la) (la_gseq la) l c"
    using assms(1,2) by (simp add: logs_def)
  then obtain c s' where run: "f (with_blocks n kb s) = Some (0, s')" "queued c (with_blocks n kb s) s'"
    "has_record (la_dir la) (la_gseq la) l c" by blast
  then have "c = new_context n m l"
    by (intro IOWRITE_CONTEXT.equality) (simp_all add: new_context_def queued_def has_record_def la)
  with run show ?thesis
    by (simp add: queued_def new_context_def push_iowrite_def upd_cfg_def with_blocks_def log_region_def)
qed

abbreviation took ::
  "addr \<Rightarrow> addr \<Rightarrow> MONITOR_FILE_ENTRY \<Rightarrow> MONITOR_SET_ENTRY \<Rightarrow> 'w kstate \<Rightarrow> 'w kstate" where
  "took a p e m s \<equiv> put_set p (m\<lparr>ullSetSeqNo := ullSetSeqNo m + 1\<rparr>)
     (put_file a (e\<lparr>pSetEntry := Some p, ullSeqNo := ullSeqNo e + 1\<rparr>) s)"

lemma call_run_at:
  "call_run run (with_blocks n kb (took a p e m s)) =
     (fst (run (world s)), with_blocks n kb ((took a p e m s)\<lparr>world := snd (run (world s))\<rparr>))"
  "call_run run (with_blocks n kb s) = (fst (run (world s)), with_blocks n kb (s\<lparr>world := snd (run (world s))\<rparr>))"
  by (simp_all add: call_run_eq put_set_def put_file_def with_blocks_def)

lemma log_result_at:
  assumes ok: "logs (success la) K la l" and bad: "logs (failure la) K la l'"
    and la: "la = op_args K s0 e m" and alloc: "\<forall>a\<ge>n. k_alloc K a"
  shows "log_result success failure good (Some la) (with_blocks n kb ((took a p e m s)\<lparr>world := w\<rparr>)) =
    Some (Some 0, with_blocks (n + 3)
      (kb(n \<mapsto> log_region (if good then l else l'), Suc n \<mapsto> Kmalloc, Suc (Suc n) \<mapsto> Kmalloc))
      (recorded a p e m (if good then l else l') n w s))"
proof -
  have la': "la_dir la = cstr (wcsSetCacheDir m)" "la_gseq la = ullSetSeqNo m" by (simp_all add: la op_args_def)
  have fin: "(push_iowrite (new_context n m k) (with_blocks (n + 3) kb' ((took a p e m s)\<lparr>world := w\<rparr>)))
      \<lparr>completions := Suc (completions s)\<rparr> = with_blocks (n + 3) kb' (recorded a p e m k n w s)" for k kb'
    by (simp add: push_iowrite_def upd_cfg_def recorded_def put_set_def put_file_def with_blocks_def)
  show ?thesis
    using logs_at [OF ok alloc la', of kb "(took a p e m s)\<lparr>world := w\<rparr>"]
      logs_at [OF bad alloc la', of kb "(took a p e m s)\<lparr>world := w\<rparr>"] fin
    by (simp add: log_result_def put_set_def put_file_def)
qed

lemma log_result_plain_at:
  fixes K :: "'w kernel" and s0 :: "'w kstate" and e :: MONITOR_FILE_ENTRY and m :: MONITOR_SET_ENTRY
    and good :: bool and p p' q d :: "byte list" and ty i :: u32 and pos :: u64
  assumes "ty \<noteq> LOG_FILE_TYPE_WRITE" and "\<forall>a\<ge>n. k_alloc K a"
  defines la: "la \<equiv> op_args K s0 e m"
  defines l: "l \<equiv> (if good then plain_record ty i (la_seq la) (la_gseq la) (la_time la) p else error_record la p')"
  shows "log_result (\<lambda>la. log_plain K ty i (la_seq la) (la_gseq la) (la_time la) (la_dir la) p) (log_error K p') good
      (Some (op_args K s0 e m)) (with_blocks n kb ((took a pm e m s)\<lparr>world := w\<rparr>)) =
    Some (Some 0, with_blocks (n + 3) (kb(n \<mapsto> log_region l, Suc n \<mapsto> Kmalloc, Suc (Suc n) \<mapsto> Kmalloc))
      (recorded a pm e m l n w s))"
  unfolding l la
  by (rule log_result_at [OF _ _ refl]) (use assms in \<open>simp_all add: logs_plain logs_error\<close>)

lemma log_result_two_at:
  fixes K :: "'w kernel" and s0 :: "'w kstate" and e :: MONITOR_FILE_ENTRY and m :: MONITOR_SET_ENTRY
    and good :: bool and p p' q d :: "byte list" and ty i :: u32 and pos :: u64
  assumes "ty \<noteq> LOG_FILE_TYPE_WRITE" and "\<forall>a\<ge>n. k_alloc K a"
  defines la: "la \<equiv> op_args K s0 e m"
  defines l: "l \<equiv> (if good then two_record ty (la_seq la) (la_gseq la) (la_time la) p q else error_record la p')"
  shows "log_result (\<lambda>la. log_two K ty (la_seq la) (la_gseq la) (la_time la) (la_dir la) p q) (log_error K p') good
      (Some (op_args K s0 e m)) (with_blocks n kb ((took a pm e m s)\<lparr>world := w\<rparr>)) =
    Some (Some 0, with_blocks (n + 3) (kb(n \<mapsto> log_region l, Suc n \<mapsto> Kmalloc, Suc (Suc n) \<mapsto> Kmalloc))
      (recorded a pm e m l n w s))"
  unfolding l la
  by (rule log_result_at [OF _ _ refl]) (use assms in \<open>simp_all add: logs_two logs_error\<close>)

lemma log_result_write_at:
  fixes K :: "'w kernel" and s0 :: "'w kstate" and e :: MONITOR_FILE_ENTRY and m :: MONITOR_SET_ENTRY
    and good :: bool and p p' q d :: "byte list" and ty i :: u32 and pos :: u64
  assumes "length d + 1024 < 2 ^ 31" and "\<forall>a\<ge>n. k_alloc K a"
  defines la: "la \<equiv> op_args K s0 e m"
  defines l: "l \<equiv> (if good then write_record (la_seq la) (la_gseq la) (la_time la) p d pos else error_record la p')"
  shows "log_result (\<lambda>la. createiologforwrite K (la_seq la) (la_gseq la) (la_time la) (la_dir la) p d (length d) pos) (log_error K p') good
      (Some (op_args K s0 e m)) (with_blocks n kb ((took a pm e m s)\<lparr>world := w\<rparr>)) =
    Some (Some 0, with_blocks (n + 3) (kb(n \<mapsto> log_region l, Suc n \<mapsto> Kmalloc, Suc (Suc n) \<mapsto> Kmalloc))
      (recorded a pm e m l n w s))"
  unfolding l la
  by (rule log_result_at [OF _ _ refl]) (use assms in \<open>simp_all add: logs_write logs_error\<close>)

lemma free_with_blocks:
  "kb b = Some r \<Longrightarrow> free_opt r (Some b) (with_blocks n kb s) = Some (with_blocks n (kb(b := None)) s)"
  by (simp add: free_opt_def free_block_def with_blocks_def)

lemma with_blocks_recorded:
  assumes "n' = n + 3" and "\<And>b. kb b = ((kblocks s)(n \<mapsto> log_region l, Suc n \<mapsto> Kmalloc, Suc (Suc n) \<mapsto> Kmalloc)) b"
  shows "with_blocks n' kb (recorded a p e m l n w s) = recorded a p e m l n w s"
  using assms by (simp add: with_blocks_def recorded_def fun_eq_iff)

section \<open>What each operation should record\<close>

text \<open>
  \<open>bypassed\<close>: an open of an existing file, or a write through a file opened write-only,
  is not looked at. \<open>op_paths\<close>: the path that is looked up and the other path, if there
  is one.
\<close>

fun bypassed :: "'w vfs_op \<Rightarrow> bool" where
  "bypassed (Vfs_create d has_inode mode nd) = has_inode"
| "bypassed (Vfs_write file buf count pos) = (f_flags file = 1)"
| "bypassed _ = False"

definition dentry_path :: "dentry option \<Rightarrow> byte list option" where
  "dentry_path d = map_option snd (getabsfullpathfromdentry d [])"

fun op_paths :: "'w vfs_op \<Rightarrow> (byte list \<times> byte list) option" where
  "op_paths (Vfs_rename old new) = do { p \<leftarrow> dentry_path new; q \<leftarrow> dentry_path old; Some (p, q) }"
| "op_paths (Vfs_link old new) = do { q \<leftarrow> dentry_path old; p \<leftarrow> dentry_path new; Some (p, q) }"
| "op_paths (Vfs_symlink path_lookup d oldname) =
     do { (_, q) \<leftarrow> getabsfullpath path_lookup oldname []; p \<leftarrow> dentry_path d; Some (p, q) }"
| "op_paths (Vfs_unlink d) = do { p \<leftarrow> dentry_path d; Some (p, []) }"
| "op_paths (Vfs_rmdir d) = (if d = None then None else do { p \<leftarrow> dentry_path d; Some (p, []) })"
| "op_paths (Vfs_mkdir d mode) = (if d = None then None else do { p \<leftarrow> dentry_path d; Some (p, []) })"
| "op_paths (Vfs_create d has_inode mode nd) =
     (case nd of
        Some (Inr dir) \<Rightarrow>
          do { p \<leftarrow> buf_cat [] dir (strlen dir); p \<leftarrow> buf_cat p slash 1;
               p \<leftarrow> buf_cat p (d_name d) (length (d_name d)); Some (p, []) }
      | _ \<Rightarrow> None)"
| "op_paths (Vfs_write file buf count pos) =
     (case f_dpath file of
        Inl err \<Rightarrow> None
      | Inr path \<Rightarrow> do { p \<leftarrow> buf_cat [] path (strlen path); Some (p, []) })"

text \<open>A rename is monitored under its new path, else under its old one.\<close>

fun monitored :: "'w vfs_op \<Rightarrow> byte list \<times> byte list \<Rightarrow> 'w kstate \<Rightarrow> addr option option" where
  "monitored (Vfs_rename old new) (p, q) s =
     do { pmfe \<leftarrow> GetMonitorFileEntryByabspath p s;
          (if pmfe \<noteq> None then Some pmfe else GetMonitorFileEntryByabspath q s) }"
| "monitored _ (p, q) s = GetMonitorFileEntryByabspath p s"

fun op_good :: "'w vfs_op \<Rightarrow> int \<Rightarrow> bool" where
  "op_good (Vfs_write file buf count pos) ret = (0 < ret)"
| "op_good _ ret = (ret = 0)"

fun good_record :: "'w vfs_op \<Rightarrow> log_args \<Rightarrow> byte list \<times> byte list \<Rightarrow> LOG_FILE" where
  "good_record (Vfs_rename old new) la (p, q) =
     two_record LOG_FILE_TYPE_RENAMEFILE (la_seq la) (la_gseq la) (la_time la) q p"
| "good_record (Vfs_link old new) la (p, q) =
     two_record LOG_FILE_TYPE_HARDLINK (la_seq la) (la_gseq la) (la_time la) q p"
| "good_record (Vfs_symlink pl d oldname) la (p, q) =
     two_record LOG_FILE_TYPE_SOFTLINK (la_seq la) (la_gseq la) (la_time la) q p"
| "good_record (Vfs_unlink d) la (p, q) =
     plain_record LOG_FILE_TYPE_DELETEFILE 0 (la_seq la) (la_gseq la) (la_time la) p"
| "good_record (Vfs_rmdir d) la (p, q) =
     plain_record LOG_FILE_TYPE_DELETEFILE 1 (la_seq la) (la_gseq la) (la_time la) p"
| "good_record (Vfs_mkdir d mode) la (p, q) =
     plain_record LOG_FILE_TYPE_NEWFILE 1 (la_seq la) (la_gseq la) (la_time la) p"
| "good_record (Vfs_create d i mode nd) la (p, q) =
     plain_record LOG_FILE_TYPE_NEWFILE 0 (la_seq la) (la_gseq la) (la_time la) p"
| "good_record (Vfs_write file buf count pos) la (p, q) =
     write_record (la_seq la) (la_gseq la) (la_time la) p buf pos"

definition op_record :: "'w vfs_op \<Rightarrow> int \<Rightarrow> log_args \<Rightarrow> byte list \<times> byte list \<Rightarrow> LOG_FILE" where
  "op_record op ret la ps = (if op_good op ret then good_record op la ps else error_record la (fst ps))"

fun op_buffers :: "'w vfs_op \<Rightarrow> nat" where
  "op_buffers (Vfs_unlink d) = 2"
| "op_buffers (Vfs_rmdir d) = 2"
| "op_buffers (Vfs_mkdir d mode) = 2"
| "op_buffers _ = 3"

text \<open>A write hands over the whole buffer, and its record fits the length of a record.\<close>

fun op_fits :: "'w vfs_op \<Rightarrow> bool" where
  "op_fits (Vfs_write file buf count pos) = (count = length buf \<and> length buf + 1024 < 2 ^ 31)"
| "op_fits _ = True"

lemma not_write_types [simp]:
  "LOG_FILE_TYPE_RENAMEFILE \<noteq> LOG_FILE_TYPE_WRITE" "LOG_FILE_TYPE_HARDLINK \<noteq> LOG_FILE_TYPE_WRITE"
  "LOG_FILE_TYPE_SOFTLINK \<noteq> LOG_FILE_TYPE_WRITE" "LOG_FILE_TYPE_DELETEFILE \<noteq> LOG_FILE_TYPE_WRITE"
  "LOG_FILE_TYPE_NEWFILE \<noteq> LOG_FILE_TYPE_WRITE"
  by (simp_all add: log_types)

lemmas createiolog_eqs = createiologformkdir_def [abs_def] createiologforcreatefile_def [abs_def]
  createiologforrmdir_def [abs_def] createiologforrmfile_def [abs_def] createiologforrename_def [abs_def]
  createiologforcreatesymlink_def [abs_def] createiologforcreatelink_def [abs_def]

section \<open>Every hook keeps the contract\<close>

definition fresh_blocks :: "'w kstate \<Rightarrow> bool" where
  "fresh_blocks s \<longleftrightarrow> (\<forall>b\<ge>next_blk s. kblocks s b = None)"

text \<open>The contract of one hook, for an operation whose paths are known.\<close>

definition logs_once :: "'w kernel \<Rightarrow> 'w orig \<Rightarrow> 'w vfs_op \<Rightarrow> byte list \<times> byte list \<Rightarrow> 'w kstate \<Rightarrow> bool" where
  "logs_once K run op ps s \<longleftrightarrow>
     (\<forall>ret w. run (world s) = (ret, w) \<longrightarrow>
        (monitored op ps s = Some None \<longrightarrow>
           hooked K run op s = Some (ret, with_blocks (next_blk s + op_buffers op) (kblocks s) (s\<lparr>world := w\<rparr>))) \<and>
        (\<forall>a e pm m. monitored op ps s = Some (Some a) \<longrightarrow> charged a e pm m s \<longrightarrow>
           hooked K run op s =
             Some (ret, recorded a pm e m (op_record op ret (op_args K s e m) ps) (next_blk s + op_buffers op) w s)))"

lemma kb_clean: "kb a = None \<Longrightarrow> kb(a := None) = kb"
  by (rule fun_upd_idem)

lemma dentry_path_Some: "dentry_path d = Some p \<longleftrightarrow> (\<exists>r. getabsfullpathfromdentry d [] = Some (r, p))"
  by (auto simp: dentry_path_def)

lemma logs_onceI:
  assumes "monitored op ps s = Some None \<Longrightarrow> hooked K run op s =
      Some (fst (run (world s)), with_blocks (next_blk s + op_buffers op) (kblocks s) (s\<lparr>world := snd (run (world s))\<rparr>))"
    and "\<And>a e pm m. monitored op ps s = Some (Some a) \<Longrightarrow> charged a e pm m s \<Longrightarrow> hooked K run op s =
      Some (fst (run (world s)), recorded a pm e m (op_record op (fst (run (world s))) (op_args K s e m) ps)
        (next_blk s + op_buffers op) (snd (run (world s))) s)"
  shows "logs_once K run op ps s"
  using assms by (auto simp: logs_once_def)

lemma take_args_None: "take_args K None s = Some (None, s)"
  by (simp add: take_args_def)

lemma log_result_None: "log_result f g ok None s = Some (None, s)"
  by (simp add: log_result_def)

lemmas hook_run = alloc_first alloc_with_blocks createiolog_eqs call_run_at free_with_blocks fresh_blocks_def
  log_result_plain_at log_result_two_at log_result_write_at op_record_def kb_clean dentry_path_Some
  take_args_None log_result_None take_args_run numeral_3_eq_3

lemma free_block_with_blocks:
  "kb b = Some r \<Longrightarrow> free_block r b (with_blocks n kb s) = Some (with_blocks n (kb(b := None)) s)"
  by (simp add: free_block_def with_blocks_def)

lemma unlink_logs_once:
  assumes "\<not> driver_off s" and "fresh_blocks s" and "\<forall>a\<ge>next_blk s. k_alloc K a"
    and "op_paths (Vfs_unlink d) = Some (p, q)"
  shows "logs_once K run (Vfs_unlink d) (p, q) s"
  by (rule logs_onceI)
    (use assms in \<open>auto simp: rtb_vfs_unlink_def hook_run split: option.splits sum.splits if_splits
      intro!: with_blocks_recorded dest!: bind_SomeD\<close>)

lemma rmdir_logs_once:
  assumes "\<not> driver_off s" and "fresh_blocks s" and "\<forall>a\<ge>next_blk s. k_alloc K a"
    and "op_paths (Vfs_rmdir d) = Some (p, q)"
  shows "logs_once K run (Vfs_rmdir d) (p, q) s"
  by (rule logs_onceI)
    (use assms in \<open>auto simp: rtb_vfs_rmdir_def hook_run split: option.splits sum.splits if_splits
      intro!: with_blocks_recorded dest!: bind_SomeD\<close>)

lemma mkdir_logs_once:
  assumes "\<not> driver_off s" and "fresh_blocks s" and "\<forall>a\<ge>next_blk s. k_alloc K a"
    and "op_paths (Vfs_mkdir d mode) = Some (p, q)"
  shows "logs_once K run (Vfs_mkdir d mode) (p, q) s"
  by (rule logs_onceI)
    (use assms in \<open>auto simp: rtb_vfs_mkdir_def hook_run split: option.splits sum.splits if_splits
      intro!: with_blocks_recorded dest!: bind_SomeD\<close>)

lemma rename_logs_once:
  assumes "\<not> driver_off s" and "fresh_blocks s" and "\<forall>a\<ge>next_blk s. k_alloc K a"
    and "op_paths (Vfs_rename old new) = Some (p, q)"
  shows "logs_once K run (Vfs_rename old new) (p, q) s"
  by (rule logs_onceI)
    (use assms in \<open>auto simp: rtb_vfs_rename_def hook_run split: option.splits sum.splits if_splits
      intro!: with_blocks_recorded dest!: bind_SomeD\<close>)

lemma link_logs_once:
  assumes "\<not> driver_off s" and "fresh_blocks s" and "\<forall>a\<ge>next_blk s. k_alloc K a"
    and "op_paths (Vfs_link old new) = Some (p, q)"
  shows "logs_once K run (Vfs_link old new) (p, q) s"
  by (rule logs_onceI)
    (use assms in \<open>auto simp: rtb_vfs_link_def hook_run split: option.splits sum.splits if_splits
      intro!: with_blocks_recorded dest!: bind_SomeD\<close>)

lemma symlink_logs_once:
  assumes "\<not> driver_off s" and "fresh_blocks s" and "\<forall>a\<ge>next_blk s. k_alloc K a"
    and "op_paths (Vfs_symlink pl d oldname) = Some (p, q)"
  shows "logs_once K run (Vfs_symlink pl d oldname) (p, q) s"
  by (rule logs_onceI)
    (use assms in \<open>auto simp: rtb_vfs_symlink_def hook_run split: option.splits sum.splits if_splits
      intro!: with_blocks_recorded dest!: bind_SomeD\<close>)

lemma create_logs_once:
  assumes "\<not> driver_off s" and "fresh_blocks s" and "\<forall>a\<ge>next_blk s. k_alloc K a"
    and "op_paths (Vfs_create d has_inode mode nd) = Some (p, q)" and "\<not> has_inode"
  shows "logs_once K run (Vfs_create d has_inode mode nd) (p, q) s"
  by (rule logs_onceI)
    (use assms in \<open>auto simp: rtb_vfs_create_def getabsfullpathfromnd_def free_block_with_blocks hook_run split: option.splits sum.splits if_splits
      intro!: with_blocks_recorded dest!: bind_SomeD\<close>)

lemma write_logs_once:
  assumes "\<not> driver_off s" and "fresh_blocks s" and "\<forall>a\<ge>next_blk s. k_alloc K a"
    and "op_paths (Vfs_write file buf count pos) = Some (p, q)" and "f_flags file \<noteq> 1" and "op_fits (Vfs_write file buf count pos)"
  shows "logs_once K run (Vfs_write file buf count pos) (p, q) s"
  by (rule logs_onceI)
    (use assms in \<open>auto simp: rtb_vfs_write_def getabsfullpathfromstructfile_def free_block_with_blocks hook_run split: option.splits sum.splits if_splits
      intro!: with_blocks_recorded dest!: bind_SomeD\<close>)

section \<open>All hooks\<close>

lemma hooked_skips: "driver_off s \<or> bypassed op \<Longrightarrow> hooked K run op s = Some (call_run run s)"
  by (cases op) (auto simp: rtb_vfs_write_def rtb_vfs_mkdir_def rtb_vfs_rmdir_def rtb_vfs_rename_def
      rtb_vfs_unlink_def rtb_vfs_symlink_def rtb_vfs_link_def rtb_vfs_create_def)

lemma hooked_logs_once:
  assumes "\<not> driver_off s" and "fresh_blocks s" and "\<forall>a\<ge>next_blk s. k_alloc K a"
    and "op_paths op = Some ps" and "\<not> bypassed op" and "op_fits op"
  shows "logs_once K run op ps s"
proof (cases ps)
  case (Pair p q)
  show ?thesis
    using assms unfolding Pair
    by (cases op)
      (auto intro: unlink_logs_once rmdir_logs_once mkdir_logs_once rename_logs_once link_logs_once
        symlink_logs_once create_logs_once write_logs_once simp del: op_paths.simps)
qed

lemma queue_inv_fresh: "queue_inv s \<Longrightarrow> fresh_blocks s"
  unfolding queue_inv_def owned_def fresh_blocks_def by (metis leD)

lemma recorded_simps [simp]:
  "queue_of (recorded a p e m l n w s) = queue_of s @ [new_context n m l]"
  "MonitorSet (cfg (recorded a p e m l n w s)) = MonitorSet (cfg s)"
  "MonitorFiles (cfg (recorded a p e m l n w s)) = MonitorFiles (cfg s)"
  "bNormalRunning (cfg (recorded a p e m l n w s)) = bNormalRunning (cfg s)"
  "bValid (cfg (recorded a p e m l n w s)) = bValid (cfg s)"
  "world (recorded a p e m l n w s) = w" "next_blk (recorded a p e m l n w s) = n + 3"
  "kblocks (recorded a p e m l n w s) =
     (kblocks s)(n \<mapsto> log_region l, Suc n \<mapsto> Kmalloc, Suc (Suc n) \<mapsto> Kmalloc)"
  "set_mem (recorded a p e m l n w s) = (set_mem s)(p \<mapsto> m\<lparr>ullSetSeqNo := ullSetSeqNo m + 1\<rparr>)"
  "file_mem (recorded a p e m l n w s) = (file_mem s)(a \<mapsto> e\<lparr>pSetEntry := Some p, ullSeqNo := ullSeqNo e + 1\<rparr>)"
  by (simp_all add: recorded_def)

lemma recorded_config_link:
  assumes inv: "config_inv s" and lk: "link_inv s" and a: "a \<in> set_tree (file_tree_of s)"
    and ch: "charged a e p m s" and n: "next_blk s \<le> n"
  shows "config_inv (recorded a p e m l n w s)" and "link_inv (recorded a p e m l n w s)"
proof -
  let ?t = "took a p e m s" and ?r = "recorded a p e m l n w s"
  have t: "config_inv ?t" "link_inv ?t" using seq_taken_inv [OF inv lk a charged_taken [OF ch]] by auto
  have same: "set_mem ?r = set_mem ?t" "file_mem ?r = file_mem ?t" "MonitorSet (cfg ?r) = MonitorSet (cfg ?t)"
    "MonitorFiles (cfg ?r) = MonitorFiles (cfg ?t)" "next_blk ?t \<le> next_blk ?r"
    using n by (simp_all add: put_set_def put_file_def)
  show "config_inv ?r"
    using t(1) same(5) unfolding config_inv_def same(1-4) by (meson order_less_le_trans)
  show "link_inv ?r"
    using t(2) unfolding link_inv_def same(1-4) by simp
qed

lemma recorded_queue_inv:
  assumes qi: "queue_inv s" and n: "next_blk s \<le> n"
  shows "queue_inv (recorded a p e m l n w s)"
proof -
  let ?s = "with_blocks n (kblocks s) s" and ?c = "new_context n m l"
  have "queue_inv ?s"
    using qi n unfolding queue_inv_def owned_def by (auto intro: order_less_le_trans)
  moreover have "queued ?c ?s ((push_iowrite ?c (with_blocks (Suc (Suc (Suc n)))
      ((kblocks s)(n \<mapsto> log_region l, Suc n \<mapsto> Kmalloc, Suc (Suc n) \<mapsto> Kmalloc)) s))\<lparr>completions := Suc (completions s)\<rparr>)"
    by (simp add: queued_def new_context_def log_region_def with_blocks_def)
  ultimately have "queue_inv ((push_iowrite ?c (with_blocks (Suc (Suc (Suc n)))
      ((kblocks s)(n \<mapsto> log_region l, Suc n \<mapsto> Kmalloc, Suc (Suc n) \<mapsto> Kmalloc)) s))\<lparr>completions := Suc (completions s)\<rparr>)"
    by (rule queued_owned)
  then show ?thesis
    unfolding queue_inv_def owned_def by (simp add: push_iowrite_def numeral_3_eq_3)
qed

end
