(* ===== verification/Netlink.thy ===== *)
theory Netlink
  imports HookLog
begin

text \<open>
  The receiving half of \<open>rtbnetlink.c\<close>: the commands of the user-space agent, from the
  socket buffer to the operation of \<open>monitorset.c\<close> they name.
\<close>

section \<open>The message\<close>

definition NOTIFY_TYPE_QUERY_RUNNING_STATUS :: u32 where
  "NOTIFY_TYPE_QUERY_RUNNING_STATUS = 5 + NOTIFY_TYPE_USER_TO_DRV_START"
definition NOTIFY_TYPE_ADDSET :: u32 where "NOTIFY_TYPE_ADDSET = 6 + NOTIFY_TYPE_USER_TO_DRV_START"
definition NOTIFY_TYPE_ADDITEM :: u32 where "NOTIFY_TYPE_ADDITEM = 7 + NOTIFY_TYPE_USER_TO_DRV_START"
definition NOTIFY_TYPE_DELSET :: u32 where "NOTIFY_TYPE_DELSET = 8 + NOTIFY_TYPE_USER_TO_DRV_START"
definition NOTIFY_TYPE_DELITEM :: u32 where "NOTIFY_TYPE_DELITEM = 9 + NOTIFY_TYPE_USER_TO_DRV_START"
definition NOTIFY_TYPE_DELALL :: u32 where "NOTIFY_TYPE_DELALL = 10 + NOTIFY_TYPE_USER_TO_DRV_START"
definition NOTIFY_TYPE_QUERY_LAST_SHUTDOWN_STATUS :: u32 where
  "NOTIFY_TYPE_QUERY_LAST_SHUTDOWN_STATUS = 11 + NOTIFY_TYPE_USER_TO_DRV_START"
definition NOTIFY_TYPE_RESET_LAST_SHUTDOWN_STATUS :: u32 where
  "NOTIFY_TYPE_RESET_LAST_SHUTDOWN_STATUS = 12 + NOTIFY_TYPE_USER_TO_DRV_START"

lemmas notify_types = NOTIFY_TYPE_QUERY_RUNNING_STATUS_def NOTIFY_TYPE_ADDSET_def NOTIFY_TYPE_ADDITEM_def
  NOTIFY_TYPE_DELSET_def NOTIFY_TYPE_DELITEM_def NOTIFY_TYPE_DELALL_def
  NOTIFY_TYPE_QUERY_LAST_SHUTDOWN_STATUS_def NOTIFY_TYPE_RESET_LAST_SHUTDOWN_STATUS_def
  NOTIFY_TYPE_USER_TO_DRV_START_def

text \<open>\<open>enumShutdownState\<close>.\<close>

datatype enumShutdownState = systeminit | systemrunning | systemshutdown | systemexceptionreboot

fun shutdown_code :: "enumShutdownState \<Rightarrow> u32" where
  "shutdown_code systeminit = 0"
| "shutdown_code systemrunning = 1"
| "shutdown_code systemshutdown = 2"
| "shutdown_code systemexceptionreboot = 3"

text \<open>
  \<open>FILEREPL_NOTIFICATION\<close> as it lies in the message: 8 bytes, then the backup data with
  the filter items at offset 292, 264 bytes each. The items are those the message really
  holds, whatever it announces.
\<close>

definition sizeof_FILTER_ITEM :: nat where "sizeof_FILTER_ITEM = 264"

definition dec_item :: "byte list \<Rightarrow> FILTER_ITEM" where
  "dec_item b = \<lparr>ulFileType = le_dec (field 0 4 b), wszFilterName = field 4 260 b\<rparr>"

definition dec_items :: "byte list \<Rightarrow> FILTER_ITEM list" where
  "dec_items b = map (\<lambda>i. dec_item (field (i * sizeof_FILTER_ITEM) sizeof_FILTER_ITEM b))
     [0..<length b div sizeof_FILTER_ITEM]"

definition dec_notification :: "byte list \<Rightarrow> FILEREPL_NOTIFICATION" where
  "dec_notification b =
     \<lparr>nType = le_dec (field 0 4 b), nNormalRunning = le_dec (field 4 4 b),
      BackupData = \<lparr>bdSize = le_dec (field 8 4 b), bdGuidSetId = dec_guid (field 12 16 b),
        ulFilterItemCounts = le_dec (field 28 4 b), wszBakCacheDir = field 32 260 b,
        FilterItems = dec_items (drop 292 b)\<rparr>\<rparr>"

section \<open>Commands\<close>

text \<open>\<open>len < sizeof(FILEREPL_NOTIFICATION)\<close> compares as unsigned 64-bit numbers.\<close>

definition process_netlink_cmd ::
  "'w kernel \<Rightarrow> int \<Rightarrow> byte list option \<Rightarrow> int \<Rightarrow> 'w kstate \<Rightarrow> (int \<times> 'w kstate) option" where
  "process_netlink_cmd K dest buf len s =
     (case buf of
        None \<Rightarrow> Some (NET_PARAM, s)
      | Some b \<Rightarrow>
          if (word_of_int len :: u64) < of_nat sizeof_FILEREPL_NOTIFICATION then Some (NET_PARAM, s)
          else let n = dec_notification b; ty = nType n; bd = BackupData n in
            if ty = NOTIFY_TYPE_ADDSET then ConfigAddMonitorSet K (Some bd) True s
            else if ty = NOTIFY_TYPE_ADDITEM then ConfigAddMonitorSet K (Some bd) False s
            else if ty = NOTIFY_TYPE_DELSET then ConfigDelMonitorSet K (Some bd) s
            else if ty = NOTIFY_TYPE_DELITEM then ConfigDelMonitorItem K (Some bd) s
            else if ty = NOTIFY_TYPE_DELALL then ConfigDelAllMonitorSet K s
            else if ty = NOTIFY_TYPE_QUERY_RUNNING_STATUS
            then do { (_, s) \<leftarrow> notify_user_status K NOTIFY_TYPE_QUERY_RUNNING_STATUS
                        (if bNormalRunning (cfg s) then 1 else 0) s;
                      Some (NET_OK, s) }
            else if ty = NOTIFY_TYPE_QUERY_LAST_SHUTDOWN_STATUS
            then do { let s = upd_cfg (\<lambda>c. c\<lparr>dwLastNormalShutdown := shutdown_code systemrunning\<rparr>) s;
                      (_, s) \<leftarrow> notify_user_status K NOTIFY_TYPE_QUERY_LAST_SHUTDOWN_STATUS
                        (as_int (uint (dwLastNormalShutdown (cfg s)))) s;
                      Some (NET_OK, s) }
            else if ty = NOTIFY_TYPE_RESET_LAST_SHUTDOWN_STATUS
            then Some (NET_OK, upd_cfg (\<lambda>c. c\<lparr>dwLastNormalShutdown := shutdown_code systemrunning\<rparr>) s)
            else Some (NET_OK, s))"

text \<open>\<open>memcpy (dst, src, n)\<close>, both arrays known.\<close>

definition c_memcpy :: "byte list \<Rightarrow> byte list \<Rightarrow> nat \<Rightarrow> byte list option" where
  "c_memcpy dst src n = (if n \<le> length src \<and> n \<le> length dst then Some (take n src @ drop n dst) else None)"

text \<open>The literal is 7 bytes long with its NUL; 13 are copied.\<close>

definition process_hello_set :: "'w kernel \<Rightarrow> int \<Rightarrow> byte list \<Rightarrow> int \<Rightarrow> 'w kstate \<Rightarrow> (int \<times> 'w kstate) option" where
  "process_hello_set K dest buf len s =
     do { buf \<leftarrow> c_memcpy buf (bytes ''test !'' @ [0]) 13;
          Some (NET_OK, netlink_to_user K dest (Some buf) 13 s) }"

section \<open>Packets\<close>

record nlmsghdr =
  nlmsg_len :: u32
  nlmsg_type :: u16
  nlmsg_flags :: u16
  nlmsg_seq :: u32
  nlmsg_pid :: u32

definition NLMSG_HDRLEN :: nat where "NLMSG_HDRLEN = 16"

definition dec_nlmsghdr :: "byte list \<Rightarrow> nlmsghdr" where
  "dec_nlmsghdr b = \<lparr>nlmsg_len = le_dec (field 0 4 b), nlmsg_type = le_dec (field 4 2 b),
     nlmsg_flags = le_dec (field 6 2 b), nlmsg_seq = le_dec (field 8 4 b), nlmsg_pid = le_dec (field 12 4 b)\<rparr>"

definition RTB_SET :: u16 where "RTB_SET = 0"
definition RTB_GET :: u16 where "RTB_GET = 1"

text \<open>\<open>data\<close> is what follows the header; the length passed on includes the header.\<close>

definition netlink_process_packet :: "'w kernel \<Rightarrow> nlmsghdr \<Rightarrow> byte list \<Rightarrow> 'w kstate \<Rightarrow> 'w kstate option" where
  "netlink_process_packet K nl data s =
     (let pid = as_int (uint (nlmsg_pid nl)); len = as_int (uint (nlmsg_len nl)) in
      if nlmsg_type nl = RTB_GET then map_option snd (process_netlink_cmd K pid (Some data) len s)
      else if nlmsg_type nl = RTB_SET then map_option snd (process_hello_set K pid data len s)
      else Some s)"

definition netlink_recv_packet :: "'w kernel \<Rightarrow> byte list \<Rightarrow> 'w kstate \<Rightarrow> 'w kstate option" where
  "netlink_recv_packet K skb s =
     (if NLMSG_HDRLEN \<le> length skb
      then let nlhdr = dec_nlmsghdr skb in
           if NLMSG_HDRLEN \<le> unat (nlmsg_len nlhdr) \<and> unat (nlmsg_len nlhdr) \<le> length skb
           then netlink_process_packet K nlhdr (drop NLMSG_HDRLEN skb) s
           else Some s
      else Some s)"

text \<open>Before 2.6.19 the socket hands over its whole queue.\<close>

fun netlink_receive_user_sk :: "'w kernel \<Rightarrow> byte list list \<Rightarrow> 'w kstate \<Rightarrow> 'w kstate option" where
  "netlink_receive_user_sk K [] s = Some s"
| "netlink_receive_user_sk K (skb # q) s =
     do { s \<leftarrow> netlink_recv_packet K skb s; netlink_receive_user_sk K q s }"

section \<open>The configuration survives every packet\<close>

lemma dec_notification_wf: "292 \<le> length b \<Longrightarrow> wf_guid (bdGuidSetId (BackupData (dec_notification b)))"
  by (simp add: wf_guid_def dec_notification_def dec_guid_def field_def)

lemma notify_inv:
  assumes "notify_user_status K ty st s = Some (r, s')"
  shows "(config_inv s \<longrightarrow> config_inv s') \<and> (link_inv s' = link_inv s)"
  using notify_user_status_inv [OF assms] leaked_config_inv leaked_link_inv by blast

lemma status_inv [simp]:
  "config_inv (upd_cfg (\<lambda>c. c\<lparr>dwLastNormalShutdown := x\<rparr>) s) = config_inv s"
  "link_inv (upd_cfg (\<lambda>c. c\<lparr>dwLastNormalShutdown := x\<rparr>) s) = link_inv s"
  by (simp_all add: config_inv_def link_inv_def)

lemma process_netlink_cmd_inv:
  assumes rb: "rbtree_laws K" and st: "stale_in_tree K" and inv: "config_inv s" and b: "292 \<le> length b"
    and run: "process_netlink_cmd K dest (Some b) len s = Some (r, s')"
  shows "config_inv s' \<and> (stale_next K \<longrightarrow> link_inv s \<longrightarrow> link_inv s')"
proof -
  note add = ConfigAddMonitorSet_inv [OF rb st inv dec_notification_wf [OF b], of _ r s']
  note del = ConfigDelMonitorSet_inv [OF rb st inv, of "Some (BackupData (dec_notification b))" r s']
  note item = ConfigDelMonitorItem_inv [OF rb inv, of "Some (BackupData (dec_notification b))" r s']
  note all = ConfigDelAllMonitorSet_inv [OF rb st inv, of r s']
  have notify: "config_inv s' \<and> (link_inv s \<longrightarrow> link_inv s')"
    if "notify_user_status K ty v t = Some (r', s')" "config_inv t = config_inv s" "link_inv t = link_inv s" for ty v t r'
    using notify_inv [OF that(1)] that(2,3) inv by blast
  have "config_inv s' \<and> (stale_next K \<longrightarrow> link_inv s \<longrightarrow> link_inv s')"
    if "(if c1 then ConfigAddMonitorSet K (Some (BackupData (dec_notification b))) True s
      else if c2 then ConfigAddMonitorSet K (Some (BackupData (dec_notification b))) False s
      else if c3 then ConfigDelMonitorSet K (Some (BackupData (dec_notification b))) s
      else if c4 then ConfigDelMonitorItem K (Some (BackupData (dec_notification b))) s
      else if c5 then ConfigDelAllMonitorSet K s
      else rest) = Some (r, s')"
      and "rest = Some (r, s') \<Longrightarrow> config_inv s' \<and> (link_inv s \<longrightarrow> link_inv s')" for c1 c2 c3 c4 c5 rest
    using that add del item all by (simp split: if_splits)
  note outer = this
  show ?thesis
  proof (cases "(word_of_int len :: u64) < of_nat sizeof_FILEREPL_NOTIFICATION")
    case True
    with run inv show ?thesis by (simp add: process_netlink_cmd_def)
  next
    case False
    show ?thesis
      by (rule outer [OF run [unfolded process_netlink_cmd_def option.case Let_def if_not_P [OF False]]])
        (use inv in \<open>auto simp: bind_eq_Some_conv split: if_splits dest: notify\<close>)
  qed
qed

lemma netlink_short:
  assumes short: "unat (nlmsg_len nl) < 556"
  shows "process_netlink_cmd K d (Some b) (as_int (uint (nlmsg_len nl))) s = Some (NET_PARAM, s)"
proof -
  have "uint (nlmsg_len nl) = int (unat (nlmsg_len nl))" by simp
  moreover have "- (2 ^ 31) \<le> int (unat (nlmsg_len nl))" by (rule order_trans [of _ 0]) simp_all
  moreover have "int (unat (nlmsg_len nl)) < 2 ^ 31"
  proof -
    have "int (unat (nlmsg_len nl)) < int 556" using short by (simp only: of_nat_less_iff)
    then show ?thesis by (rule less_trans) simp
  qed
  ultimately have "as_int (uint (nlmsg_len nl)) = int (unat (nlmsg_len nl))" using as_int_id by metis
  moreover have "(of_nat n :: u64) < 556" if "n < 556" for n
    using that by (simp add: word_less_nat_alt unat_of_nat take_bit_nat_eq_self)
  from this [OF short] have "(word_of_int (int (unat (nlmsg_len nl))) :: u64) < 556"
    by (simp only: of_int_of_nat_eq)
  ultimately show ?thesis
    by (simp add: process_netlink_cmd_def sizeof_FILEREPL_NOTIFICATION_def)
qed

lemma netlink_recv_cases:
  assumes "netlink_recv_packet K skb s = Some s'"
  obtains "s' = s" | dest len r where "process_netlink_cmd K dest (Some (drop 16 skb)) len s = Some (r, s')"
      and "556 \<le> length skb"
proof -
  let ?nl = "dec_nlmsghdr skb"
  let ?len = "as_int (uint (nlmsg_len ?nl))"
  note short = netlink_short [of ?nl]
  from assms consider "s' = s"
    | r d where "process_netlink_cmd K d (Some (drop 16 skb)) ?len s = Some (r, s')" "unat (nlmsg_len ?nl) \<le> length skb"
    by (auto simp: netlink_recv_packet_def netlink_process_packet_def process_hello_set_def c_memcpy_def bytes_def
        NLMSG_HDRLEN_def Let_def split: if_splits)
  then show thesis
  proof cases
    case (2 r d)
    show thesis
    proof (cases "unat (nlmsg_len ?nl) < 556")
      case True
      have "s' = s" using 2(1) unfolding short [OF True] by simp
      then show ?thesis by (rule that(1))
    next
      case False
      with 2 that(2) show ?thesis by simp
    qed
  qed (use that(1) in simp)
qed

lemma netlink_recv_packet_inv:
  assumes "rbtree_laws K" and "stale_in_tree K" and "config_inv s" and run: "netlink_recv_packet K skb s = Some s'"
  shows "config_inv s' \<and> (stale_next K \<longrightarrow> link_inv s \<longrightarrow> link_inv s')"
  using run
proof (cases rule: netlink_recv_cases)
  case (2 dest len r)
  then show ?thesis using process_netlink_cmd_inv [OF assms(1-3) _ 2(1)] by simp
qed (use assms in simp)

section \<open>Sequences of commands\<close>

text \<open>
  What a system that handles one input after the other needs to keep an invariant.
\<close>

locale command_system =
  fixes step :: "'m \<Rightarrow> 's \<Rightarrow> 's option" and inv :: "'s \<Rightarrow> bool"
  assumes step_inv: "inv s \<Longrightarrow> step m s = Some s' \<Longrightarrow> inv s'"
begin

fun run_all :: "'m list \<Rightarrow> 's \<Rightarrow> 's option" where
  "run_all [] s = Some s"
| "run_all (m # ms) s = Option.bind (step m s) (run_all ms)"

lemma run_all_inv: "run_all ms s = Some s' \<Longrightarrow> inv s \<Longrightarrow> inv s'"
  by (induction ms arbitrary: s) (auto simp: bind_eq_Some_conv dest: step_inv)

lemma run_all_append: "run_all (ms @ ns) s = Option.bind (run_all ms s) (run_all ns)"
  by (induction ms arbitrary: s) (auto simp: Option.bind_assoc intro!: Option.bind_cong)

end

definition netlink_inv :: "'w kernel \<Rightarrow> 'w kstate \<Rightarrow> bool" where
  "netlink_inv K s \<longleftrightarrow> rbtree_laws K \<and> stale_next K \<and> config_inv s \<and> link_inv s"

interpretation packets: command_system "netlink_recv_packet K" "netlink_inv K" for K
  by unfold_locales (auto simp: netlink_inv_def dest: netlink_recv_packet_inv intro: stale_next_in_tree)

lemma receive_user_sk_run_all: "netlink_receive_user_sk K q s = packets.run_all K q s"
  by (induction q arbitrary: s) (auto intro!: Option.bind_cong)

lemma netlink_receive_user_sk_inv: "netlink_receive_user_sk K q s = Some s' \<Longrightarrow> netlink_inv K s \<Longrightarrow> netlink_inv K s'"
  unfolding receive_user_sk_run_all by (rule packets.run_all_inv)

end
