(* ===== verification/Agent.thy ===== *)
theory Agent
  imports Netlink
begin

text \<open>
  The user-space agent's side of the netlink interface, \<open>communicate/communicate.c\<close>: the
  socket, the commands to the module, the thread that receives its messages. What it calls of
  the C library is the record \<open>libc\<close>; a block of memory is the list of its bytes, and an
  access outside of it faults. Output to the terminal is left out, but not the strings it reads.
\<close>

section \<open>Blocks of bytes\<close>

definition blk_read :: "int \<Rightarrow> int \<Rightarrow> byte list \<Rightarrow> byte list option" where
  "blk_read off n b =
     (if 0 \<le> off \<and> 0 \<le> n \<and> off + n \<le> int (length b) then Some (field (nat off) (nat n) b) else None)"

definition blk_write :: "int \<Rightarrow> byte list \<Rightarrow> byte list \<Rightarrow> byte list option" where
  "blk_write off d b =
     (if 0 \<le> off \<and> off + int (length d) \<le> int (length b)
      then Some (take (nat off) b @ d @ drop (nat off + length d) b) else None)"

lemma blk_read_at:
  "off = int (length a) \<Longrightarrow> n = int (length b) \<Longrightarrow> blk_read off n (a @ b @ c) = Some b"
  by (simp add: blk_read_def field_def)

lemma blk_write_at:
  "off = int (length a) \<Longrightarrow> length d = length b \<Longrightarrow> blk_write off d (a @ b @ c) = Some (a @ d @ c)"
  by (simp add: blk_write_def)

lemma blk_write_length: "blk_write off d b = Some b' \<Longrightarrow> length b' = length b"
  by (auto simp: blk_write_def split: if_splits)

section \<open>The C library and the state\<close>

text \<open>
  \<open>l_malloc\<close> gives a block with whatever it contains; \<open>l_recvmsg\<close> the result of the call and
  the bytes it stored.
\<close>

record 'w libc =
  l_socket :: "int \<Rightarrow> 'w \<Rightarrow> int \<times> 'w"
  l_bind :: "int \<Rightarrow> u32 \<Rightarrow> 'w \<Rightarrow> int \<times> 'w"
  l_sendmsg :: "int \<Rightarrow> byte list \<Rightarrow> 'w \<Rightarrow> int \<times> 'w"
  l_recvmsg :: "int \<Rightarrow> nat \<Rightarrow> 'w \<Rightarrow> (int \<times> byte list) \<times> 'w"
  l_close :: "int \<Rightarrow> 'w \<Rightarrow> 'w"
  l_malloc :: "nat \<Rightarrow> 'w \<Rightarrow> byte list option \<times> 'w"
  l_pthread_create :: "'w \<Rightarrow> int \<times> 'w"

record sockaddr_nl =
  nl_family :: u16
  nl_pad :: u16
  nl_pid :: u32
  nl_groups :: u32

record netlink_sock =
  sock :: int
  dest :: sockaddr_nl
  src :: sockaddr_nl

text \<open>\<open>blocks\<close> counts the live blocks of \<open>malloc\<close>, \<open>threads\<close> the receiving threads.\<close>

record 'w agent =
  p_sock :: "netlink_sock option"
  DealKernelMsgCallback :: "(int \<Rightarrow> int \<Rightarrow> 'w \<Rightarrow> int \<times> 'w) option"
  blocks :: nat
  threads :: nat
  aworld :: 'w

definition NET_MEM :: int where "NET_MEM = 3"
definition NET_SOCK :: int where "NET_SOCK = 4"
definition USER_NETLINK_CMD :: int where "USER_NETLINK_CMD = 25"
definition MAXMSGLEN :: nat where "MAXMSGLEN = 1024 * 1024"
definition AF_NETLINK :: u16 where "AF_NETLINK = 16"

definition sizeof_netlink_sock :: nat where "sizeof_netlink_sock = 28"
definition sizeof_REALTIME_BACKUP_DATA :: nat where "sizeof_REALTIME_BACKUP_DATA = 548"

definition NLMSG_SPACE :: "nat \<Rightarrow> nat" where
  "NLMSG_SPACE len = (len + NLMSG_HDRLEN + 3) div 4 * 4"

definition a_malloc :: "'w libc \<Rightarrow> nat \<Rightarrow> 'w agent \<Rightarrow> byte list option \<times> 'w agent" where
  "a_malloc L n s = (let (p, w) = l_malloc L n (aworld s); s = s\<lparr>aworld := w\<rparr>
     in (p, if p = None then s else s\<lparr>blocks := blocks s + 1\<rparr>))"

definition a_free :: "'w agent \<Rightarrow> 'w agent" where
  "a_free s = s\<lparr>blocks := blocks s - 1\<rparr>"

definition RegisterUserAppNotify :: "(int \<Rightarrow> int \<Rightarrow> 'w \<Rightarrow> int \<times> 'w) option \<Rightarrow> 'w agent \<Rightarrow> 'w agent" where
  "RegisterUserAppNotify f s = s\<lparr>DealKernelMsgCallback := f\<rparr>"

section \<open>The socket\<close>

definition netlink_sock_init ::
  "'w libc \<Rightarrow> netlink_sock \<Rightarrow> u32 \<Rightarrow> int \<Rightarrow> 'w agent \<Rightarrow> int \<times> netlink_sock \<times> 'w agent" where
  "netlink_sock_init L p module protocol s =
     (let (fd, w) = l_socket L protocol (aworld s); s = s\<lparr>aworld := w\<rparr>; p = p\<lparr>sock := fd\<rparr>
      in if sock p < 0 then (NET_SOCK, p, s)
         else let p = p\<lparr>src := \<lparr>nl_family = AF_NETLINK, nl_pad = 0, nl_pid = module, nl_groups = 0\<rparr>\<rparr>;
                  (r, w) = l_bind L (sock p) (nl_pid (src p)) (aworld s); s = s\<lparr>aworld := w\<rparr>
              in if r < 0 then (NET_SOCK, p, s)
                 else (NET_OK, p\<lparr>dest := \<lparr>nl_family = AF_NETLINK, nl_pad = 0, nl_pid = 0, nl_groups = 0\<rparr>\<rparr>, s))"

definition zero_addr :: sockaddr_nl where
  "zero_addr = \<lparr>nl_family = 0, nl_pad = 0, nl_pid = 0, nl_groups = 0\<rparr>"

definition zero_sock :: netlink_sock where
  "zero_sock = \<lparr>sock = 0, dest = zero_addr, src = zero_addr\<rparr>"

definition netlink_sock_deinit :: "'w libc \<Rightarrow> netlink_sock \<Rightarrow> 'w agent \<Rightarrow> int \<times> netlink_sock \<times> 'w agent" where
  "netlink_sock_deinit L p s = (NET_OK, zero_sock, s\<lparr>aworld := l_close L (sock p) (aworld s)\<rparr>)"

text \<open>
  Without memory the socket is initialised through NULL. The fields of the new block are all
  assigned before they are read. The thread is started whether there is a socket or not.
\<close>

definition InitCommunicate :: "'w libc \<Rightarrow> 'w agent \<Rightarrow> (int \<times> 'w agent) option" where
  "InitCommunicate L s =
     (if p_sock s \<noteq> None then Some (NET_OK, s)
      else case a_malloc L sizeof_netlink_sock s of
          (None, s) \<Rightarrow> None
        | (Some _, s) \<Rightarrow>
            let (ret, p, s) = netlink_sock_init L zero_sock (word_of_int RTB_CMD) USER_NETLINK_CMD s;
                s = (if ret \<noteq> NET_OK then (a_free s)\<lparr>p_sock := None\<rparr> else s\<lparr>p_sock := Some p\<rparr>);
                (err, w) = l_pthread_create L (aworld s); s = s\<lparr>aworld := w\<rparr>
            in Some (ret, if err = 0 then s\<lparr>threads := threads s + 1\<rparr> else s))"

text \<open>The block of the socket is not freed, and the thread goes on.\<close>

definition UnInitCommunicate :: "'w libc \<Rightarrow> 'w agent \<Rightarrow> 'w agent" where
  "UnInitCommunicate L s =
     (case p_sock s of
        None \<Rightarrow> s
      | Some p \<Rightarrow> let (_, _, s) = netlink_sock_deinit L p s in s\<lparr>p_sock := None\<rparr>)"

section \<open>Messages\<close>

definition enc_nlmsghdr :: "nlmsghdr \<Rightarrow> byte list" where
  "enc_nlmsghdr h = le_enc 4 (nlmsg_len h) @ le_enc 2 (nlmsg_type h) @ le_enc 2 (nlmsg_flags h) @
     le_enc 4 (nlmsg_seq h) @ le_enc 4 (nlmsg_pid h)"

interpretation nlh: fixed_codec enc_nlmsghdr dec_nlmsghdr 16 "\<lambda>_. True"
  by unfold_locales (simp_all add: enc_nlmsghdr_def dec_nlmsghdr_def field_append1 field_append2 field_exact
      field_def le_dec_enc)

text \<open>The header both directions fill in, in front of a zeroed buffer.\<close>

definition nl_buffer :: "netlink_sock \<Rightarrow> int \<Rightarrow> nat \<Rightarrow> byte list \<Rightarrow> byte list" where
  "nl_buffer p ty space buf =
     enc_nlmsghdr \<lparr>nlmsg_len = of_nat space, nlmsg_type = word_of_int ty, nlmsg_flags = 0, nlmsg_seq = 0,
       nlmsg_pid = nl_pid (src p)\<rparr> @ drop NLMSG_HDRLEN buf"

definition netlink_send ::
  "'w libc \<Rightarrow> netlink_sock \<Rightarrow> int \<Rightarrow> byte list \<Rightarrow> int \<Rightarrow> 'w agent \<Rightarrow> (int \<times> 'w agent) option" where
  "netlink_send L p ty sbuf slen s =
     (case a_malloc L (NLMSG_SPACE MAXMSGLEN) s of
        (None, s) \<Rightarrow> Some (NET_MEM, s)
      | (Some _, s) \<Rightarrow>
          do { d \<leftarrow> blk_read 0 slen sbuf;
               buf \<leftarrow> blk_write (int NLMSG_HDRLEN) d (replicate (NLMSG_SPACE MAXMSGLEN) 0);
               let space = NLMSG_SPACE (nat slen);
               let (ret, w) = l_sendmsg L (sock p) (take space (nl_buffer p ty space buf)) (aworld s);
               let s = a_free (s\<lparr>aworld := w\<rparr>);
               Some (if ret < 0 then NET_SOCK else NET_OK, s) })"

text \<open>
  What arrives replaces the front of the buffer; \<open>rbuf\<close> then gets as many bytes as the header
  of the message says, whatever its own size.
\<close>

definition netlink_recv ::
  "'w libc \<Rightarrow> netlink_sock \<Rightarrow> int \<Rightarrow> byte list \<Rightarrow> int \<Rightarrow> 'w agent \<Rightarrow> (int \<times> byte list \<times> int \<times> 'w agent) option" where
  "netlink_recv L p ty rbuf rlen s =
     (case a_malloc L (NLMSG_SPACE MAXMSGLEN) s of
        (None, s) \<Rightarrow> Some (NET_MEM, rbuf, rlen, s)
      | (Some _, s) \<Rightarrow>
          let space = NLMSG_SPACE MAXMSGLEN;
              buf = nl_buffer p ty space (replicate space 0);
              ((ret, got), w) = l_recvmsg L (sock p) space (aworld s);
              s = s\<lparr>aworld := w\<rparr>
          in if ret < 0 then Some (NET_SOCK, rbuf, rlen, a_free s)
             else let got = take space got; buf = got @ drop (length got) buf;
                      n = uint (nlmsg_len (dec_nlmsghdr buf))
                  in do { d \<leftarrow> blk_read (int NLMSG_HDRLEN) n buf;
                          rbuf \<leftarrow> blk_write 0 d rbuf;
                          Some (NET_OK, rbuf, as_int n, a_free s) })"

section \<open>Commands\<close>

text \<open>The items of the message are printed, as many as it says it has.\<close>

fun print_items :: "nat \<Rightarrow> nat \<Rightarrow> byte list \<Rightarrow> unit option" where
  "print_items i 0 b = Some ()"
| "print_items i (Suc n) b =
     do { _ \<leftarrow> blk_read (int (292 + i * sizeof_FILTER_ITEM)) 4 b;
          _ \<leftarrow> c_strlen (drop (292 + i * sizeof_FILTER_ITEM + 4) b);
          print_items (Suc i) n b }"

text \<open>
  The message comes from \<open>malloc\<close> and is filled in as far as the caller's data goes. The
  caller's block is changed: its directory gets a final slash. The result is the value
  returned, the block, and the state.
\<close>

definition append_slash :: "byte list \<Rightarrow> byte list option" where
  "append_slash d =
     do { len \<leftarrow> c_strlen (drop 24 d);
          if d ! (24 + len) \<noteq> 0x2F then blk_write (int (24 + len)) [0x2F] d else Some d }"

definition fill_message :: "byte list \<Rightarrow> byte list \<Rightarrow> byte list option" where
  "fill_message pFN d =
     do { c \<leftarrow> blk_read 0 (uint (le_dec (take 4 d) :: u32)) d;
          pFN \<leftarrow> blk_write 8 c pFN;
          _ \<leftarrow> c_strlen (drop 32 pFN);
          _ \<leftarrow> print_items 0 (unat (le_dec (field 28 4 pFN) :: u32)) pFN;
          Some pFN }"

definition SendConfig ::
  "'w libc \<Rightarrow> byte list option \<Rightarrow> u32 \<Rightarrow> 'w agent \<Rightarrow> (int \<times> byte list option \<times> 'w agent) option" where
  "SendConfig L pBackupData msg_type s =
     (case p_sock s of
        None \<Rightarrow> Some (-2, pBackupData, s)
      | Some p \<Rightarrow>
          let ulFnSize = (case pBackupData of
                None \<Rightarrow> int sizeof_FILEREPL_NOTIFICATION
              | Some d \<Rightarrow> as_int (uint (le_dec (take 4 d) :: u32) + int sizeof_FILEREPL_NOTIFICATION
                  - int sizeof_REALTIME_BACKUP_DATA))
          in case a_malloc L (unat (word_of_int ulFnSize :: u64)) s of
               (None, s) \<Rightarrow> Some (-3, pBackupData, s)
             | (Some pFN, s) \<Rightarrow>
                 do { pFN \<leftarrow> blk_write 0 (le_enc 4 msg_type) pFN;
                      (pFN, pBackupData) \<leftarrow> (case pBackupData of
                          None \<Rightarrow> Some (pFN, None)
                        | Some d \<Rightarrow> do { d \<leftarrow> append_slash d; pFN \<leftarrow> fill_message pFN d; Some (pFN, Some d) });
                      (ret, s) \<leftarrow> netlink_send L p RTB_CMD pFN ulFnSize s;
                      Some (ret, pBackupData, a_free s) })"

definition QueryDriverStatus where "QueryDriverStatus L = SendConfig L None NOTIFY_TYPE_QUERY_RUNNING_STATUS"
definition QueryLastShutDownStatus where
  "QueryLastShutDownStatus L = SendConfig L None NOTIFY_TYPE_QUERY_LAST_SHUTDOWN_STATUS"
definition ResetLastShutDownStatus where
  "ResetLastShutDownStatus L = SendConfig L None NOTIFY_TYPE_RESET_LAST_SHUTDOWN_STATUS"
definition AddBackupSet where "AddBackupSet L d = SendConfig L (Some d) NOTIFY_TYPE_ADDSET"
definition AddBackupItems where "AddBackupItems L d = SendConfig L (Some d) NOTIFY_TYPE_ADDITEM"
definition DelBackupSet where "DelBackupSet L d = SendConfig L (Some d) NOTIFY_TYPE_DELSET"
definition DelBackupItems where "DelBackupItems L d = SendConfig L (Some d) NOTIFY_TYPE_DELITEM"
definition DelAllBackup where "DelAllBackup L = SendConfig L None NOTIFY_TYPE_DELALL"

section \<open>The receiving thread\<close>

text \<open>\<open>OnNotifyUserApp\<close> returns no value when there is no callback; nothing uses the value.\<close>

definition OnNotifyUserApp :: "int \<Rightarrow> int \<Rightarrow> 'w agent \<Rightarrow> int option \<times> 'w agent" where
  "OnNotifyUserApp ty status s =
     (case DealKernelMsgCallback s of
        None \<Rightarrow> (None, s)
      | Some f \<Rightarrow> let (r, w) = f ty status (aworld s) in (Some r, s\<lparr>aworld := w\<rparr>))"

definition ProcessRecvMessage :: "byte list \<Rightarrow> 'w agent \<Rightarrow> int option \<times> 'w agent" where
  "ProcessRecvMessage notification s =
     OnNotifyUserApp (as_int (uint (le_dec (field 0 4 notification) :: u32)))
       (as_int (uint (le_dec (field 4 4 notification) :: u32))) s"

text \<open>
  One round of \<open>thread_entry\<close>, whose loop has no end; \<open>replnotify\<close> and \<open>rlen\<close> live across
  rounds. The socket is read through the global pointer in every round.
\<close>

definition thread_round :: "'w libc \<Rightarrow> byte list \<times> int \<times> 'w agent \<Rightarrow> (byte list \<times> int \<times> 'w agent) option" where
  "thread_round L = (\<lambda>(replnotify, rlen, s).
     do { p \<leftarrow> p_sock s;
          (ret, replnotify, rlen, s) \<leftarrow> netlink_recv L p RTB_CMD replnotify rlen s;
          if ret = NET_OK
          then do { _ \<leftarrow> c_strlen (drop 32 replnotify);
                    Some (replnotify, rlen, snd (ProcessRecvMessage replnotify s)) }
          else Some (replnotify, rlen, s) })"

fun thread_rounds :: "nat \<Rightarrow> 'w libc \<Rightarrow> byte list \<times> int \<times> 'w agent \<Rightarrow> (byte list \<times> int \<times> 'w agent) option" where
  "thread_rounds 0 L x = Some x"
| "thread_rounds (Suc n) L x = do { x \<leftarrow> thread_round L x; thread_rounds n L x }"

definition thread_entry :: "nat \<Rightarrow> 'w libc \<Rightarrow> 'w agent \<Rightarrow> (byte list \<times> int \<times> 'w agent) option" where
  "thread_entry n L s = thread_rounds n L (replicate sizeof_FILEREPL_NOTIFICATION 0, 0, s)"

end
