(* ===== verification/RtDriverControl.thy ===== *)
theory RtDriverControl
  imports Agent
begin

text \<open>
  \<open>communicate/rtcommunicate.c\<close>: the native methods of the Java class \<open>RtDriverControl\<close>. A
  request is a Java byte array, parsed into a block of backup data and sent to the module. The
  functions of the Java runtime are the record \<open>jni\<close>.
\<close>

section \<open>The request\<close>

text \<open>The characters are signed; each summand is masked after the shift, in 32 bits.\<close>

definition GetIntFromBuffer :: "byte list option \<Rightarrow> int option" where
  "GetIntFromBuffer pBuffer =
     (case pBuffer of
        None \<Rightarrow> Some 0
      | Some b \<Rightarrow>
          if length b < 4 then None
          else let c = (\<lambda>i. scast (b ! i) :: u32) in
            Some (sint ((0x000000FF AND c 0) + (0x0000FF00 AND push_bit 8 (c 1)) +
              (0xFF0000 AND push_bit 16 (c 2)) + (0xFF000000 AND push_bit 24 (c 3)))))"

text \<open>The integer at an offset of the array, and the array position behind it.\<close>

definition next_int :: "byte list \<Rightarrow> int \<Rightarrow> (int \<times> int) option" where
  "next_int szData iOffset =
     do { b \<leftarrow> blk_read iOffset 4 szData; n \<leftarrow> GetIntFromBuffer (Some b); Some (n, as_int (iOffset + 4)) }"

text \<open>\<open>memcpy\<close> of \<open>n\<close> bytes of the array into the block, at \<open>off\<close>; no size is checked.\<close>

definition next_bytes :: "byte list \<Rightarrow> int \<Rightarrow> int \<Rightarrow> int \<Rightarrow> byte list \<Rightarrow> (byte list \<times> int) option" where
  "next_bytes szData iOffset n off blk =
     do { d \<leftarrow> blk_read iOffset n szData; blk \<leftarrow> blk_write off d blk; Some (blk, as_int (iOffset + n)) }"

fun get_items :: "nat \<Rightarrow> nat \<Rightarrow> byte list \<Rightarrow> int \<Rightarrow> byte list \<Rightarrow> byte list option" where
  "get_items i 0 szData iOffset blk = Some blk"
| "get_items i (Suc n) szData iOffset blk =
     do { (iItemLen, iOffset) \<leftarrow> next_int szData iOffset;
          (ty, iOffset) \<leftarrow> next_int szData iOffset;
          blk \<leftarrow> blk_write (int (284 + i * sizeof_FILTER_ITEM)) (le_enc 4 (word_of_int ty :: u32)) blk;
          (blk, iOffset) \<leftarrow> next_bytes szData iOffset (as_int (iItemLen - 4))
            (int (284 + i * sizeof_FILTER_ITEM + 4)) blk;
          get_items (Suc i) n szData iOffset blk }"

text \<open>
  The block gets one item more than announced, since the structure already holds one. It is
  zeroed without a check of \<open>malloc\<close>; the array the Java runtime lent is not given back.
\<close>

definition GetBackSetInfo :: "'w libc \<Rightarrow> byte list \<Rightarrow> 'w agent \<Rightarrow> (byte list option \<times> 'w agent) option" where
  "GetBackSetInfo L BackupSet s =
     (let iSize = as_int (int (length BackupSet)) in
      if iSize \<le> 4 then Some (None, s)
      else do { (iInfoSize, iOffset) \<leftarrow> next_int BackupSet 0;
                if iSize \<noteq> iInfoSize then Some (None, s)
                else do {
                  (iItemCount, iOffset) \<leftarrow> next_int BackupSet iOffset;
                  let RT_BACKSET_LEN = as_int (int sizeof_REALTIME_BACKUP_DATA + int sizeof_FILTER_ITEM * iItemCount);
                  let size = unat (word_of_int RT_BACKSET_LEN :: u64);
                  case a_malloc L size s of
                    (None, s) \<Rightarrow> None
                  | (Some _, s) \<Rightarrow>
                      do { blk \<leftarrow> blk_write 0 (le_enc 4 (word_of_int RT_BACKSET_LEN :: u32)) (replicate size 0);
                           blk \<leftarrow> blk_write 20 (le_enc 4 (word_of_int iItemCount :: u32)) blk;
                           (iGuidLen, iOffset) \<leftarrow> next_int BackupSet iOffset;
                           (blk, iOffset) \<leftarrow> next_bytes BackupSet iOffset iGuidLen 4 blk;
                           (iCacheLen, iOffset) \<leftarrow> next_int BackupSet iOffset;
                           (blk, iOffset) \<leftarrow> next_bytes BackupSet iOffset iCacheLen 24 blk;
                           blk \<leftarrow> get_items 0 (nat iItemCount) BackupSet iOffset blk;
                           Some (Some blk, s) } } })"

section \<open>The native methods\<close>

text \<open>All the methods that send a request do so in the same way; none frees the block.\<close>

definition send_request ::
  "('w libc \<Rightarrow> byte list \<Rightarrow> 'w agent \<Rightarrow> (int \<times> byte list option \<times> 'w agent) option) \<Rightarrow>
   'w libc \<Rightarrow> byte list \<Rightarrow> 'w agent \<Rightarrow> (int \<times> 'w agent) option" where
  "send_request op L BackupSet s =
     do { (pBackSetData, s) \<leftarrow> GetBackSetInfo L BackupSet s;
          case pBackSetData of
            None \<Rightarrow> Some (-1, s)
          | Some d \<Rightarrow> do { (ret, _, s) \<leftarrow> op L d s; Some (ret, s) } }"

definition jni_AddBackupSet where "jni_AddBackupSet = send_request AddBackupSet"
definition jni_AddBackupItems where "jni_AddBackupItems = send_request AddBackupItems"
definition jni_DelBackupSet where "jni_DelBackupSet = send_request DelBackupSet"
definition jni_DelBackupItems where "jni_DelBackupItems = send_request DelBackupItems"

definition send_plain ::
  "('w agent \<Rightarrow> (int \<times> byte list option \<times> 'w agent) option) \<Rightarrow> 'w agent \<Rightarrow> (int \<times> 'w agent) option" where
  "send_plain op s = do { (ret, _, s) \<leftarrow> op s; Some (ret, s) }"

definition jni_DelAllBackup where "jni_DelAllBackup L = send_plain (DelAllBackup L)"
definition jni_QueryDriverStatus where "jni_QueryDriverStatus L = send_plain (QueryDriverStatus L)"
definition jni_QueryLastShutDownStatus where "jni_QueryLastShutDownStatus L = send_plain (QueryLastShutDownStatus L)"
definition jni_ResetLastShutDownStatus where "jni_ResetLastShutDownStatus L = send_plain (ResetLastShutDownStatus L)"

definition jni_ResetError :: int where "jni_ResetError = 0"

section \<open>Notifying the Java side\<close>

text \<open>
  \<open>Jvm\<close> and \<open>CallBackJavaObj\<close>. \<open>j_AttachCurrentThread\<close> gives the environment of the thread,
  or NULL; the code passes it the environment, NULL at that point, for the machine.
\<close>

record ('j, 'w) jni =
  j_AttachCurrentThread :: "'j option \<Rightarrow> 'w \<Rightarrow> 'j option \<times> 'w"
  j_NewGlobalRef :: "'j \<Rightarrow> 'w \<Rightarrow> 'j \<times> 'w"
  j_GetJavaVM :: "'j \<Rightarrow> 'j"
  j_GetObjectClass :: "'j \<Rightarrow> 'j \<Rightarrow> 'w \<Rightarrow> 'j option \<times> 'w"
  j_NotifyDriverMessage :: "'j \<Rightarrow> 'j \<Rightarrow> int \<Rightarrow> int \<Rightarrow> 'w \<Rightarrow> 'w"

record 'j jni_state =
  Jvm :: "'j option"
  CallBackJavaObj :: "'j option"

definition jni_SetDriverNotify ::
  "('j, 'w) jni \<Rightarrow> 'j \<Rightarrow> 'j \<Rightarrow> 'j jni_state \<Rightarrow> 'w \<Rightarrow> 'j jni_state \<times> 'w" where
  "jni_SetDriverNotify J env obj j w =
     (let (r, w) = j_NewGlobalRef J obj w in (j\<lparr>Jvm := Some (j_GetJavaVM J env), CallBackJavaObj := Some r\<rparr>, w))"

definition jni_Release :: "'j jni_state \<Rightarrow> 'j jni_state" where
  "jni_Release j = (if CallBackJavaObj j \<noteq> None then j\<lparr>CallBackJavaObj := None\<rparr> else j)"

definition NotifyManagerDriverMessage ::
  "('j, 'w) jni \<Rightarrow> int \<Rightarrow> int \<Rightarrow> 'j jni_state \<Rightarrow> 'w \<Rightarrow> 'w" where
  "NotifyManagerDriverMessage J jlMessage jlParam j w =
     (case (Jvm j, CallBackJavaObj j) of
        (Some vm, Some obj) \<Rightarrow>
          let (env, w) = j_AttachCurrentThread J None w in
          (case env of
             None \<Rightarrow> w
           | Some env \<Rightarrow>
               let (c, w) = j_GetObjectClass J env obj w
               in if c = None then w else j_NotifyDriverMessage J env obj jlMessage jlParam w)
      | _ \<Rightarrow> w)"

text \<open>The four bytes do not overlap, so the sum is the little-endian integer.\<close>

lemma masked_byte:
  "0x000000FF AND (scast (b :: byte) :: u32) = ucast b"
  "0x0000FF00 AND push_bit 8 (scast b :: u32) = push_bit 8 (ucast b)"
  "0xFF0000 AND push_bit 16 (scast b :: u32) = push_bit 16 (ucast b)"
  "0xFF000000 AND push_bit 24 (scast b :: u32) = push_bit 24 (ucast b)"
proof -
  have m: "(0x000000FF :: u32) = mask 8" "(0x0000FF00 :: u32) = push_bit 8 (mask 8)"
    "(0xFF0000 :: u32) = push_bit 16 (mask 8)" "(0xFF000000 :: u32) = push_bit 24 (mask 8)"
    by (simp_all add: mask_eq_exp_minus_1 push_bit_eq_mult)
  have top: "bit b (min 7 n) = bit b n" if "bit b n" for n
  proof -
    have "n < 8" using that bit_imp_le_length [of b n] by simp
    then show ?thesis by (simp add: min_absorb2)
  qed
  have low: "mask 8 AND (scast b :: u32) = ucast b"
    by (rule bit_word_eqI) (use top in \<open>auto simp: bit_simps min_absorb2 dest: bit_imp_le_length\<close>)
  show "0x000000FF AND (scast b :: u32) = ucast b"
    "0x0000FF00 AND push_bit 8 (scast b :: u32) = push_bit 8 (ucast b)"
    "0xFF0000 AND push_bit 16 (scast b :: u32) = push_bit 16 (ucast b)"
    "0xFF000000 AND push_bit 24 (scast b :: u32) = push_bit 24 (ucast b)"
    unfolding m push_bit_and [symmetric] low by (rule refl)+
qed

lemma bytes_disjoint:
  "ucast (a :: byte) + push_bit 8 (ucast (b :: byte)) + push_bit 16 (ucast (c :: byte)) + push_bit 24 (ucast (d :: byte))
   = (le_dec [a, b, c, d] :: u32)"
proof -
  have 1: "ucast a + push_bit 8 (ucast b) = (ucast a OR push_bit 8 (ucast b) :: u32)"
    by (rule disjunctive_add_eq_or, rule bit_word_eqI) (auto simp: bit_simps dest: bit_imp_le_length)
  have 2: "(ucast a OR push_bit 8 (ucast b)) + push_bit 16 (ucast c) =
      (ucast a OR push_bit 8 (ucast b) OR push_bit 16 (ucast c) :: u32)"
    by (subst disjunctive_add_eq_or) (rule bit_word_eqI, auto simp: bit_simps dest: bit_imp_le_length, simp add: or.assoc)
  have 3: "(ucast a OR push_bit 8 (ucast b) OR push_bit 16 (ucast c)) + push_bit 24 (ucast d) =
      (ucast a OR push_bit 8 (ucast b) OR push_bit 16 (ucast c) OR push_bit 24 (ucast d) :: u32)"
    by (subst disjunctive_add_eq_or) (rule bit_word_eqI, auto simp: bit_simps dest: bit_imp_le_length, simp add: or.assoc)
  show ?thesis unfolding 1 2 3 by (simp add: push_bit_or)
qed

lemma GetIntFromBuffer_le_dec:
  assumes "4 \<le> length b"
  shows "GetIntFromBuffer (Some b) = Some (sint (le_dec (take 4 b) :: u32))"
proof -
  obtain b0 b1 b2 b3 r where "b = b0 # b1 # b2 # b3 # r"
    using assms by (auto simp: numeral_eq_Suc Suc_le_length_iff)
  then show ?thesis
    using bytes_disjoint [of b0 b1 b2 b3] by (simp add: GetIntFromBuffer_def masked_byte del: le_dec.simps)
qed

end
