(* ===== verification/AgentProps.thy ===== *)
theory AgentProps
  imports RtDriverControl Example
begin

text \<open>
  From the Java array to the operation of the module: the layout of a request, the block the
  agent parses it into, the packet that block is sent in, and what the module reads there. The
  other way: the status message of the module and the call of the application.
\<close>

section \<open>Requests\<close>

text \<open>A request as the caller means it, and its layout in the array.\<close>

record request =
  rq_guid :: "byte list"
  rq_dir :: "byte list"
  rq_items :: "(u32 \<times> byte list) list"

definition enc_int :: "nat \<Rightarrow> byte list" where "enc_int n = le_enc 4 (of_nat n :: u32)"

definition item_bytes :: "u32 \<times> byte list \<Rightarrow> byte list" where
  "item_bytes it = enc_int (4 + length (snd it)) @ le_enc 4 (fst it) @ snd it"

definition request_body :: "request \<Rightarrow> byte list" where
  "request_body r = enc_int (length (rq_items r)) @ enc_int (length (rq_guid r)) @ rq_guid r @
     enc_int (length (rq_dir r)) @ rq_dir r @ concat (map item_bytes (rq_items r))"

definition request_bytes :: "request \<Rightarrow> byte list" where
  "request_bytes r = enc_int (4 + length (request_body r)) @ request_body r"

text \<open>The block of \<open>REALTIME_BACKUP_DATA\<close>; the last item is never filled.\<close>

definition item_image :: "u32 \<times> byte list \<Rightarrow> byte list" where
  "item_image it = le_enc 4 (fst it) @ pad 260 (snd it)"

definition backup_size :: "request \<Rightarrow> nat" where
  "backup_size r = sizeof_REALTIME_BACKUP_DATA + sizeof_FILTER_ITEM * length (rq_items r)"

definition backup_block :: "request \<Rightarrow> byte list" where
  "backup_block r = enc_int (backup_size r) @ rq_guid r @ enc_int (length (rq_items r)) @ pad 260 (rq_dir r) @
     concat (map item_image (rq_items r)) @ replicate sizeof_FILTER_ITEM 0"

text \<open>Fields fit, strings hold no NUL and leave room for theirs, and the request fits a message.\<close>

definition wf_request :: "request \<Rightarrow> bool" where
  "wf_request r \<longleftrightarrow> length (rq_guid r) = 16 \<and> length (rq_dir r) < 259 \<and> 0 \<notin> set (rq_dir r) \<and>
     list_all (\<lambda>(t, nm). length nm < 260 \<and> 0 \<notin> set nm) (rq_items r) \<and> length (rq_items r) < 3970"

lemma length_enc_int [simp]: "length (enc_int n) = 4"
  by (simp add: enc_int_def)

lemma length_item_bytes: "length (item_bytes it) = 8 + length (snd it)"
  by (simp add: item_bytes_def)

lemma length_item_image: "length (snd it) \<le> 260 \<Longrightarrow> length (item_image it) = 264"
  by (simp add: item_image_def length_pad)

section \<open>Parsing\<close>

lemma unat_int_u64: "n < 2 ^ 64 \<Longrightarrow> unat (word_of_int (int n) :: u64) = n"
  by (simp add: unat_u64)

lemma next_int_at:
  assumes "off = int (length a)" and "length a + 4 < 2 ^ 31"
  shows "next_int (a @ le_enc 4 (w :: u32) @ c) off = Some (sint w, off + 4)"
proof -
  have "blk_read off 4 (a @ le_enc 4 w @ c) = Some (le_enc 4 w)"
    by (rule blk_read_at) (use assms in simp_all)
  moreover have "as_int (off + 4) = off + 4" using assms by (intro as_int_id) simp_all
  ultimately show ?thesis
    by (simp add: next_int_def GetIntFromBuffer_le_dec le_dec_enc)
qed

lemma sint_of_nat: "n < 2 ^ 31 \<Longrightarrow> sint (of_nat n :: u32) = int n"
  using as_int_id [of "int n"] by (simp add: as_int_def)

lemma next_int_enc:
  assumes "off = int (length a)" and "length a + 4 < 2 ^ 31" and "n < 2 ^ 31"
  shows "next_int (a @ enc_int n @ c) off = Some (int n, off + 4)"
  using next_int_at [OF assms(1,2), of "of_nat n"] assms(3) by (simp add: enc_int_def sint_of_nat)

lemma next_bytes_at:
  assumes "off = int (length a)" and "n = int (length b)" and "length a + length b < 2 ^ 31"
    and "o' = int (length p)" and "length m = length b"
  shows "next_bytes (a @ b @ c) off n o' (p @ m @ q) = Some (p @ b @ q, off + n)"
proof -
  have "as_int (off + n) = off + n" using assms by (intro as_int_id) simp_all
  moreover have "blk_read off n (a @ b @ c) = Some b" using assms by (intro blk_read_at)
  moreover have "blk_write o' b (p @ m @ q) = Some (p @ b @ q)" using assms by (intro blk_write_at) simp_all
  ultimately show ?thesis by (simp add: next_bytes_def)
qed

lemma word_of_sint: "word_of_int (sint (w :: 'a::len word)) = w"
  by simp

lemma get_items_image:
  assumes "list_all (\<lambda>(t, nm). length nm \<le> 260) its"
    and "length a + length (concat (map item_bytes its)) < 2 ^ 31"
    and "length p = 284 + i * 264"
  shows "get_items i (length its) (a @ concat (map item_bytes its) @ c) (int (length a))
      (p @ replicate (264 * length its) 0 @ q) = Some (p @ concat (map item_image its) @ q)"
  using assms
proof (induction its arbitrary: i a p)
  case Nil
  then show ?case by simp
next
  case (Cons it its)
  obtain t nm where it: "it = (t, nm)" by (cases it)
  let ?r = "concat (map item_bytes its) @ c" and ?z = "replicate (264 * length its) 0 @ q"
  let ?A = "a @ enc_int (4 + length nm)" and ?B = "a @ enc_int (4 + length nm) @ le_enc 4 t"
  have nm: "length nm \<le> 260" using Cons.prems(1) it by simp
  have bound: "length a + (8 + length nm) + length (concat (map item_bytes its)) < 2 ^ 31"
    using Cons.prems(2) it by (simp add: length_item_bytes)
  have data: "a @ concat (map item_bytes (it # its)) @ c = a @ enc_int (4 + length nm) @ le_enc 4 t @ nm @ ?r"
    by (simp add: it item_bytes_def)
  have "(replicate 4 0 :: byte list) @ replicate (length nm) 0 @ replicate (260 - length nm) 0 = replicate 264 0"
    using nm by (simp flip: replicate_add)
  then have blk: "p @ replicate (264 * length (it # its)) 0 @ q =
      p @ replicate 4 0 @ (replicate (length nm) 0 @ replicate (260 - length nm) 0 @ ?z)"
    by (simp add: replicate_add)
  have i1: "next_int (a @ enc_int (4 + length nm) @ le_enc 4 t @ nm @ ?r) (int (length a)) =
      Some (int (4 + length nm), int (length a) + 4)"
    by (rule next_int_enc) (use bound in simp_all)
  have i2: "next_int (a @ enc_int (4 + length nm) @ le_enc 4 t @ nm @ ?r) (int (length a) + 4) =
      Some (sint t, int (length a) + 8)"
    using next_int_at [of "int (length a) + 4" ?A t "nm @ ?r"] bound by simp
  have w: "blk_write (int (284 + i * sizeof_FILTER_ITEM)) (le_enc 4 t) (p @ replicate 4 0 @
      (replicate (length nm) 0 @ replicate (260 - length nm) 0 @ ?z)) =
      Some (p @ le_enc 4 t @ (replicate (length nm) 0 @ replicate (260 - length nm) 0 @ ?z))"
    by (rule blk_write_at) (use Cons.prems(3) in \<open>simp_all add: sizeof_FILTER_ITEM_def\<close>)
  have len: "as_int (int (4 + length nm) - 4) = int (length nm)"
    using nm by (subst as_int_id) simp_all
  have b: "next_bytes (a @ enc_int (4 + length nm) @ le_enc 4 t @ nm @ ?r) (int (length a) + 8) (int (length nm))
      (int (284 + i * sizeof_FILTER_ITEM + 4))
      (p @ le_enc 4 t @ (replicate (length nm) 0 @ replicate (260 - length nm) 0 @ ?z)) =
      Some (p @ le_enc 4 t @ nm @ replicate (260 - length nm) 0 @ ?z, int (length a) + 8 + int (length nm))"
    using next_bytes_at [of "int (length a) + 8" ?B "int (length nm)" nm "int (284 + i * sizeof_FILTER_ITEM + 4)"
        "p @ le_enc 4 t" "replicate (length nm) 0" ?r "replicate (260 - length nm) 0 @ ?z"] bound Cons.prems(3)
    by (simp add: sizeof_FILTER_ITEM_def)
  have IH: "get_items (Suc i) (length its) ((a @ item_bytes it) @ ?r) (int (length (a @ item_bytes it)))
      ((p @ item_image it) @ ?z) = Some ((p @ item_image it) @ concat (map item_image its) @ q)"
    by (rule Cons.IH)
      (use Cons.prems bound it nm in \<open>simp_all add: length_item_bytes length_item_image\<close>)
  have img: "item_image it = le_enc 4 t @ nm @ replicate (260 - length nm) 0"
    "item_bytes it = enc_int (4 + length nm) @ le_enc 4 t @ nm"
    by (simp_all add: it item_image_def item_bytes_def pad_def)
  have pos: "int (length (a @ item_bytes it)) = int (length a) + 8 + int (length nm)"
    by (simp add: length_item_bytes it)
  have rest: "get_items (Suc i) (length its) (a @ enc_int (4 + length nm) @ le_enc 4 t @ nm @ ?r)
      (int (length a) + 8 + int (length nm)) (p @ le_enc 4 t @ nm @ replicate (260 - length nm) 0 @ ?z) =
      Some (p @ concat (map item_image (it # its)) @ q)"
    using IH unfolding pos unfolding img by (simp add: img)
  show ?case
    unfolding data blk unfolding list.size(4) add_Suc_right add_0_right get_items.simps
    by (simp only: i1 i2 w len b rest word_of_sint bind.bind_lunit prod.case)
qed

lemma wf_requestD:
  assumes "wf_request r"
  shows "length (rq_guid r) = 16" "length (rq_dir r) < 259" "0 \<notin> set (rq_dir r)"
    "list_all (\<lambda>(t, nm). length nm \<le> 260) (rq_items r)" "length (rq_items r) < 3970"
    "it \<in> set (rq_items r) \<Longrightarrow> length (snd it) < 260" "it \<in> set (rq_items r) \<Longrightarrow> 0 \<notin> set (snd it)"
  using assms by (fastforce simp: wf_request_def list_all_iff)+

lemma length_items_le:
  "list_all (\<lambda>(t, nm). length nm \<le> 260) its \<Longrightarrow> length (concat (map item_bytes its)) \<le> 268 * length its"
  by (induction its) (auto simp: length_item_bytes)

lemma length_request_body: "wf_request r \<Longrightarrow>
    length (request_body r) = 28 + length (rq_dir r) + length (concat (map item_bytes (rq_items r)))"
  using wf_requestD(1) [of r] by (simp add: request_body_def)

lemma request_bound: "wf_request r \<Longrightarrow> length (request_body r) < 1100000"
  using length_request_body [of r] length_items_le [of "rq_items r"] wf_requestD [of r] by simp

lemma backup_size_bound: "wf_request r \<Longrightarrow> backup_size r < 1048560"
  using wf_requestD(5) [of r]
  by (simp add: backup_size_def sizeof_REALTIME_BACKUP_DATA_def sizeof_FILTER_ITEM_def)

text \<open>The array is parsed into the block, which costs one block of memory.\<close>

lemma GetBackSetInfo_request:
  assumes wf: "wf_request r" and mem: "a_malloc L (backup_size r) s = (Some b, s1)"
  shows "GetBackSetInfo L (request_bytes r) s = Some (Some (backup_block r), s1)"
proof -
  let ?n = "length (rq_items r)" and ?g = "rq_guid r" and ?d = "rq_dir r"
  let ?N = "enc_int ?n" and ?G = "enc_int (length ?g)" and ?D = "enc_int (length ?d)"
  let ?S = "enc_int (4 + length (request_body r))" and ?I = "concat (map item_bytes (rq_items r))"
  note w = wf_requestD [OF wf] request_bound [OF wf] length_request_body [OF wf] backup_size_bound [OF wf]
  have data: "request_bytes r = ?S @ ?N @ ?G @ ?g @ ?D @ ?d @ ?I"
    by (simp add: request_bytes_def request_body_def)
  have len: "as_int (int (length (request_bytes r))) = int (4 + length (request_body r))"
    using w(8) by (subst as_int_id) (simp_all add: request_bytes_def)
  have big: "\<not> int (4 + length (request_body r)) \<le> 4" using w(9) by simp
  have i0: "next_int (request_bytes r) 0 = Some (int (4 + length (request_body r)), 4)"
    using next_int_enc [of 0 "[]"] w(8) unfolding data by simp
  have i1: "next_int (request_bytes r) 4 = Some (int ?n, 8)"
    using next_int_enc [of 4 ?S] w(5) unfolding data by simp
  have i2: "next_int (request_bytes r) 8 = Some (16, 12)"
    using next_int_enc [of 8 "?S @ ?N" 16] w(1) unfolding data by simp
  have i3: "next_int (request_bytes r) 28 = Some (int (length ?d), 32)"
    using next_int_enc [of 28 "?S @ ?N @ ?G @ ?g" "length ?d"] w(1,2) unfolding data by simp
  have size: "as_int (int sizeof_REALTIME_BACKUP_DATA + int sizeof_FILTER_ITEM * int ?n) = int (backup_size r)"
  proof -
    have "int sizeof_REALTIME_BACKUP_DATA + int sizeof_FILTER_ITEM * int ?n = int (backup_size r)"
      by (simp add: backup_size_def)
    then show ?thesis using w(10) by (simp add: as_int_id)
  qed
  have size': "unat (word_of_int (int (backup_size r)) :: u64) = backup_size r"
    using unat_int_u64 [of "backup_size r"] w(10) by simp
  have whole: "replicate (backup_size r) 0 =
      replicate 4 0 @ replicate 16 0 @ replicate 4 0 @ replicate (length ?d) 0 @ replicate (260 - length ?d) 0 @
      replicate (264 * ?n) (0 :: byte) @ replicate sizeof_FILTER_ITEM 0"
    using w(2) by (simp add: backup_size_def sizeof_REALTIME_BACKUP_DATA_def sizeof_FILTER_ITEM_def flip: replicate_add)
  let ?Z = "replicate (260 - length ?d) (0 :: byte)" and ?T = "replicate sizeof_FILTER_ITEM (0 :: byte)"
  let ?J = "replicate (264 * ?n) (0 :: byte)" and ?B = "enc_int (backup_size r)"
  have w1: "blk_write 0 (le_enc 4 (word_of_int (int (backup_size r)) :: u32)) (replicate (backup_size r) 0) =
      Some (?B @ replicate 16 0 @ replicate 4 0 @ replicate (length ?d) 0 @ ?Z @ ?J @ ?T)"
    unfolding whole using blk_write_at [of 0 "[]" ?B "replicate 4 0"] by (simp add: enc_int_def)
  have w2: "blk_write 20 (le_enc 4 (word_of_int (int ?n) :: u32))
      (?B @ replicate 16 0 @ replicate 4 0 @ replicate (length ?d) 0 @ ?Z @ ?J @ ?T) =
      Some (?B @ replicate 16 0 @ ?N @ replicate (length ?d) 0 @ ?Z @ ?J @ ?T)"
    using blk_write_at [of 20 "?B @ replicate 16 0" ?N "replicate 4 0"] by (simp add: enc_int_def)
  have w3: "next_bytes (request_bytes r) 12 16 4
      (?B @ replicate 16 0 @ ?N @ replicate (length ?d) 0 @ ?Z @ ?J @ ?T) =
      Some (?B @ ?g @ ?N @ replicate (length ?d) 0 @ ?Z @ ?J @ ?T, 28)"
    using next_bytes_at [of 12 "?S @ ?N @ ?G" 16 ?g 4 ?B "replicate 16 0"] w(1) unfolding data by simp
  have w4: "next_bytes (request_bytes r) 32 (int (length ?d)) 24
      (?B @ ?g @ ?N @ replicate (length ?d) 0 @ ?Z @ ?J @ ?T) =
      Some (?B @ ?g @ ?N @ ?d @ ?Z @ ?J @ ?T, 32 + int (length ?d))"
    using next_bytes_at [of 32 "?S @ ?N @ ?G @ ?g @ ?D" "int (length ?d)" ?d 24 "?B @ ?g @ ?N" "replicate (length ?d) 0"]
      w(1,2) unfolding data by simp
  have w5: "get_items 0 ?n (request_bytes r) (32 + int (length ?d)) (?B @ ?g @ ?N @ ?d @ ?Z @ ?J @ ?T) =
      Some (backup_block r)"
    using get_items_image [of "rq_items r" "?S @ ?N @ ?G @ ?g @ ?D @ ?d" "?B @ ?g @ ?N @ ?d @ ?Z" 0 "[]" ?T]
      w(1,2,4,8,9) unfolding data by (simp add: backup_block_def pad_def)
  show ?thesis
    unfolding GetBackSetInfo_def Let_def len using big
    by (simp only: if_False i0 bind.bind_lunit prod.case i1 size size' mem w1 w2 i2 w3 i3 w4 w5 nat_int
        option.case simp_thms)
qed

section \<open>Sending\<close>

text \<open>
  What the agent relies on: memory is there, of the size asked for. \<open>command_packet\<close> is what
  goes over the socket, \<open>request_message\<close> the notification in it; four bytes of it are what
  \<open>malloc\<close> left there.
\<close>

definition memory_ok :: "'w libc \<Rightarrow> bool" where
  "memory_ok L \<longleftrightarrow> (\<forall>n w. \<exists>b w'. l_malloc L n w = (Some b, w') \<and> length b = n)"

definition command_packet :: "netlink_sock \<Rightarrow> byte list \<Rightarrow> byte list" where
  "command_packet p m = enc_nlmsghdr \<lparr>nlmsg_len = of_nat (16 + length m), nlmsg_type = RTB_GET, nlmsg_flags = 0,
     nlmsg_seq = 0, nlmsg_pid = nl_pid (src p)\<rparr> @ m"

definition request_message :: "u32 \<Rightarrow> byte list \<Rightarrow> request \<Rightarrow> byte list" where
  "request_message ty junk r = le_enc 4 ty @ junk @ backup_block r"

definition slashed :: "request \<Rightarrow> request" where
  "slashed r = r\<lparr>rq_dir := rq_dir r @ [0x2F]\<rparr>"

lemma a_malloc_ok:
  assumes "memory_ok L"
  obtains b w where "a_malloc L n s = (Some b, s\<lparr>aworld := w, blocks := blocks s + 1\<rparr>)" "length b = n"
proof -
  obtain b w where "l_malloc L n (aworld s) = (Some b, w)" "length b = n"
    using assms unfolding memory_ok_def by blast
  with that [of b w] show thesis by (simp add: a_malloc_def)
qed

lemma netlink_send_ok:
  assumes mem: "a_malloc L (NLMSG_SPACE MAXMSGLEN) s = (Some b, s1)"
    and len: "length m \<le> 1048576" "length m mod 4 = 0"
  shows "netlink_send L p RTB_CMD m (int (length m)) s =
    (case l_sendmsg L (sock p) (command_packet p m) (aworld s1) of
       (ret, w) \<Rightarrow> Some (if ret < 0 then NET_SOCK else NET_OK, a_free (s1\<lparr>aworld := w\<rparr>)))"
proof -
  let ?Z = "replicate (1048576 - length m) (0 :: byte)"
  have whole: "replicate (NLMSG_SPACE MAXMSGLEN) 0 = replicate 16 0 @ replicate (length m) 0 @ ?Z"
    using len(1) by (simp add: NLMSG_SPACE_def MAXMSGLEN_def NLMSG_HDRLEN_def flip: replicate_add del: replicate.simps)
  have rd: "blk_read 0 (int (length m)) m = Some m"
    using blk_read_at [of 0 "[]" "int (length m)" m "[]"] by simp
  have wr: "blk_write (int NLMSG_HDRLEN) m (replicate (NLMSG_SPACE MAXMSGLEN) 0) = Some (replicate 16 0 @ m @ ?Z)"
    unfolding whole by (rule blk_write_at) (simp_all add: NLMSG_HDRLEN_def)
  have sp: "NLMSG_SPACE (length m) = 16 + length m"
    using len(2) by (simp add: NLMSG_SPACE_def NLMSG_HDRLEN_def) presburger
  have pk: "take (16 + length m) (nl_buffer p RTB_CMD (16 + length m) (replicate 16 0 @ m @ ?Z)) = command_packet p m"
    by (simp add: nl_buffer_def command_packet_def nlh.width NLMSG_HDRLEN_def RTB_CMD_def RTB_GET_def del: replicate.simps)
  show ?thesis
    unfolding netlink_send_def mem
    by (simp add: rd wr sp pk Let_def split: prod.split)
qed

lemma c_strlen_drop: "k \<le> length c \<Longrightarrow> \<exists>n. c_strlen (drop k (c @ [0])) = Some n"
  by (auto simp: c_strlen_def terminated_def)

lemma print_items_ok:
  "292 + (i + n) * 264 \<le> length c \<Longrightarrow> print_items i n (c @ [0]) = Some ()"
proof (induction n arbitrary: i)
  case (Suc n)
  have "\<exists>l. c_strlen (drop (292 + i * 264 + 4) (c @ [0])) = Some l"
    by (rule c_strlen_drop) (use Suc.prems in simp)
  moreover have "print_items (Suc i) n (c @ [0]) = Some ()"
    by (rule Suc.IH) (use Suc.prems in simp)
  ultimately show ?case using Suc.prems
    by (auto simp: blk_read_def sizeof_FILTER_ITEM_def simp del: drop_append)
qed simp

text \<open>The layout of the block, by its offsets.\<close>

lemma length_item_images:
  "list_all (\<lambda>(t, nm). length nm \<le> 260) its \<Longrightarrow> length (concat (map item_image its)) = 264 * length its"
  by (rule length_concat_const) (auto simp: list_all_iff length_item_image)

definition fits :: "request \<Rightarrow> bool" where
  "fits r \<longleftrightarrow> length (rq_guid r) = 16 \<and> length (rq_dir r) < 260 \<and> 0 \<notin> set (rq_dir r) \<and>
     list_all (\<lambda>(t, nm). length nm \<le> 260) (rq_items r) \<and> length (rq_items r) < 3970"

lemma wf_fits: "wf_request r \<Longrightarrow> fits r" "wf_request r \<Longrightarrow> fits (slashed r)"
  using wf_requestD [of r] by (simp_all add: fits_def slashed_def)

lemma length_backup_block: "fits r \<Longrightarrow> length (backup_block r) = backup_size r"
  by (simp add: fits_def backup_block_def length_item_images length_pad backup_size_def
      sizeof_REALTIME_BACKUP_DATA_def sizeof_FILTER_ITEM_def)

lemma backup_block_fields:
  assumes "fits r"
  shows "take 4 (backup_block r) = enc_int (backup_size r)" "field 4 16 (backup_block r) = rq_guid r"
    "field 20 4 (backup_block r) = enc_int (length (rq_items r))" "field 24 260 (backup_block r) = pad 260 (rq_dir r)"
    "drop 284 (backup_block r) = concat (map item_image (rq_items r)) @ replicate sizeof_FILTER_ITEM 0"
  using assms by (simp_all add: fits_def backup_block_def field_def length_pad)

lemma append_slash_block:
  assumes "wf_request r"
  shows "append_slash (backup_block r) = Some (backup_block (slashed r))"
proof -
  let ?d = "rq_dir r" and ?h = "enc_int (backup_size r) @ rq_guid r @ enc_int (length (rq_items r))"
  let ?t = "replicate (259 - length ?d) 0 @ concat (map item_image (rq_items r)) @ replicate sizeof_FILTER_ITEM (0 :: byte)"
  note w = wf_requestD [OF assms]
  have z: "pad 260 ?d = ?d @ [0] @ replicate (259 - length ?d) 0"
    using w(2) by (simp add: pad_def flip: replicate_Suc)
  have b: "backup_block r = ?h @ ?d @ [0] @ ?t" by (simp add: backup_block_def z)
  have h: "length ?h = 24" using w(1) by simp
  have len: "c_strlen (drop 24 (backup_block r)) = Some (length ?d)"
  proof -
    have "drop 24 (backup_block r) = ?d @ 0 # ?t" unfolding b using h by simp
    then show ?thesis using w(3) by (simp add: c_strlen_def terminated_def strlen_def cstr_append_NUL)
  qed
  have zero: "backup_block r ! (24 + length ?d) \<noteq> 0x2F"
  proof -
    have "(?h @ ?d @ [0] @ ?t) ! (24 + length ?d) = 0"
      using nth_append_length [of "?h @ ?d" 0 ?t] h by simp
    then show ?thesis unfolding b by simp
  qed
  have "blk_write (int (24 + length ?d)) [0x2F] ((?h @ ?d) @ [0] @ ?t) = Some ((?h @ ?d) @ [0x2F] @ ?t)"
    by (rule blk_write_at) (use h in simp_all)
  moreover have "(?h @ ?d) @ [0x2F] @ ?t = backup_block (slashed r)"
    by (simp add: backup_block_def slashed_def backup_size_def pad_def)
  ultimately show ?thesis using zero unfolding append_slash_def len by (simp add: b)
qed

lemma fill_message_block:
  assumes "fits r" and "length pFN = 8 + backup_size r"
  shows "fill_message pFN (backup_block r) = Some (take 8 pFN @ backup_block r)"
proof -
  let ?b = "backup_block r" and ?n = "length (rq_items r)"
  note l = length_backup_block [OF assms(1)] and f = backup_block_fields [OF assms(1)]
  have n: "?n < 3970" using assms(1) by (simp add: fits_def)
  have size: "backup_size r < 2 ^ 32" using n
    by (simp add: backup_size_def sizeof_REALTIME_BACKUP_DATA_def sizeof_FILTER_ITEM_def)
  have "uint (le_dec (take 4 ?b) :: u32) = int (backup_size r)"
    using unat_u32 [OF size] by (simp add: f enc_int_def le_dec_enc uint_nat del: unat_of_nat)
  then have rd: "blk_read 0 (uint (le_dec (take 4 ?b) :: u32)) ?b = Some ?b"
    using blk_read_at [of 0 "[]" _ ?b "[]"] l by simp
  have wr: "blk_write 8 ?b pFN = Some (take 8 pFN @ ?b)"
    using blk_write_at [of 8 "take 8 pFN" ?b "drop 8 pFN" "[]"] assms(2) l by simp
  have cnt: "unat (le_dec (field 28 4 (take 8 pFN @ ?b)) :: u32) = ?n"
  proof -
    have "field 28 4 (take 8 pFN @ ?b) = field 20 4 ?b" using assms(2) by (subst field_append2) simp_all
    then show ?thesis using n unat_u32 [of ?n] by (simp add: f enc_int_def le_dec_enc)
  qed
  obtain c where c: "take 8 pFN @ ?b = c @ [0]" "length c = 7 + backup_size r"
  proof
    have last: "last ?b = 0" "?b \<noteq> []"
      by (auto simp: backup_block_def sizeof_FILTER_ITEM_def last_append)
    then show "take 8 pFN @ ?b = (take 8 pFN @ butlast ?b) @ [0]" using append_butlast_last_id [of ?b] by simp
    show "length (take 8 pFN @ butlast ?b) = 7 + backup_size r" using assms(2) l last
      by (simp add: backup_size_def sizeof_REALTIME_BACKUP_DATA_def)
  qed
  have "\<exists>k. c_strlen (drop 32 (c @ [0])) = Some k"
    by (rule c_strlen_drop) (simp add: c(2) backup_size_def sizeof_REALTIME_BACKUP_DATA_def)
  moreover have "print_items 0 ?n (c @ [0]) = Some ()"
    by (rule print_items_ok)
      (simp add: c(2) backup_size_def sizeof_REALTIME_BACKUP_DATA_def sizeof_FILTER_ITEM_def)
  ultimately show ?thesis unfolding fill_message_def rd by (auto simp: wr cnt [unfolded c(1)] c(1) simp del: drop_append)
qed

text \<open>
  A request block is sent as one packet; the caller's block now ends its directory with a slash,
  and the agent keeps no memory.
\<close>

lemma SendConfig_block:
  assumes wf: "wf_request r" and sk: "p_sock s = Some p" and mem: "memory_ok L"
  obtains junk w ret w' where "length junk = 4"
    "l_sendmsg L (sock p) (command_packet p (request_message ty junk (slashed r))) w = (ret, w')"
    "SendConfig L (Some (backup_block r)) ty s =
       Some (if ret < 0 then NET_SOCK else NET_OK, Some (backup_block (slashed r)), s\<lparr>aworld := w'\<rparr>)"
proof -
  note l = length_backup_block [OF wf_fits(1) [OF wf]] length_backup_block [OF wf_fits(2) [OF wf]]
  have sz: "backup_size (slashed r) = backup_size r" by (simp add: slashed_def backup_size_def)
  note bound = backup_size_bound [OF wf]
  have u: "uint (le_dec (take 4 (backup_block r)) :: u32) = int (backup_size r)"
    using unat_u32 [of "backup_size r"] bound backup_block_fields(1) [OF wf_fits(1) [OF wf]]
    by (simp add: enc_int_def le_dec_enc uint_nat del: unat_of_nat)
  have size: "as_int (uint (le_dec (take 4 (backup_block r)) :: u32) + int sizeof_FILEREPL_NOTIFICATION
      - int sizeof_REALTIME_BACKUP_DATA) = int (8 + backup_size r)"
    unfolding u using bound
    by (subst as_int_id) (simp_all add: sizeof_FILEREPL_NOTIFICATION_def sizeof_REALTIME_BACKUP_DATA_def)
  have size': "unat (word_of_int (int (8 + backup_size r)) :: u64) = 8 + backup_size r"
    using unat_int_u64 [of "8 + backup_size r"] bound by simp
  obtain pFN w1 where m1: "a_malloc L (8 + backup_size r) s = (Some pFN, s\<lparr>aworld := w1, blocks := blocks s + 1\<rparr>)"
    "length pFN = 8 + backup_size r" using a_malloc_ok [OF mem] by blast
  let ?s1 = "s\<lparr>aworld := w1, blocks := blocks s + 1\<rparr>" and ?f = "le_enc 4 ty @ drop 4 pFN"
  obtain buf w2 where m2: "a_malloc L (NLMSG_SPACE MAXMSGLEN) ?s1 =
      (Some buf, ?s1\<lparr>aworld := w2, blocks := blocks ?s1 + 1\<rparr>)"
    using a_malloc_ok [OF mem] by blast
  let ?m = "request_message ty (take 4 (drop 4 pFN)) (slashed r)"
  have lm: "length ?m = 8 + backup_size r" using m1(2) by (simp add: request_message_def l sz)
  have f: "blk_write 0 (le_enc 4 ty) pFN = Some ?f"
    using blk_write_at [of 0 "[]" "le_enc 4 ty" "take 4 pFN" "drop 4 pFN"] m1(2) by simp
  have fill: "fill_message ?f (backup_block (slashed r)) = Some ?m"
    using fill_message_block [OF wf_fits(2) [OF wf], of ?f] m1(2) sz by (simp add: request_message_def)
  obtain ret w' where snd: "l_sendmsg L (sock p) (command_packet p ?m) w2 = (ret, w')" by fastforce
  have send: "netlink_send L p RTB_CMD ?m (int (8 + backup_size r)) ?s1 =
      Some (if ret < 0 then NET_SOCK else NET_OK, s\<lparr>aworld := w', blocks := blocks s + 1\<rparr>)"
    using netlink_send_ok [OF m2, of ?m p] bound lm
    by (simp add: snd a_free_def backup_size_def sizeof_REALTIME_BACKUP_DATA_def sizeof_FILTER_ITEM_def)
  show thesis
  proof
    show "length (take 4 (drop 4 pFN)) = 4" using m1(2) by simp
    show "l_sendmsg L (sock p) (command_packet p ?m) w2 = (ret, w')" by (rule snd)
    show "SendConfig L (Some (backup_block r)) ty s =
       Some (if ret < 0 then NET_SOCK else NET_OK, Some (backup_block (slashed r)), s\<lparr>aworld := w'\<rparr>)"
      unfolding SendConfig_def sk option.case size Let_def size' m1(1) prod.case
      by (simp only: f append_slash_block [OF wf] fill send bind.bind_lunit prod.case)
        (simp add: a_free_def)
  qed
qed

section \<open>What the module reads\<close>

definition item_data :: "u32 \<times> byte list \<Rightarrow> FILTER_ITEM" where
  "item_data it = \<lparr>ulFileType = fst it, wszFilterName = pad 260 (snd it)\<rparr>"

definition request_data :: "request \<Rightarrow> REALTIME_BACKUP_DATA" where
  "request_data r = \<lparr>bdSize = of_nat (backup_size r), bdGuidSetId = dec_guid (rq_guid r),
     ulFilterItemCounts = of_nat (length (rq_items r)), wszBakCacheDir = pad 260 (rq_dir r),
     FilterItems = map item_data (rq_items r) @ [item_data (0, [])]\<rparr>"

lemma dec_item_image: "length (snd it) \<le> 260 \<Longrightarrow> dec_item (item_image it) = item_data it"
  by (simp add: dec_item_def item_image_def item_data_def field_def length_pad le_dec_enc)

lemma dec_items_images:
  assumes "\<And>it. it \<in> set its \<Longrightarrow> length (snd it) \<le> 260"
  shows "dec_items (concat (map item_image its)) = map item_data its"
proof (rule nth_equalityI)
  have len: "length (concat (map item_image its)) = 264 * length its"
    using assms by (intro length_concat_const) (simp add: length_item_image)
  show "length (dec_items (concat (map item_image its))) = length (map item_data its)"
    by (simp add: dec_items_def len sizeof_FILTER_ITEM_def del: length_concat)
  fix i assume "i < length (dec_items (concat (map item_image its)))"
  then have i: "i < length its" by (simp add: dec_items_def len sizeof_FILTER_ITEM_def del: length_concat)
  have "field (i * 264) 264 (concat (map item_image its)) = item_image (its ! i)"
    using take_concat_const [of its item_image 264 i "[]"] assms i by (simp add: field_def length_item_image)
  then show "dec_items (concat (map item_image its)) ! i = map item_data its ! i"
    using i assms by (simp add: dec_items_def len sizeof_FILTER_ITEM_def dec_item_image del: length_concat)
qed

lemma zero_item_image: "item_image (0, []) = replicate sizeof_FILTER_ITEM 0"
  by (simp add: item_image_def pad_def sizeof_FILTER_ITEM_def numeral_eq_Suc)

lemma dec_request_message:
  assumes fits: "fits r" and junk: "length junk = 4"
  shows "dec_notification (request_message ty junk r) =
    \<lparr>nType = ty, nNormalRunning = le_dec junk, BackupData = request_data r\<rparr>"
proof -
  let ?b = "backup_block r"
  note f = backup_block_fields [OF fits]
  have shift: "field (8 + k) n (request_message ty junk r) = field k n ?b" for k n
    using junk by (simp add: request_message_def field_def)
  have items: "dec_items (drop 292 (request_message ty junk r)) = FilterItems (request_data r)"
  proof -
    have "drop 292 (request_message ty junk r) = concat (map item_image (rq_items r @ [(0, [])]))"
      using f(5) junk by (simp add: request_message_def zero_item_image)
    moreover have "\<And>it. it \<in> set (rq_items r @ [(0, [])]) \<Longrightarrow> length (snd it) \<le> 260"
      using fits by (auto simp: fits_def list_all_iff)
    ultimately show ?thesis using dec_items_images [of "rq_items r @ [(0, [])]"] by (simp add: request_data_def)
  qed
  have "field 0 4 (request_message ty junk r) = le_enc 4 ty" "field 4 4 (request_message ty junk r) = junk"
    using junk by (simp_all add: request_message_def field_def)
  moreover note shift [of 0 4] shift [of 4 16] shift [of 20 4] shift [of 24 260]
  moreover have "field 0 4 ?b = take 4 ?b" by (simp add: field_def)
  ultimately show ?thesis
    using items by (simp add: dec_notification_def f request_data_def le_dec_enc enc_int_def)
qed

lemma dec_enc_nlmsghdr: "dec_nlmsghdr (enc_nlmsghdr h @ b) = h"
proof -
  have "dec_nlmsghdr (take 16 (enc_nlmsghdr h @ b)) = h" by (rule nlh.dec_append) simp
  then show ?thesis by (simp add: dec_nlmsghdr_def field_def drop_take nlh.width)
qed

lemma command_packet_recv:
  assumes m: "556 \<le> length m" "length m < 2 ^ 30"
  shows "netlink_recv_packet K (command_packet p m) t =
    map_option snd (process_netlink_cmd K (as_int (uint (nl_pid (src p)))) (Some m) (int (16 + length m)) t)"
proof -
  let ?h = "\<lparr>nlmsg_len = of_nat (16 + length m) :: u32, nlmsg_type = RTB_GET, nlmsg_flags = 0, nlmsg_seq = 0,
      nlmsg_pid = nl_pid (src p)\<rparr>"
  have hdr: "dec_nlmsghdr (command_packet p m) = ?h"
    by (simp add: command_packet_def dec_enc_nlmsghdr)
  have pk: "length (command_packet p m) = 16 + length m" "drop 16 (command_packet p m) = m"
    by (simp_all add: command_packet_def nlh.width)
  have n: "unat (of_nat (16 + length m) :: u32) = 16 + length m" using m(2) by (intro unat_u32) simp
  then have "as_int (uint (of_nat (16 + length m) :: u32)) = int (16 + length m)"
    using m(2) by (subst as_int_id) (simp_all add: uint_nat del: unat_of_nat of_nat_add)
  with n show ?thesis
    by (simp add: netlink_recv_packet_def NLMSG_HDRLEN_def hdr pk netlink_process_packet_def Let_def
        del: of_nat_add unat_of_nat)
qed

text \<open>The module's reaction to a command with the data of a request.\<close>

definition request_handler :: "'w kernel \<Rightarrow> u32 \<Rightarrow> REALTIME_BACKUP_DATA \<Rightarrow> 'w kstate \<Rightarrow> (int \<times> 'w kstate) option" where
  "request_handler K ty d =
     (if ty = NOTIFY_TYPE_ADDSET then ConfigAddMonitorSet K (Some d) True
      else if ty = NOTIFY_TYPE_ADDITEM then ConfigAddMonitorSet K (Some d) False
      else if ty = NOTIFY_TYPE_DELSET then ConfigDelMonitorSet K (Some d) else ConfigDelMonitorItem K (Some d))"

lemma request_packet_recv:
  assumes wf: "wf_request r" and junk: "length junk = 4"
    and ty: "ty \<in> {NOTIFY_TYPE_ADDSET, NOTIFY_TYPE_ADDITEM, NOTIFY_TYPE_DELSET, NOTIFY_TYPE_DELITEM}"
  shows "netlink_recv_packet K (command_packet p (request_message ty junk (slashed r))) t =
    map_option snd (request_handler K ty (request_data (slashed r)) t)"
proof -
  let ?m = "request_message ty junk (slashed r)"
  have len: "length ?m = 8 + backup_size r"
    using length_backup_block [OF wf_fits(2) [OF wf]] junk
    by (simp add: request_message_def) (simp add: slashed_def backup_size_def)
  have m: "556 \<le> length ?m" "length ?m < 2 ^ 30"
    using backup_size_bound [OF wf] by (simp_all add: len backup_size_def sizeof_REALTIME_BACKUP_DATA_def)
  have "\<not> (word_of_int (int (16 + length ?m)) :: u64) < of_nat sizeof_FILEREPL_NOTIFICATION"
    using m unat_int_u64 [of "16 + length ?m"] unat_u64 [of sizeof_FILEREPL_NOTIFICATION]
    by (simp add: word_less_nat_alt sizeof_FILEREPL_NOTIFICATION_def del: of_nat_add)
  then show ?thesis
    using ty unfolding command_packet_recv [OF m] process_netlink_cmd_def option.case
    by (auto simp: dec_request_message [OF wf_fits(2) [OF wf] junk] request_handler_def Let_def notify_types)
qed

section \<open>Status messages\<close>

text \<open>What \<open>netlink_to_user\<close> puts into the socket buffer for a message.\<close>

definition kernel_packet :: "user_message \<Rightarrow> byte list" where
  "kernel_packet m = enc_nlmsghdr \<lparr>nlmsg_len = of_nat (um_nlmsg_len m), nlmsg_type = 0, nlmsg_flags = 0,
     nlmsg_seq = 0, nlmsg_pid = 0\<rparr> @ um_data m"

lemma kernel_packet_recv:
  assumes mem: "a_malloc L (NLMSG_SPACE MAXMSGLEN) s = (Some b, s1)"
    and got: "l_recvmsg L (sock p) (NLMSG_SPACE MAXMSGLEN) (aworld s1) = ((ret, kernel_packet m), w)" "0 \<le> ret"
    and m: "um_nlmsg_len m = length (um_data m)" "length (um_data m) \<le> 1048576"
  shows "netlink_recv L p ty rbuf rlen s =
    (if length rbuf < length (um_data m) then None
     else Some (NET_OK, um_data m @ drop (length (um_data m)) rbuf, int (length (um_data m)), a_free (s1\<lparr>aworld := w\<rparr>)))"
proof -
  let ?h = "\<lparr>nlmsg_len = of_nat (um_nlmsg_len m) :: u32, nlmsg_type = 0 :: u16, nlmsg_flags = 0, nlmsg_seq = 0, nlmsg_pid = 0\<rparr>"
  let ?n = "length (um_data m)"
  have sp: "NLMSG_SPACE MAXMSGLEN = 1048592"
    by (simp add: NLMSG_SPACE_def MAXMSGLEN_def NLMSG_HDRLEN_def)
  have len: "length (kernel_packet m) = 16 + ?n" by (simp add: kernel_packet_def nlh.width)
  have hdr: "dec_nlmsghdr (kernel_packet m @ r) = ?h" for r
    by (simp add: kernel_packet_def dec_enc_nlmsghdr)
  have u: "uint (of_nat (um_nlmsg_len m) :: u32) = int ?n"
    using unat_u32 [of ?n] m by (simp add: uint_nat del: unat_of_nat)
  have rd: "blk_read (int NLMSG_HDRLEN) (int ?n) (kernel_packet m @ r) = Some (um_data m)" for r
    using blk_read_at [of "int NLMSG_HDRLEN" "enc_nlmsghdr ?h" "int ?n" "um_data m" r]
    by (simp add: kernel_packet_def nlh.width NLMSG_HDRLEN_def)
  have wr: "blk_write 0 (um_data m) rbuf =
      (if length rbuf < ?n then None else Some (um_data m @ drop ?n rbuf))"
    by (simp add: blk_write_def)
  have cut: "take 1048592 (kernel_packet m) = kernel_packet m" using len m(2) by simp
  have ai: "as_int (int ?n) = int ?n" using m(2) by (intro as_int_id) simp_all
  show ?thesis
    unfolding netlink_recv_def sp
    using got(2) by (simp add: mem [unfolded sp] got(1) [unfolded sp] cut hdr u rd wr ai Let_def)
qed

lemma request_methods:
  "jni_AddBackupSet = send_request (\<lambda>L d. SendConfig L (Some d) NOTIFY_TYPE_ADDSET)"
  "jni_AddBackupItems = send_request (\<lambda>L d. SendConfig L (Some d) NOTIFY_TYPE_ADDITEM)"
  "jni_DelBackupSet = send_request (\<lambda>L d. SendConfig L (Some d) NOTIFY_TYPE_DELSET)"
  "jni_DelBackupItems = send_request (\<lambda>L d. SendConfig L (Some d) NOTIFY_TYPE_DELITEM)"
  unfolding jni_AddBackupSet_def jni_AddBackupItems_def jni_DelBackupSet_def jni_DelBackupItems_def
  by (rule arg_cong [of _ _ send_request],
      simp add: fun_eq_iff AddBackupSet_def AddBackupItems_def DelBackupSet_def DelBackupItems_def)+

section \<open>An example\<close>

text \<open>
  A C library with enough memory whose outside world is the list of packets sent; the only
  packet it ever receives is \<open>m\<close>.
\<close>

definition demo_libc :: "byte list \<Rightarrow> byte list list libc" where
  "demo_libc m =
     \<lparr>l_socket = \<lambda>_ w. (3, w), l_bind = \<lambda>_ _ w. (0, w),
      l_sendmsg = \<lambda>_ d w. (int (length d), w @ [d]), l_recvmsg = \<lambda>_ _ w. ((int (length m), m), w),
      l_close = \<lambda>_ w. w, l_malloc = \<lambda>n w. (Some (replicate n 0xCC), w), l_pthread_create = \<lambda>w. (0, w)\<rparr>"

definition demo_agent :: "byte list list agent" where
  "demo_agent = \<lparr>p_sock = Some zero_sock,
     DealKernelMsgCallback = Some (\<lambda>ty st w. (0, w @ [[word_of_int ty, word_of_int st]])),
     blocks = 1, threads = 1, aworld = []\<rparr>"

definition demo_request :: request where
  "demo_request = \<lparr>rq_guid = replicate 16 7, rq_dir = bytes ''/log'', rq_items = [(1, bytes ''/data''), (0, bytes ''/x'')]\<rparr>"

lemma demo_libc_simps [simp]:
  "l_sendmsg (demo_libc m) fd d w = (int (length d), w @ [d])"
  "l_recvmsg (demo_libc m) fd n w = ((int (length m), m), w)"
  "l_malloc (demo_libc m) n w = (Some (replicate n 0xCC), w)"
  by (simp_all add: demo_libc_def)

lemma demo_memory: "memory_ok (demo_libc m)" "memory_ok ((demo_libc m)\<lparr>l_socket := g\<rparr>)"
  by (simp_all add: memory_ok_def demo_libc_def)

lemma demo_request_wf: "wf_request demo_request"
  by (simp add: wf_request_def demo_request_def bytes_def)

section \<open>Properties\<close>

text \<open>
  C20. A request of the Java side that is laid out as agreed and fits a message is sent as one
  packet, and the module runs the operation the request names on the GUID, the directory with a
  slash appended and the items the caller gave, in their order. The result says whether the
  socket took the packet; the agent loses one block of memory.
\<close>

theorem java_request_reaches_module:
  assumes "wf_request r" and "p_sock s = Some p" and "memory_ok L"
    and "(jni, ty) \<in> {(jni_AddBackupSet, NOTIFY_TYPE_ADDSET), (jni_AddBackupItems, NOTIFY_TYPE_ADDITEM),
      (jni_DelBackupSet, NOTIFY_TYPE_DELSET), (jni_DelBackupItems, NOTIFY_TYPE_DELITEM)}"
  shows "\<exists>pkt w ret w'. l_sendmsg L (sock p) pkt w = (ret, w') \<and>
    jni L (request_bytes r) s =
      Some (if ret < 0 then NET_SOCK else NET_OK, s\<lparr>aworld := w', blocks := blocks s + 1\<rparr>) \<and>
    (\<forall>K t. netlink_recv_packet K pkt t = map_option snd (request_handler K ty (request_data (slashed r)) t))"
proof -
  obtain b w0 where m: "a_malloc L (backup_size r) s = (Some b, s\<lparr>aworld := w0, blocks := blocks s + 1\<rparr>)"
    using a_malloc_ok [OF assms(3)] by blast
  let ?s = "s\<lparr>aworld := w0, blocks := blocks s + 1\<rparr>"
  obtain junk w ret w' where j: "length junk = 4"
    and snd: "l_sendmsg L (sock p) (command_packet p (request_message ty junk (slashed r))) w = (ret, w')"
    and run: "SendConfig L (Some (backup_block r)) ty ?s =
       Some (if ret < 0 then NET_SOCK else NET_OK, Some (backup_block (slashed r)), ?s\<lparr>aworld := w'\<rparr>)"
    by (rule SendConfig_block [OF assms(1) _ assms(3), of ?s p ty]) (use assms(2) in simp_all)
  have "jni = send_request (\<lambda>L d. SendConfig L (Some d) ty)"
    using assms(4) by (elim insertE emptyE) (simp_all only: prod.inject request_methods)
  then have "jni L (request_bytes r) s =
      Some (if ret < 0 then NET_SOCK else NET_OK, s\<lparr>aworld := w', blocks := blocks s + 1\<rparr>)"
    using run by (simp add: send_request_def GetBackSetInfo_request [OF assms(1) m])
  moreover have "ty \<in> {NOTIFY_TYPE_ADDSET, NOTIFY_TYPE_ADDITEM, NOTIFY_TYPE_DELSET, NOTIFY_TYPE_DELITEM}"
    using assms(4) by auto
  ultimately show ?thesis
    using snd request_packet_recv [OF assms(1) j] by blast
qed

theorem java_request_reaches_module_witness:
  "\<exists>pkt w. jni_AddBackupSet (demo_libc []) (request_bytes demo_request) demo_agent =
      Some (NET_OK, demo_agent\<lparr>aworld := w @ [pkt], blocks := 2\<rparr>) \<and>
    netlink_recv_packet example_kernel pkt (example_state []) =
      map_option snd (ConfigAddMonitorSet example_kernel (Some (request_data (slashed demo_request))) True
        (example_state []))"
  using java_request_reaches_module [where 'b = "byte list", OF demo_request_wf, of demo_agent zero_sock "demo_libc []" jni_AddBackupSet
      NOTIFY_TYPE_ADDSET] demo_memory(1)
  by (auto simp: demo_agent_def request_handler_def)

text \<open>
  C28. A status the module sends reaches the application: the receiving thread that gets the
  message calls the registered function once, with the type and the status the module gave.
\<close>

theorem status_reaches_application:
  assumes "notify_user_status K ty st t = Some (r, t')" and "outbox t' = outbox t @ [m]"
    and "- (2 ^ 31) \<le> st" and "st < 2 ^ 31"
    and "p_sock s = Some p" and "DealKernelMsgCallback s = Some f"
    and "a_malloc L (NLMSG_SPACE MAXMSGLEN) s = (Some b, s1)"
    and "l_recvmsg L (sock p) (NLMSG_SPACE MAXMSGLEN) (aworld s1) = ((ret, kernel_packet m), w)" and "0 \<le> ret"
    and "length replnotify = 556"
  shows "thread_round L (replnotify, rlen, s) =
    Some (um_data m, 556, s\<lparr>aworld := snd (f (as_int (uint ty)) st w)\<rparr>)"
proof -
  let ?d = "status_message ty st"
  have d: "length ?d = 556" by (simp add: status_message_def sizeof_FILEREPL_NOTIFICATION_def length_pad)
  from assms(1,2) have m: "m = \<lparr>um_dest = RTB_CMD, um_nlmsg_len = 556, um_data = ?d\<rparr>"
    by (auto simp: notify_user_status_def netlink_to_user_def alloc_block_def sizeof_FILEREPL_NOTIFICATION_def d
        split: if_splits)
  have recv: "netlink_recv L p RTB_CMD replnotify rlen s = Some (NET_OK, ?d, 556, a_free (s1\<lparr>aworld := w\<rparr>))"
    using kernel_packet_recv [OF assms(7-9)] by (simp add: m d assms(10))
  have s1: "a_free (s1\<lparr>aworld := w\<rparr>) = s\<lparr>aworld := w\<rparr>"
    using assms(7) by (auto simp: a_malloc_def a_free_def Let_def split: prod.splits if_splits)
  have fields: "field 0 4 ?d = le_enc 4 ty" "field 4 4 ?d = le_enc 4 (word_of_int st :: u32)"
    by (simp_all add: status_message_def pad_def field_def)
  have st: "as_int (uint (word_of_int st :: u32)) = st"
  proof -
    have "as_int (uint (word_of_int st :: u32)) = as_int st" by (simp add: as_int_def)
    then show ?thesis using assms(3,4) as_int_id by simp
  qed
  have "terminated (drop 32 ?d)"
    by (simp add: status_message_def pad_def terminated_def sizeof_FILEREPL_NOTIFICATION_def)
  then show ?thesis
    by (simp add: thread_round_def assms(5) recv s1 c_strlen_def ProcessRecvMessage_def OnNotifyUserApp_def fields
        le_dec_enc st assms(6) m Let_def split: prod.split)
qed

theorem status_reaches_application_witness:
  "thread_round (demo_libc (kernel_packet \<lparr>um_dest = 1, um_nlmsg_len = 556,
      um_data = status_message NOTIFY_TYPE_QUERY_RUNNING_STATUS 1\<rparr>)) (replicate 556 0, 0, demo_agent) =
    Some (status_message NOTIFY_TYPE_QUERY_RUNNING_STATUS 1, 556, demo_agent\<lparr>aworld := [[5, 1]]\<rparr>)"
proof -
  let ?m = "\<lparr>um_dest = 1, um_nlmsg_len = 556, um_data = status_message NOTIFY_TYPE_QUERY_RUNNING_STATUS 1\<rparr>"
  have len: "length (status_message NOTIFY_TYPE_QUERY_RUNNING_STATUS 1) = 556"
    by (simp add: status_message_def sizeof_FILEREPL_NOTIFICATION_def length_pad)
  obtain t where "notify_user_status example_kernel NOTIFY_TYPE_QUERY_RUNNING_STATUS 1 (example_state []) = Some (NET_OK, t)"
    "outbox t = outbox (example_state []) @ [?m]"
    by (simp add: notify_user_status_def alloc_block_def netlink_to_user_def sizeof_FILEREPL_NOTIFICATION_def
        RTB_CMD_def len)
  moreover have "as_int (uint NOTIFY_TYPE_QUERY_RUNNING_STATUS) = 16389"
    by (simp add: notify_types as_int_id)
  ultimately show ?thesis
    using status_reaches_application [of example_kernel NOTIFY_TYPE_QUERY_RUNNING_STATUS 1 "example_state []" NET_OK t ?m
        demo_agent zero_sock "\<lambda>ty st w. (0, w @ [[word_of_int ty, word_of_int st]])" "demo_libc (kernel_packet ?m)"
        "replicate (NLMSG_SPACE MAXMSGLEN) 0xCC" "demo_agent\<lparr>blocks := 2\<rparr>" "int (length (kernel_packet ?m))" "[]"
        "replicate 556 0" 0]
    by (simp add: demo_agent_def a_malloc_def)
qed

text \<open>
  When the socket cannot be made, \<open>InitCommunicate\<close> reports it, but starts the receiving
  thread all the same, and the thread faults on the missing socket in its first round.
\<close>

theorem init_failure_faults_thread:
  assumes "p_sock s = None" and "memory_ok L"
    and "\<And>w. fst (l_socket L USER_NETLINK_CMD w) < 0" and "\<And>w. fst (l_pthread_create L w) = 0"
  shows "\<exists>s'. InitCommunicate L s = Some (NET_SOCK, s') \<and> threads s' = threads s + 1 \<and> p_sock s' = None \<and>
    thread_entry (Suc n) L s' = None"
proof -
  obtain b w where "a_malloc L sizeof_netlink_sock s = (Some b, s\<lparr>aworld := w, blocks := blocks s + 1\<rparr>)"
    using a_malloc_ok [OF assms(2)] by blast
  moreover obtain fd w1 where "l_socket L USER_NETLINK_CMD w = (fd, w1)" "fd < 0"
    using assms(3) [of w] by (metis prod.collapse)
  moreover obtain w2 where "l_pthread_create L w1 = (0, w2)" using assms(4) [of w1] by (metis prod.collapse)
  ultimately show ?thesis
    by (simp add: InitCommunicate_def assms(1) netlink_sock_init_def Let_def NET_SOCK_def NET_OK_def a_free_def
        thread_entry_def thread_round_def)
qed

theorem init_failure_faults_thread_witness:
  "\<exists>s'. InitCommunicate ((demo_libc [])\<lparr>l_socket := \<lambda>_ w. (-1, w)\<rparr>) (demo_agent\<lparr>p_sock := None\<rparr>) = Some (NET_SOCK, s') \<and>
    threads s' = 2 \<and> thread_entry 1 ((demo_libc [])\<lparr>l_socket := \<lambda>_ w. (-1, w)\<rparr>) s' = None"
proof -
  let ?L = "(demo_libc [])\<lparr>l_socket := \<lambda>_ w. (-1, w)\<rparr>"
  have "\<exists>s'. InitCommunicate ?L (demo_agent\<lparr>p_sock := None\<rparr>) = Some (NET_SOCK, s') \<and>
      threads s' = threads (demo_agent\<lparr>p_sock := None\<rparr>) + 1 \<and> p_sock s' = None \<and> thread_entry (Suc 0) ?L s' = None"
    by (rule init_failure_faults_thread [OF _ demo_memory(2)]) (simp_all add: demo_libc_def)
  then show ?thesis by (auto simp: demo_agent_def)
qed

end
