(* ===== verification/AgentMain.thy ===== *)
theory AgentMain
  imports AgentProps
begin

text \<open>
  \<open>communicate/main.c\<close>: the program that tries out the agent. It registers a callback, opens
  the socket, sends a backup set and the items of another one twice each, and then asks the module
  for its state for ever. No answer of the agent is looked at.
\<close>

section \<open>The requests\<close>

text \<open>\<open>replnotify\<close>, zeroed; the backup data start at its byte 8, as in the messages.\<close>

definition test_set :: "byte list option" where
  "test_set =
     do { n \<leftarrow> blk_write 0 (le_enc 4 NOTIFY_TYPE_ADDITEM) (replicate sizeof_FILEREPL_NOTIFICATION 0);
          n \<leftarrow> blk_write 32 (bytes ''/test/task1'') n;
          n \<leftarrow> blk_write 8 (enc_int sizeof_REALTIME_BACKUP_DATA) n;
          len \<leftarrow> c_strlen (drop 32 n);
          n \<leftarrow> (if n ! (32 + len) \<noteq> 0x2F then blk_write (int (32 + len)) [0x2F] n else Some n);
          n \<leftarrow> blk_write 0 (le_enc 4 NOTIFY_TYPE_ADDSET) n;
          blk_write 12 (enc_int 1) n }"

text \<open>\<open>preplnotify\<close>; every name but two loses its last slash, since the length is that of a shorter string.\<close>

definition put_item :: "nat \<Rightarrow> string \<Rightarrow> nat \<Rightarrow> byte list \<Rightarrow> byte list option" where
  "put_item i name len n =
     do { n \<leftarrow> blk_write (int (292 + i * sizeof_FILTER_ITEM)) (le_enc 4 FILTER_TYPE_FILE) n;
          blk_write (int (292 + i * sizeof_FILTER_ITEM + 4)) (take len (bytes name)) n }"

definition filerepllen :: nat where
  "filerepllen = sizeof_FILEREPL_NOTIFICATION + sizeof_FILTER_ITEM * 5"

definition test_items :: "byte list option" where
  "test_items =
     do { n \<leftarrow> blk_write 0 (le_enc 4 NOTIFY_TYPE_ADDITEM) (replicate filerepllen 0);
          n \<leftarrow> blk_write 12 (enc_int 6) n;
          n \<leftarrow> blk_write 28 (enc_int 6) n;
          n \<leftarrow> blk_write 32 (bytes ''/test/task2'') n;
          n \<leftarrow> blk_write 8 (enc_int (sizeof_REALTIME_BACKUP_DATA + 5 * sizeof_FILTER_ITEM)) n;
          n \<leftarrow> put_item 0 ''/bbbbb/'' 7 n;
          n \<leftarrow> put_item 1 ''/cccccccccc/'' 11 n;
          n \<leftarrow> put_item 2 ''/mydatabase/mydir/'' 18 n;
          n \<leftarrow> put_item 3 ''/eeeeeeeeee/'' 11 n;
          n \<leftarrow> put_item 4 ''/ffffffffff/'' 11 n;
          put_item 5 ''/cccccccccc/'' 11 n }"

section \<open>The program\<close>

definition main_callback :: "int \<Rightarrow> int \<Rightarrow> 'w \<Rightarrow> int \<times> 'w" where
  "main_callback ty status w = (0, w)"

text \<open>The same block is sent twice; the first call changes it.\<close>

definition twice ::
  "(byte list \<Rightarrow> 'w agent \<Rightarrow> (int \<times> byte list option \<times> 'w agent) option) \<Rightarrow> byte list \<Rightarrow> 'w agent \<Rightarrow> 'w agent option" where
  "twice send d s =
     do { (_, d', s) \<leftarrow> send d s;
          d' \<leftarrow> d';
          (_, _, s) \<leftarrow> send d' s;
          Some s }"

fun query_rounds :: "'w libc \<Rightarrow> nat \<Rightarrow> 'w agent \<Rightarrow> 'w agent option" where
  "query_rounds L 0 s = Some s"
| "query_rounds L (Suc n) s =
     do { (_, _, s) \<leftarrow> QueryDriverStatus L s;
          (_, _, s) \<leftarrow> QueryLastShutDownStatus L s;
          query_rounds L n s }"

text \<open>\<open>n\<close>: the rounds of the last loop, which has no end. The block of the items is not checked.\<close>

definition agent_main :: "'w libc \<Rightarrow> nat \<Rightarrow> 'w agent \<Rightarrow> 'w agent option" where
  "agent_main L n s =
     do { replnotify \<leftarrow> test_set;
          let s = RegisterUserAppNotify (Some main_callback) s;
          (_, s) \<leftarrow> InitCommunicate L s;
          s \<leftarrow> twice (AddBackupSet L) (drop 8 replnotify) s;
          case a_malloc L filerepllen s of
            (None, s) \<Rightarrow> None
          | (Some _, s) \<Rightarrow>
              do { preplnotify \<leftarrow> test_items;
                   s \<leftarrow> twice (AddBackupItems L) (drop 8 preplnotify) s;
                   query_rounds L n s } }"

section \<open>What it sends\<close>

definition test_request :: request where
  "test_request = \<lparr>rq_guid = enc_int 1 @ replicate 12 0, rq_dir = bytes ''/test/task1/'', rq_items = []\<rparr>"

lemma test_request_block:
  "backup_block test_request = enc_int 548 @ enc_int (Suc 0) @ replicate 16 0 @
     47 # 116 # 101 # 115 # 116 # 47 # 116 # 97 # 115 # 107 # 49 # 47 # replicate 512 0"
proof -
  have "enc_int 0 = replicate 4 0" by (simp add: enc_int_def numeral_eq_Suc)
  moreover have "replicate 12 (0 :: byte) @ replicate 4 0 = replicate 16 0" "replicate 248 (0 :: byte) @ replicate 264 0 = replicate 512 0"
    by (simp_all flip: replicate_add)
  moreover have "replicate 12 (0 :: byte) @ replicate 4 0 @ x = replicate 16 0 @ x" for x
    using calculation(2) append_assoc by metis
  ultimately show ?thesis
    by (simp add: backup_block_def test_request_def backup_size_def sizeof_REALTIME_BACKUP_DATA_def sizeof_FILTER_ITEM_def pad_def bytes_def
        del: replicate.simps)
qed

lemma test_set_block: "map_option (drop 8) test_set = Some (backup_block test_request)"
  unfolding test_set_def test_request_block
  by (simp add: blk_write_def sizeof_FILEREPL_NOTIFICATION_def sizeof_REALTIME_BACKUP_DATA_def c_strlen_def terminated_def
      strlen_def cstr_Cons bytes_def nth_append nth_Cons')

lemma test_items_defined: "test_items \<noteq> None"
  unfolding test_items_def put_item_def
  by (simp add: blk_write_def filerepllen_def sizeof_FILEREPL_NOTIFICATION_def sizeof_REALTIME_BACKUP_DATA_def
      sizeof_FILTER_ITEM_def bytes_def)

lemma test_request_wf: "wf_request test_request" "wf_request (slashed test_request)"
  by (simp_all add: wf_request_def test_request_def slashed_def bytes_def)

text \<open>
  Without a socket every request is refused, which the program does not notice: it runs on, and
  nothing is sent, whatever \<open>sendmsg\<close> would do.
\<close>

lemma SendConfig_no_socket: "p_sock s = None \<Longrightarrow> SendConfig L d ty s = Some (-2, d, s)"
  by (simp add: SendConfig_def)

lemma query_rounds_no_socket: "p_sock s = None \<Longrightarrow> query_rounds L n s = Some s"
  by (induction n) (simp_all add: QueryDriverStatus_def QueryLastShutDownStatus_def SendConfig_no_socket)

lemma agent_main_without_socket:
  assumes "p_sock s = None" and "memory_ok L" and "\<And>w. fst (l_socket L USER_NETLINK_CMD w) < 0"
  shows "\<exists>s'. p_sock s' = None \<and> agent_main L n s = Some s' \<and> agent_main (L\<lparr>l_sendmsg := f\<rparr>) n s = Some s'"
proof -
  let ?s = "RegisterUserAppNotify (Some main_callback) s"
  obtain b w where "a_malloc L sizeof_netlink_sock ?s = (Some b, ?s\<lparr>aworld := w, blocks := blocks ?s + 1\<rparr>)"
    using a_malloc_ok [OF assms(2)] by blast
  moreover obtain fd w1 where "l_socket L USER_NETLINK_CMD w = (fd, w1)" "fd < 0"
    using assms(3) [of w] by (metis prod.collapse)
  moreover obtain e w2 where "l_pthread_create L w1 = (e, w2)" by fastforce
  ultimately have "\<exists>s1. p_sock s1 = None \<and> InitCommunicate L ?s = Some (NET_SOCK, s1)"
    using assms(1)
    by (simp add: InitCommunicate_def netlink_sock_init_def Let_def NET_SOCK_def NET_OK_def a_free_def RegisterUserAppNotify_def)
  then obtain s1 where s1: "p_sock s1 = None" "InitCommunicate L ?s = Some (NET_SOCK, s1)" by blast
  obtain b2 w3 where m: "a_malloc L filerepllen s1 = (Some b2, s1\<lparr>aworld := w3, blocks := blocks s1 + 1\<rparr>)"
    using a_malloc_ok [OF assms(2)] by blast
  let ?L = "L\<lparr>l_sendmsg := f\<rparr>"
  have fields: "l_malloc ?L = l_malloc L" "l_socket ?L = l_socket L" "l_bind ?L = l_bind L" "l_pthread_create ?L = l_pthread_create L"
    by simp_all
  have parts: "a_malloc ?L = a_malloc L" "netlink_sock_init ?L = netlink_sock_init L"
    unfolding a_malloc_def [abs_def] netlink_sock_init_def [abs_def] fields by (rule refl)+
  have "InitCommunicate ?L = InitCommunicate L"
    unfolding InitCommunicate_def [abs_def] fields parts by (rule refl)
  note same = this parts(1)
  obtain n1 n2 where blocks: "test_set = Some n1" "test_items = Some n2"
    using test_set_block test_items_defined by auto
  show ?thesis
    by (simp add: agent_main_def blocks same s1 m twice_def AddBackupSet_def AddBackupItems_def SendConfig_no_socket query_rounds_no_socket)
qed

lemma addset_packet_recv:
  "wf_request r \<Longrightarrow> length junk = 4 \<Longrightarrow>
   netlink_recv_packet K (command_packet p (request_message NOTIFY_TYPE_ADDSET junk (slashed r))) t =
     map_option snd (ConfigAddMonitorSet K (Some (request_data (slashed r))) True t)"
  by (simp add: request_packet_recv request_handler_def)

section \<open>Properties\<close>

text \<open>
  The block of a request must not be sent again: each call appends a slash to its directory, also
  to one that ends in a slash, so the second packet names another directory for the same set. That
  is what the program does with its own request.
\<close>

theorem resent_set_names_other_directory:
  assumes "wf_request (slashed r)" and "wf_request r" and "p_sock s = Some p" and "memory_ok L"
  shows "\<exists>pkt w ret w' pkt2 v ret2 v'. l_sendmsg L (sock p) pkt w = (ret, w') \<and> l_sendmsg L (sock p) pkt2 v = (ret2, v') \<and>
    twice (AddBackupSet L) (backup_block r) s = Some (s\<lparr>aworld := v'\<rparr>) \<and>
    (\<forall>K t. netlink_recv_packet K pkt t = map_option snd (ConfigAddMonitorSet K (Some (request_data (slashed r))) True t)) \<and>
    (\<forall>K t. netlink_recv_packet K pkt2 t =
      map_option snd (ConfigAddMonitorSet K (Some (request_data (slashed (slashed r)))) True t)) \<and>
    cstr (wszBakCacheDir (request_data (slashed r))) = rq_dir r @ [0x2F] \<and>
    cstr (wszBakCacheDir (request_data (slashed (slashed r)))) = rq_dir r @ [0x2F, 0x2F]"
proof -
  obtain junk w ret w' where j: "length junk = 4"
    and snd: "l_sendmsg L (sock p) (command_packet p (request_message NOTIFY_TYPE_ADDSET junk (slashed r))) w = (ret, w')"
    and run: "SendConfig L (Some (backup_block r)) NOTIFY_TYPE_ADDSET s =
       Some (if ret < 0 then NET_SOCK else NET_OK, Some (backup_block (slashed r)), s\<lparr>aworld := w'\<rparr>)"
    by (rule SendConfig_block [OF assms(2-4)])
  obtain junk2 v ret2 v' where j2: "length junk2 = 4"
    and snd2: "l_sendmsg L (sock p) (command_packet p (request_message NOTIFY_TYPE_ADDSET junk2 (slashed (slashed r)))) v = (ret2, v')"
    and run2: "SendConfig L (Some (backup_block (slashed r))) NOTIFY_TYPE_ADDSET (s\<lparr>aworld := w'\<rparr>) =
       Some (if ret2 < 0 then NET_SOCK else NET_OK, Some (backup_block (slashed (slashed r))), s\<lparr>aworld := w'\<rparr>\<lparr>aworld := v'\<rparr>)"
    by (rule SendConfig_block [OF assms(1) _ assms(4), of "s\<lparr>aworld := w'\<rparr>" p]) (use assms(3) in simp_all)
  have "twice (AddBackupSet L) (backup_block r) s = Some (s\<lparr>aworld := v'\<rparr>)"
    by (simp add: twice_def AddBackupSet_def run run2)
  moreover note addset_packet_recv [OF assms(2) j] addset_packet_recv [OF assms(1) j2]
  moreover have "0 \<notin> set (rq_dir r)" using assms(2) by (simp add: wf_request_def)
  then have "cstr (wszBakCacheDir (request_data (slashed r))) = rq_dir r @ [0x2F]"
      "cstr (wszBakCacheDir (request_data (slashed (slashed r)))) = rq_dir r @ [0x2F, 0x2F]"
    by (simp_all add: request_data_def slashed_def cstr_id)
  ultimately show ?thesis using snd snd2 by blast
qed

theorem resent_set_names_other_directory_witness:
  "\<exists>n pkt w pkt2 v. test_set = Some n \<and>
    twice (AddBackupSet (demo_libc [])) (drop 8 n) demo_agent = Some (demo_agent\<lparr>aworld := v @ [pkt2]\<rparr>) \<and>
    netlink_recv_packet example_kernel pkt (example_state []) = map_option snd
      (ConfigAddMonitorSet example_kernel (Some (request_data (slashed test_request))) True (example_state [])) \<and>
    netlink_recv_packet example_kernel pkt2 (example_state []) = map_option snd
      (ConfigAddMonitorSet example_kernel (Some (request_data (slashed (slashed test_request)))) True (example_state [])) \<and>
    cstr (wszBakCacheDir (request_data (slashed (slashed test_request)))) = bytes ''/test/task1///''"
proof -
  obtain n where n: "test_set = Some n" "drop 8 n = backup_block test_request" using test_set_block by auto
  have "p_sock demo_agent = Some zero_sock" by (simp add: demo_agent_def)
  from resent_set_names_other_directory [where 'b = "byte list", OF test_request_wf(2,1) this demo_memory(1)]
  show ?thesis unfolding n(2) [symmetric]
    using n(1) by (fastforce simp: test_request_def bytes_def)
qed

end
