(* ===== verification/Frames.thy ===== *)
theory Frames
  imports Netlink
begin

text \<open>
  What the parts of the module share is the memory and the queue. An operation on the
  configuration leaves both as they are, but for new blocks: \<open>keeps\<close>.
\<close>

definition bounded :: "'w kstate \<Rightarrow> bool" where
  "bounded s \<longleftrightarrow> (\<forall>a. kblocks s a \<noteq> None \<longrightarrow> a < next_blk s)"

definition keeps :: "'w kstate \<Rightarrow> 'w kstate \<Rightarrow> bool" where
  "keeps s s' \<longleftrightarrow> queue_of s' = queue_of s \<and> next_blk s \<le> next_blk s' \<and>
     (\<forall>a<next_blk s. kblocks s' a = kblocks s a) \<and> (bounded s \<longrightarrow> bounded s')"

named_theorems keeps "an operation leaves the queue and the blocks as they are"

lemma keeps_refl [simp, intro]: "keeps s s"
  by (simp add: keeps_def)

lemma keeps_trans [trans]: "keeps a b \<Longrightarrow> keeps b c \<Longrightarrow> keeps a c"
  unfolding keeps_def by auto

lemma keepsI: "queue_of s' = queue_of s \<Longrightarrow> next_blk s \<le> next_blk s' \<Longrightarrow> kblocks s' = kblocks s \<Longrightarrow> keeps s s'"
  by (auto simp: keeps_def bounded_def)

lemma keeps_owned: "keeps s s' \<Longrightarrow> owned q s \<Longrightarrow> owned q s'"
  unfolding keeps_def owned_def bounded_def by (metis option.distinct(1))

lemma keeps_queue_inv: "keeps s s' \<Longrightarrow> queue_inv s \<Longrightarrow> queue_inv s'"
  using keeps_owned by (auto simp: queue_inv_def keeps_def)

lemma grows_keeps: "grows s s' \<Longrightarrow> keeps s s'"
  by (auto simp: grows_def keeps_def bounded_def)

lemma same_keeps: "same_kernel s s' \<Longrightarrow> keeps s s'"
  by (rule grows_keeps [OF same_kernel_grows])

section \<open>Single steps\<close>

lemma keeps_put [intro]:
  "keeps s t \<Longrightarrow> keeps s (put_set a e t)" "keeps s t \<Longrightarrow> keeps s (put_file a f t)"
  "keeps s t \<Longrightarrow> keeps s (set_root c r t)" "keeps s t \<Longrightarrow> keeps s (upd_items c (\<lambda>d. d\<lparr>ulCounts := g d\<rparr>) t)"
  "keeps s t \<Longrightarrow> keeps s (upd_cfg (\<lambda>c. c\<lparr>dwLastNormalShutdown := x\<rparr>) t)"
  "keeps s t \<Longrightarrow> keeps s (upd_cfg (\<lambda>c. c\<lparr>bNormalRunning := b\<rparr>) t)"
  by (cases c; simp add: keeps_def bounded_def put_set_def put_file_def set_root_def)+

lemma EntryAlloc_keeps: "EntryAlloc K c s = (p, s') \<Longrightarrow> keeps s s'"
  by (cases c) (auto simp: EntryAlloc_def Let_def keeps_def bounded_def less_SucI split: if_splits)

lemma EntryFree_keeps: "EntryFree c p s = Some s' \<Longrightarrow> keeps s s'"
  by (cases c) (auto simp: EntryFree_def keeps_def bounded_def split: option.splits if_splits)

lemma SaveConfig_keeps: "SaveConfig K s = Some (r, s') \<Longrightarrow> keeps s s'"
  using SaveConfig_same by (blast intro: same_keeps)

lemma notify_keeps: "notify_user_status K ty st s = Some (r, s') \<Longrightarrow> keeps s s'"
  by (rule grows_keeps [OF leaked_grows [OF notify_user_status_inv]])

lemma rb_for_keeps:
  assumes "rb_for body n s = Some s'" and "\<And>a s n s'. body a s = Some (n, s') \<Longrightarrow> keeps s s'"
  shows "keeps s s'"
  using rb_for_invariant [OF assms(1), of "keeps s"] assms(2) keeps_trans by blast

text \<open>Loading the configuration adds entries, whatever the file says.\<close>

lemma load_sets_keeps: "load_sets K f cfh i n s = Some (ok, s') \<Longrightarrow> keeps s s'"
proof (induction n arbitrary: i s)
  case (Suc n)
  obtain p s1 where al: "MonitorSetEntryAlloc K s = (p, s1)" by fastforce
  then have 1: "keeps s s1" by (simp add: MonitorSetEntryAlloc_def EntryAlloc_keeps)
  show ?case
  proof (cases p)
    case (Some a)
    obtain ret b s2 where rd: "file_read K f (unat (ulOffsetSet cfh) + i * sizeof_MONITOR_SET_ENTRY)
        (replicate sizeof_MONITOR_SET_ENTRY 0) sizeof_MONITOR_SET_ENTRY s1 = ((ret, b), s2)" by (metis prod.exhaust)
    have 2: "keeps s (put_set a (dec_set_entry b) s2)"
      using keeps_trans [OF 1 same_keeps [OF file_read_same [OF rd]]] by (rule keeps_put(1))
    from Suc.prems Some al rd 2 show ?thesis
      by (auto simp: Let_def bind_eq_Some_conv split: if_splits dest!: Suc.IH intro: keeps_trans [OF keeps_put(3)])
  qed (use Suc.prems al 1 in simp)
qed simp

lemma load_files_keeps: "load_files K f cfh i n s = Some (ok, s') \<Longrightarrow> keeps s s'"
proof (induction n arbitrary: i s)
  case (Suc n)
  obtain p s1 where al: "MonitorFileEntryAlloc K s = (p, s1)" by fastforce
  then have 1: "keeps s s1" by (simp add: MonitorFileEntryAlloc_def EntryAlloc_keeps)
  show ?case
  proof (cases p)
    case (Some a)
    obtain ret b s2 where rd: "file_read K f (unat (ulOffsetFiles cfh) + i * sizeof_MONITOR_FILE_ENTRY)
        (replicate sizeof_MONITOR_FILE_ENTRY 0) sizeof_MONITOR_FILE_ENTRY s1 = ((ret, b), s2)" by (metis prod.exhaust)
    have 2: "keeps s (put_file a e s2)" for e
      using keeps_trans [OF 1 same_keeps [OF file_read_same [OF rd]]] by (rule keeps_put(2))
    from Suc.prems Some al rd 2 show ?thesis
      by (auto simp: Let_def bind_eq_Some_conv MonitorFileEntryFree_def split: if_splits option.splits
          dest!: Suc.IH EntryFree_keeps intro: keeps_trans [OF keeps_put(3) [OF keeps_put(2) [OF 2]]] keeps_trans [OF keeps_trans [OF 2]])
  qed (use Suc.prems al 1 in simp)
qed simp

lemma LoadConfig_keeps:
  assumes "LoadConfig K s = Some (r, s')"
  shows "keeps s s'"
proof -
  obtain x s1 where o1: "file_open K rtb_cnf (O_RDONLY + O_CREAT) 384 s = (x, s1)" by fastforce
  with assms obtain f where x: "x = Inr f" by (cases x) (auto simp: LoadConfig_def)
  obtain ret b s2 where rd: "file_read K f 0 (replicate sizeof_CONFIG_FILE_HEADER 0) sizeof_CONFIG_FILE_HEADER s1 = ((ret, b), s2)"
    by (metis prod.exhaust)
  have 2: "keeps s s2" using file_open_same [OF o1] file_read_same [OF rd] same_kernel_trans same_keeps by blast
  have fin: "keeps s (file_close K f t)" if "keeps s t" for t
    using that file_close_same same_keeps keeps_trans by blast
  from assms o1 x rd show ?thesis
    by (auto simp: LoadConfig_def Let_def bind_eq_Some_conv split: if_splits intro!: fin 2
        dest!: load_sets_keeps load_files_keeps intro: keeps_trans [OF keeps_put(5) [OF 2]] keeps_trans)
qed

section \<open>Commands\<close>

text \<open>
  A command is a sequence of a few kinds of change. What each of them keeps, as the relation
  \<open>R\<close> of the states before and after, every packet keeps. An entry of a set only ever gets a
  directory that ends in a NUL, or keeps the one it has.
\<close>

lemma strncat_terminated: "c_strncat dst src n = Some d \<Longrightarrow> terminated d"
  by (auto simp: c_strncat_def terminated_def Let_def split: if_splits)

locale command_steps =
  fixes K :: "'w kernel" and R :: "'w kstate \<Rightarrow> 'w kstate \<Rightarrow> bool"
  assumes refl: "R s s"
    and trans: "R s t \<Longrightarrow> R t u \<Longrightarrow> R s u"
    and set_step: "terminated (wcsSetCacheDir m) \<or> (\<exists>n. set_mem s p = Some n \<and> wcsSetCacheDir m = wcsSetCacheDir n) \<Longrightarrow>
      R s (put_set p m s)"
    and file_step: "R s (put_file a e s)"
    and root_step: "R s (set_root c tr s)"
    and counts_step: "R s (upd_items c (\<lambda>d. d\<lparr>ulCounts := g d\<rparr>) s)"
    and status_step: "R s (upd_cfg (\<lambda>c. c\<lparr>dwLastNormalShutdown := x\<rparr>) s)"
    and alloc_step: "EntryAlloc K c s = (q, s') \<Longrightarrow> R s s'"
    and free_step: "EntryFree c q s = Some s' \<Longrightarrow> R s s'"
    and same_step: "same_kernel s s' \<Longrightarrow> R s s'"
    and notify_step: "notify_user_status K ty st s = Some (r, s') \<Longrightarrow> R s s'"
begin

lemmas then_root = trans [OF root_step]
lemmas then_counts = trans [OF _ counts_step]

lemma save_step: "SaveConfig K s = Some (r, s') \<Longrightarrow> R s s'"
  using SaveConfig_same same_step by blast

lemma loop_step:
  assumes "rb_for body n s = Some s'" and "\<And>a s n s'. body a s = Some (n, s') \<Longrightarrow> R s s'"
  shows "R s s'"
  using rb_for_invariant [OF assms(1), of "R s"] assms(2) trans refl by blast

lemma remove_step: "EntryFree c p (set_root c tr s) = Some s' \<Longrightarrow> R s s'"
  by (rule trans [OF root_step free_step])

lemma del_node_step: "del_node K c a s = Some (n, s') \<Longrightarrow> R s s'"
  by (auto simp: del_node_def Let_def bind_eq_Some_conv intro: remove_step)

lemma del_by_set_step: "del_by_set K c g a s = Some (n, s') \<Longrightarrow> R s s'"
  by (auto simp: del_by_set_def Let_def bind_eq_Some_conv simp del: upd_items.simps dest!: free_step
      intro: refl dest: then_root trans [OF then_counts [OF root_step]] split: if_splits)

lemma del_by_set_loop_step:
  assumes "DelMonitorItemsBySetId K c g s = Some (q, s')"
  shows "R s s'"
proof -
  have "rb_for (del_by_set K c g) (k_rb_first K (RBTree (items c s))) s = Some s'"
    using assms by (auto simp: DelMonitorItemsBySetId_def bind_eq_Some_conv)
  then show ?thesis by (rule loop_step) (rule del_by_set_step)
qed

lemma DelMonitorSet_step: "DelMonitorSet K g b s = Some (r, s') \<Longrightarrow> R s s'"
  by (auto simp: DelMonitorSet_def bind_eq_Some_conv Let_def dest!: del_by_set_loop_step intro: trans)

lemma DelAllMonitorSet_step:
  assumes "DelAllMonitorSet K s = Some (r, s')"
  shows "R s s'"
proof -
  obtain s1 s2 where l: "rb_for (del_node K Files) (k_rb_first K (RBTree (items Files s))) s = Some s1"
    "rb_for (del_node K Sets) (k_rb_first K (RBTree (items Sets (upd_items Files (\<lambda>d. d\<lparr>ulCounts := 0\<rparr>) s1))))
       (upd_items Files (\<lambda>d. d\<lparr>ulCounts := 0\<rparr>) s1) = Some s2"
    and s': "s' = upd_items Sets (\<lambda>d. d\<lparr>ulCounts := 0\<rparr>) s2"
    using assms unfolding DelAllMonitorSet_split by blast
  have "R s s1" using l(1) by (rule loop_step) (rule del_node_step)
  from then_counts [OF this] have "R s (upd_items Files (\<lambda>d. d\<lparr>ulCounts := 0\<rparr>) s1)" .
  moreover have "R (upd_items Files (\<lambda>d. d\<lparr>ulCounts := 0\<rparr>) s1) s2" using l(2) by (rule loop_step) (rule del_node_step)
  ultimately have "R s s2" by (rule trans)
  then show ?thesis unfolding s' by (rule then_counts)
qed

lemma del_item_step: "del_item K it s = Some s' \<Longrightarrow> R s s'"
  by (auto simp: del_item_def Let_def bind_eq_Some_conv refl intro: remove_step split: if_splits)

lemma del_items_step: "del_items K its n s = Some s' \<Longrightarrow> R s s'"
proof (induction its arbitrary: n s)
  case Nil
  then show ?case by (cases n) (auto simp: refl)
next
  case (Cons it its)
  then show ?case by (cases n) (auto simp: refl bind_eq_Some_conv dest: del_item_step intro: trans)
qed

lemma AddMonitorItem_step:
  assumes "AddMonitorItem K e s = Some (r, s')"
  shows "R s s'"
proof (cases e)
  case (Some mfe)
  obtain p s1 where al: "MonitorFileEntryAlloc K s = (p, s1)" by fastforce
  then have s1: "R s s1" unfolding MonitorFileEntryAlloc_def by (rule alloc_step)
  have new: "R s (set_root Files tr (put_file a m s1))" for tr a m
    by (rule trans [OF s1 trans [OF file_step root_step]])
  have ok: "R s (upd_items Files (\<lambda>d. d\<lparr>ulCounts := ulCounts d + 1\<rparr>) (put_file a n (set_root Files tr (put_file a m s1))))" for tr a m n
    by (rule then_counts [OF trans [OF new file_step]])
  have bad: "R s s'" if "EntryFree Files (Some a) (set_root Files tr (put_file a m s1)) = Some s'" for tr a m
    by (rule trans [OF new free_step [OF that]])
  have none: "R s t" if "(None, t) = (p, s1)" for t
    using that s1 by simp
  from assms Some al show ?thesis
    by (auto simp: AddMonitorItem_def MonitorFileEntryFree_def Let_def bind_eq_Some_conv refl simp del: upd_items.simps
        intro: none ok bad split: if_splits option.splits)
qed (use assms in \<open>simp add: AddMonitorItem_def refl\<close>)

lemma insert_set_step:
  assumes "insert_set K mse s = Some (r, s')"
  shows "R s s'"
proof -
  obtain p s1 where al: "MonitorSetEntryAlloc K s = (p, s1)" by fastforce
  then have s1: "R s s1" unfolding MonitorSetEntryAlloc_def by (rule alloc_step)
  show ?thesis
  proof (cases p)
    case None
    then show ?thesis using assms al s1 by (simp add: insert_set_def)
  next
    case (Some a)
    from assms al Some obtain e dir t
      where dir: "c_strncat (wcsSetCacheDir e) (wcsSetCacheDir mse) FILEREPL_MAX_PATH = Some dir"
      and s': "let s2 = set_root Sets t (put_set a (e\<lparr>wcsSetCacheDir := dir, guidSetId := guidSetId mse,
          ullSetSeqNo := ullSetSeqNo mse, ulFileCount := 0\<rparr>) s1) in
        EntryFree Sets (Some a) s2 = Some s' \<or> s' = upd_items Sets (\<lambda>d. d\<lparr>ulCounts := ulCounts d + 1\<rparr>) s2"
      by (force simp: insert_set_def MonitorSetEntryFree_def Let_def bind_eq_Some_conv simp del: upd_items.simps split: if_splits)
    have "R s (set_root Sets t (put_set a (e\<lparr>wcsSetCacheDir := dir, guidSetId := guidSetId mse,
        ullSetSeqNo := ullSetSeqNo mse, ulFileCount := 0\<rparr>) s1))"
      by (rule trans [OF s1 trans [OF set_step root_step]]) (simp add: strncat_terminated [OF dir])
    with s' show ?thesis unfolding Let_def by (elim disjE) (erule trans, erule free_step, hypsubst, erule then_counts)
  qed
qed

lemma AddMonitorSet_step:
  assumes "AddMonitorSet K e b s = Some (r, s')"
  shows "R s s'"
proof (cases e)
  case (Some mse)
  from AddMonitorSet_split [OF assms [unfolded Some]] show ?thesis
    using refl trans insert_set_step DelMonitorSet_step by metis
qed (use assms in \<open>simp add: AddMonitorSet_def refl\<close>)

lemma delete_step:
  "ConfigDelMonitorSet K d s = Some (r, s') \<Longrightarrow> R s s'"
  "ConfigDelMonitorItem K d s = Some (r, s') \<Longrightarrow> R s s'"
  "ConfigDelAllMonitorSet K s = Some (r, s') \<Longrightarrow> R s s'"
  by (auto simp: ConfigDelMonitorSet_def ConfigDelMonitorItem_def ConfigDelAllMonitorSet_def bind_eq_Some_conv
      intro: refl trans dest!: DelMonitorSet_step save_step del_items_step DelAllMonitorSet_step split: option.splits)

lemma count_step: "set_mem s p = Some e \<Longrightarrow> R s (put_set p (e\<lparr>ulFileCount := n\<rparr>) s)"
  by (rule set_step) simp

lemma add_items_step:
  "add_items K bd p its i n st s = Some (b, r, s') \<Longrightarrow> R s s'"
proof (induction its arbitrary: i n st s)
  case Nil
  then show ?case by (cases n) (auto simp: refl)
next
  case (Cons it its)
  show ?case
  proof (cases n)
    case (Suc m)
    with Cons.prems show ?thesis
      by (auto simp: bind_eq_Some_conv AddMonitorFile_def Let_def split: if_splits
          dest!: AddMonitorItem_step Cons.IH delete_step(2) intro: trans trans [OF _ trans [OF count_step]])
  qed (use Cons.prems in \<open>simp add: refl\<close>)
qed

lemma command_step:
  "ConfigAddMonitorSet K d b s = Some (r, s') \<Longrightarrow> R s s'"
  "ConfigDelMonitorSet K d s = Some (r, s') \<Longrightarrow> R s s'"
  "ConfigDelMonitorItem K d s = Some (r, s') \<Longrightarrow> R s s'"
  "ConfigDelAllMonitorSet K s = Some (r, s') \<Longrightarrow> R s s'"
proof -
  show "ConfigAddMonitorSet K d b s = Some (r, s') \<Longrightarrow> R s s'"
  proof (cases d)
    case (Some bd)
    assume "ConfigAddMonitorSet K d b s = Some (r, s')"
    from ConfigAddMonitorSet_split [OF this [unfolded Some]] show "R s s'"
      by (blast intro: trans dest: AddMonitorSet_step add_items_step save_step)
  qed (simp add: ConfigAddMonitorSet_def refl)
qed (use delete_step in blast)+

lemma process_netlink_cmd_step:
  assumes "process_netlink_cmd K d b len s = Some (r, s')"
  shows "R s s'"
  using assms
  by (auto simp: process_netlink_cmd_def Let_def bind_eq_Some_conv refl split: option.splits if_splits
      dest: command_step notify_step intro: status_step trans [OF status_step])

lemma packet_step:
  assumes "netlink_recv_packet K skb s = Some s'"
  shows "R s s'"
  using assms by (cases rule: netlink_recv_cases) (auto simp: refl dest: process_netlink_cmd_step)

end

interpretation keeps_cmd: command_steps K keeps for K
  by unfold_locales (auto intro: keeps_trans EntryAlloc_keeps EntryFree_keeps same_keeps notify_keeps)

lemmas DelAllMonitorSet_keeps = keeps_cmd.DelAllMonitorSet_step
lemmas netlink_recv_packet_keeps = keeps_cmd.packet_step

section \<open>Directories\<close>

text \<open>The log directories are C strings; a configuration file could hold others.\<close>

definition dirs_terminated :: "'w kstate \<Rightarrow> bool" where
  "dirs_terminated s \<longleftrightarrow> (\<forall>p m. set_mem s p = Some m \<longrightarrow> terminated (wcsSetCacheDir m))"

definition dirs_kept :: "'w kstate \<Rightarrow> 'w kstate \<Rightarrow> bool" where
  "dirs_kept s s' \<longleftrightarrow> (dirs_terminated s \<longrightarrow> dirs_terminated s')"

lemma EntryAlloc_dirs: "EntryAlloc K c s = (p, s') \<Longrightarrow> dirs_kept s s'"
  by (cases c) (auto simp: EntryAlloc_def Let_def dirs_kept_def dirs_terminated_def zero_set_entry_def terminated_def FILEREPL_MAX_PATH_def
      split: if_splits)

lemma EntryFree_dirs: "EntryFree c p s = Some s' \<Longrightarrow> dirs_kept s s'"
  by (cases c) (auto simp: EntryFree_def dirs_kept_def dirs_terminated_def split: option.splits if_splits)

lemma grows_dirs: "grows s s' \<Longrightarrow> dirs_kept s s'"
  by (simp add: grows_def dirs_kept_def dirs_terminated_def)

lemma dirs_refl: "dirs_kept s s"
  by (simp add: dirs_kept_def)

lemma dirs_trans: "dirs_kept s t \<Longrightarrow> dirs_kept t u \<Longrightarrow> dirs_kept s u"
  by (simp add: dirs_kept_def)

lemma put_dirs:
  "dirs_kept s (put_file a e s)" "dirs_kept s (set_root c tr s)" "dirs_kept s (upd_items c (\<lambda>d. d\<lparr>ulCounts := g d\<rparr>) s)"
  "dirs_kept s (upd_cfg f s)"
  "terminated (wcsSetCacheDir m) \<or> (\<exists>n. set_mem s p = Some n \<and> wcsSetCacheDir m = wcsSetCacheDir n) \<Longrightarrow> dirs_kept s (put_set p m s)"
  by (cases c; auto simp: dirs_kept_def dirs_terminated_def put_file_def put_set_def set_root_def)+

interpretation dirs_cmd: command_steps K dirs_kept for K
  by unfold_locales
    (auto intro: put_dirs dirs_refl dirs_trans EntryAlloc_dirs EntryFree_dirs grows_dirs [OF same_kernel_grows] grows_dirs [OF leaked_grows [OF notify_user_status_inv]])

end
