(* ===== verification/HookWalk.thy ===== *)
theory HookWalk
  imports Frames
begin

text \<open>
  Every path through every hook is a sequence of a few kinds of step: allocating and freeing
  buffers, running the original, drawing numbers, queueing a record, telling user space. What
  each of these keeps, memory running out included, every hook keeps.
\<close>

section \<open>Queueing a record\<close>

text \<open>A well-formed record announces its true size, which fits an \<open>int\<close>.\<close>

definition log_sized :: "LOG_FILE \<Rightarrow> bool" where
  "log_sized l \<longleftrightarrow> full_size l \<and> length (log_image l) < 2 ^ 31"

lemma log_sized_records:
  "log_sized (plain_record ty isdir sno gno t p)" "log_sized (two_record ty sno gno t p q)"
  "length d + 1024 < 2 ^ 31 \<Longrightarrow> log_sized (write_record sno gno t p d pos)"
  by (simp_all add: log_sized_def full_size_records length_log_image wf_records)
    (simp_all add: plain_record_def two_record_def write_record_def min_less_iff_disj)

text \<open>A record is queued in three new blocks, or a block is used up in vain.\<close>

lemma queue_log_queued:
  assumes "queue_log K (next_blk s) l dir gno (s\<lparr>next_blk := Suc (next_blk s), kblocks := (kblocks s)(next_blk s \<mapsto> r)\<rparr>) = Some (q, s')"
    and "r = (if ulType (hdr l) = LOG_FILE_TYPE_WRITE then Vmalloc else Kmalloc)"
  shows "\<exists>c. queued c s s' \<and> logfile c = l"
proof -
  let ?c = "\<lparr>piowc = Suc (Suc (next_blk s)), iologpath_blk = Suc (next_blk s),
    iologpath = log_path dir gno, logfile_blk = next_blk s, logfile = l\<rparr>"
  have "queued ?c s s'"
    using assms by (auto simp: queue_log_def alloc_block_def queued_def push_iowrite_def upd_cfg_def
        completecompletion_def Let_def split: if_splits)
  then show ?thesis by (intro exI [of _ ?c]) simp
qed

definition logged :: "'w kstate \<Rightarrow> 'w kstate \<Rightarrow> bool" where
  "logged s s' \<longleftrightarrow> (\<exists>c. queued c s s' \<and> log_sized (logfile c)) \<or> (\<exists>n. n \<le> 1 \<and> s' = s\<lparr>next_blk := next_blk s + n\<rparr>)"

lemma log_plain_logged:
  assumes "log_plain K ty isdir sno gno t dir p s = Some (r, s')" and "ty \<noteq> LOG_FILE_TYPE_WRITE"
  shows "logged s s'"
  using assms log_sized_records(1) [of ty isdir sno gno t p] queue_log_queued [of K s "plain_record ty isdir sno gno t p" dir gno Kmalloc r s']
  by (fastforce simp: log_plain_def alloc_block_def strncpy_path plain_record_def sizeof_log_defs log_header_def logged_def
      split: if_splits)

lemma log_two_logged:
  assumes "log_two K ty sno gno t dir p q s = Some (r, s')" and "ty \<noteq> LOG_FILE_TYPE_WRITE"
  shows "logged s s'"
  using assms log_sized_records(2) [of ty sno gno t p q] queue_log_queued [of K s "two_record ty sno gno t p q" dir gno Kmalloc r s']
  by (fastforce simp: log_two_def alloc_block_def strncpy_path strncpy_data two_record_def sizeof_log_defs log_header_def
      Let_def logged_def split: if_splits)

lemma as_int_less: "as_int r < 2 ^ 31"
  using sint_lt [of "word_of_int r :: u32"] by (simp add: as_int_def)

lemma write_logged:
  assumes "createiologforwrite K sno gno t dir p d n pos s = Some (r, s')"
  shows "logged s s'"
proof -
  let ?n = "as_int (int sizeof_LOG_FILE + int n - 4)"
  show ?thesis
  proof (cases "?n \<le> 0 \<or> \<not> k_alloc K (next_blk s)")
    case True
    with assms show ?thesis by (fastforce simp: createiologforwrite_def alloc_block_def Let_def logged_def split: if_splits)
  next
    case False
    with assms have n: "\<not> ?n < int (LOG_FILE_HEADER_SIZE + n)" "n \<le> length d"
      by (auto simp: createiologforwrite_def alloc_block_def Let_def split: if_splits)
    then have "int (LOG_FILE_HEADER_SIZE + n) < 2 ^ 31" using as_int_less [of "int sizeof_LOG_FILE + int n - 4"] by linarith
    then have fits: "length (take n d) + 1024 < 2 ^ 31" "length (take n d) = n" using n(2) by (simp_all add: sizeof_log_defs)
    then have len: "?n = int (LOG_FILE_HEADER_SIZE + n)" by (subst as_int_id) (simp_all add: sizeof_log_defs)
    have len': "as_int (1024 + int n) = 1024 + int n" "nat (1024 + int n) = 1024 + n" using len by (simp_all add: sizeof_log_defs)
    have "queue_log K (next_blk s) (write_record sno gno t p (take n d) pos) dir gno
        (s\<lparr>next_blk := Suc (next_blk s), kblocks := (kblocks s)(next_blk s \<mapsto> Vmalloc)\<rparr>) = Some (r, s')"
      using assms False n(2) fits(2)
      by (simp add: createiologforwrite_def len' alloc_block_def strncpy_path write_record_def log_header_def sizeof_log_defs Let_def)
    from queue_log_queued [OF this] log_sized_records(3) [OF fits(1)] show ?thesis
      by (fastforce simp: logged_def write_record_def log_header_def)
  qed
qed

lemma log_logged:
  "log_error K p la t = Some (x, t') \<Longrightarrow> logged t t'"
  "createiologformkdir K a b c d p mode t = Some (x, t') \<Longrightarrow> logged t t'"
  "createiologforcreatefile K a b c d p mode t = Some (x, t') \<Longrightarrow> logged t t'"
  "createiologforrmdir K a b c d p t = Some (x, t') \<Longrightarrow> logged t t'"
  "createiologforrmfile K a b c d p t = Some (x, t') \<Longrightarrow> logged t t'"
  "createiologforrename K a b c d p q t = Some (x, t') \<Longrightarrow> logged t t'"
  "createiologforcreatesymlink K a b c d p q t = Some (x, t') \<Longrightarrow> logged t t'"
  "createiologforcreatelink K a b c d p q t = Some (x, t') \<Longrightarrow> logged t t'"
  by (auto simp: log_error_def createiologforerror_def createiologformkdir_def createiologforcreatefile_def createiologforrmdir_def
      createiologforrmfile_def createiologforrename_def createiologforcreatesymlink_def createiologforcreatelink_def log_types
      intro: log_plain_logged log_two_logged)

section \<open>Partial results\<close>

text \<open>\<open>safe Q m\<close>: if \<open>m\<close> returns, \<open>Q\<close> holds of what it returns.\<close>

definition safe :: "('a \<Rightarrow> bool) \<Rightarrow> 'a option \<Rightarrow> bool" where
  "safe Q m \<longleftrightarrow> (\<forall>v. m = Some v \<longrightarrow> Q v)"

lemma safeD: "safe Q m \<Longrightarrow> m = Some v \<Longrightarrow> Q v"
  by (simp add: safe_def)

lemma safe_basic:
  "Q v \<Longrightarrow> safe Q (Some v)" "safe Q None" "safe (\<lambda>v. safe Q (f v)) m \<Longrightarrow> safe Q (Option.bind m f)"
  "(c \<Longrightarrow> safe Q a) \<Longrightarrow> (\<not> c \<Longrightarrow> safe Q b) \<Longrightarrow> safe Q (if c then a else b)"
  "(\<And>a b. x = (a, b) \<Longrightarrow> safe Q (g a b)) \<Longrightarrow> safe Q (case x of (a, b) \<Rightarrow> g a b)"
  by (auto simp: safe_def bind_eq_Some_conv split: prod.split)

lemma safe_bind: "(\<And>v. m = Some v \<Longrightarrow> safe Q (f v)) \<Longrightarrow> safe Q (Option.bind m f)"
  by (cases m) (simp_all add: safe_basic)

lemma lookup_in_tree: "GetMonitorFileEntryByabspath p s = Some (Some a) \<Longrightarrow> a \<in> set_tree (file_tree_of s)"
  unfolding GetMonitorFileEntryByabspath_def using mi.search_hit by blast

lemma safe_lookup:
  "(\<And>r. \<forall>a. r = Some a \<longrightarrow> a \<in> set_tree (file_tree_of s) \<Longrightarrow> safe Q (f r)) \<Longrightarrow>
   safe Q (Option.bind (GetMonitorFileEntryByabspath p s) f)"
  by (rule safe_bind) (metis lookup_in_tree)

lemma safe_lookup_or:
  assumes "\<forall>a. r = Some a \<longrightarrow> a \<in> set_tree (file_tree_of s)"
    and "\<And>r. \<forall>a. r = Some a \<longrightarrow> a \<in> set_tree (file_tree_of s) \<Longrightarrow> safe Q (f r)"
  shows "safe Q (Option.bind (if r \<noteq> None then Some r else GetMonitorFileEntryByabspath p s) f)"
proof (cases r)
  case None
  then show ?thesis using safe_lookup [OF assms(2)] by simp
next
  case (Some a)
  then show ?thesis using assms by (simp add: safe_basic)
qed

section \<open>What every hook keeps\<close>

text \<open>
  \<open>I H s\<close>: the fact about the state, while the hook holds the blocks \<open>H\<close>.
\<close>

locale hook_steps =
  fixes K :: "'w kernel" and I :: "addr set \<Rightarrow> 'w kstate \<Rightarrow> bool"
  assumes weaken: "I H s \<Longrightarrow> G \<subseteq> H \<Longrightarrow> I G s"
    and run_step: "call_run run s = (ret, s') \<Longrightarrow> I H s \<Longrightarrow> I H s'"
    and alloc_step: "alloc_block K r s = (p, s') \<Longrightarrow> I H s \<Longrightarrow> I (H \<union> set_option p) s'"
    and free_step: "free_block r a s = Some s' \<Longrightarrow> I H s \<Longrightarrow> a \<in> H \<Longrightarrow> I H s'"
    and notify_step: "notify_user_status K ty st s = Some (n, s') \<Longrightarrow> I H s \<Longrightarrow> I H s'"
    and switch_off_step: "I H s \<Longrightarrow> I H (upd_cfg (\<lambda>c. c\<lparr>bNormalRunning := b\<rparr>) s)"
    and take_step: "take_args K pmfe s = Some (args, s') \<Longrightarrow> \<forall>a. pmfe = Some a \<longrightarrow> a \<in> set_tree (file_tree_of s) \<Longrightarrow>
      I H s \<Longrightarrow> I H s'"
    and logged_step: "logged s s' \<Longrightarrow> I H s \<Longrightarrow> I H s'"
begin

lemma free_opt_step: "free_opt r p s = Some s' \<Longrightarrow> I H s \<Longrightarrow> set_option p \<subseteq> H \<Longrightarrow> I H s'"
  using free_step by (fastforce simp: free_opt_def split: option.splits)

lemma safe_alloc:
  "I H s \<Longrightarrow> (\<And>p s'. I (H \<union> set_option p) s' \<Longrightarrow> safe Q (g p s')) \<Longrightarrow>
   safe Q (case alloc_block K r s of (p, s') \<Rightarrow> g p s')"
  using alloc_step by (fastforce split: prod.split)

lemma safe_run:
  "I H s \<Longrightarrow> (\<And>ret s'. I H s' \<Longrightarrow> safe Q (g ret s')) \<Longrightarrow> safe Q (case call_run run s of (ret, s') \<Rightarrow> g ret s')"
  using run_step by (fastforce split: prod.split)

lemma safe_take_args:
  "I H s \<Longrightarrow> \<forall>a. r = Some a \<longrightarrow> a \<in> set_tree (file_tree_of s) \<Longrightarrow> (\<And>x s'. I H s' \<Longrightarrow> safe Q (g x s')) \<Longrightarrow>
   safe Q (Option.bind (take_args K r s) (\<lambda>(x, s'). g x s'))"
  by (rule safe_bind) (auto dest: take_step split: prod.split)

lemma log_result_step:
  assumes "I H s" and "\<And>la t x t'. S la t = Some (x, t') \<Longrightarrow> logged t t'" and "\<And>la t x t'. F la t = Some (x, t') \<Longrightarrow> logged t t'"
    and "log_result S F ok args s = Some (y, s')"
  shows "I H s'"
proof (cases args)
  case None
  with assms(1,4) show ?thesis by (simp add: log_result_def)
next
  case (Some la)
  with assms(4) obtain x where "(if ok then S la s else F la s) = Some (x, s')"
    by (auto simp: log_result_def bind_eq_Some_conv)
  then show ?thesis using assms(2,3) logged_step [OF _ assms(1)] by (metis (full_types))
qed

lemma safe_log_result:
  assumes "I H s" and "\<And>la t x t'. S la t = Some (x, t') \<Longrightarrow> logged t t'" and "\<And>la t x t'. F la t = Some (x, t') \<Longrightarrow> logged t t'"
    and "\<And>x s'. I H s' \<Longrightarrow> safe Q (g x s')"
  shows "safe Q (Option.bind (log_result S F ok args s) (\<lambda>(x, s'). g x s'))"
proof (rule safe_bind)
  fix v assume run: "log_result S F ok args s = Some v"
  obtain y s' where v: "v = (y, s')" by (cases v)
  have "I H s'" by (rule log_result_step [OF assms(1-3) run [unfolded v]])
  then show "safe Q (case v of (x, s') \<Rightarrow> g x s')" using assms(4) by (simp add: v)
qed

lemma safe_free_opt:
  "I H s \<Longrightarrow> set_option p \<subseteq> H \<Longrightarrow> (\<And>s'. I H s' \<Longrightarrow> safe Q (f s')) \<Longrightarrow> safe Q (Option.bind (free_opt r p s) f)"
  by (rule safe_bind) (metis free_opt_step)

lemma safe_notify:
  "I H s \<Longrightarrow> (\<And>x s'. I H s' \<Longrightarrow> safe Q (g x s')) \<Longrightarrow>
   safe Q (Option.bind (notify_user_status K ty st s) (\<lambda>(x, s'). g x s'))"
  by (rule safe_bind) (auto dest: notify_step split: prod.split)

lemma page_step:
  assumes "alloc_block K r s = (Some a, s1)" and "free_block r a s1 = Some s2" and "I H s"
  shows "I H s2"
  using free_step [OF assms(2) alloc_step [OF assms(1,3)]] weaken by fastforce

lemma page_refused: "alloc_block K r s = (None, s1) \<Longrightarrow> I H s \<Longrightarrow> I H s1"
  using alloc_step [of r s None s1 H] by simp

lemma path_step:
  "getabsfullpathfromnd K nd d ab s = Some (x, s') \<Longrightarrow> I H s \<Longrightarrow> I H s'"
  "getabsfullpathfromstructfile K file ab s = Some (x, s') \<Longrightarrow> I H s \<Longrightarrow> I H s'"
  by (auto simp: getabsfullpathfromnd_def getabsfullpathfromstructfile_def bind_eq_Some_conv
      split: option.splits prod.splits sum.splits dest: page_step page_refused)

lemma safe_path:
  "I H s \<Longrightarrow> (\<And>x p s'. I H s' \<Longrightarrow> safe Q (g x p s')) \<Longrightarrow>
   safe Q (Option.bind (getabsfullpathfromnd K nd d ab s) (\<lambda>((x, p), s'). g x p s'))"
  "I H s \<Longrightarrow> (\<And>x p s'. I H s' \<Longrightarrow> safe Q (g x p s')) \<Longrightarrow>
   safe Q (Option.bind (getabsfullpathfromstructfile K file ab s) (\<lambda>((x, p), s'). g x p s'))"
  by (rule safe_bind; auto dest: path_step split: prod.split)+

lemma safe_block:
  "safe (\<lambda>(x, y, z, s'). I H s') m \<Longrightarrow> (\<And>x y z s'. I H s' \<Longrightarrow> safe Q (g x y z s')) \<Longrightarrow>
   safe Q (Option.bind m (\<lambda>(x, y, z, s'). g x y z s'))"
  "safe (\<lambda>(y, z, s'). I H s') m2 \<Longrightarrow> (\<And>y z s'. I H s' \<Longrightarrow> safe Q (h y z s')) \<Longrightarrow>
   safe Q (Option.bind m2 (\<lambda>(y, z, s'). h y z s'))"
  "safe (\<lambda>(z, s'). I H s') m3 \<Longrightarrow> (\<And>z s'. I H s' \<Longrightarrow> safe Q (k z s')) \<Longrightarrow>
   safe Q (Option.bind m3 (\<lambda>(z, s'). k z s'))"
  by (rule safe_bind; fastforce dest: safeD)+

lemma block_done:
  "I H s \<Longrightarrow> safe (\<lambda>(x, y, z, s'). I H s') (Some (a, b, c, s))"
  "I H s \<Longrightarrow> safe (\<lambda>(y, z, s'). I H s') (Some (b, c, s))"
  "I H s \<Longrightarrow> safe (\<lambda>(z, s'). I H s') (Some (c, s))"
  by (simp_all add: safe_def)

lemma safe_switch:
  assumes "I H s" and "\<And>s'. I H s' \<Longrightarrow> safe Q (f s')"
  shows "safe Q (Option.bind (if c then Option.bind (notify_user_status K ty st (upd_cfg (\<lambda>c. c\<lparr>bNormalRunning := b\<rparr>) s))
    (\<lambda>(x, s). Some s) else Some s) f)"
proof (cases c)
  case True
  show ?thesis unfolding if_P [OF True]
    by (rule safe_bind) (auto simp: bind_eq_Some_conv intro: assms(2) [OF notify_step [OF _ switch_off_step [OF assms(1)]]])
qed (use assms in \<open>simp add: safe_basic\<close>)

end

end
