(* ===== verification/HookPhases.thy ===== *)
theory HookPhases
  imports HookWalk HookLog
begin

text \<open>
  A hook in its two halves, before and after it runs the original, which may sleep: in between,
  other hooks, packets and the writer go on. The locals a hook keeps are its \<open>frame\<close>.
\<close>

section \<open>The halves\<close>

text \<open>
  The buffers in the order in which they are freed, the numbers that were drawn, the path of the
  operation and the other path, and the status of a write so far.
\<close>

record hook_frame =
  hf_bufs :: "addr option list"
  hf_args :: "log_args option"
  hf_path :: "byte list"
  hf_other :: "byte list"
  hf_iret :: int

definition skipped :: hook_frame where
  "skipped = \<lparr>hf_bufs = [], hf_args = None, hf_path = [], hf_other = [], hf_iret = 0\<rparr>"

definition look_up :: "'w kernel \<Rightarrow> byte list \<Rightarrow> 'w kstate \<Rightarrow> (log_args option \<times> 'w kstate) option" where
  "look_up K p s = do { pmfe \<leftarrow> GetMonitorFileEntryByabspath p s; take_args K pmfe s }"

fun hook_before :: "'w kernel \<Rightarrow> 'w vfs_op \<Rightarrow> 'w kstate \<Rightarrow> (hook_frame \<times> 'w kstate) option" where
  "hook_before K (Vfs_rename old_dentry new_dentry) s =
     (if driver_off s then Some (skipped, s)
      else
        let (iologdir, s) = alloc_block K Kmalloc s;
            (oldabspath, s) = alloc_block K Kmalloc s;
            (newabspath, s) = alloc_block K Kmalloc s
        in do { (args, old, new, s) \<leftarrow>
                  (if oldabspath = None \<or> newabspath = None \<or> iologdir = None
                   then Some (None, [], [], s)
                   else do {
                     (_, new) \<leftarrow> getabsfullpathfromdentry new_dentry [];
                     (_, old) \<leftarrow> getabsfullpathfromdentry old_dentry [];
                     pmfe \<leftarrow> GetMonitorFileEntryByabspath new s;
                     pmfe \<leftarrow> (if pmfe \<noteq> None then Some pmfe else GetMonitorFileEntryByabspath old s);
                     (args, s) \<leftarrow> take_args K pmfe s;
                     Some (args, old, new, s) });
                Some (\<lparr>hf_bufs = [oldabspath, newabspath, iologdir], hf_args = args, hf_path = new, hf_other = old, hf_iret = 0\<rparr>, s) })"
| "hook_before K (Vfs_unlink dentry) s =
     (if driver_off s then Some (skipped, s)
      else
        let (iologdir, s) = alloc_block K Kmalloc s;
            (abspath, s) = alloc_block K Kmalloc s
        in if abspath = None \<or> iologdir = None then Some (skipped, s)
           else do {
             (_, p) \<leftarrow> getabsfullpathfromdentry dentry [];
             (args, s) \<leftarrow> look_up K p s;
             Some (\<lparr>hf_bufs = [abspath, iologdir], hf_args = args, hf_path = p, hf_other = [], hf_iret = 0\<rparr>, s) })"
| "hook_before K (Vfs_rmdir dentry) s =
     (if driver_off s then Some (skipped, s)
      else
        let (iologdir, s) = alloc_block K Kmalloc s;
            (abspath, s) = alloc_block K Kmalloc s
        in if abspath = None then Some (skipped, s)
           else if iologdir = None \<or> dentry = None then None
           else do {
             (_, p) \<leftarrow> getabsfullpathfromdentry dentry [];
             (args, s) \<leftarrow> look_up K p s;
             Some (\<lparr>hf_bufs = [abspath, iologdir], hf_args = args, hf_path = p, hf_other = [], hf_iret = 0\<rparr>, s) })"
| "hook_before K (Vfs_create dentry has_inode mode nd) s =
     (if driver_off s then Some (skipped, s)
      else if has_inode then Some (skipped, s)
      else
        let (iologdir, s) = alloc_block K Kmalloc s;
            (abspath, s) = alloc_block K Kmalloc s
        in do { (args, p, s) \<leftarrow>
                  (if abspath = None \<or> iologdir = None then Some (None, [], s)
                   else do {
                     ((_, p), s) \<leftarrow> getabsfullpathfromnd K nd (Some dentry) [] s;
                     (args, s) \<leftarrow> look_up K p s;
                     Some (args, p, s) });
                Some (\<lparr>hf_bufs = [abspath, iologdir], hf_args = args, hf_path = p, hf_other = [], hf_iret = 0\<rparr>, s) })"
| "hook_before K (Vfs_symlink path_lookup dentry oldname) s =
     (if driver_off s then Some (skipped, s)
      else
        let (iologdir, s) = alloc_block K Kmalloc s;
            (oldabspath, s) = alloc_block K Kmalloc s;
            (newabspath, s) = alloc_block K Kmalloc s
        in do { (args, old, new, s) \<leftarrow>
                  (if oldabspath = None \<or> newabspath = None \<or> iologdir = None
                   then Some (None, [], [], s)
                   else do {
                     (_, old) \<leftarrow> getabsfullpath path_lookup oldname [];
                     (_, new) \<leftarrow> getabsfullpathfromdentry dentry [];
                     (args, s) \<leftarrow> look_up K new s;
                     Some (args, old, new, s) });
                Some (\<lparr>hf_bufs = [oldabspath, newabspath, iologdir], hf_args = args, hf_path = new, hf_other = old, hf_iret = 0\<rparr>, s) })"
| "hook_before K (Vfs_link old_dentry new_dentry) s =
     (if driver_off s then Some (skipped, s)
      else
        let (oldabspath, s) = alloc_block K Kmalloc s;
            (newabspath, s) = alloc_block K Kmalloc s;
            (iologdir, s) = alloc_block K Kmalloc s
        in do { (args, old, new, s) \<leftarrow>
                  (if oldabspath = None \<or> newabspath = None \<or> iologdir = None
                   then Some (None, [], [], s)
                   else do {
                     (_, old) \<leftarrow> getabsfullpathfromdentry old_dentry [];
                     (_, new) \<leftarrow> getabsfullpathfromdentry new_dentry [];
                     (args, s) \<leftarrow> look_up K new s;
                     Some (args, old, new, s) });
                Some (\<lparr>hf_bufs = [oldabspath, newabspath, iologdir], hf_args = args, hf_path = new, hf_other = old, hf_iret = 0\<rparr>, s) })"
| "hook_before K (Vfs_mkdir dentry mode) s =
     (if driver_off s then Some (skipped, s)
      else
        let (iologdir, s) = alloc_block K Kmalloc s;
            (abspath, s) = alloc_block K Kmalloc s
        in do { (args, p, s) \<leftarrow>
                  (if abspath = None \<or> iologdir = None then Some (None, [], s)
                   else if dentry = None then None
                   else do {
                     (_, p) \<leftarrow> getabsfullpathfromdentry dentry [];
                     (args, s) \<leftarrow> look_up K p s;
                     Some (args, p, s) });
                Some (\<lparr>hf_bufs = [abspath, iologdir], hf_args = args, hf_path = p, hf_other = [], hf_iret = 0\<rparr>, s) })"
| "hook_before K (Vfs_write file buf count pos) s =
     (if driver_off s then Some (skipped, s)
      else if f_flags file = 1 then Some (skipped, s)
      else
        let (abspath, s) = alloc_block K Kmalloc s;
            (iologdir, s) = alloc_block K Kmalloc s
        in if abspath = None \<or> iologdir = None then Some (skipped, s)
           else do {
             ((iret, p), s) \<leftarrow> getabsfullpathfromstructfile K (Some file) [] s;
             (args, s) \<leftarrow> look_up K p s;
             Some (\<lparr>hf_bufs = [abspath, iologdir], hf_args = args, hf_path = p, hf_other = [], hf_iret = iret\<rparr>, s) })"

text \<open>The record of a success.\<close>

fun log_success :: "'w kernel \<Rightarrow> 'w vfs_op \<Rightarrow> hook_frame \<Rightarrow> log_args \<Rightarrow> 'w kstate \<Rightarrow> (int \<times> 'w kstate) option" where
  "log_success K (Vfs_rename old new) f =
     (\<lambda>la. createiologforrename K (la_seq la) (la_gseq la) (la_time la) (la_dir la) (hf_other f) (hf_path f))"
| "log_success K (Vfs_unlink d) f = (\<lambda>la. createiologforrmfile K (la_seq la) (la_gseq la) (la_time la) (la_dir la) (hf_path f))"
| "log_success K (Vfs_rmdir d) f = (\<lambda>la. createiologforrmdir K (la_seq la) (la_gseq la) (la_time la) (la_dir la) (hf_path f))"
| "log_success K (Vfs_create d i mode nd) f =
     (\<lambda>la. createiologforcreatefile K (la_seq la) (la_gseq la) (la_time la) (la_dir la) (hf_path f) mode)"
| "log_success K (Vfs_symlink pl d name) f =
     (\<lambda>la. createiologforcreatesymlink K (la_seq la) (la_gseq la) (la_time la) (la_dir la) (hf_path f) (hf_other f))"
| "log_success K (Vfs_link old new) f =
     (\<lambda>la. createiologforcreatelink K (la_seq la) (la_gseq la) (la_time la) (la_dir la) (hf_path f) (hf_other f))"
| "log_success K (Vfs_mkdir d mode) f =
     (\<lambda>la. createiologformkdir K (la_seq la) (la_gseq la) (la_time la) (la_dir la) (hf_path f) mode)"
| "log_success K (Vfs_write file buf count pos) f =
     (\<lambda>la. createiologforwrite K (la_seq la) (la_gseq la) (la_time la) (la_dir la) (hf_path f) buf count pos)"

fun is_write :: "'w vfs_op \<Rightarrow> bool" where
  "is_write (Vfs_write file buf count pos) = True"
| "is_write _ = False"

fun free_all :: "addr option list \<Rightarrow> 'w kstate \<Rightarrow> 'w kstate option" where
  "free_all [] s = Some s"
| "free_all (b # bs) s = do { s \<leftarrow> free_opt Kmalloc b s; free_all bs s }"

definition hook_after :: "'w kernel \<Rightarrow> 'w vfs_op \<Rightarrow> hook_frame \<Rightarrow> int \<Rightarrow> 'w kstate \<Rightarrow> 'w kstate option" where
  "hook_after K op f ret s =
     do { (logged, s) \<leftarrow> log_result (log_success K op f) (log_error K (hf_path f)) (op_good op ret) (hf_args f) s;
          let iret = (case logged of None \<Rightarrow> hf_iret f | Some r \<Rightarrow> r);
          s \<leftarrow> (if is_write op \<and> iret \<noteq> 0
               then do {
                 let s = upd_cfg (\<lambda>c. c\<lparr>bNormalRunning := False\<rparr>) s;
                 (_, s) \<leftarrow> notify_user_status K NOTIFY_TYPE_CLIENT_ERROR (-3) s;
                 Some s }
               else Some s);
          free_all (hf_bufs f) s }"

section \<open>The halves make up the hook\<close>

definition hook_rest :: "'w kernel \<Rightarrow> 'w orig \<Rightarrow> 'w vfs_op \<Rightarrow> hook_frame \<Rightarrow> 'w kstate \<Rightarrow> (int \<times> 'w kstate) option" where
  "hook_rest K run op f s =
     do { let (ret, s) = call_run run s;
          s \<leftarrow> hook_after K op f ret s;
          Some (ret, s) }"

lemma rest_skipped: "hook_rest K run op skipped s = Some (call_run run s)"
  by (simp add: hook_rest_def hook_after_def skipped_def log_result_def split_beta)

lemma rest_frame:
  "hook_rest K run op \<lparr>hf_bufs = bs, hf_args = args, hf_path = p, hf_other = q, hf_iret = r\<rparr> s =
     (let f = \<lparr>hf_bufs = bs, hf_args = args, hf_path = p, hf_other = q, hf_iret = r\<rparr>; (ret, s) = call_run run s in
      do { s \<leftarrow> hook_after K op f ret s; Some (ret, s) })"
  by (simp add: hook_rest_def)

lemma bind_push:
  "Option.bind (if c then a else b) g = (if c then Option.bind a g else Option.bind b g)"
  "Option.bind (case x of (u, v) \<Rightarrow> h u v) g = (case x of (u, v) \<Rightarrow> Option.bind (h u v) g)"
  by (simp_all split: prod.split)

lemma log_nothing: "log_result f g ok None s = Some (None, s)"
  by (simp add: log_result_def)

lemmas halves = log_nothing rest_skipped rest_frame hook_after_def look_up_def bind_push Option.bind_assoc Let_def case_prod_unfold

lemma delete_halves:
  "rtb_vfs_unlink K run d s = Option.bind (hook_before K (Vfs_unlink d) s) (\<lambda>(f, s). hook_rest K run (Vfs_unlink d) f s)"
  "rtb_vfs_rmdir K run d s = Option.bind (hook_before K (Vfs_rmdir d) s) (\<lambda>(f, s). hook_rest K run (Vfs_rmdir d) f s)"
  by (simp_all add: rtb_vfs_unlink_def rtb_vfs_rmdir_def halves cong: if_cong)

lemma two_path_halves:
  "rtb_vfs_rename K run d d' s = Option.bind (hook_before K (Vfs_rename d d') s) (\<lambda>(f, s). hook_rest K run (Vfs_rename d d') f s)"
  "rtb_vfs_link K run d d' s = Option.bind (hook_before K (Vfs_link d d') s) (\<lambda>(f, s). hook_rest K run (Vfs_link d d') f s)"
  "rtb_vfs_symlink K run pl d n s = Option.bind (hook_before K (Vfs_symlink pl d n) s) (\<lambda>(f, s). hook_rest K run (Vfs_symlink pl d n) f s)"
  by (simp_all add: rtb_vfs_rename_def rtb_vfs_link_def rtb_vfs_symlink_def halves cong: if_cong)

lemma create_halves:
  "rtb_vfs_create K run d i m nd s = Option.bind (hook_before K (Vfs_create d i m nd) s) (\<lambda>(f, s). hook_rest K run (Vfs_create d i m nd) f s)"
  by (simp add: rtb_vfs_create_def halves cong: if_cong)

lemma mkdir_halves:
  "rtb_vfs_mkdir K run d m s = Option.bind (hook_before K (Vfs_mkdir d m) s) (\<lambda>(f, s). hook_rest K run (Vfs_mkdir d m) f s)"
  by (simp add: rtb_vfs_mkdir_def halves cong: if_cong)

lemma write_halves:
  "rtb_vfs_write K run file b n pos s =
     Option.bind (hook_before K (Vfs_write file b n pos) s) (\<lambda>(f, s). hook_rest K run (Vfs_write file b n pos) f s)"
  by (simp add: rtb_vfs_write_def halves cong: if_cong option.case_cong)

lemma hooked_halves: "hooked K run op s = Option.bind (hook_before K op s) (\<lambda>(f, s). hook_rest K run op f s)"
  by (cases op) (simp_all only: hooked.simps delete_halves two_path_halves create_halves mkdir_halves write_halves)

section \<open>What each half keeps\<close>

definition frame_blocks :: "hook_frame \<Rightarrow> addr set" where
  "frame_blocks f = (\<Union>b\<in>set (hf_bufs f). set_option b)"

lemma frame_blocks_simps [simp]:
  "frame_blocks skipped = {}"
  "frame_blocks \<lparr>hf_bufs = bs, hf_args = args, hf_path = p, hf_other = q, hf_iret = r\<rparr> = (\<Union>b\<in>set bs. set_option b)"
  by (simp_all add: frame_blocks_def skipped_def)

abbreviation holds :: "(addr set \<Rightarrow> 'w kstate \<Rightarrow> bool) \<Rightarrow> addr set \<Rightarrow> (hook_frame \<times> 'w kstate) option \<Rightarrow> bool" where
  "holds I H m \<equiv> safe (\<lambda>(f, s'). I (H \<union> frame_blocks f) s') m"

lemma success_logged: "log_success K op f la t = Some (x, t') \<Longrightarrow> logged t t'"
  by (cases op) (auto dest: log_logged write_logged)

context hook_steps
begin

lemma frame_done: "I G s \<Longrightarrow> H \<union> frame_blocks f \<subseteq> G \<Longrightarrow> holds I H (Some (f, s))"
  by (auto simp: safe_def intro: weaken)

lemma safe_look_up:
  "I H s \<Longrightarrow> (\<And>x s'. I H s' \<Longrightarrow> safe Q (g x s')) \<Longrightarrow> safe Q (Option.bind (look_up K p s) (\<lambda>(x, s'). g x s'))"
  unfolding look_up_def Option.bind_assoc by (rule safe_lookup, rule safe_take_args)

lemmas half_rules = safe_alloc safe_look_up safe_lookup safe_take_args safe_path safe_basic(1,2,4)

lemma before_safe:
  "I H s \<Longrightarrow> holds I H (hook_before K (Vfs_unlink d) s)"
  "I H s \<Longrightarrow> holds I H (hook_before K (Vfs_rmdir d) s)"
  "I H s \<Longrightarrow> holds I H (hook_before K (Vfs_rename d d') s)"
  "I H s \<Longrightarrow> holds I H (hook_before K (Vfs_link d d') s)"
  "I H s \<Longrightarrow> holds I H (hook_before K (Vfs_symlink pl d n) s)"
  "I H s \<Longrightarrow> holds I H (hook_before K (Vfs_create e i m nd) s)"
  "I H s \<Longrightarrow> holds I H (hook_before K (Vfs_mkdir d m) s)"
  "I H s \<Longrightarrow> holds I H (hook_before K (Vfs_write file b c pos) s)"
  unfolding hook_before.simps Let_def
  by (assumption | erule block_done | (erule frame_done, simp) | rule half_rules safe_lookup_or safe_block | blast
      | rule safe_bind safe_basic(5))+

lemma before_keeps:
  assumes "hook_before K op s = Some (f, s')" and "I H s"
  shows "I (H \<union> frame_blocks f) s'"
proof -
  have "holds I H (hook_before K op s)" by (cases op) (simp_all only: before_safe assms(2))
  from safeD [OF this assms(1)] show ?thesis by simp
qed

lemma free_all_step:
  assumes "free_all bs s = Some s'" and "I H s" and "(\<Union>b\<in>set bs. set_option b) \<subseteq> H"
  shows "I H s'"
  using assms by (induction bs arbitrary: s) (auto simp: bind_eq_Some_conv dest: free_opt_step)

lemma after_keeps:
  assumes "hook_after K op f ret s = Some s'" and "I H s" and "frame_blocks f \<subseteq> H"
  shows "I H s'"
proof -
  have "safe (I H) (hook_after K op f ret s)"
    unfolding hook_after_def Let_def
  proof (rule safe_log_result [OF assms(2)])
    fix x and t :: "'w kstate"
    assume t: "I H t"
    show "safe (I H) (Option.bind (if is_write op \<and> (case x of None \<Rightarrow> hf_iret f | Some r \<Rightarrow> r) \<noteq> 0
        then Option.bind (notify_user_status K NOTIFY_TYPE_CLIENT_ERROR (- 3) (upd_cfg (\<lambda>c. c\<lparr>bNormalRunning := False\<rparr>) t))
          (\<lambda>(x, s). Some s) else Some t) (free_all (hf_bufs f)))"
      by (rule safe_switch [OF t]) (use assms(3) in \<open>auto simp: safe_def frame_blocks_def dest: free_all_step\<close>)
  qed (auto dest: success_logged log_logged)
  from safeD [OF this assms(1)] show ?thesis .
qed

lemma hooked_keeps:
  assumes "hooked K run op s = Some (ret, s')" and "I H s"
  shows "I H s'"
proof -
  obtain f s1 where f: "hook_before K op s = Some (f, s1)" and rest: "hook_rest K run op f s1 = Some (ret, s')"
    using assms(1) by (auto simp: hooked_halves bind_eq_Some_conv)
  obtain r s2 where run: "call_run run s1 = (r, s2)" by fastforce
  with rest have after: "hook_after K op f r s2 = Some s'" by (auto simp: hook_rest_def bind_eq_Some_conv)
  have "I (H \<union> frame_blocks f) s'" by (rule after_keeps [OF after run_step [OF run before_keeps [OF f assms(2)]]]) simp
  then show ?thesis by (rule weaken) simp
qed

end

section \<open>Properties\<close>

text \<open>
  Every hook is its first half, the original and its second half, one after the other: what it
  has to remember in between is its frame, and nothing of the second half depends on the state in
  which the hook was entered.
\<close>

theorem hook_is_two_halves:
  "hooked K run op s =
    (case hook_before K op s of
       None \<Rightarrow> None
     | Some (f, s1) \<Rightarrow> (case call_run run s1 of (ret, s2) \<Rightarrow> map_option (Pair ret) (hook_after K op f ret s2)))"
  unfolding hooked_halves hook_rest_def
  by (auto simp: map_option_case split: option.split prod.split)

end
