(* ===== verification/HookInv.thy ===== *)
theory HookInv
  imports HookPhases
begin

text \<open>
  Whatever happens inside a hook, memory running out included, the module is left in a sound
  state: the configuration and the links hold, and the blocks in the queue belong to the queue.
\<close>

section \<open>Sound states\<close>

text \<open>\<open>H\<close>: blocks the running operation holds; none of them is in the queue.\<close>

definition queue_blocks :: "'w kstate \<Rightarrow> addr set" where
  "queue_blocks s = (\<Union>c\<in>set (queue_of s). set (ctx_blocks c))"

definition sound :: "addr set \<Rightarrow> 'w kstate \<Rightarrow> bool" where
  "sound H s \<longleftrightarrow> config_inv s \<and> link_inv s \<and> queue_inv s \<and> (\<forall>a\<in>H. a < next_blk s \<and> a \<notin> queue_blocks s)"

lemma soundD: "sound H s \<Longrightarrow> config_inv s" "sound H s \<Longrightarrow> link_inv s" "sound H s \<Longrightarrow> queue_inv s"
  by (simp_all add: sound_def)

lemma sound_mono: "sound H s \<Longrightarrow> G \<subseteq> H \<Longrightarrow> sound G s"
  by (auto simp: sound_def)

lemma queue_blocks_bound: "queue_inv s \<Longrightarrow> a \<in> queue_blocks s \<Longrightarrow> a < next_blk s"
  unfolding queue_inv_def owned_def queue_blocks_def ctx_blocks_def by fastforce

text \<open>An operation that keeps the queue, the blocks and the invariants of the configuration.\<close>

lemma keeps_sound: "keeps s s' \<Longrightarrow> config_inv s' \<Longrightarrow> link_inv s' \<Longrightarrow> sound H s \<Longrightarrow> sound H s'"
  unfolding sound_def using keeps_queue_inv [of s s'] by (auto simp: keeps_def queue_blocks_def)

lemma same_config:
  assumes "MonitorSet (cfg s') = MonitorSet (cfg s)" and "MonitorFiles (cfg s') = MonitorFiles (cfg s)"
    and "set_mem s' = set_mem s" and "file_mem s' = file_mem s" and "next_blk s \<le> next_blk s'"
  shows "config_inv s \<Longrightarrow> config_inv s'" and "link_inv s' = link_inv s"
proof -
  show "config_inv s \<Longrightarrow> config_inv s'"
    using assms(5) unfolding config_inv_def assms(1-4) by (meson order_less_le_trans)
  show "link_inv s' = link_inv s" unfolding link_inv_def assms(1-4) ..
qed

lemma frame_sound:
  assumes "sound H s" and "keeps s s'" and "MonitorSet (cfg s') = MonitorSet (cfg s)" and "MonitorFiles (cfg s') = MonitorFiles (cfg s)"
    and "set_mem s' = set_mem s" and "file_mem s' = file_mem s"
  shows "sound H s'"
  using keeps_sound [OF assms(2) _ _ assms(1)] same_config [OF assms(3-6)] assms(1,2) by (auto simp: sound_def keeps_def)

lemma grows_sound: "grows s s' \<Longrightarrow> sound H s \<Longrightarrow> sound H s'"
  by (rule frame_sound [OF _ grows_keeps]) (auto simp: grows_def)

lemma call_run_sound: "call_run run s = (ret, s') \<Longrightarrow> sound H s \<Longrightarrow> sound H s'"
  by (rule frame_sound, assumption) (auto simp: call_run_def keeps_def bounded_def split: prod.splits)

lemma alloc_sound:
  assumes "alloc_block K r s = (p, s')" and "sound H s"
  shows "sound (H \<union> set_option p) s'"
proof -
  have "keeps s s'" using assms(1) by (auto simp: alloc_block_def keeps_def bounded_def less_SucI split: if_splits)
  then have "sound H s'" using assms by (intro frame_sound [OF assms(2)]) (auto simp: alloc_block_def split: if_splits)
  moreover have "a < next_blk s' \<and> a \<notin> queue_blocks s'" if "p = Some a" for a
  proof -
    have "a = next_blk s" "next_blk s' = Suc (next_blk s)" "queue_blocks s' = queue_blocks s"
      using assms(1) that by (auto simp: alloc_block_def queue_blocks_def split: if_splits)
    then show ?thesis using queue_blocks_bound [OF soundD(3) [OF assms(2)], of a] by auto
  qed
  ultimately show ?thesis by (auto simp: sound_def)
qed

lemma free_block_sound:
  assumes "free_block r a s = Some s'" and "sound H s" and "a \<in> H"
  shows "sound H s'"
proof -
  have s': "s' = s\<lparr>kblocks := (kblocks s)(a := None)\<rparr>" using assms(1) by (auto simp: free_block_def split: if_splits)
  have "a \<notin> queue_blocks s" using assms(2,3) by (simp add: sound_def)
  then have "b \<noteq> a" if "c \<in> set (queue_of s)" "b \<in> set (ctx_blocks c)" for b c
    using that by (auto simp: queue_blocks_def)
  then have "queue_inv s'" using soundD(3) [OF assms(2)]
    unfolding queue_inv_def owned_def s' ctx_blocks_def by (auto split: if_splits)
  then show ?thesis using assms(2) same_config [of s' s] by (auto simp: sound_def s' queue_blocks_def)
qed

lemma notify_sound: "notify_user_status K ty st s = Some (r, s') \<Longrightarrow> sound H s \<Longrightarrow> sound H s'"
  using grows_sound leaked_grows notify_user_status_inv by blast

lemma switch_off_sound: "sound H s \<Longrightarrow> sound H (upd_cfg (\<lambda>c. c\<lparr>bNormalRunning := b\<rparr>) s)"
  by (rule frame_sound) (auto intro: keeps_put)

lemma take_args_keeps:
  assumes "take_args K pmfe s = Some (args, s')"
  shows "keeps s s'"
proof (cases pmfe)
  case (Some a)
  with assms obtain r sq gq t d where g: "GetMonitorFileSeqNoByMonitorFileEntry K (Some a) s = Some ((r, sq, gq, t, d), s')"
    by (auto simp: take_args_def bind_eq_Some_conv)
  show ?thesis
  proof (cases "r = 0")
    case True
    with GetSeqNo_ok g obtain p e m where "seq_taken a p e m s s'" by blast
    then show ?thesis by (auto simp: seq_taken_def intro!: keeps_put)
  qed (use GetSeqNo_fail [OF g] in auto)
qed (use assms in \<open>simp add: take_args_def\<close>)

lemma take_args_sound:
  assumes "take_args K pmfe s = Some (args, s')" and "\<forall>a. pmfe = Some a \<longrightarrow> a \<in> set_tree (file_tree_of s)" and "sound H s"
  shows "sound H s'"
proof (cases pmfe)
  case (Some a)
  with assms(1) obtain r sq gq t d where g: "GetMonitorFileSeqNoByMonitorFileEntry K (Some a) s = Some ((r, sq, gq, t, d), s')"
    by (auto simp: take_args_def bind_eq_Some_conv)
  have a: "a \<in> set_tree (file_tree_of s)" using assms(2) Some by simp
  then have "config_inv s'" "link_inv s'" using GetSeqNo_inv [OF soundD(1,2) [OF assms(3)] a g] by auto
  then show ?thesis by (rule keeps_sound [OF take_args_keeps [OF assms(1)] _ _ assms(3)])
qed (use assms in \<open>simp add: take_args_def\<close>)

section \<open>Queueing a record\<close>

lemma queued_sound:
  assumes "queued c s s'" and "sound H s"
  shows "sound H s'"
proof -
  note q = queued_simps [OF assms(1)]
  have "ctx_blocks c = [Suc (next_blk s), next_blk s, Suc (Suc (next_blk s))]"
    using assms(1) by (simp add: queued_def ctx_blocks_def)
  then have "queue_blocks s' = queue_blocks s \<union> {next_blk s, Suc (next_blk s), Suc (Suc (next_blk s))}"
    by (auto simp: queue_blocks_def q(1))
  moreover have "next_blk s \<le> next_blk s'" by (simp add: q)
  ultimately show ?thesis
    using assms(2) same_config [OF q(4,5,2,3)] queued_owned [OF soundD(3) [OF assms(2)] assms(1)]
    by (auto simp: sound_def q(8))
qed

lemma logged_sound:
  assumes "logged s s'" and "sound H s"
  shows "sound H s'"
  using assms(1) unfolding logged_def
proof (elim disjE exE conjE)
  fix n assume "s' = s\<lparr>next_blk := next_blk s + n\<rparr>"
  then show ?thesis using assms(2)
    by (intro frame_sound [OF assms(2)]) (auto simp: keeps_def bounded_def intro: trans_less_add1)
qed (rule queued_sound [OF _ assms(2)])

section \<open>Every operation, every round of the writer\<close>

interpretation sound_walk: hook_steps K sound for K
  by unfold_locales
    (auto intro: sound_mono call_run_sound alloc_sound free_block_sound notify_sound switch_off_sound take_args_sound logged_sound)

lemma createiolog_grows:
  assumes "createiolog K path l s = Some (r, s')"
  shows "grows s s'"
proof -
  obtain o1 s1 where o1: "file_open K path (O_WRONLY + O_CREAT) 777 s = (o1, s1)" by fastforce
  have s1: "same_kernel s s1" using file_open_same [OF o1] .
  show ?thesis
  proof (cases o1)
    case (Inl err)
    with assms o1 obtain x where "notify_user_status K NOTIFY_TYPE_CLIENT_ERROR err s1 = Some (x, s')"
      by (auto simp: createiolog_def bind_eq_Some_conv)
    then show ?thesis using grows_trans [OF same_kernel_grows [OF s1] leaked_grows [OF notify_user_status_inv]] by blast
  next
    case (Inr f)
    obtain n s2 where w: "file_write K f 0 (log_image l) (unat (ulLogSize (hdr l))) s1 = (n, s2)" by fastforce
    have s2: "same_kernel s s2" using file_write_same [OF w] s1 same_kernel_trans by blast
    then have "same_kernel s (file_close K f s2)" using file_close_same same_kernel_trans by blast
    then have "same_kernel s s'"
      using assms o1 Inr w s2 SaveConfig_same same_kernel_trans
      by (fastforce simp: createiolog_def bind_eq_Some_conv split: if_splits)
    then show ?thesis by (rule same_kernel_grows)
  qed
qed

lemma pop_sound:
  assumes "pop_iowrite s = Some (c, s')" and "sound H s"
  shows "sound (H \<union> set (ctx_blocks c)) s'"
proof -
  obtain q where q: "queue_of s = c # q" and s': "s' = upd_cfg (\<lambda>f. f\<lparr>iowritequeue := q\<rparr>) s"
    using assms(1) by (auto simp: pop_iowrite_def split: list.splits)
  have own: "owned (c # q) s" using assms(2) by (simp add: sound_def queue_inv_def q)
  have "queue_inv s'" using own by (simp add: queue_inv_def owned_def s')
  moreover have "a < next_blk s' \<and> a \<notin> queue_blocks s'" if "a \<in> set (ctx_blocks c)" for a
  proof
    show "a < next_blk s'" using own that by (auto simp: s' owned_def ctx_blocks_def)
    show "a \<notin> queue_blocks s'" using own that by (auto simp: s' owned_def queue_blocks_def)
  qed
  moreover have "a < next_blk s' \<and> a \<notin> queue_blocks s'" if "a \<in> H" for a
    using assms(2) that by (auto simp: sound_def s' queue_blocks_def q)
  ultimately show ?thesis using assms(2) same_config [of s' s] by (auto simp: sound_def s')
qed

lemma iowrite_one_sound:
  assumes "iowrite_one K c s = Some s'" and "sound (H \<union> set (ctx_blocks c)) s"
  shows "sound H s'"
proof -
  let ?H = "H \<union> set (ctx_blocks c)"
  from assms(1) obtain r s1 s2 s3 s4 where 1: "createiolog K (iologpath c) (logfile c) s = Some (r, s1)"
    and 2: "(if r \<noteq> 0 then do { (_, s) \<leftarrow> notify_user_status K NOTIFY_TYPE_CLIENT_ERROR (-2) s1; Some s } else Some s1) = Some s2"
    and 3: "free_block Kmalloc (iologpath_blk c) s2 = Some s3" "free_block (log_region (logfile c)) (logfile_blk c) s3 = Some s4"
      "free_block Kmalloc (piowc c) s4 = Some s'"
    unfolding iowrite_one_def by (auto simp: bind_eq_Some_conv simp del: not_gr_zero split del: if_split)
  have "sound ?H s1" using grows_sound [OF createiolog_grows [OF 1] assms(2)] .
  then have "sound ?H s2" using 2 notify_sound by (auto simp: bind_eq_Some_conv split: if_splits)
  then have "sound ?H s3" by (rule free_block_sound [OF 3(1)]) (simp add: ctx_blocks_def)
  then have "sound ?H s4" by (rule free_block_sound [OF 3(2)]) (simp add: ctx_blocks_def)
  then have "sound ?H s'" by (rule free_block_sound [OF 3(3)]) (simp add: ctx_blocks_def)
  then show ?thesis by (rule sound_mono) simp
qed

lemma drain_sound: "drain K s = Some s' \<Longrightarrow> sound H s \<longrightarrow> sound H s'"
proof (induction rule: drain.raw_induct [rotated, consumes 1, case_names step])
  case (step drain K s s')
  show ?case
  proof (cases "pop_iowrite s")
    case (Some cs)
    obtain c t where cs: "cs = (c, t)" by (cases cs)
    with step Some obtain u where "iowrite_one K c t = Some u" "sound H u \<longrightarrow> sound H s'"
      by (auto simp: bind_eq_Some_conv)
    then show ?thesis using iowrite_one_sound pop_sound Some cs by blast
  qed (use step in simp)
qed

lemma wait_sound: "sound H s \<Longrightarrow> sound H (wait_for_completion s)"
  unfolding wait_for_completion_def by (erule frame_sound) (auto intro: keepsI)

lemma thread_iowrite_sound: "thread_iowrite K n s = Some (r, s') \<Longrightarrow> sound H s \<Longrightarrow> sound H s'"
  by (induction n arbitrary: s) (auto simp: bind_eq_Some_conv dest!: drain_sound dest: wait_sound)

end
