(* ===== verification/Module.thy ===== *)
theory Module
  imports IoWriteThread Hijacks
begin

text \<open>
  \<open>module.c\<close>: loading and unloading the module, and what it does when the system goes down.
  The state is that of the parts: the configuration and the queue, the text of the kernel, and
  the registrations. What the kernel decides is the record \<open>module_env\<close>.
\<close>

datatype task = Task | Task_err

record 'w module_env =
  me_kernel :: "'w kernel"
  me_text :: text_env
  me_hook :: "byte list \<Rightarrow> u64"
  me_netlink :: bool
  me_kthread :: bool

record 'w rtb_module =
  mstate :: "'w kstate"
  mtext :: text_state
  msyms :: "byte list \<Rightarrow> kernsym"
  reboot_notifier :: bool
  netlink_fd :: bool
  tsk :: "task option"

definition NOTIFY_OK :: int where "NOTIFY_OK = 1"

section \<open>The reboot notifier\<close>

definition myreboot :: "'w kernel \<Rightarrow> 'w kstate \<Rightarrow> (int \<times> 'w kstate) option" where
  "myreboot K s =
     do { let s = upd_cfg (\<lambda>c. c\<lparr>dwLastNormalShutdown := 2\<rparr>) s;
          (_, s) \<leftarrow> SaveConfig K s;
          Some (NOTIFY_OK, s) }"

section \<open>Loading\<close>

definition initcompletion :: "'w kstate \<Rightarrow> 'w kstate" where
  "initcompletion s = s\<lparr>completions := 0\<rparr>"

text \<open>An error returns at once: what was registered before stays registered.\<close>

definition init_rtbackup :: "'w module_env \<Rightarrow> 'w rtb_module \<Rightarrow> (int \<times> 'w rtb_module) option" where
  "init_rtbackup M m =
     (let (ret, sy) = kernfunc_init (me_text M) (msyms m); m = m\<lparr>msyms := sy\<rparr> in
      if ret < 0 then Some (ret, m)
      else
        let m = m\<lparr>reboot_notifier := True, netlink_fd := me_netlink M\<rparr> in
        if \<not> netlink_fd m then Some (-1, m)
        else do {
          (ret, s) \<leftarrow> InitMonitorSet (me_kernel M) (mstate m);
          let m = m\<lparr>mstate := s\<rparr>;
          if ret < 0 then Some (ret, m)
          else
            let m = m\<lparr>mstate := initcompletion s, tsk := Some (if me_kthread M then Task else Task_err)\<rparr> in
            if tsk m = Some Task_err then Some (-2, m)
            else do {
              (sy, t) \<leftarrow> hijack_syscalls (me_text M) (me_hook M) (msyms m) (mtext m);
              Some (ret, m\<lparr>msyms := sy, mtext := t\<rparr>) } })"

section \<open>Unloading\<close>

text \<open>
  Releasing a socket that was never made faults, as does stopping a thread through NULL.
  \<open>kthread_stop\<close> waits for the thread to return: it finishes the round it is in, \<open>in_round\<close>,
  or is just about to test for the end.
\<close>

definition exit_rtbackup :: "'w module_env \<Rightarrow> bool \<Rightarrow> 'w rtb_module \<Rightarrow> 'w rtb_module option" where
  "exit_rtbackup M in_round m =
     do { (sy, t) \<leftarrow> undo_hijack_syscalls (me_text M) (msyms m) (mtext m);
          let m = m\<lparr>msyms := sy, mtext := t, reboot_notifier := False\<rparr>;
          m \<leftarrow> (if netlink_fd m then Some (m\<lparr>netlink_fd := False\<rparr>) else None);
          m \<leftarrow> (case tsk m of
                  None \<Rightarrow> None
                | Some Task_err \<Rightarrow> Some m
                | Some Task \<Rightarrow>
                    do { (_, s) \<leftarrow> (if in_round then thread_iowrite (me_kernel M) 0 (mstate m) else Some (0, mstate m));
                         Some (m\<lparr>mstate := s\<rparr>) });
          (_, s) \<leftarrow> UninitMonitorSet (me_kernel M) (mstate m);
          Some (m\<lparr>mstate := s\<rparr>) }"

end
