(* ===== verification/Scenario.thy ===== *)
theory Scenario
  imports Netlink
begin

text \<open>
  A small concrete system on the example kernel, on which the hypotheses of the properties
  are seen to hold: one backup set, one monitored directory \<open>/data\<close>, the driver on.
\<close>

definition demo_guid :: GUID where
  "demo_guid = \<lparr>Data1 = 1, Data2 = 2, Data3 = 3, Data4 = replicate 8 4\<rparr>"

definition demo_set :: MONITOR_SET_ENTRY where
  "demo_set = \<lparr>guidSetId = demo_guid, wcsSetCacheDir = pad 260 (bytes ''/log/''), ullSetSeqNo = 7, ulFileCount = 1\<rparr>"

definition demo_file :: MONITOR_FILE_ENTRY where
  "demo_file = \<lparr>guidSetId = demo_guid, bInited = 0, bMonitor = 1, ullSeqNo = 5, bDirectory = 1, ulLength = 5,
     wcsMonitorFile = pad 260 (bytes ''/data''), pSetEntry = None\<rparr>"

text \<open>Entries 1 and 2 are the set and the directory; the next free block is 3.\<close>

definition demo_state :: "byte list \<Rightarrow> byte list kstate" where
  "demo_state w = (example_state w)
     \<lparr>FileReplData := \<lparr>Config = (cfg (example_state w))
        \<lparr>MonitorFiles := \<lparr>ulCounts = 1, ItemLookAsideList = True, RBTree = Node Leaf 2 Leaf\<rparr>,
         MonitorSet := \<lparr>ulCounts = 1, ItemLookAsideList = True, RBTree = Node Leaf 1 Leaf\<rparr>\<rparr>, bStopTask = False\<rparr>,
      set_mem := [1 \<mapsto> demo_set], file_mem := [2 \<mapsto> demo_file], next_blk := 3\<rparr>"

lemma demo_cfg_simps [simp]:
  "MonitorFiles (cfg (demo_state w)) = \<lparr>ulCounts = 1, ItemLookAsideList = True, RBTree = Node Leaf 2 Leaf\<rparr>"
  "MonitorSet (cfg (demo_state w)) = \<lparr>ulCounts = 1, ItemLookAsideList = True, RBTree = Node Leaf 1 Leaf\<rparr>"
  "iowritequeue (cfg (demo_state w)) = []" "bNormalRunning (cfg (demo_state w))" "bValid (cfg (demo_state w))"
  "set_mem (demo_state w) = [1 \<mapsto> demo_set]" "file_mem (demo_state w) = [2 \<mapsto> demo_file]"
  "next_blk (demo_state w) = 3" "kblocks (demo_state w) = (\<lambda>_. None)" "world (demo_state w) = w"
  "outbox (demo_state w) = []" "dwLastNormalShutdown (cfg (demo_state w)) = 0"
  by (simp_all add: demo_state_def example_state_def)

lemma bytes_data: "bytes ''/data'' = [0x2F, 0x64, 0x61, 0x74, 0x61]"
  and bytes_log: "bytes ''/log/'' = [0x2F, 0x6C, 0x6F, 0x67, 0x2F]"
  by (simp_all add: bytes_def)

lemma demo_entries:
  "wf_set_entry demo_set" "wf_file_entry demo_file" "terminated (wcsMonitorFile demo_file)"
  "terminated (wcsSetCacheDir demo_set)" "cstr (wcsMonitorFile demo_file) = bytes ''/data''"
  "cstr (wcsSetCacheDir demo_set) = bytes ''/log/''" "file_key demo_file = bytes ''/data''"
  by (simp_all add: wf_set_entry_def wf_file_entry_def wf_guid_def demo_set_def demo_file_def demo_guid_def length_pad
      bytes_data bytes_log terminated_pad FILEREPL_MAX_PATH_def cstr_Cons)

lemma demo_view [simp]: "readable [2 \<mapsto> demo_file] = [2 \<mapsto> demo_file]"
  by (auto simp: readable_def fun_eq_iff demo_entries split: option.splits)

lemma demo_config_inv: "config_inv (demo_state w)"
  by (simp add: config_inv_def demo_entries bst_ok_def bst_list_def)

lemma demo_link_inv: "link_inv (demo_state w)"
  by (simp add: link_inv_def demo_file_def)

lemma demo_queue_inv: "queue_inv (demo_state w)"
  by (simp add: queue_inv_def owned_def)

lemma demo_on: "\<not> driver_off (demo_state w)"
  by (simp add: driver_off_def)

lemma memcmp_self [simp]: "memcmp b b = 0"
  by (simp add: memcmp_order(3))

lemma demo_charged: "charged 2 demo_file 1 demo_set (demo_state w)"
  by (simp add: charged_def demo_entries GetMonitorSetEntry_def) (simp add: demo_file_def demo_set_def Let_def)

text \<open>Paths below \<open>/data\<close> are monitored, others are not.\<close>

lemma demo_monitored:
  "GetMonitorFileEntryByabspath p (demo_state w) =
     Some (if prefix (bytes ''/data'') (cstr p) then Some 2 else None)"
proof -
  have "strncmp p (wcsMonitorFile demo_file) (strlen (wcsMonitorFile demo_file)) = 0 \<longleftrightarrow>
      prefix (bytes ''/data'') (cstr p)"
    by (simp only: strncmp_zero demo_entries)
  then show ?thesis by (auto simp: GetMonitorFileEntryByabspath_def Let_def)
qed

end
