(* ===== verification/ConfigSpec.thy ===== *)
theory ConfigSpec
  imports Scenario
begin

text \<open>
  What the monitoring configuration is for its users: two finite maps, from the GUID of a
  set to the set and from a path to the monitored file. The trees and heaps implement
  them, and the operations of \<open>monitorset.c\<close> refine the updates of these maps.
\<close>

section \<open>The abstract configuration\<close>

definition heap_map :: "('e \<Rightarrow> byte list) \<Rightarrow> (addr \<Rightarrow> 'e option) \<Rightarrow> addr tree \<Rightarrow> byte list \<Rightarrow> 'e option" where
  "heap_map key h t = map_of (map (\<lambda>a. (key (the (h a)), the (h a))) (inorder t))"

definition set_map :: "'w kstate \<Rightarrow> byte list \<Rightarrow> MONITOR_SET_ENTRY option" where
  "set_map s = heap_map set_key (set_mem s) (set_tree_of s)"

definition file_map :: "'w kstate \<Rightarrow> byte list \<Rightarrow> MONITOR_FILE_ENTRY option" where
  "file_map s = heap_map file_key (file_view s) (file_tree_of s)"

text \<open>Removing the entries with a property.\<close>

definition drop_map :: "('e \<Rightarrow> bool) \<Rightarrow> ('k \<Rightarrow> 'e option) \<Rightarrow> 'k \<Rightarrow> 'e option" where
  "drop_map P m k = (case m k of None \<Rightarrow> None | Some e \<Rightarrow> if P e then None else Some e)"

lemma drop_map_None: "drop_map (\<lambda>_. True) m = Map.empty"
  by (auto simp: drop_map_def fun_eq_iff split: option.split)

lemma map_eqI: "(\<And>k e. m k = Some e \<longleftrightarrow> m' k = Some e) \<Longrightarrow> m = m'"
  by (rule ext) (metis not_Some_eq)

lemma heap_map_iff:
  assumes "bst_ok key h t"
  shows "heap_map key h t k = Some e \<longleftrightarrow> (\<exists>a\<in>set_tree t. h a = Some e \<and> key e = k)"
proof -
  have "distinct (map fst (map (\<lambda>a. (key (the (h a)), the (h a))) (inorder t)))"
    using assms by (simp add: bst_ok_def bst_list_def comp_def strict_sorted_iff)
  moreover have "h a = Some e \<longleftrightarrow> the (h a) = e" if "a \<in> set_tree t" for a
    using bst_ok_live [OF assms that] by auto
  ultimately show ?thesis
    unfolding heap_map_def by (subst map_of_eq_Some_iff) (auto simp: image_iff set_inorder)
qed

lemma heap_map_pruned:
  assumes ok: "bst_ok key h t" and t': "inorder t' = filter (\<lambda>a. a \<notin> D) (inorder t)" "bst_ok key (h |` (- D)) t'"
    and D: "\<And>a e. a \<in> set_tree t \<Longrightarrow> h a = Some e \<Longrightarrow> a \<in> D \<longleftrightarrow> P e"
  shows "heap_map key (h |` (- D)) t' = drop_map P (heap_map key h t)"
proof (rule map_eqI)
  fix k e
  have "set_tree t' = set_tree t - D"
    using arg_cong [OF t'(1), of set] by auto
  then have "heap_map key (h |` (- D)) t' k = Some e \<longleftrightarrow>
      (\<exists>a\<in>set_tree t. a \<notin> D \<and> h a = Some e \<and> key e = k)"
    unfolding heap_map_iff [OF t'(2)] by (auto simp: restrict_map_def)
  also have "\<dots> \<longleftrightarrow> (\<exists>a\<in>set_tree t. h a = Some e \<and> key e = k) \<and> \<not> P e"
    using D by blast
  also have "\<dots> \<longleftrightarrow> drop_map P (heap_map key h t) k = Some e"
    unfolding heap_map_iff [OF ok, symmetric] by (auto simp: drop_map_def split: option.splits if_splits)
  finally show "heap_map key (h |` (- D)) t' k = Some e \<longleftrightarrow> drop_map P (heap_map key h t) k = Some e" .
qed

lemma heap_map_insert:
  assumes ok: "bst_ok key h t" and a: "a \<notin> set_tree t"
    and t': "set_tree t' = insert a (set_tree t)" "bst_ok key (h(a \<mapsto> e)) t'"
  shows "heap_map key (h(a \<mapsto> e)) t' = (heap_map key h t)(key e \<mapsto> e)"
proof (rule map_eqI)
  fix k x
  have uniq: "key x \<noteq> key e" if "b \<in> set_tree t" "h b = Some x" for b
  proof
    assume "key x = key e"
    have b: "b \<in> set_tree t'" "a \<in> set_tree t'" "(h(a \<mapsto> e)) b = Some x" "b \<noteq> a"
      using that t'(1) a by auto
    have "the ((h(a \<mapsto> e)) b) = x" "the ((h(a \<mapsto> e)) a) = e"
      unfolding b(3) by simp_all
    then have "key (the ((h(a \<mapsto> e)) b)) = key (the ((h(a \<mapsto> e)) a))"
      using \<open>key x = key e\<close> by (simp only:)
    with bst_list_key_inj [OF t'(2) [unfolded bst_ok_def]] b(1,2) have "b = a" by (metis set_inorder)
    with b(4) show False ..
  qed
  have "heap_map key (h(a \<mapsto> e)) t' k = Some x \<longleftrightarrow>
      (x = e \<and> key e = k) \<or> (\<exists>b\<in>set_tree t. h b = Some x \<and> key x = k)"
    unfolding heap_map_iff [OF t'(2)] using a by (auto simp: t'(1))
  also have "\<dots> \<longleftrightarrow> ((heap_map key h t)(key e \<mapsto> e)) k = Some x"
    using uniq by (auto simp: heap_map_iff [OF ok])
  finally show "heap_map key (h(a \<mapsto> e)) t' k = Some x \<longleftrightarrow> ((heap_map key h t)(key e \<mapsto> e)) k = Some x" .
qed

section \<open>Lookup\<close>

lemma set_map_iff:
  "config_inv s \<Longrightarrow> set_map s k = Some e \<longleftrightarrow> (\<exists>a\<in>set_tree (set_tree_of s). set_mem s a = Some e \<and> set_key e = k)"
  unfolding set_map_def by (rule heap_map_iff [OF config_invD(2)])

lemma set_map_key: "config_inv s \<Longrightarrow> set_map s k = Some e \<Longrightarrow> set_key e = k"
  by (auto simp: set_map_iff)

lemma file_map_iff:
  "config_inv s \<Longrightarrow> file_map s k = Some e \<longleftrightarrow> (\<exists>a\<in>set_tree (file_tree_of s). file_view s a = Some e \<and> file_key e = k)"
  unfolding file_map_def by (rule heap_map_iff [OF config_invD(3)])

lemma ms_search_refines:
  assumes inv: "config_inv s"
  shows "\<exists>r. ms_search (set_mem s) (set_tree_of s) g = Some r \<and>
    Option.bind r (set_mem s) = set_map s (guid_bytes g)"
proof -
  have "\<forall>b\<in>set_tree (set_tree_of s). set_mem s b \<noteq> None"
    using set_node_live [OF inv] by blast
  then obtain r where r: "ms_search (set_mem s) (set_tree_of s) g = Some r" using ms.search_total by blast
  have "Option.bind r (set_mem s) = set_map s (guid_bytes g)"
  proof (cases r)
    case None
    with r have "\<forall>a\<in>set_tree (set_tree_of s). \<forall>e. set_mem s a = Some e \<longrightarrow> set_key e \<noteq> guid_bytes g"
      by (simp add: ms.search_None_iff [OF config_invD(2) [OF inv]])
    then have "set_map s (guid_bytes g) \<noteq> Some e" for e by (auto simp: set_map_iff [OF inv])
    with None show ?thesis by (cases "set_map s (guid_bytes g)") auto
  next
    case (Some a)
    with r obtain e where "a \<in> set_tree (set_tree_of s)" "set_mem s a = Some e" "set_key e = guid_bytes g"
      by (auto simp: ms.search_iff [OF config_invD(2) [OF inv]])
    moreover from this have "set_map s (guid_bytes g) = Some e" unfolding set_map_iff [OF inv] by blast
    ultimately show ?thesis using Some by simp
  qed
  with r show ?thesis by blast
qed

section \<open>Deleting\<close>

lemma pruned_trees:
  assumes inv: "config_inv s" and pr: "pruned c D s s'"
  shows "c = Sets \<Longrightarrow> (\<And>a e. a \<in> nodes Sets s \<Longrightarrow> set_mem s a = Some e \<Longrightarrow> a \<in> D \<longleftrightarrow> P e) \<Longrightarrow>
      set_map s' = drop_map P (set_map s) \<and> file_map s' = file_map s"
    and "c = Files \<Longrightarrow> (\<And>a e. a \<in> nodes Files s \<Longrightarrow> file_mem s a = Some e \<Longrightarrow> a \<in> D \<longleftrightarrow> Q e) \<Longrightarrow>
      file_map s' = drop_map Q (file_map s) \<and> set_map s' = set_map s"
proof -
  have inv': "config_inv s'" by (rule config_inv_pruned [OF inv pr])
  have seq: "inorder (RBTree (items c s')) = filter (\<lambda>a. a \<notin> D) (inorder (RBTree (items c s)))"
    using pr by (auto simp: pruned_def)
  show "set_map s' = drop_map P (set_map s) \<and> file_map s' = file_map s"
    if c: "c = Sets" and D: "\<And>a e. a \<in> nodes Sets s \<Longrightarrow> set_mem s a = Some e \<Longrightarrow> a \<in> D \<longleftrightarrow> P e"
  proof -
    have mem: "set_mem s' = (set_mem s) |` (- D)" "file_mem s' = file_mem s"
      "MonitorFiles (cfg s') = MonitorFiles (cfg s)"
      using pruned_other(2) [OF pr c] by auto
    have "heap_map set_key ((set_mem s) |` (- D)) (set_tree_of s') = drop_map P (heap_map set_key (set_mem s) (set_tree_of s))"
      using seq config_invD(2) [OF inv'] D unfolding c mem
      by (intro heap_map_pruned [OF config_invD(2) [OF inv]]) simp_all
    then show ?thesis by (simp add: set_map_def file_map_def mem)
  qed
  show "file_map s' = drop_map Q (file_map s) \<and> set_map s' = set_map s"
    if c: "c = Files" and D: "\<And>a e. a \<in> nodes Files s \<Longrightarrow> file_mem s a = Some e \<Longrightarrow> a \<in> D \<longleftrightarrow> Q e"
  proof -
    have mem: "file_mem s' = (file_mem s) |` (- D)" "set_mem s' = set_mem s"
      "MonitorSet (cfg s') = MonitorSet (cfg s)"
      using pruned_other(1) [OF pr c] by auto
    have view: "readable ((file_mem s) |` (- D)) = (file_view s) |` (- D)"
      by (auto simp: readable_def restrict_map_def fun_eq_iff)
    have "heap_map file_key ((file_view s) |` (- D)) (file_tree_of s') = drop_map Q (heap_map file_key (file_view s) (file_tree_of s))"
      using seq config_invD(3) [OF inv'] D unfolding c mem view
      by (intro heap_map_pruned [OF config_invD(3) [OF inv]]) (simp_all add: readable_Some)
    then show ?thesis by (simp add: set_map_def file_map_def mem view)
  qed
qed

lemma DelMonitorSet_maps:
  assumes rb: "rbtree_laws K" and st: "stale_next K" and inv: "config_inv s"
  shows "\<exists>s'. DelMonitorSet K g b s = Some (0, s') \<and> config_inv s' \<and> next_blk s' = next_blk s \<and>
    set_map s' = (set_map s)(guid_bytes g := None) \<and>
    file_map s' = drop_map (\<lambda>e. guid_bytes (guidSetId e) = guid_bytes g) (file_map s)"
proof -
  from DelMonitorSet_exact [OF rb st inv, of g b] obtain s1 s' where
      run: "DelMonitorSet K g b s = Some (0, s')"
    and p1: "pruned Files (matching Files g s) s s1" and p2: "pruned Sets (matching Sets g s) s1 s'" by blast
  have inv1: "config_inv s1" by (rule config_inv_pruned [OF inv p1])
  have sets: "set_mem s1 = set_mem s" "MonitorSet (cfg s1) = MonitorSet (cfg s)" using pruned_other(1) [OF p1 refl] by auto
  have f: "file_map s1 = drop_map (\<lambda>e. guid_bytes (guidSetId e) = guid_bytes g) (file_map s) \<and> set_map s1 = set_map s"
    by (rule pruned_trees(2) [OF inv p1 refl]) auto
  have t: "set_map s' = drop_map (\<lambda>e. set_key e = guid_bytes g) (set_map s1) \<and> file_map s' = file_map s1"
    by (rule pruned_trees(1) [OF inv1 p2 refl]) (auto simp: sets)
  have "drop_map (\<lambda>e. set_key e = guid_bytes g) (set_map s) = (set_map s)(guid_bytes g := None)"
    using set_map_key [OF inv] by (auto simp: drop_map_def fun_eq_iff split: option.split)
  with run f t config_inv_pruned [OF inv1 p2] pruned_other(3) [OF p1] pruned_other(3) [OF p2]
  show ?thesis by simp
qed

lemma DelAllMonitorSet_maps:
  assumes "rbtree_laws K" "stale_next K" "config_inv s"
  shows "\<exists>s'. DelAllMonitorSet K s = Some (0, s') \<and> config_inv s' \<and> set_map s' = Map.empty \<and> file_map s' = Map.empty"
  using DelAllMonitorSet_exact [OF assms] by (auto simp: set_map_def file_map_def heap_map_def)

section \<open>Adding\<close>

lemma set_map_counts [simp]:
  "set_map (upd_items c (\<lambda>d. d\<lparr>ulCounts := f d\<rparr>) s) = set_map s"
  "file_map (upd_items c (\<lambda>d. d\<lparr>ulCounts := f d\<rparr>) s) = file_map s"
  by (cases c; simp add: set_map_def file_map_def)+

lemma added_set_maps:
  assumes inv: "config_inv s" and add: "added_set K e s s'"
  shows "set_map s' = (set_map s)(set_key e \<mapsto> e) \<and> file_map s' = file_map s"
proof -
  from add obtain t where
      s': "s' = upd_items Sets (\<lambda>d. d\<lparr>ulCounts := ulCounts d + 1\<rparr>) (loaded_set (next_blk s) e t (world s) s)"
    and t: "bst_ok set_key ((set_mem s)(next_blk s \<mapsto> e)) t" "set_tree t = insert (next_blk s) (set_tree (set_tree_of s))"
    by (auto simp: added_set_def)
  have "heap_map set_key ((set_mem s)(next_blk s \<mapsto> e)) t =
      (heap_map set_key (set_mem s) (set_tree_of s))(set_key e \<mapsto> e)"
    by (rule heap_map_insert [OF config_invD(2) [OF inv] config_inv_fresh(1) [OF inv] t(2,1)])
  then show ?thesis unfolding s' set_map_counts by (simp add: set_map_def file_map_def)
qed

lemma added_file_maps:
  assumes inv: "config_inv s" and trm: "terminated (wcsMonitorFile mfe)" and add: "added_file K mfe s s'"
  shows "file_map s' = (file_map s)(file_key mfe \<mapsto> mfe\<lparr>bMonitor := 1, pSetEntry := None\<rparr>) \<and> set_map s' = set_map s"
proof -
  let ?e = "mfe\<lparr>bMonitor := 1, pSetEntry := None\<rparr>"
  from add obtain t where
      s': "s' = upd_items Files (\<lambda>d. d\<lparr>ulCounts := ulCounts d + 1\<rparr>) (loaded_file (next_blk s) ?e t (world s) s)"
    and t: "bst_ok file_key (readable ((file_mem s)(next_blk s \<mapsto> ?e))) t"
      "set_tree t = insert (next_blk s) (set_tree (file_tree_of s))"
    by (auto simp: added_file_def)
  have view: "readable ((file_mem s)(next_blk s \<mapsto> ?e)) = (file_view s)(next_blk s \<mapsto> ?e)"
    using trm by (simp add: readable_upd)
  have "heap_map file_key ((file_view s)(next_blk s \<mapsto> ?e)) t =
      (heap_map file_key (file_view s) (file_tree_of s))(file_key ?e \<mapsto> ?e)"
    by (rule heap_map_insert [OF config_invD(3) [OF inv] config_inv_fresh(2) [OF inv] t(2) t(1) [unfolded view]])
  then show ?thesis unfolding s' set_map_counts by (simp add: set_map_def file_map_def view)
qed

lemma insert_set_total:
  assumes inv: "config_inv s" and alloc: "k_alloc K (next_blk s)" and dir: "strlen (wcsSetCacheDir mse) < 260"
  shows "\<exists>r s'. insert_set K mse s = Some (r, s') \<and> r \<noteq> -3"
proof -
  let ?a = "next_blk s" and ?e = "new_set mse (pad 260 (cstr (wcsSetCacheDir mse)))"
  have cat: "c_strncat (replicate FILEREPL_MAX_PATH 0) (wcsSetCacheDir mse) FILEREPL_MAX_PATH =
      Some (pad 260 (cstr (wcsSetCacheDir mse)))"
    using dir by (simp add: c_strncat_zeros FILEREPL_MAX_PATH_def strlen_def)
  have "\<forall>b\<in>set_tree (set_tree_of s). ((set_mem s)(?a \<mapsto> ?e)) b \<noteq> None"
    using set_node_live [OF inv] by fastforce
  then obtain r where "ms_link ((set_mem s)(?a \<mapsto> ?e)) (guidSetId ?e) ?a (set_tree_of s) = Some r"
    using ms.link_total by blast
  then show ?thesis
    using alloc config_invD(1) [OF inv, of Sets] cat
    by (cases r) (simp_all add: insert_set_def MonitorSetEntryAlloc_ok zero_set_entry_def new_set_def put_set_def
        ms_insert_def MonitorSetEntryFree_def EntryFree_def set_root_def)
qed

lemma insert_set_maps:
  assumes rb: "rbtree_laws K" and inv: "config_inv s" and alloc: "k_alloc K (next_blk s)"
    and dir: "strlen (wcsSetCacheDir mse) < 260" and none: "set_map s (set_key mse) = None"
  shows "\<exists>s'. insert_set K mse s = Some (0, s') \<and>
    set_map s' = (set_map s)(set_key mse \<mapsto> new_set mse (pad 260 (cstr (wcsSetCacheDir mse)))) \<and> file_map s' = file_map s"
proof -
  have cat: "c_strncat (replicate FILEREPL_MAX_PATH 0) (wcsSetCacheDir mse) FILEREPL_MAX_PATH =
      Some (pad 260 (cstr (wcsSetCacheDir mse)))"
    using dir by (simp add: c_strncat_zeros FILEREPL_MAX_PATH_def strlen_def)
  have free: "ms_search (set_mem s) (set_tree_of s) (guidSetId mse) = Some None"
  proof -
    have "set_key e \<noteq> set_key mse" if "a \<in> set_tree (set_tree_of s)" "set_mem s a = Some e" for a e
      using set_map_iff [OF inv, of "set_key mse" e] that none by auto
    then show ?thesis by (auto simp: ms.search_None_iff [OF config_invD(2) [OF inv]])
  qed
  obtain r s' where run: "insert_set K mse s = Some (r, s')" "r \<noteq> -3"
    using insert_set_total [OF inv alloc dir] by blast
  have "r = 0 \<and> added_set K (new_set mse (pad 260 (cstr (wcsSetCacheDir mse)))) s s'"
    using insert_set_cases [OF rb inv run(1)] run(2) cat free by auto
  moreover have "set_key (new_set mse d) = set_key mse" for d by (simp add: new_set_def)
  ultimately show ?thesis using run(1) added_set_maps [OF inv] by force
qed

text \<open>
  A set that is not there is added; one that is there is replaced, and all its files are
  dropped. The lookup only looks when the counter says there are sets.
\<close>

lemma AddMonitorSet_maps:
  assumes rb: "rbtree_laws K" and st: "stale_next K" and inv: "config_inv s"
    and alloc: "\<forall>a\<ge>next_blk s. k_alloc K a" and dir: "strlen (wcsSetCacheDir mse) < 260"
    and cnt: "set_tree_of s \<noteq> Leaf \<longrightarrow> 0 < ulCounts (MonitorSet (cfg s))"
  shows "\<exists>s'. AddMonitorSet K (Some mse) True s = Some (0, s') \<and>
    set_map s' = (set_map s)(set_key mse \<mapsto> new_set mse (pad 260 (cstr (wcsSetCacheDir mse)))) \<and>
    file_map s' = (if set_map s (set_key mse) = None then file_map s
                   else drop_map (\<lambda>e. guid_bytes (guidSetId e) = set_key mse) (file_map s))"
proof -
  let ?g = "guidSetId mse"
  have get: "GetMonitorSetEntry ?g s = ms_search (set_mem s) (set_tree_of s) ?g"
    using cnt by (cases "set_tree_of s") (auto simp: GetMonitorSetEntry_def)
  obtain r where r: "ms_search (set_mem s) (set_tree_of s) ?g = Some r" "Option.bind r (set_mem s) = set_map s (set_key mse)"
    using ms_search_refines [OF inv, of ?g] by blast
  show ?thesis
  proof (cases r)
    case None
    then have "set_map s (set_key mse) = None" using r(2) by simp
    with insert_set_maps [OF rb inv _ dir this] alloc r(1) None show ?thesis
      by (auto simp: AddMonitorSet_eq get)
  next
    case (Some a)
    have "a \<in> set_tree (set_tree_of s)" "set_mem s a \<noteq> None"
      using r(1) Some by (auto simp: ms.search_iff [OF config_invD(2) [OF inv]])
    then have some: "set_map s (set_key mse) \<noteq> None" using r(2) Some by auto
    obtain s1 where s1: "DelMonitorSet K ?g False s = Some (0, s1)" "config_inv s1" "next_blk s1 = next_blk s"
        "set_map s1 = (set_map s)(set_key mse := None)"
        "file_map s1 = drop_map (\<lambda>e. guid_bytes (guidSetId e) = set_key mse) (file_map s)"
      using DelMonitorSet_maps [OF rb st inv, of ?g False] by blast
    with insert_set_maps [OF rb s1(2) _ dir] alloc obtain s' where
        "insert_set K mse s1 = Some (0, s')" "file_map s' = file_map s1"
        "set_map s' = (set_map s1)(set_key mse \<mapsto> new_set mse (pad 260 (cstr (wcsSetCacheDir mse))))" by auto
    with s1 some r(1) Some show ?thesis by (auto simp: AddMonitorSet_eq get)
  qed
qed

lemma AddMonitorItem_maps:
  assumes rb: "rbtree_laws K" and inv: "config_inv s" and alloc: "k_alloc K (next_blk s)"
    and path: "c_strlen (wcsMonitorFile mfe) = Some n" "2 \<le> n" "hd (wcsMonitorFile mfe) = of_char (CHR ''/'')"
    and free: "mi_search (file_view s) (file_tree_of s) (wcsMonitorFile mfe) = Some None"
  shows "\<exists>s'. AddMonitorItem K (Some mfe) s = Some (0, s') \<and> set_map s' = set_map s \<and>
    file_map s' = (file_map s)(file_key mfe \<mapsto> mfe\<lparr>bMonitor := 1, pSetEntry := None\<rparr>)"
proof -
  from path(1) have "terminated (wcsMonitorFile mfe)" by (simp add: c_strlen_def split: if_splits)
  with AddMonitorItem_run [OF rb inv path free alloc] added_file_maps [OF inv] show ?thesis by blast
qed

end
