(* ===== verification/ConfigProps.thy ===== *)
theory ConfigProps
  imports ConfigSpec
begin

text \<open>
  The properties of the monitoring configuration: its trees, its commands, its file, each
  with a run of the hypotheses on the concrete system of \<open>Scenario\<close>.
\<close>

section \<open>Lookup\<close>

text \<open>
  C25. In a well-formed configuration the search for a backup set never faults and finds
  exactly the set that the abstract configuration has under the GUID.
\<close>

theorem set_lookup_refines_map:
  assumes "config_inv s"
  shows "\<exists>r. ms_search (set_mem s) (set_tree_of s) g = Some r \<and> Option.bind r (set_mem s) = set_map s (guid_bytes g)"
  by (rule ms_search_refines [OF assms])

theorem set_lookup_refines_map_witness:
  "\<exists>r. ms_search (set_mem (demo_state [])) (set_tree_of (demo_state [])) demo_guid = Some r \<and>
    Option.bind r (set_mem (demo_state [])) = set_map (demo_state []) (guid_bytes demo_guid)"
  by (rule set_lookup_refines_map [OF demo_config_inv])

text \<open>
  C26. When no monitored path is a proper prefix of another, a path is found to be monitored
  exactly when the path of a live entry is a prefix of it, and the entry found is that one.
\<close>

theorem file_lookup_prefix_free:
  assumes "config_inv s" and "prefix_free (file_view s) (file_tree_of s)"
  shows "GetMonitorFileEntryByabspath p s = Some (Some a) \<longleftrightarrow>
    a \<in> set_tree (file_tree_of s) \<and> (\<exists>e. file_view s a = Some e \<and> prefix (file_key e) (cstr p))"
  unfolding GetMonitorFileEntryByabspath_def
  by (rule mi_search_prefix_free [OF config_invD(3) [OF assms(1)] assms(2)])

theorem file_lookup_prefix_free_witness:
  "GetMonitorFileEntryByabspath (bytes ''/data/x'') (demo_state []) = Some (Some 2) \<longleftrightarrow>
    2 \<in> set_tree (file_tree_of (demo_state [])) \<and>
    (\<exists>e. file_view (demo_state []) 2 = Some e \<and> prefix (file_key e) (cstr (bytes ''/data/x'')))"
  by (rule file_lookup_prefix_free [OF demo_config_inv]) (simp add: prefix_free_def)

lemma strncmp_numeral:
  "strncmp s t (numeral k) =
     (let a = (case s of [] \<Rightarrow> 0 | c # _ \<Rightarrow> c); b = (case t of [] \<Rightarrow> 0 | c # _ \<Rightarrow> c)
      in if a \<noteq> b then uint a - uint b else if a = 0 then 0 else strncmp (tl s) (tl t) (pred_numeral k))"
  by (simp add: numeral_eq_Suc)

text \<open>A monitored directory \<open>/data/m\<close> at 1, \<open>/data\<close> at 2.\<close>

definition late_parent :: "addr \<Rightarrow> MONITOR_FILE_ENTRY option" where
  "late_parent = [1 \<mapsto> demo_file\<lparr>wcsMonitorFile := pad 260 (bytes ''/data/m'')\<rparr>, 2 \<mapsto> demo_file]"

lemma bytes_data_m: "bytes ''/data/m'' = [0x2F, 0x64, 0x61, 0x74, 0x61, 0x2F, 0x6D]"
  and bytes_data_z: "bytes ''/data/z'' = [0x2F, 0x64, 0x61, 0x74, 0x61, 0x2F, 0x7A]"
  by (simp_all add: bytes_def)

text \<open>
  With a monitored directory \<open>/data/m\<close> and, added later, its parent \<open>/data\<close>, the file
  \<open>/data/z\<close> lies under a monitored directory and is not found.
\<close>

theorem file_lookup_misses_late_parent:
  "mi_link late_parent (bytes ''/data'') 2 (Node Leaf 1 Leaf) = Some (Some (Node (Node Leaf 2 Leaf) 1 Leaf)) \<and>
   mi_search late_parent (Node (Node Leaf 2 Leaf) 1 Leaf) (bytes ''/data/z'') = Some None \<and>
   prefix (file_key demo_file) (cstr (bytes ''/data/z''))"
proof -
  have "strncmp (bytes ''/data'') (pad 260 (bytes ''/data/m'')) 7 < 0"
    "0 < strncmp (bytes ''/data/z'') (pad 260 (bytes ''/data/m'')) 7"
    unfolding bytes_data bytes_data_m bytes_data_z pad_def by (simp_all add: strncmp_numeral Let_def)
  moreover have "strlen (bytes ''/data/m'') = 7"
    by (simp add: strlen_def bytes_data_m cstr_Cons)
  ultimately show ?thesis
    by (simp add: late_parent_def demo_entries Let_def)
      (simp add: bytes_data bytes_data_z cstr_Cons)
qed

definition home_file :: MONITOR_FILE_ENTRY where
  "home_file = demo_file\<lparr>wcsMonitorFile := pad 260 (bytes ''/home'')\<rparr>"

lemma bytes_home: "bytes ''/home'' = [0x2F, 0x68, 0x6F, 0x6D, 0x65]"
  by (simp add: bytes_def)

lemma home_file_path:
  "c_strlen (wcsMonitorFile home_file) = Some 5" "hd (wcsMonitorFile home_file) = of_char (CHR ''/'')"
  "cstr (wcsMonitorFile home_file) = bytes ''/home''"
  subgoal by (simp add: home_file_def c_strlen_def terminated_pad bytes_home strlen_def cstr_Cons)
  subgoal by (simp add: home_file_def bytes_home pad_def)
  subgoal by (simp add: home_file_def bytes_home cstr_Cons)
  done

section \<open>Commands\<close>

text \<open>
  Whatever packets user space sends, and whatever their content, a module that is in a
  well-formed state is in one after every packet it survives: search trees over live
  entries, every link from a file to its set alive and right. The assumptions are those of
  the red-black tree of the kernel, and that the links of a freed node still lead on.
\<close>

theorem packets_keep_configuration:
  assumes "rbtree_laws K" and "stale_next K" and "config_inv s" and "link_inv s"
    and "netlink_receive_user_sk K q s = Some s'"
  shows "config_inv s' \<and> link_inv s'"
  using netlink_receive_user_sk_inv [OF assms(5)] assms(1-4) by (simp add: netlink_inv_def)

text \<open>A packet with the given command and no more data than the message needs.\<close>

definition packet :: "u32 \<Rightarrow> byte list" where
  "packet ty = le_enc 4 (572 :: u32) @ le_enc 2 RTB_GET @ replicate 10 0 @ le_enc 4 ty @ replicate 552 0"

lemma packet_header: "length (packet ty) = 572" "nlmsg_len (dec_nlmsghdr (packet ty)) = 572"
  "nlmsg_type (dec_nlmsghdr (packet ty)) = RTB_GET" "nType (dec_notification (drop 16 (packet ty))) = ty"
  by (simp_all add: packet_def dec_nlmsghdr_def dec_notification_def field_def le_dec_enc)

lemma packet_command:
  "netlink_recv_packet K (packet ty) s =
     map_option snd (process_netlink_cmd K (as_int (uint (nlmsg_pid (dec_nlmsghdr (packet ty)))))
       (Some (drop 16 (packet ty))) 572 s)"
  by (simp add: netlink_recv_packet_def packet_header NLMSG_HDRLEN_def netlink_process_packet_def Let_def as_int_id)

theorem packets_keep_configuration_witness:
  "\<exists>s'. netlink_receive_user_sk example_kernel [packet NOTIFY_TYPE_RESET_LAST_SHUTDOWN_STATUS, [0]] (demo_state []) = Some s' \<and>
     config_inv s' \<and> link_inv s'"
proof -
  let ?s = "upd_cfg (\<lambda>c. c\<lparr>dwLastNormalShutdown := 1\<rparr>) (demo_state [])"
  have "netlink_receive_user_sk example_kernel [packet NOTIFY_TYPE_RESET_LAST_SHUTDOWN_STATUS, [0]] (demo_state []) = Some ?s"
    by (simp add: packet_command process_netlink_cmd_def packet_header Let_def notify_types
        sizeof_FILEREPL_NOTIFICATION_def)
      (simp add: netlink_recv_packet_def NLMSG_HDRLEN_def)
  then show ?thesis
    using packets_keep_configuration [OF example_rbtree_laws example_stale_next demo_config_inv demo_link_inv] by blast
qed





text \<open>Two monitored paths that belong to the same set.\<close>

definition two_files :: "byte list kstate" where
  "two_files = (demo_state [])
     \<lparr>FileReplData := \<lparr>Config = (cfg (demo_state []))
        \<lparr>MonitorFiles := \<lparr>ulCounts = 2, ItemLookAsideList = True, RBTree = spine [2, 3]\<rparr>\<rparr>, bStopTask = False\<rparr>,
      file_mem := [2 \<mapsto> demo_file, 3 \<mapsto> home_file], next_blk := 4\<rparr>"

text \<open>
  The loops read the links of a node they have just freed. If the memory was reused and
  the links read as NULL, deleting a set stops after its first file: the second file of the
  deleted set stays monitored.
\<close>

theorem delete_set_stops_on_reused_memory:
  "\<exists>s'. DelMonitorSet (example_kernel\<lparr>k_rb_stale := \<lambda>_ _. Some None\<rparr>) demo_guid True two_files = Some (0, s') \<and>
     set_tree_of s' = Leaf \<and> file_tree_of s' = Node Leaf 3 Leaf \<and>
     file_mem s' 3 = Some home_file"
  by (simp add: DelMonitorSet_def DelMonitorItemsBySetId_def rb_for_node del_by_set_def two_files_def demo_state_def
      example_state_def example_kernel_def EntryFree_def set_root_def upd_cfg_def home_file_def demo_file_def demo_set_def Let_def)



text \<open>
  C23. Adding a path no monitored path is found for: the path is monitored from then on,
  and nothing else changes.
\<close>

theorem add_file_refines_map:
  assumes "rbtree_laws K" and "config_inv s" and "k_alloc K (next_blk s)"
    and "c_strlen (wcsMonitorFile mfe) = Some n" and "2 \<le> n" and "hd (wcsMonitorFile mfe) = of_char (CHR ''/'')"
    and "GetMonitorFileEntryByabspath (wcsMonitorFile mfe) s = Some None"
  shows "\<exists>s'. AddMonitorFile K (Some mfe) s = Some (0, s') \<and> set_map s' = set_map s \<and>
    file_map s' = (file_map s)(file_key mfe \<mapsto> mfe\<lparr>bMonitor := 1, pSetEntry := None\<rparr>)"
  using AddMonitorItem_maps [OF assms(1-6)] assms(7)
  by (simp add: GetMonitorFileEntryByabspath_def AddMonitorFile_def)

theorem add_file_refines_map_witness:
  "\<exists>s'. AddMonitorFile example_kernel (Some home_file) (demo_state []) = Some (0, s') \<and>
    set_map s' = set_map (demo_state []) \<and>
    file_map s' = (file_map (demo_state []))(file_key home_file \<mapsto> home_file\<lparr>bMonitor := 1, pSetEntry := None\<rparr>)"
  by (rule add_file_refines_map [OF example_rbtree_laws demo_config_inv _ home_file_path(1) _ home_file_path(2)])
    (simp_all add: demo_monitored home_file_path bytes_home bytes_data)

text \<open>
  Removing a monitored path by name removes the entry the search finds for it, which
  may be an ancestor: asking to stop monitoring \<open>/data/z\<close> stops monitoring \<open>/data\<close>.
\<close>

theorem delete_item_removes_ancestor:
  "\<exists>s'. ConfigDelMonitorItem example_kernel (Some \<lparr>bdSize = 0, bdGuidSetId = demo_guid, ulFilterItemCounts = 1,
       wszBakCacheDir = [], FilterItems = [\<lparr>ulFileType = FILTER_TYPE_DIR, wszFilterName = pad 260 (bytes ''/data/z'')\<rparr>]\<rparr>)
     (demo_state []) = Some (0, s') \<and> file_tree_of s' = Leaf \<and> file_mem s' 2 = None"
proof -
  let ?it = "\<lparr>ulFileType = FILTER_TYPE_DIR, wszFilterName = pad 260 (bytes ''/data/z'')\<rparr>"
  let ?s1 = "(set_root Files Leaf (demo_state []))\<lparr>file_mem := Map.empty\<rparr>"
  have len: "c_strlen (pad 260 (bytes ''/data/z'')) = Some 7"
    by (simp add: c_strlen_def terminated_pad bytes_data_z strlen_def cstr_Cons)
  have name: "c_strncpy (replicate FILEREPL_MAX_PATH 0) (pad 260 (bytes ''/data/z'')) 7 = Some (pad 260 (bytes ''/data/z''))"
    by (simp add: c_strncpy_zeros FILEREPL_MAX_PATH_def bytes_data_z cstr_Cons)
  have "mi_search [2 \<mapsto> demo_file] (Node Leaf 2 Leaf) (pad 260 (bytes ''/data/z'')) = Some (Some 2)"
    using demo_monitored [of "pad 260 (bytes ''/data/z'')" "[]"]
    by (simp add: GetMonitorFileEntryByabspath_def bytes_data bytes_data_z cstr_Cons)
  then have item: "del_item example_kernel ?it (demo_state []) = Some ?s1"
    by (simp add: del_item_def len name FILTER_TYPE_DIR_def FILTER_TYPE_FILE_def mi_remove_def EntryFree_def
        example_kernel_def set_root_def upd_cfg_def fun_eq_iff)
  have "config_inv ?s1"
    using del_items_inv [OF example_rbtree_laws, of "[?it]" 1 "demo_state []" ?s1] item demo_config_inv by simp
  then obtain s' where s': "SaveConfig example_kernel ?s1 = Some (0, s')"
    using SaveConfig_total [OF example_rbtree_laws] by blast
  with item show ?thesis
    using SaveConfig_same [OF s'] by (auto simp: ConfigDelMonitorItem_def same_kernel_simps set_root_def)
qed

section \<open>Sequence numbers\<close>

text \<open>
  C27. The numbers handed out for the files of one backup set, in any order of the files,
  are consecutive and start at the counter of that set (they wrap at 64 bits).
\<close>

theorem sequence_numbers_consecutive:
  assumes "take_seqs K as s = Some (gs, s')" and "config_inv s" and "link_inv s"
    and "set as \<subseteq> set_tree (file_tree_of s)"
    and "\<forall>a\<in>set as. map_option (\<lambda>e. guid_bytes (guidSetId e)) (file_mem s a) = Some (guid_bytes g)"
    and "p \<in> set_tree (set_tree_of s)" and "set_mem s p = Some m" and "set_key m = guid_bytes g"
  shows "gs = map (\<lambda>i. ullSetSeqNo m + of_nat i) [0..<length gs]"
  using take_seqs_consecutive [OF assms] .

theorem sequence_numbers_consecutive_witness:
  "\<exists>gs s'. take_seqs example_kernel [2, 2] (demo_state []) = Some (gs, s') \<and> gs = [7, 8]"
proof -
  let ?s1 = "took 2 1 demo_file demo_set (demo_state [])"
  let ?e1 = "demo_file\<lparr>pSetEntry := Some 1, ullSeqNo := ullSeqNo demo_file + 1\<rparr>"
  let ?m1 = "demo_set\<lparr>ullSetSeqNo := ullSetSeqNo demo_set + 1\<rparr>"
  have c1: "charged 2 ?e1 1 ?m1 ?s1" by (simp add: charged_def put_set_def put_file_def demo_entries)
  let ?gs = "[ullSetSeqNo demo_set, ullSetSeqNo ?m1]"
  have run: "take_seqs example_kernel [2, 2] (demo_state []) = Some (?gs, took 2 1 ?e1 ?m1 ?s1)"
    by (simp only: take_seqs.simps GetSeqNo_run [OF demo_charged] GetSeqNo_run [OF c1] Option.bind.bind_lunit
        prod.case refl simp_thms if_False)
  have "?gs = map (\<lambda>i. ullSetSeqNo demo_set + of_nat i) [0..<length ?gs]"
    by (rule sequence_numbers_consecutive [OF run demo_config_inv demo_link_inv, where g = demo_guid and p = 1])
      (simp_all add: demo_file_def demo_set_def)
  then have "?gs = [7, 8]" by (simp add: demo_set_def)
  with run show ?thesis by blast
qed

section \<open>The configuration file\<close>

text \<open>
  What is saved is loaded again: all sets and files in the order of their keys, each
  file linked to its set, and the shutdown status. It holds when no path is nested under
  another and every file's set is there, when the file system gives back what it was given,
  and when the file stays below 4 GB.
\<close>

theorem configuration_round_trip:
  assumes "rbtree_laws K" and "cnf_laws K cnf hnd" and "config_inv s"
    and "config_fits s" and "loadable (set_entries s) (file_entries s)"
    and "config_inv s0" and "set_tree_of s0 = Leaf" and "file_tree_of s0 = Leaf" and "\<forall>a\<ge>next_blk s0. k_alloc K a"
  shows "\<exists>s1 s2. SaveConfig K s = Some (0, s1) \<and> LoadConfig K (s0\<lparr>world := world s1\<rparr>) = Some (0, s2) \<and>
    set_entries s2 = set_entries s \<and> map unlink (file_entries s2) = map unlink (file_entries s) \<and>
    config_inv s2 \<and> linked s2 \<and> dwLastNormalShutdown (cfg s2) = dwLastNormalShutdown (cfg s)"
  using config_roundtrip_run [OF assms(1-5) assms(6-9)] by blast

lemma example_boot: "config_inv (example_state w)" "set_tree_of (example_state w) = Leaf" "file_tree_of (example_state w) = Leaf"
  by (simp_all add: config_inv_def example_state_def)

theorem configuration_round_trip_witness:
  "\<exists>s1 s2. SaveConfig example_kernel (demo_state []) = Some (0, s1) \<and>
    LoadConfig example_kernel ((example_state [])\<lparr>world := world s1\<rparr>) = Some (0, s2) \<and>
    set_entries s2 = set_entries (demo_state []) \<and> map unlink (file_entries s2) = map unlink (file_entries (demo_state [])) \<and>
    config_inv s2 \<and> linked s2 \<and> dwLastNormalShutdown (cfg s2) = dwLastNormalShutdown (cfg (demo_state []))"
  by (rule configuration_round_trip [OF example_rbtree_laws example_cnf_laws demo_config_inv _ _ example_boot])
    (simp_all add: config_fits_def loadable_def set_entries_def file_entries_def, simp add: demo_file_def demo_set_def)

text \<open>
  Saving always ends, reports success whatever the file system does, and changes nothing
  but the outside world.
\<close>

theorem save_changes_only_the_world:
  assumes "rbtree_laws K" and "config_inv s"
  shows "\<exists>s'. SaveConfig K s = Some (0, s') \<and> same_kernel s s'"
  using SaveConfig_total [OF assms] SaveConfig_same by blast

theorem save_changes_only_the_world_witness:
  "\<exists>s'. SaveConfig (example_kernel\<lparr>k_open := \<lambda>_ _ _ _ w. (Inl (-2), w)\<rparr>) (demo_state []) = Some (0, s') \<and>
     same_kernel (demo_state []) s'"
  by (rule save_changes_only_the_world [OF _ demo_config_inv]) (simp add: rbtree_laws_def example_kernel_def)

text \<open>
  After a reload the counter of the sets is still 0, so the lookup that guards an
  insertion does not see the loaded sets: adding or extending a set that was loaded fails
  with -1 and leaves the configuration as it was.
\<close>

theorem loaded_set_cannot_be_added_again:
  assumes "rbtree_laws K" and "config_inv s" and "ulCounts (MonitorSet (cfg s)) = 0"
    and "set_map s (set_key mse) \<noteq> None" and "k_alloc K (next_blk s)" and "strlen (wcsSetCacheDir mse) < 260"
  shows "AddMonitorSet K (Some mse) b s = Some (-1, s\<lparr>next_blk := Suc (next_blk s)\<rparr>)"
proof -
  obtain r where r: "ms_search (set_mem s) (set_tree_of s) (guidSetId mse) = Some r"
      "Option.bind r (set_mem s) = set_map s (set_key mse)"
    using ms_search_refines [OF assms(2), of "guidSetId mse"] by blast
  then obtain p where "r = Some p" using assms(4) by (cases r) auto
  moreover obtain v s' where "insert_set K mse s = Some (v, s')" "v \<noteq> -3"
    using insert_set_total [OF assms(2,5,6)] by blast
  ultimately show ?thesis
    using insert_set_cases [OF assms(1,2)] r(1) assms(3)
    by (fastforce simp: AddMonitorSet_eq GetMonitorSetEntry_def)
qed

theorem loaded_set_cannot_be_added_again_witness:
  "AddMonitorSet example_kernel (Some demo_set) False (upd_items Sets (\<lambda>d. d\<lparr>ulCounts := 0\<rparr>) (demo_state [])) =
     Some (-1, (upd_items Sets (\<lambda>d. d\<lparr>ulCounts := 0\<rparr>) (demo_state []))\<lparr>next_blk := 4\<rparr>)"
proof -
  have "config_inv (upd_items Sets (\<lambda>d. d\<lparr>ulCounts := 0\<rparr>) (demo_state []))"
    using demo_config_inv by (simp only: config_inv_counts)
  from loaded_set_cannot_be_added_again [OF example_rbtree_laws this, of demo_set False]
  show ?thesis
    by (simp add: set_map_def heap_map_def strlen_def demo_entries bytes_log)
qed

text \<open>
  When the configuration file cannot be opened, loading it faults: the error pointer is
  closed as if it were a file.
\<close>

theorem load_faults_without_file:
  assumes "\<And>seg p fl r w. fst (k_open K seg p fl r w) = Inl err"
  shows "LoadConfig K s = None \<and> (k_cache_files K \<and> k_cache_sets K \<longrightarrow> InitMonitorSet K s = None)"
proof -
  have load: "LoadConfig K s = None" for s :: "'a kstate"
    using assms by (auto simp: LoadConfig_def file_open_def Let_def split: prod.split sum.split)
      (metis Inl_Inr_False fst_conv)+
  then show ?thesis by (simp add: InitMonitorSet_def Let_def)
qed

theorem load_faults_without_file_witness:
  "LoadConfig (example_kernel\<lparr>k_open := \<lambda>_ _ _ _ w. (Inl (-2), w)\<rparr>) (demo_state []) = None"
  using load_faults_without_file [of "example_kernel\<lparr>k_open := \<lambda>_ _ _ _ w. (Inl (-2), w)\<rparr>" "-2" "demo_state []"] by simp

section \<open>Messages\<close>

text \<open>
  A command whose announced length is below the size of a notification is refused and
  has no effect, whatever the rest of the packet says.
\<close>

theorem short_commands_ignored:
  assumes "nlmsg_type (dec_nlmsghdr skb) = RTB_GET" and "unat (nlmsg_len (dec_nlmsghdr skb)) < 556"
  shows "netlink_recv_packet K skb s = Some s"
  using netlink_short [OF assms(2), of K _ _ s] assms(1)
  by (simp add: netlink_recv_packet_def netlink_process_packet_def Let_def)

theorem short_commands_ignored_witness:
  "netlink_recv_packet example_kernel (le_enc 4 (16 :: u32) @ le_enc 2 RTB_GET @ replicate 10 0) (demo_state []) =
     Some (demo_state [])"
  by (rule short_commands_ignored) (simp_all add: dec_nlmsghdr_def field_def le_dec_enc)

text \<open>
  The query for the last shutdown always answers that the shutdown was normal: the
  stored status is overwritten before it is sent.
\<close>

theorem last_shutdown_always_normal:
  assumes "nType (dec_notification b) = NOTIFY_TYPE_QUERY_LAST_SHUTDOWN_STATUS" and "k_alloc K (next_blk s)"
    and "k_skb K (world s)"
  shows "\<exists>s'. process_netlink_cmd K dest (Some b) 572 s = Some (NET_OK, s') \<and>
    dwLastNormalShutdown (cfg s') = shutdown_code systemrunning \<and>
    outbox s' = outbox s @ [\<lparr>um_dest = RTB_CMD, um_nlmsg_len = 556,
      um_data = status_message NOTIFY_TYPE_QUERY_LAST_SHUTDOWN_STATUS 1\<rparr>]"
proof -
  have len: "length (status_message ty v) = 556" for ty v
    by (simp add: status_message_def length_pad sizeof_FILEREPL_NOTIFICATION_def)
  from assms show ?thesis
    by (simp add: process_netlink_cmd_def sizeof_FILEREPL_NOTIFICATION_def notify_types Let_def as_int_id
        notify_user_status_def alloc_block_def netlink_to_user_def len)
qed

theorem last_shutdown_always_normal_witness:
  "\<exists>s'. process_netlink_cmd example_kernel 0 (Some (drop 16 (packet NOTIFY_TYPE_QUERY_LAST_SHUTDOWN_STATUS))) 572
      (upd_cfg (\<lambda>c. c\<lparr>dwLastNormalShutdown := shutdown_code systemexceptionreboot\<rparr>) (demo_state [])) = Some (NET_OK, s') \<and>
    dwLastNormalShutdown (cfg s') = shutdown_code systemrunning \<and>
    outbox s' = [] @ [\<lparr>um_dest = RTB_CMD, um_nlmsg_len = 556,
      um_data = status_message NOTIFY_TYPE_QUERY_LAST_SHUTDOWN_STATUS 1\<rparr>]"
  using last_shutdown_always_normal [OF packet_header(4), of example_kernel
      "upd_cfg (\<lambda>c. c\<lparr>dwLastNormalShutdown := shutdown_code systemexceptionreboot\<rparr>) (demo_state [])" 0] by simp

text \<open>
  Every message of the type \<open>RTB_SET\<close> makes the module read past the end of the
  literal it answers with.
\<close>

theorem hello_reads_past_its_literal:
  "process_hello_set K dest buf len s = None"
  by (simp add: process_hello_set_def c_memcpy_def bytes_def)

end
