(* ===== verification/LogProps.thy ===== *)
theory LogProps
  imports ConfigProps
begin

text \<open>
  The properties of the hooks, of the records they queue and of the thread that writes them.
\<close>

section \<open>Hooks\<close>

text \<open>
  C7. Every hook gives the caller the result of the original operation, which runs exactly
  once on the outside world, and touches the outside world in no other way. This holds on
  every path through the hook, those without memory included.
\<close>

theorem hooks_transparent:
  assumes "hooked K run op s = Some (ret, s')"
  shows "run (world s) = (ret, world s')"
  using assms
  by (cases op) (auto dest: write_transparent mkdir_transparent rmdir_transparent rename_transparent
      unlink_transparent symlink_transparent link_transparent create_transparent)

lemma monitored_in_tree:
  assumes "monitored op ps s = Some (Some a)"
  shows "a \<in> set_tree (file_tree_of s)"
proof (cases ps)
  case (Pair p q)
  with assms have "\<exists>r. GetMonitorFileEntryByabspath r s = Some (Some a)"
    by (cases op) (auto simp: bind_eq_Some_conv split: if_splits)
  then show ?thesis
    unfolding GetMonitorFileEntryByabspath_def using mi.search_hit by blast
qed

text \<open>Making the directory \<open>/data/x\<close>.\<close>

definition demo_dentry :: dentry where
  "demo_dentry = Child (Child (Root slash) (bytes ''data'')) (bytes ''x'')"

definition demo_mkdir :: "byte list vfs_op" where
  "demo_mkdir = Vfs_mkdir (Some demo_dentry) 0x1ED"

definition demo_run :: "byte list orig" where
  "demo_run w = (0, w @ [1])"

definition demo_args :: log_args where
  "demo_args = \<lparr>la_seq = 1, la_gseq = 7, la_time = 0, la_dir = bytes ''/log/''\<rparr>"

lemma demo_path: "dentry_path (Some demo_dentry) = Some (bytes ''/data/x'')"
proof -
  have "getabsfullpathfromdentry (Some demo_dentry) [] = Some (0, join (components demo_dentry))"
    unfolding demo_dentry_def by (rule fullpath_run) (simp_all add: bytes_def PATH_MAX_def)
  then show ?thesis by (simp add: dentry_path_def demo_dentry_def bytes_def)
qed

lemma bytes_data_x: "bytes ''/data/x'' = [0x2F, 0x64, 0x61, 0x74, 0x61, 0x2F, 0x78]"
  by (simp add: bytes_def)

lemma demo_mkdir_facts:
  "op_paths demo_mkdir = Some (bytes ''/data/x'', [])" "\<not> bypassed demo_mkdir" "op_fits demo_mkdir"
  "monitored demo_mkdir (bytes ''/data/x'', []) (demo_state w) = Some (Some 2)" "op_buffers demo_mkdir = 2"
  by (simp_all add: demo_mkdir_def demo_path demo_monitored bytes_data bytes_data_x cstr_Cons)

text \<open>
  C3. A monitored operation, with the driver on and with memory: the hook does not fault,
  returns what the original returned, takes one number from the file and one from its set,
  gives back all its buffers, and leaves exactly one record at the end of the queue, the
  record of that operation when it succeeded and an error record when it failed.
\<close>

theorem monitored_operation_recorded:
  assumes "\<not> driver_off s" and "queue_inv s" and "\<forall>a\<ge>next_blk s. k_alloc K a"
    and "op_paths op = Some ps" and "\<not> bypassed op" and "op_fits op"
    and "monitored op ps s = Some (Some a)" and "charged a e p m s" and "run (world s) = (ret, w)"
  shows "hooked K run op s =
    Some (ret, recorded a p e m (op_record op ret (op_args K s e m) ps) (next_blk s + op_buffers op) w s)"
  using hooked_logs_once [OF assms(1) queue_inv_fresh [OF assms(2)] assms(3-6), of run] assms(7-9)
  unfolding logs_once_def by blast

theorem monitored_operation_recorded_witness:
  "hooked example_kernel demo_run demo_mkdir (demo_state []) =
     Some (0, recorded 2 1 demo_file demo_set
       (op_record demo_mkdir 0 (op_args example_kernel (demo_state []) demo_file demo_set) (bytes ''/data/x'', [])) (3 + 2) [1]
       (demo_state []))"
  using monitored_operation_recorded [OF demo_on demo_queue_inv _ demo_mkdir_facts(1-4) demo_charged,
      where K = example_kernel and run = demo_run and ret = 0 and w = "[1]"]
  by (simp add: demo_run_def demo_mkdir_facts)

text \<open>
  C35. An operation on a path that is not monitored runs as if there were no hook: besides
  the numbering of allocations, the module's state is what it was.
\<close>

theorem unmonitored_operation_not_recorded:
  assumes "\<not> driver_off s" and "queue_inv s" and "\<forall>a\<ge>next_blk s. k_alloc K a"
    and "op_paths op = Some ps" and "\<not> bypassed op" and "op_fits op"
    and "monitored op ps s = Some None" and "run (world s) = (ret, w)"
  shows "hooked K run op s = Some (ret, s\<lparr>next_blk := next_blk s + op_buffers op, world := w\<rparr>)"
  using hooked_logs_once [OF assms(1) queue_inv_fresh [OF assms(2)] assms(3-6), of run] assms(7,8)
  by (simp add: logs_once_def with_blocks_def)

theorem unmonitored_operation_not_recorded_witness:
  "hooked example_kernel demo_run demo_mkdir ((demo_state [])\<lparr>file_mem := [2 \<mapsto> home_file]\<rparr>) =
     Some (0, (demo_state [])\<lparr>file_mem := [2 \<mapsto> home_file], next_blk := 3 + 2, world := [1]\<rparr>)"
proof -
  let ?s = "(demo_state [])\<lparr>file_mem := [2 \<mapsto> home_file]\<rparr>"
  have view: "readable [2 \<mapsto> home_file] = [2 \<mapsto> home_file]"
    by (auto simp: readable_def fun_eq_iff home_file_def terminated_pad bytes_home split: option.splits)
  have "strncmp (bytes ''/data/x'') (wcsMonitorFile home_file) (strlen (wcsMonitorFile home_file)) \<noteq> 0"
    by (simp only: strncmp_zero home_file_path bytes_home bytes_data_x) (simp add: cstr_Cons)
  then have "monitored demo_mkdir (bytes ''/data/x'', []) ?s = Some None"
    by (simp add: demo_mkdir_def GetMonitorFileEntryByabspath_def view Let_def)
  moreover have "queue_inv ?s" by (simp add: queue_inv_def owned_def)
  moreover have "\<not> driver_off ?s" by (simp add: driver_off_def)
  ultimately show ?thesis
    using unmonitored_operation_not_recorded [of ?s example_kernel demo_mkdir "(bytes ''/data/x'', [])" demo_run 0 "[1]"]
    by (simp add: demo_mkdir_facts demo_run_def)
qed

text \<open>
  With the driver off, or for an open of an existing file or a write through a
  write-only file, a hook is the original operation.
\<close>

theorem hooks_skip:
  assumes "driver_off s \<or> bypassed op"
  shows "hooked K run op s = Some (call_run run s)"
  by (rule hooked_skips [OF assms])

theorem hooks_skip_witness:
  "hooked example_kernel demo_run demo_mkdir (upd_cfg (\<lambda>c. c\<lparr>bValid := False\<rparr>) (demo_state [])) =
     Some (call_run demo_run (upd_cfg (\<lambda>c. c\<lparr>bValid := False\<rparr>) (demo_state [])))"
  by (rule hooks_skip) (simp add: driver_off_def)

lemma logged_keeps_invariants:
  assumes "\<not> driver_off s" and "config_inv s" and "link_inv s" and "queue_inv s" and "\<forall>a\<ge>next_blk s. k_alloc K a"
    and "op_paths op = Some ps" and "\<not> bypassed op" and "op_fits op"
    and "monitored op ps s = Some (Some a)" and "charged a e p m s"
  shows "\<exists>ret s'. hooked K run op s = Some (ret, s') \<and> config_inv s' \<and> link_inv s' \<and> queue_inv s' \<and>
    length (queue_of s') = length (queue_of s) + 1"
proof -
  obtain ret w where run: "run (world s) = (ret, w)" by fastforce
  let ?n = "next_blk s + op_buffers op"
  let ?s' = "recorded a p e m (op_record op ret (op_args K s e m) ps) ?n w s"
  have "hooked K run op s = Some (ret, ?s')"
    using hooked_logs_once [OF assms(1) queue_inv_fresh [OF assms(4)] assms(5-8), of run] assms(9,10) run
    unfolding logs_once_def by blast
  moreover have "a \<in> set_tree (file_tree_of s)" by (rule monitored_in_tree [OF assms(9)])
  ultimately show ?thesis
    using recorded_config_link [OF assms(2,3) _ assms(10), of ?n] recorded_queue_inv [OF assms(4), of ?n] by fastforce
qed

lemma monitored_run:
  "\<exists>ret s'. hooked example_kernel demo_run demo_mkdir (demo_state []) = Some (ret, s') \<and>
     config_inv s' \<and> link_inv s' \<and> queue_inv s' \<and> length (queue_of s') = length (queue_of (demo_state [])) + 1"
  by (rule logged_keeps_invariants [OF demo_on demo_config_inv demo_link_inv demo_queue_inv _
      demo_mkdir_facts(1-4) demo_charged]) simp

theorem hooks_transparent_witness:
  "\<exists>ret s'. hooked example_kernel demo_run demo_mkdir (demo_state []) = Some (ret, s') \<and> demo_run [] = (ret, world s')"
  using monitored_run hooks_transparent [of example_kernel demo_run demo_mkdir "demo_state []"] by fastforce

text \<open>
  A monitored operation leaves the module in a well-formed state: the configuration,
  the links from files to sets, and the ownership of every block in the queue.
\<close>

theorem monitored_operation_keeps_invariants:
  assumes "\<not> driver_off s" and "config_inv s" and "link_inv s" and "queue_inv s" and "\<forall>a\<ge>next_blk s. k_alloc K a"
    and "op_paths op = Some ps" and "\<not> bypassed op" and "op_fits op"
    and "monitored op ps s = Some (Some a)" and "charged a e p m s"
  shows "\<exists>ret s'. hooked K run op s = Some (ret, s') \<and> config_inv s' \<and> link_inv s' \<and> queue_inv s' \<and>
    length (queue_of s') = length (queue_of s) + 1"
  by (rule logged_keeps_invariants [OF assms])

theorem monitored_operation_keeps_invariants_witness:
  "\<exists>ret s'. hooked example_kernel demo_run demo_mkdir (demo_state []) = Some (ret, s') \<and>
     config_inv s' \<and> link_inv s' \<and> queue_inv s' \<and> length (queue_of s') = length (queue_of (demo_state [])) + 1"
  by (rule monitored_operation_keeps_invariants [OF demo_on demo_config_inv demo_link_inv demo_queue_inv _
      demo_mkdir_facts(1-4) demo_charged]) simp

section \<open>When a write cannot be recorded\<close>

lemma as_int_wraps: "as_int (r + 2 ^ 32) = as_int r"
proof -
  have "(word_of_int (2 ^ 32) :: u32) = 0" by simp
  then have "(word_of_int (r + 2 ^ 32) :: u32) = word_of_int r" by (simp only: wi_hom_add [symmetric] add_0_right)
  then show ?thesis by (simp only: as_int_def)
qed

lemma as_int_upper:
  assumes "2 ^ 31 \<le> r" and "r < 2 ^ 32"
  shows "as_int r = r - 2 ^ 32"
proof -
  have "as_int (r - 2 ^ 32) = r - 2 ^ 32" by (rule as_int_id) (use assms in simp_all)
  with as_int_wraps [of "r - 2 ^ 32"] show ?thesis by simp
qed

lemma huge_write_not_logged:
  assumes "2 ^ 31 \<le> count + 1024" and "count + 1024 < 2 ^ 32"
  shows "createiologforwrite K sno gno t dir p buf count pos s = Some (-1, s)"
proof -
  have "as_int (int sizeof_LOG_FILE + int count - 4) = int (count + 1024) - 2 ^ 32"
    using assms by (subst as_int_upper) (simp_all add: sizeof_log_defs)
  then have "as_int (int sizeof_LOG_FILE + int count - 4) \<le> 0" using assms(2) by simp
  then show ?thesis by (simp add: createiologforwrite_def)
qed

text \<open>
  C40. A successful write of 2 GB or more (up to 4 GB) to a monitored file cannot be recorded:
  its size does not fit the \<open>int\<close> of the record's length. The write goes through, one number
  is lost, the agent is told with status -3, and the driver is off: from then on nothing is
  recorded.
\<close>

theorem huge_write_switches_driver_off:
  assumes on: "\<not> driver_off s" and fresh: "fresh_blocks s" and alloc: "\<forall>a\<ge>next_blk s. k_alloc K a"
    and paths: "op_paths (Vfs_write file buf count pos) = Some (p, q)" and flags: "f_flags file \<noteq> 1"
    and mon: "GetMonitorFileEntryByabspath p s = Some (Some a)" and ch: "charged a e pm m s"
    and size: "2 ^ 31 \<le> count + 1024" "count + 1024 < 2 ^ 32" and run: "run (world s) = (ret, w)" "0 < ret"
  shows "\<exists>s'. rtb_vfs_write K run file buf count pos s = Some (ret, s') \<and> driver_off s' \<and>
    queue_of s' = queue_of s \<and> world s' = w"
proof -
  from paths obtain path where path: "f_dpath file = Inr path" "buf_cat [] path (strlen path) = Some p"
    by (auto simp: bind_eq_Some_conv split: sum.splits)
  have log: "log_result (\<lambda>la. createiologforwrite K (la_seq la) (la_gseq la) (la_time la) (la_dir la) p buf count pos)
      (log_error K p) True (Some la) t = Some (Some (-1), t)" for la t
    by (simp add: log_result_def huge_write_not_logged [OF size])
  show ?thesis
    using on fresh alloc path flags mon run(2)
    by (simp add: rtb_vfs_write_def getabsfullpathfromstructfile_def alloc_first alloc_with_blocks
        free_block_with_blocks kb_clean fresh_blocks_def take_args_run [OF ch] call_run_at run(1) log Let_def)
      (simp add: notify_user_status_def driver_off_def alloc_block_def free_opt_def free_block_def
        put_set_def put_file_def)
qed

theorem huge_write_switches_driver_off_witness:
  "\<exists>s'. rtb_vfs_write example_kernel (\<lambda>w. (5, w)) \<lparr>f_flags = 2, f_dpath = Inr (bytes ''/data/x'')\<rparr> [] (2 ^ 31) 0 (demo_state []) =
      Some (5, s') \<and> driver_off s' \<and> queue_of s' = queue_of (demo_state []) \<and> world s' = []"
  by (rule huge_write_switches_driver_off [OF demo_on queue_inv_fresh [OF demo_queue_inv], where p = "bytes ''/data/x''" and q = "[]"])
    (rule demo_charged | simp add: demo_monitored bytes_data bytes_data_x cstr_Cons buf_cat_def strlen_def PATH_MAX_def)+

text \<open>
  A write of 4 GB or a little more to a monitored file is worse: the length wraps to a
  small one, the record is allocated with it, and copying the data runs past its end.
\<close>

theorem wrapped_write_overruns_record:
  assumes "2 ^ 32 < count + 1024" and "count + 1024 < 2 ^ 32 + 2 ^ 31" and "k_alloc K (next_blk s)"
  shows "createiologforwrite K sno gno t dir p buf count pos s = None"
proof -
  let ?r = "int sizeof_LOG_FILE + int count - 4 - 2 ^ 32"
  have "as_int ?r = ?r" by (rule as_int_id) (use assms in \<open>simp_all add: sizeof_log_defs\<close>)
  then have "as_int (int sizeof_LOG_FILE + int count - 4) = ?r" using as_int_wraps [of ?r] by simp
  moreover have "0 < ?r" "?r < int (LOG_FILE_HEADER_SIZE + count)"
    using assms by (simp_all add: sizeof_log_defs)
  ultimately show ?thesis
    using assms(3) by (simp add: createiologforwrite_def alloc_block_def)
qed

theorem wrapped_write_overruns_record_witness:
  "createiologforwrite example_kernel 1 1 1 [] [] [] (2 ^ 32) 0 (demo_state []) = None"
  by (rule wrapped_write_overruns_record) simp_all

section \<open>Records\<close>

lemma op_record_full:
  assumes "op_fits op"
  shows "full_size (op_record op ret la ps)" and "length (log_image (op_record op ret la ps)) < 2 ^ 31"
proof -
  obtain p q where ps: "ps = (p, q)" by (cases ps)
  show full: "full_size (op_record op ret la ps)"
    using assms unfolding ps
    by (cases op) (simp_all add: op_record_def error_record_def full_size_records)
  have "length (Data (op_record op ret la ps)) + 1024 < 2 ^ 31"
    using assms unfolding ps
    by (cases op) (simp_all add: op_record_def error_record_def plain_record_def two_record_def write_record_def min_less_iff_disj)
  then show "length (log_image (op_record op ret la ps)) < 2 ^ 31"
    using full by (simp add: full_size_def length_log_image)
qed



text \<open>
  The path in a record is the path of the operation, cut to 260 bytes; a path of 260
  bytes or more leaves no NUL in its field.
\<close>

theorem record_path:
  assumes "op_good op ret" and "\<forall>old new. op \<noteq> Vfs_rename old new" and "\<forall>old new. op \<noteq> Vfs_link old new"
    and "\<forall>pl d n. op \<noteq> Vfs_symlink pl d n"
  shows "cstr (wszFilePath (hdr (op_record op ret la (p, q)))) = take 260 (cstr p) \<and>
    (260 \<le> strlen p \<longrightarrow> \<not> terminated (wszFilePath (hdr (op_record op ret la (p, q)))))"
proof -
  have path: "wszFilePath (hdr (op_record op ret la (p, q))) = stored_path p"
    using assms by (cases op) (auto simp: op_record_def plain_record_def write_record_def log_header_def)
  have "\<not> terminated (stored_path p)" if "260 \<le> strlen p"
    using that cstr_no_NUL [of p] in_set_takeD [of 0 260 "cstr p"]
    by (auto simp: terminated_def stored_path_def strlen_def pad_def FILEREPL_MAX_PATH_def)
  then show ?thesis unfolding path cstr_stored_path by blast
qed

theorem record_path_witness:
  "cstr (wszFilePath (hdr (op_record demo_mkdir 0 demo_args (bytes ''/data/x'', [])))) = take 260 (cstr (bytes ''/data/x''))"
  using record_path [of demo_mkdir 0 demo_args "bytes ''/data/x''" "[]"] by (simp add: demo_mkdir_def)

text \<open>
  Two records of a set get different file names exactly when their numbers differ, as
  long as the log directory has at most 234 characters; from 254 characters on the number is
  cut off and all records of the set share one file.
\<close>

theorem record_names:
  "(strlen dir \<le> 234 \<longrightarrow> (log_path dir a = log_path dir b \<longleftrightarrow> a = b)) \<and>
   (254 \<le> strlen dir \<longrightarrow> log_path dir a = log_path dir b)"
  using log_path_distinct log_path_collides by blast

theorem record_names_witness:
  "log_path (bytes ''/log/'') 7 \<noteq> log_path (bytes ''/log/'') 8 \<and>
   log_path (replicate 254 0x61) 7 = log_path (replicate 254 0x61) 8"
  using record_names [of "bytes ''/log/''" 7 8] record_names [of "replicate 254 0x61" 7 8]
  by (simp add: bytes_log strlen_def cstr_Cons cstr_id)

section \<open>The writer\<close>



section \<open>Paths\<close>



end
