(* ===== verification/Disk.thy ===== *)
theory Disk
  imports HookInv LogProps
begin

text \<open>
  Where the records go: with a file system that keeps what it is given, one round of the writer
  thread leaves every queued record in its file.
\<close>

section \<open>The file system\<close>

text \<open>
  \<open>store w p\<close>: the content of the file \<open>p\<close>, empty when there is none; \<open>hnd f p w\<close>: \<open>f\<close> is
  open on \<open>p\<close>. A file can be created, opening and closing keep all contents, and a write does
  what it says to its own file.
\<close>

definition disk_laws :: "'w kernel \<Rightarrow> ('w \<Rightarrow> byte list \<Rightarrow> byte list) \<Rightarrow> (nat \<Rightarrow> byte list \<Rightarrow> 'w \<Rightarrow> bool) \<Rightarrow> bool" where
  "disk_laws K store hnd \<longleftrightarrow>
     (\<forall>p r w. \<exists>f. fst (k_open K KERNEL_DS p (O_WRONLY + O_CREAT) r w) = Inr f) \<and>
     (\<forall>p fl r w x w'. k_open K KERNEL_DS p fl r w = (x, w') \<longrightarrow> store w' = store w \<and> (\<forall>f. x = Inr f \<longrightarrow> hnd f p w')) \<and>
     (\<forall>f p off d w. hnd f p w \<longrightarrow> (\<exists>w'. k_write K KERNEL_DS f off d w = (int (length d), w') \<and> hnd f p w' \<and>
        store w' = (store w)(p := write_at off d (store w p)))) \<and>
     (\<forall>f w. store (k_close K f w) = store w)"

lemma disk_create:
  assumes "disk_laws K store hnd"
  shows "\<exists>f w. file_open K p (O_WRONLY + O_CREAT) r s = (Inr f, s\<lparr>world := w\<rparr>) \<and> store w = store (world s) \<and> hnd f p w"
proof -
  obtain f w where fw: "k_open K KERNEL_DS p (O_WRONLY + O_CREAT) r (world s) = (Inr f, w)"
    using assms unfolding disk_laws_def by (metis prod.collapse)
  moreover have "store w = store (world s)" "hnd f p w" using assms fw unfolding disk_laws_def by blast+
  ultimately show ?thesis by (auto simp: file_open_eq)
qed

lemma disk_open:
  assumes "disk_laws K store hnd" and "file_open K p fl r s = (x, s')"
  shows "store (world s') = store (world s)" and "x = Inr f \<Longrightarrow> hnd f p (world s')"
  using assms unfolding disk_laws_def by (auto simp: file_open_eq split: prod.splits)

lemma disk_write:
  assumes "disk_laws K store hnd" and "hnd f p (world s)" and "length d = n" and "n < 2 ^ 31"
  shows "\<exists>w. file_write K f off d n s = (int n, s\<lparr>world := w\<rparr>) \<and> hnd f p w \<and>
    store w = (store (world s))(p := write_at off d (store (world s) p))"
proof -
  obtain w where "k_write K KERNEL_DS f off d (world s) = (int n, w)" "hnd f p w"
      "store w = (store (world s))(p := write_at off d (store (world s) p))"
    using assms(1-3) unfolding disk_laws_def by blast
  then show ?thesis using assms(3,4) by (auto simp: file_write_eq as_int_id)
qed

lemma disk_write_other:
  assumes "disk_laws K store hnd" and "hnd f p (world s)" and "file_write K f off d n s = (r, s')"
  shows "hnd f p (world s') \<and> (\<forall>q. q \<noteq> p \<longrightarrow> store (world s') q = store (world s) q)"
proof -
  obtain w where "k_write K KERNEL_DS f off (take n d) (world s) = (int (length (take n d)), w)" "hnd f p w"
      "store w = (store (world s))(p := write_at off (take n d) (store (world s) p))"
    using assms(1,2) unfolding disk_laws_def by blast
  then show ?thesis using assms(3) by (auto simp: file_write_eq)
qed

lemma disk_close: "disk_laws K store hnd \<Longrightarrow> store (k_close K f w) = store w"
  by (simp add: disk_laws_def)

section \<open>Saving the configuration\<close>

text \<open>Saving writes to the configuration file only.\<close>

definition elsewhere :: "('w \<Rightarrow> byte list \<Rightarrow> byte list) \<Rightarrow> (nat \<Rightarrow> byte list \<Rightarrow> 'w \<Rightarrow> bool) \<Rightarrow> nat \<Rightarrow> 'w kstate \<Rightarrow> 'w kstate \<Rightarrow> bool" where
  "elsewhere store hnd f s s' \<longleftrightarrow> hnd f rtb_cnf (world s') \<and> (\<forall>q. q \<noteq> rtb_cnf \<longrightarrow> store (world s') q = store (world s) q)"

lemma write_elsewhere:
  "disk_laws K store hnd \<Longrightarrow> elsewhere store hnd f s t \<Longrightarrow> elsewhere store hnd f s (snd (file_write K f off d n t))"
  using disk_write_other [of K store hnd f rtb_cnf t off d n] by (cases "file_write K f off d n t") (auto simp: elsewhere_def)

lemma save_step_elsewhere:
  assumes "disk_laws K store hnd" and "elsewhere store hnd f s t"
  shows "save_set K f a (ok, off, c, t) = Some (n, ok', off', c', t') \<Longrightarrow> elsewhere store hnd f s t'"
    and "save_file K f a (ok, off, c, t) = Some (n, ok', off', c', t') \<Longrightarrow> elsewhere store hnd f s t'"
  using write_elsewhere [OF assms]
  by (auto simp: save_set_def save_file_def bind_eq_Some_conv split_beta split: if_splits)

lemma save_loop_elsewhere:
  assumes "disk_laws K store hnd" and "elsewhere store hnd f s t"
    and "rb_for (save_set K f) n (ok, off, c, t) = Some (ok', off', c', t') \<or> rb_for (save_file K f) n (ok, off, c, t) = Some (ok', off', c', t')"
  shows "elsewhere store hnd f s t'"
  using assms(3)
proof
  assume "rb_for (save_set K f) n (ok, off, c, t) = Some (ok', off', c', t')"
  from rb_for_invariant [OF this, of "\<lambda>(_, _, _, u). elsewhere store hnd f s u"] show ?thesis
    using assms(2) save_step_elsewhere(1) [OF assms(1)] by auto
next
  assume "rb_for (save_file K f) n (ok, off, c, t) = Some (ok', off', c', t')"
  from rb_for_invariant [OF this, of "\<lambda>(_, _, _, u). elsewhere store hnd f s u"] show ?thesis
    using assms(2) save_step_elsewhere(2) [OF assms(1)] by auto
qed

lemma SaveConfig_elsewhere:
  assumes "disk_laws K store hnd" and "SaveConfig K s = Some (r, s')" and "q \<noteq> rtb_cnf"
  shows "store (world s') q = store (world s) q"
proof -
  obtain o1 s1 where o1: "file_open K rtb_cnf O_WRONLY 0 s = (o1, s1)" by fastforce
  show ?thesis
  proof (cases o1)
    case (Inl err)
    with assms(2) o1 disk_open(1) [OF assms(1) o1] show ?thesis by (simp add: SaveConfig_def Let_def)
  next
    case (Inr f)
    have 1: "elsewhere store hnd f s s1"
      using disk_open [OF assms(1) o1] Inr by (simp add: elsewhere_def)
    have fin: "store (world (file_close K f t)) q = store (world s) q" if "elsewhere store hnd f s t" for t
      using that assms(3) disk_close [OF assms(1)] by (simp add: elsewhere_def file_close_def)
    note loop = save_loop_elsewhere [OF assms(1)]
    from assms(2) o1 Inr show ?thesis
      by (auto simp: SaveConfig_def Let_def bind_eq_Some_conv split_beta split: if_splits
          intro!: fin write_elsewhere [OF assms(1)] 1 intro: loop)
  qed
qed

section \<open>One record, and the whole queue\<close>

text \<open>What is left of the old content of the file lies behind the record.\<close>

abbreviation record_file :: "LOG_FILE \<Rightarrow> byte list \<Rightarrow> byte list" where
  "record_file l old \<equiv> write_at 0 (log_image l) old"

lemma createiolog_disk:
  assumes laws: "disk_laws K store hnd" and rb: "rbtree_laws K" and inv: "config_inv s" and l: "log_sized l"
    and p: "p \<noteq> rtb_cnf"
  shows "\<exists>s'. createiolog K p l s = Some (0, s') \<and> same_kernel s s' \<and>
    (\<forall>q. q \<noteq> rtb_cnf \<longrightarrow> store (world s') q = ((store (world s))(p := record_file l (store (world s) p))) q)"
proof -
  obtain f w where 1: "file_open K p (O_WRONLY + O_CREAT) 777 s = (Inr f, s\<lparr>world := w\<rparr>)"
      "store w = store (world s)" "hnd f p w" using disk_create [OF laws] by blast
  obtain w' where 2: "file_write K f 0 (log_image l) (length (log_image l)) (s\<lparr>world := w\<rparr>) =
      (int (length (log_image l)), s\<lparr>world := w'\<rparr>)" "store w' = (store w)(p := record_file l (store w p))"
    using disk_write [OF laws, of f p "s\<lparr>world := w\<rparr>" "log_image l" _ 0] 1(3) l by (fastforce simp: log_sized_def full_size_def)
  let ?t = "file_close K f (s\<lparr>world := w'\<rparr>)"
  have t: "same_kernel s ?t" "store (world ?t) = (store (world s))(p := record_file l (store (world s) p))"
    using 1(2) 2(2) disk_close [OF laws] by (simp_all add: file_close_def)
  have "config_inv ?t" using inv config_inv_same [OF t(1)] by simp
  then obtain s' where s': "SaveConfig K ?t = Some (0, s')" using SaveConfig_total [OF rb] by blast
  have sz: "word_of_int (int (length (log_image l))) = ulLogSize (hdr l)"
  proof -
    have "length (log_image l) = unat (ulLogSize (hdr l))" using l by (simp add: log_sized_def full_size_def)
    then show ?thesis by simp
  qed
  have "createiolog K p l s = Some (0, s')"
    using l 1(1) 2(1) s' sz by (simp add: createiolog_def log_sized_def full_size_def Let_def)
  moreover have "same_kernel s s'" using SaveConfig_same [OF s'] t(1) same_kernel_trans by blast
  ultimately show ?thesis using SaveConfig_elsewhere [OF laws s'] t(2) by simp
qed

definition pending :: "IOWRITE_CONTEXT list \<Rightarrow> bool" where
  "pending q \<longleftrightarrow> distinct (map iologpath q) \<and> (\<forall>c\<in>set q. log_sized (logfile c) \<and> iologpath c \<noteq> rtb_cnf)"

text \<open>One record taken off the queue: it is in its file, its blocks are free, the rest is as it was.\<close>

lemma iowrite_one_disk:
  assumes laws: "disk_laws K store hnd" and rb: "rbtree_laws K"
    and q: "queue_of s = c # q" and inv: "config_inv s" and own: "owned (c # q) s"
    and c: "log_sized (logfile c)" "iologpath c \<noteq> rtb_cnf"
  shows "\<exists>s0 s1 s2. pop_iowrite s = Some (c, s0) \<and> iowrite_one K c s0 = Some s2 \<and>
    s0 = upd_cfg (\<lambda>f. f\<lparr>iowritequeue := q\<rparr>) s \<and> same_kernel s0 s1 \<and>
    s2 = s1\<lparr>kblocks := (kblocks s1) |` (- set (ctx_blocks c))\<rparr> \<and> config_inv s2 \<and> owned q s2 \<and> queue_of s2 = q \<and>
    (\<forall>p. p \<noteq> rtb_cnf \<longrightarrow> store (world s2) p =
      ((store (world s))(iologpath c := record_file (logfile c) (store (world s) (iologpath c)))) p)"
proof -
  let ?s0 = "upd_cfg (\<lambda>f. f\<lparr>iowritequeue := q\<rparr>) s"
  have pop: "pop_iowrite s = Some (c, ?s0)" using q by (simp add: pop_iowrite_def)
  have inv0: "config_inv ?s0" and own0: "owned (c # q) ?s0"
    using inv own by (simp_all add: config_inv_def owned_def)
  obtain s1 where s1: "createiolog K (iologpath c) (logfile c) ?s0 = Some (0, s1)" "same_kernel ?s0 s1"
      "\<And>p. p \<noteq> rtb_cnf \<Longrightarrow> store (world s1) p =
        ((store (world s))(iologpath c := record_file (logfile c) (store (world s) (iologpath c)))) p"
    using createiolog_disk [OF laws rb inv0 c] by auto
  have own1: "owned (c # q) s1" using grows_owned [OF same_kernel_grows [OF s1(2)] own0] .
  let ?s2 = "s1\<lparr>kblocks := (kblocks s1) |` (- set (ctx_blocks c))\<rparr>"
  have "iowrite_one K c ?s0 = Some ?s2"
    using own1 free_three [of s1 "iologpath_blk c" "logfile_blk c" "log_region (logfile c)" "piowc c"]
    by (simp add: iowrite_one_def s1(1) owned_def ctx_blocks_def)
  moreover have "owned q ?s2" by (rule owned_pop [OF own1])
  moreover have "config_inv ?s2"
    using config_inv_same [OF s1(2)] inv0 by (simp add: config_inv_def)
  moreover have "queue_of ?s2 = q" using same_kernel_simps(1) [OF s1(2)] by simp
  ultimately show ?thesis using pop s1(2,3) by (intro exI [of _ ?s0] exI [of _ s1] exI [of _ ?s2]) simp
qed

lemma drain_disk:
  assumes laws: "disk_laws K store hnd" and rb: "rbtree_laws K"
  shows "queue_of s = q \<Longrightarrow> config_inv s \<Longrightarrow> owned q s \<Longrightarrow> pending q \<Longrightarrow>
    \<exists>s'. drain K s = Some s' \<and> queue_of s' = [] \<and>
      (\<forall>c\<in>set q. store (world s') (iologpath c) = record_file (logfile c) (store (world s) (iologpath c))) \<and>
      (\<forall>p. p \<notin> iologpath ` set q \<longrightarrow> p \<noteq> rtb_cnf \<longrightarrow> store (world s') p = store (world s) p)"
proof (induction q arbitrary: s)
  case Nil
  then show ?case using drain_empty by fastforce
next
  case (Cons c q)
  obtain s0 s2 where s2: "pop_iowrite s = Some (c, s0)" "iowrite_one K c s0 = Some s2" "config_inv s2" "owned q s2" "queue_of s2 = q"
      "\<And>p. p \<noteq> rtb_cnf \<Longrightarrow> store (world s2) p =
        ((store (world s))(iologpath c := record_file (logfile c) (store (world s) (iologpath c)))) p"
    using iowrite_one_disk [OF laws rb Cons.prems(1-3)] Cons.prems(4) by (auto simp: pending_def)
  have "pending q" using Cons.prems(4) by (simp add: pending_def)
  with Cons.IH [OF s2(5,3,4)] obtain s' where s': "drain K s2 = Some s'" "queue_of s' = []"
      "\<forall>c\<in>set q. store (world s') (iologpath c) = record_file (logfile c) (store (world s2) (iologpath c))"
      "\<forall>p. p \<notin> iologpath ` set q \<longrightarrow> p \<noteq> rtb_cnf \<longrightarrow> store (world s') p = store (world s2) p"
    by blast
  have run: "drain K s = Some s'" by (subst drain.simps) (simp add: s2(1,2) s'(1))
  have new: "iologpath c \<notin> iologpath ` set q" "iologpath c \<noteq> rtb_cnf" "\<And>d. d \<in> set q \<Longrightarrow> iologpath d \<noteq> rtb_cnf"
    using Cons.prems(4) by (auto simp: pending_def)
  have "store (world s') (iologpath d) = record_file (logfile d) (store (world s) (iologpath d))" if "d \<in> set (c # q)" for d
  proof (cases "d = c")
    case True
    then show ?thesis using s'(4) new s2(6) by simp
  next
    case False
    with that have "d \<in> set q" by simp
    moreover from this new(1) have "iologpath d \<noteq> iologpath c" by (metis imageI)
    ultimately show ?thesis using s'(3) s2(6) new(3) by simp
  qed
  moreover have "store (world s') p = store (world s) p" if "p \<notin> iologpath ` set (c # q)" "p \<noteq> rtb_cnf" for p
    using s'(4) s2(6) that by simp
  ultimately show ?case using run s'(2) by blast
qed

lemma thread_iowrite_disk:
  assumes "disk_laws K store hnd" and "rbtree_laws K" and "config_inv s" and "queue_inv s" and "pending (queue_of s)"
  shows "\<exists>s'. thread_iowrite K 0 s = Some (0, s') \<and> queue_of s' = [] \<and>
    (\<forall>c\<in>set (queue_of s). store (world s') (iologpath c) = record_file (logfile c) (store (world s) (iologpath c))) \<and>
    (\<forall>p. p \<notin> iologpath ` set (queue_of s) \<longrightarrow> p \<noteq> rtb_cnf \<longrightarrow> store (world s') p = store (world s) p)"
proof -
  let ?s = "wait_for_completion s"
  have eq: "queue_of ?s = queue_of s" "world ?s = world s" by (simp_all add: wait_for_completion_def)
  have "config_inv ?s" "owned (queue_of s) ?s"
    using assms(3,4) by (simp_all add: config_inv_def queue_inv_def owned_def wait_for_completion_def)
  from drain_disk [OF assms(1,2) eq(1) this assms(5)] show ?thesis unfolding eq(2) by auto
qed

lemma write_at_new [simp]: "write_at 0 d [] = d"
  by (simp add: write_at_def pad_def)

lemma op_record_sized: "op_fits op \<Longrightarrow> log_sized (op_record op ret la ps)"
  using op_record_full [of op ret la ps] by (simp add: log_sized_def)

text \<open>A monitored operation and the round of the writer after it.\<close>

lemma operation_written:
  assumes "disk_laws K store hnd" and "rbtree_laws K" and "config_inv s" and "link_inv s" and "queue_inv s"
    and "queue_of s = []" and "\<not> driver_off s" and "\<forall>a\<ge>next_blk s. k_alloc K a"
    and "op_paths op = Some ps" and "\<not> bypassed op" and "op_fits op"
    and "monitored op ps s = Some (Some a)" and "charged a e p m s" and "run (world s) = (ret, w)"
    and "log_path (cstr (wcsSetCacheDir m)) (ullSetSeqNo m) \<noteq> rtb_cnf"
    and "store w (log_path (cstr (wcsSetCacheDir m)) (ullSetSeqNo m)) = []"
  shows "\<exists>s1 s2. hooked K run op s = Some (ret, s1) \<and> thread_iowrite K 0 s1 = Some (0, s2) \<and> queue_of s2 = [] \<and>
    store (world s2) (log_path (cstr (wcsSetCacheDir m)) (ullSetSeqNo m)) = log_image (op_record op ret (op_args K s e m) ps)"
proof -
  let ?l = "op_record op ret (op_args K s e m) ps" and ?n = "next_blk s + op_buffers op"
  let ?c = "new_context ?n m ?l" and ?s1 = "recorded a p e m ?l ?n w s"
  have hook: "hooked K run op s = Some (ret, ?s1)"
    using hooked_logs_once [OF assms(7) queue_inv_fresh [OF assms(5)] assms(8-11), of run] assms(12-14)
    unfolding logs_once_def by blast
  have q: "queue_of ?s1 = [?c]" by (simp add: assms(6))
  have "config_inv ?s1" using recorded_config_link(1) [OF assms(3,4) monitored_in_tree [OF assms(12)] assms(13)] by simp
  moreover have "queue_inv ?s1" by (rule recorded_queue_inv [OF assms(5)]) simp
  moreover have "pending (queue_of ?s1)"
    unfolding q using op_record_sized [OF assms(11)] assms(15) by (simp add: pending_def new_context_def)
  ultimately obtain s2 where "thread_iowrite K 0 ?s1 = Some (0, s2)" "queue_of s2 = []"
      "store (world s2) (iologpath ?c) = record_file (logfile ?c) (store (world ?s1) (iologpath ?c))"
    using thread_iowrite_disk [OF assms(1,2), of ?s1] unfolding q by auto
  then show ?thesis
    using hook assms(16) by (simp add: new_context_def)
qed

section \<open>Properties\<close>

text \<open>
  C10. What is queued gets written: one round of the writer thread ends, leaves the queue empty
  and every queued record at the start of its file, whatever the number of records, and no other
  file changes but the configuration file. The records have files of their own, other than the
  configuration file, and announce their sizes.
\<close>

theorem queued_records_reach_disk:
  assumes "disk_laws K store hnd" and "rbtree_laws K" and "config_inv s" and "queue_inv s" and "pending (queue_of s)"
  shows "\<exists>s'. thread_iowrite K 0 s = Some (0, s') \<and> queue_of s' = [] \<and>
    (\<forall>c\<in>set (queue_of s). prefix (log_image (logfile c)) (store (world s') (iologpath c))) \<and>
    (\<forall>p. p \<notin> iologpath ` set (queue_of s) \<longrightarrow> p \<noteq> rtb_cnf \<longrightarrow> store (world s') p = store (world s) p)"
proof -
  have "prefix d (write_at 0 d old)" for d old :: "byte list" by (simp add: write_at_def)
  then show ?thesis using thread_iowrite_disk [OF assms] by metis
qed

text \<open>
  C2. From the operation to the disk: a monitored operation, followed by a round of the writer,
  leaves a new file in the log directory of the backup set, named by the number the operation
  drew, from which a reader gets back exactly the record of the operation.
\<close>

theorem operation_reaches_disk:
  assumes "disk_laws K store hnd" and "rbtree_laws K" and "config_inv s" and "link_inv s" and "queue_inv s"
    and "queue_of s = []" and "\<not> driver_off s" and "\<forall>a\<ge>next_blk s. k_alloc K a"
    and "op_paths op = Some ps" and "\<not> bypassed op" and "op_fits op"
    and "monitored op ps s = Some (Some a)" and "charged a e p m s" and "run (world s) = (ret, w)"
    and "log_path (cstr (wcsSetCacheDir m)) (ullSetSeqNo m) \<noteq> rtb_cnf"
    and "store w (log_path (cstr (wcsSetCacheDir m)) (ullSetSeqNo m)) = []"
  shows "\<exists>s1 s2. hooked K run op s = Some (ret, s1) \<and> thread_iowrite K 0 s1 = Some (0, s2) \<and> queue_of s2 = [] \<and>
    parse_log (store (world s2) (log_path (cstr (wcsSetCacheDir m)) (ullSetSeqNo m))) = op_record op ret (op_args K s e m) ps"
  using operation_written [where store = store and run = run and ret = ret and w = w, OF assms] op_record_full(1) [OF assms(11), of ret "op_args K s e m" ps]
  by (auto simp: full_size_def parse_log_image)

section \<open>A disk\<close>

text \<open>
  The files and the file that is open; the rest of the kernel is that of \<open>Example\<close>.
\<close>

type_synonym disk = "(byte list \<Rightarrow> byte list) \<times> byte list"

definition disk_kernel :: "disk kernel" where
  "disk_kernel =
     \<lparr>k_alloc = \<lambda>_. True, k_rb_insert_color = \<lambda>t a. t, k_rb_erase = k_rb_erase example_kernel,
      k_rb_first = k_rb_first example_kernel, k_rb_next = k_rb_next example_kernel,
      k_rb_stale = k_rb_stale example_kernel, k_rb_links = k_rb_links example_kernel,
      k_open = \<lambda>seg p fl r w. (Inr 3, (fst w, p)),
      k_read = \<lambda>seg f off n w. ((int (length (take n (drop off (fst w (snd w))))), take n (drop off (fst w (snd w)))), w),
      k_write = \<lambda>seg f off d w. (int (length d), ((fst w)(snd w := write_at off d (fst w (snd w))), snd w)),
      k_close = \<lambda>f w. w, k_time = \<lambda>w. (1000, 500), k_skb = \<lambda>w. True, k_cache_files = True, k_cache_sets = True,
      k_stack_int = 4096\<rparr>"

definition disk_state :: "disk \<Rightarrow> disk kstate" where
  "disk_state w =
     \<lparr>FileReplData = FileReplData (demo_state []), set_mem = [1 \<mapsto> demo_set], file_mem = [2 \<mapsto> demo_file], next_blk = 3,
      kblocks = (\<lambda>_. None), addr_limit = USER_DS, completions = 0, outbox = [], world = w\<rparr>"

lemma disk_kernel_laws:
  "disk_laws disk_kernel fst (\<lambda>f p w. snd w = p)" "rbtree_laws disk_kernel" "k_alloc disk_kernel a"
  using example_rbtree_laws by (simp_all add: disk_laws_def rbtree_laws_def disk_kernel_def)

lemma disk_state_simps [simp]:
  "cfg (disk_state w) = cfg (demo_state [])" "set_mem (disk_state w) = [1 \<mapsto> demo_set]"
  "file_mem (disk_state w) = [2 \<mapsto> demo_file]" "next_blk (disk_state w) = 3" "kblocks (disk_state w) = (\<lambda>_. None)"
  "world (disk_state w) = w"
  by (simp_all add: disk_state_def)

lemma disk_state_inv: "config_inv (disk_state w)" "link_inv (disk_state w)" "queue_inv (disk_state w)" "\<not> driver_off (disk_state w)"
  using demo_config_inv [of "[]"] demo_link_inv [of "[]"]
  by (simp_all add: config_inv_def queue_inv_def owned_def driver_off_def) (simp add: link_inv_def demo_file_def)

lemma disk_charged: "charged 2 demo_file 1 demo_set (disk_state w)"
  using demo_charged by (simp add: charged_def GetMonitorSetEntry_def)

lemma disk_mkdir:
  "op_paths (Vfs_mkdir (Some demo_dentry) 0x1ED) = Some (bytes ''/data/x'', [])"
  "monitored (Vfs_mkdir (Some demo_dentry) 0x1ED) (bytes ''/data/x'', []) (disk_state w) = Some (Some 2)"
  using demo_mkdir_facts(1) demo_mkdir_facts(4) [of "[]"] by (simp_all add: demo_mkdir_def GetMonitorFileEntryByabspath_def demo_path)

lemma disk_path:
  "log_path (cstr (wcsSetCacheDir demo_set)) (ullSetSeqNo demo_set) = bytes ''/log/7''" "bytes ''/log/7'' \<noteq> rtb_cnf"
  by (simp add: demo_entries log_path_def bytes_log demo_set_def lld_def digits.simps NAME_MAX_def cstr_Cons, simp add: bytes_def)
    (simp add: rtb_cnf_def bytes_def)

theorem operation_reaches_disk_witness:
  "\<exists>s1 s2. hooked disk_kernel (\<lambda>w. (0, w)) (Vfs_mkdir (Some demo_dentry) 0x1ED) (disk_state (\<lambda>_. [], [])) = Some (0, s1) \<and>
    thread_iowrite disk_kernel 0 s1 = Some (0, s2) \<and>
    lhGolbalSeqNo (hdr (parse_log (fst (world s2) (bytes ''/log/7'')))) = 7"
proof -
  obtain s1 s2 where "hooked disk_kernel (\<lambda>w. (0, w)) (Vfs_mkdir (Some demo_dentry) 0x1ED) (disk_state (\<lambda>_. [], [])) = Some (0, s1)"
      "thread_iowrite disk_kernel 0 s1 = Some (0, s2)"
      "parse_log (fst (world s2) (bytes ''/log/7'')) = op_record (Vfs_mkdir (Some demo_dentry) 0x1ED :: disk vfs_op) 0
        (op_args disk_kernel (disk_state (\<lambda>_. [], [])) demo_file demo_set) (bytes ''/data/x'', [])"
    using operation_reaches_disk [OF disk_kernel_laws(1,2) disk_state_inv(1-3) _ disk_state_inv(4) _ disk_mkdir(1) _ _ disk_mkdir(2)
        disk_charged, unfolded disk_path, where run = "\<lambda>w. (0, w)" and ret = 0 and w = "(\<lambda>_. [], [])"]
    by (auto simp: disk_kernel_laws(3) disk_path(2))
  then show ?thesis
    by (simp add: op_record_def plain_record_def log_header_def op_args_def demo_set_def)
qed

theorem queued_records_reach_disk_witness:
  "\<exists>s s'. length (queue_of s) = 1 \<and> thread_iowrite disk_kernel 0 s = Some (0, s') \<and> queue_of s' = [] \<and>
    prefix (log_image (op_record demo_mkdir 0 demo_args (bytes ''/data/x'', []))) (fst (world s') (bytes ''/log/7''))"
proof -
  let ?l = "op_record demo_mkdir 0 demo_args (bytes ''/data/x'', [])" and ?s = "disk_state (\<lambda>_. [], [])"
  let ?t = "recorded 2 1 demo_file demo_set ?l 5 (\<lambda>_. [], []) ?s"
  have q: "queue_of ?t = [new_context 5 demo_set ?l]" by simp
  have "config_inv ?t" by (rule recorded_config_link(1) [OF disk_state_inv(1,2) _ disk_charged]) simp_all
  moreover have "queue_inv ?t" by (rule recorded_queue_inv [OF disk_state_inv(3)]) simp
  moreover have "pending (queue_of ?t)"
    unfolding q using op_record_sized [OF demo_mkdir_facts(3)] disk_path by (simp add: pending_def new_context_def)
  ultimately obtain s' where "thread_iowrite disk_kernel 0 ?t = Some (0, s')" "queue_of s' = []"
      "prefix (log_image ?l) (fst (world s') (bytes ''/log/7''))"
    using queued_records_reach_disk [OF disk_kernel_laws(1,2), of ?t] unfolding q by (auto simp: new_context_def disk_path)
  moreover have "length (queue_of ?t) = 1" unfolding q by simp
  ultimately show ?thesis by blast
qed

end
