(* ===== verification/System.thy ===== *)
theory System
  imports HookInv Module Disk
begin

text \<open>
  The module as a whole, while it runs: packets arrive, hooked operations happen, the writer
  thread takes records off the queue, the system announces that it goes down, in any order. A
  hook runs from its start to its end in one step, as does the handling of a packet; the writer
  makes one step per record, so operations can happen while it empties the queue.
\<close>

section \<open>Steps\<close>

datatype 'w event =
    Packet "byte list"
  | Operation "'w orig" "'w vfs_op"
  | Wake
  | Write_record IOWRITE_CONTEXT
  | Going_down

inductive system_step :: "'w kernel \<Rightarrow> 'w kstate \<Rightarrow> 'w event \<Rightarrow> 'w kstate \<Rightarrow> bool" for K where
    step_packet: "netlink_recv_packet K skb s = Some s' \<Longrightarrow> system_step K s (Packet skb) s'"
  | step_operation: "hooked K run op s = Some (ret, s') \<Longrightarrow> system_step K s (Operation run op) s'"
  | step_wake: "system_step K s Wake (wait_for_completion s)"
  | step_write: "pop_iowrite s = Some (c, s1) \<Longrightarrow> iowrite_one K c s1 = Some s' \<Longrightarrow> system_step K s (Write_record c) s'"
  | step_down: "myreboot K s = Some (ret, s') \<Longrightarrow> system_step K s Going_down s'"

inductive_cases system_stepE: "system_step K s e s'"

inductive_simps system_step_simps:
  "system_step K s (Packet skb) s'" "system_step K s (Operation run op) s'" "system_step K s Wake s'"
  "system_step K s (Write_record c) s'" "system_step K s Going_down s'"

text \<open>\<open>execution K s es s'\<close>: from \<open>s\<close>, the events \<open>es\<close> lead to \<open>s'\<close>.\<close>

inductive execution :: "'w kernel \<Rightarrow> 'w kstate \<Rightarrow> 'w event list \<Rightarrow> 'w kstate \<Rightarrow> bool" for K s where
    execution_start: "execution K s [] s"
  | execution_step: "execution K s es t \<Longrightarrow> system_step K t e u \<Longrightarrow> execution K s (es @ [e]) u"

inductive_cases execution_snocE: "execution K s (es @ [e]) u"

lemma execution_append:
  assumes "execution K t fs u" and "execution K s es t"
  shows "execution K s (es @ fs) u"
  using assms(1)
proof (induction rule: execution.induct)
  case (execution_step fs t' e u)
  then show ?case using execution.execution_step [of K s "es @ fs" t' e u] by simp
qed (simp add: assms(2))

lemma execution_one: "system_step K s e t \<Longrightarrow> execution K s [e] t"
  using execution_step [OF execution_start, of K s e t] by simp

section \<open>Sound states\<close>

lemma myreboot_sound: "myreboot K s = Some (r, s') \<Longrightarrow> sound H s \<Longrightarrow> sound H s'"
proof -
  let ?s = "upd_cfg (\<lambda>c. c\<lparr>dwLastNormalShutdown := 2\<rparr>) s"
  assume "myreboot K s = Some (r, s')" and s: "sound H s"
  then have "same_kernel ?s s'" using SaveConfig_same by (fastforce simp: myreboot_def bind_eq_Some_conv)
  then have "grows ?s s'" by (rule same_kernel_grows)
  moreover have "sound H ?s" by (rule frame_sound [OF s]) (auto intro: keeps_put)
  ultimately show ?thesis by (rule grows_sound)
qed

lemma step_sound:
  assumes "rbtree_laws K" and "stale_next K" and "system_step K s e s'" and "sound H s"
  shows "sound H s'"
  using assms(3)
proof (cases rule: system_step.cases)
  case (step_packet skb)
  then show ?thesis
    using keeps_sound [OF netlink_recv_packet_keeps] netlink_recv_packet_inv [OF assms(1) stale_next_in_tree [OF assms(2)]]
      soundD [OF assms(4)] assms(2,4) by blast
next
  case (step_operation run op ret)
  then show ?thesis using sound_walk.hooked_keeps assms(4) by blast
next
  case step_wake
  then show ?thesis using wait_sound assms(4) by simp
next
  case (step_write c s1)
  then show ?thesis using iowrite_one_sound pop_sound assms(4) by blast
next
  case (step_down ret)
  then show ?thesis using myreboot_sound assms(4) by blast
qed

lemma execution_sound:
  assumes "execution K s es s'" and "rbtree_laws K" and "stale_next K" and "sound H s"
  shows "sound H s'"
  using assms(1) by (induction rule: execution.induct) (use assms(2-4) step_sound in blast)+

section \<open>The queue in time\<close>

text \<open>
  What was in the queue stays there, in its order, in front of what comes later, and what comes
  later is well-formed.
\<close>

definition extends :: "IOWRITE_CONTEXT list \<Rightarrow> IOWRITE_CONTEXT list \<Rightarrow> bool" where
  "extends q q' \<longleftrightarrow> (\<exists>r. q' = q @ r \<and> (\<forall>c\<in>set r. log_sized (logfile c)))"

lemma extends_refl [simp, intro]: "extends q q"
  by (simp add: extends_def)

lemma extends_trans [trans]: "extends a b \<Longrightarrow> extends b c \<Longrightarrow> extends a c"
  unfolding extends_def by (metis append.assoc UnE set_append)

lemma extends_append: "extends q q' \<Longrightarrow> extends (p @ q) (p @ q')"
  by (auto simp: extends_def)

definition appends :: "IOWRITE_CONTEXT list \<Rightarrow> addr set \<Rightarrow> 'w kstate \<Rightarrow> bool" where
  "appends q H s \<longleftrightarrow> extends q (queue_of s)"

lemma keeps_appends: "keeps s s' \<Longrightarrow> appends q H s \<Longrightarrow> appends q H s'"
  by (simp add: keeps_def appends_def)

lemma logged_extends: "logged s s' \<Longrightarrow> extends (queue_of s) (queue_of s')"
  by (auto simp: logged_def extends_def queued_simps(1))

interpretation queue_walk: hook_steps K "appends q" for K q
proof
  fix s s' :: "'a kstate" and H
  show "logged s s' \<Longrightarrow> appends q H s \<Longrightarrow> appends q H s'"
    unfolding appends_def using logged_extends extends_trans by blast
  show "take_args K r s = Some (x, s') \<Longrightarrow> appends q H s \<Longrightarrow> appends q H s'" for r x
    by (rule keeps_appends [OF take_args_keeps])
  show "notify_user_status K ty st s = Some (x, s') \<Longrightarrow> appends q H s \<Longrightarrow> appends q H s'" for ty st x
    by (rule keeps_appends [OF notify_keeps])
qed (auto simp: appends_def call_run_def alloc_block_def free_block_def split: prod.splits if_splits)

lemma iowrite_one_queue:
  assumes "iowrite_one K c s = Some s'"
  shows "queue_of s' = queue_of s"
proof -
  have free: "queue_of t' = queue_of t" if "free_block r a t = Some t'" for r a and t t' :: "'a kstate"
    using that by (auto simp: free_block_def split: if_splits)
  have notify: "queue_of t' = queue_of t" if "notify_user_status K ty st t = Some (x, t')" for ty st x t t'
    using notify_keeps [OF that] by (simp add: keeps_def)
  show ?thesis
    using assms free notify grows_queue [OF createiolog_grows]
    by (fastforce simp: iowrite_one_def bind_eq_Some_conv split: if_splits)
qed

fun taken_off :: "'w event \<Rightarrow> IOWRITE_CONTEXT list" where
  "taken_off (Write_record c) = [c]"
| "taken_off _ = []"

abbreviation written :: "'w event list \<Rightarrow> IOWRITE_CONTEXT list" where
  "written es \<equiv> concat (map taken_off es)"

lemma step_queue:
  assumes "system_step K s e s'"
  shows "extends (queue_of s) (taken_off e @ queue_of s')"
  using assms
proof (cases rule: system_step.cases)
  case (step_packet skb)
  then show ?thesis using netlink_recv_packet_keeps by (fastforce simp: keeps_def)
next
  case (step_operation run op ret)
  then show ?thesis using queue_walk.hooked_keeps [of K run op s ret s' "queue_of s"] by (simp add: appends_def)
next
  case (step_write c s1)
  then show ?thesis using iowrite_one_queue by (fastforce simp: pop_iowrite_def split: list.splits)
next
  case (step_down ret)
  then show ?thesis using SaveConfig_same same_kernel_simps(1) by (fastforce simp: myreboot_def bind_eq_Some_conv)
qed (simp add: wait_for_completion_def)

lemma execution_queue: "execution K s es s' \<Longrightarrow> extends (queue_of s) (written es @ queue_of s')"
proof (induction rule: execution.induct)
  case (execution_step es t e u)
  have "extends (written es @ queue_of t) (written es @ taken_off e @ queue_of u)"
    by (rule extends_append [OF step_queue [OF execution_step.hyps(2)]])
  from extends_trans [OF execution_step.IH this] show ?case by simp
qed simp

section \<open>A round of the writer\<close>

text \<open>A round is a wake-up and a step per record, for the records in the queue and in their order.\<close>

lemma drain_execution:
  "drain K s = Some s' \<Longrightarrow> \<exists>cs. execution K s (map Write_record cs) s' \<and> queue_of s = cs @ queue_of s'"
proof (induction rule: drain.raw_induct [rotated, consumes 1, case_names step])
  case (step drain K s s')
  show ?case
  proof (cases "pop_iowrite s")
    case None
    with step(2) have "execution K s (map Write_record []) s' \<and> queue_of s = [] @ queue_of s'" by (simp add: execution_start)
    then show ?thesis by blast
  next
    case (Some ct)
    obtain c t where ct: "ct = (c, t)" by (cases ct)
    with step Some obtain u cs where u: "iowrite_one K c t = Some u" "execution K u (map Write_record cs) s'"
        "queue_of u = cs @ queue_of s'"
      by (fastforce simp: bind_eq_Some_conv)
    have "execution K s (map Write_record (c # cs)) s'"
      using execution_append [OF u(2) execution_one [OF step_write [OF _ u(1)]]] Some ct by simp
    moreover have "queue_of s = (c # cs) @ queue_of s'"
      using Some ct u(3) iowrite_one_queue [OF u(1)] by (auto simp: pop_iowrite_def split: list.splits)
    ultimately show ?thesis by blast
  qed
qed

lemma round_execution:
  assumes "thread_iowrite K 0 s = Some (r, s')" and "queue_of s' = []"
  shows "execution K s (Wake # map Write_record (queue_of s)) s'"
proof -
  obtain cs where "execution K (wait_for_completion s) (map Write_record cs) s'" "queue_of s = cs"
    using assms drain_execution [of K "wait_for_completion s" s'] by (auto simp: bind_eq_Some_conv wait_for_completion_def)
  with execution_append [OF this(1) execution_one [OF step_wake]] show ?thesis by auto
qed

lemma round_runs:
  assumes "rbtree_laws K" and "sound {} t" and "\<forall>a\<ge>next_blk t. k_alloc K a"
  shows "\<exists>u. thread_iowrite K 0 t = Some (0, u) \<and> execution K t (Wake # map Write_record (queue_of t)) u \<and> queue_of u = []"
proof -
  have t: "sound {} (wait_for_completion t)" using assms(2) by (rule wait_sound)
  have "queue_of (wait_for_completion t) = queue_of t" "next_blk (wait_for_completion t) = next_blk t"
    by (simp_all add: wait_for_completion_def)
  with drain_run [OF assms(1) refl soundD(1) [OF t]] soundD(3) [OF t] assms(3)
  obtain u where "drain K (wait_for_completion t) = Some u" "queue_of u = []"
    unfolding queue_inv_def by metis
  then show ?thesis using round_execution [of K t 0 u] by simp
qed

section \<open>Properties\<close>

text \<open>
  From a sound state every interleaving of packets of any content, hooked operations, writer
  steps and shutdown notices leads to sound states only: the search trees hold live, well-formed
  entries in order, every file is linked to its own set, and every queued record owns its
  blocks. Memory may run out and files may fail at any step.
\<close>

theorem reachable_states_sound:
  assumes "rbtree_laws K" and "stale_next K" and "config_inv s" and "link_inv s" and "queue_inv s"
    and "execution K s es s'"
  shows "config_inv s' \<and> link_inv s' \<and> queue_inv s'"
  using execution_sound [OF assms(6,1,2), of "{}"] assms(3-5) by (simp add: sound_def)

lemma demo_execution:
  "\<exists>s. execution example_kernel (demo_state []) [Operation demo_run demo_mkdir, Wake] s \<and> length (queue_of s) = 1"
proof -
  obtain ret s where s: "hooked example_kernel demo_run demo_mkdir (demo_state []) = Some (ret, s)" "length (queue_of s) = 1"
    using monitored_run by auto
  from execution_append [OF execution_one [OF step_wake] execution_one [OF step_operation [OF s(1)]]] s(2)
  show ?thesis by (auto simp: wait_for_completion_def)
qed

theorem reachable_states_sound_witness:
  "\<exists>s. execution example_kernel (demo_state []) [Operation demo_run demo_mkdir, Wake] s \<and> config_inv s \<and> link_inv s \<and> queue_inv s"
  using demo_execution reachable_states_sound [OF example_rbtree_laws example_stale_next demo_config_inv demo_link_inv demo_queue_inv]
  by blast





text \<open>
  C12. Every record that any hook ever queues is well-formed: it parses, announces its true size,
  and its size fits the \<open>int\<close> the writer compares it with. So if the records in the queue are,
  all that are written or queued later are.
\<close>

theorem queued_records_well_formed:
  assumes "execution K s es s'" and "\<forall>c\<in>set (queue_of s). log_sized (logfile c)"
  shows "\<forall>c\<in>set (written es) \<union> set (queue_of s'). parse_log (log_image (logfile c)) = logfile c \<and>
    unat (ulLogSize (hdr (logfile c))) = length (log_image (logfile c)) \<and> length (log_image (logfile c)) < 2 ^ 31"
proof -
  obtain r where r: "written es @ queue_of s' = queue_of s @ r" "\<forall>c\<in>set r. log_sized (logfile c)"
    using execution_queue [OF assms(1)] by (auto simp: extends_def)
  have "\<forall>c\<in>set (written es @ queue_of s'). log_sized (logfile c)" unfolding r(1) using r(2) assms(2) by auto
  then show ?thesis by (simp add: log_sized_def full_size_def parse_log_image ball_Un)
qed

theorem queued_records_well_formed_witness:
  "\<exists>s c. execution example_kernel (demo_state []) [Operation demo_run demo_mkdir, Wake] s \<and> queue_of s = [c] \<and>
    parse_log (log_image (logfile c)) = logfile c"
proof -
  obtain s where s: "execution example_kernel (demo_state []) [Operation demo_run demo_mkdir, Wake] s" "length (queue_of s) = 1"
    using demo_execution by blast
  then obtain c where "queue_of s = [c]" by (auto simp: length_Suc_conv)
  moreover have "parse_log (log_image (logfile c)) = logfile c" if "queue_of s = [c]"
    using queued_records_well_formed [OF s(1)] that by simp
  ultimately show ?thesis using s(1) by blast
qed

end
