(* ===== verification/HijackAll.thy ===== *)
theory HijackAll
  imports HijackDemo
begin

text \<open>
  All hooks together: \<open>hijack_syscalls\<close> installs what it can, \<open>undo_hijack_syscalls\<close> takes the
  hooks out in the order in which they were put in, each while the later ones are still there.
\<close>

section \<open>Sites\<close>

text \<open>
  A function to be hooked: its symbol, its bytes, the block its copy goes to, the copy, and the
  hook. \<open>own\<close> restricts the text to the bytes of the function.
\<close>

record hook_site =
  hs_sym :: kernsym
  hs_src :: "byte list"
  hs_block :: u64
  hs_out :: "byte list"
  hs_code :: u64

definition own :: "hook_site \<Rightarrow> code_mem \<Rightarrow> code_mem" where
  "own h m = (\<lambda>x. if in_block (sym_addr (hs_sym h)) (sym_size (hs_sym h)) x then m x else None)"

definition touches :: "hook_site \<Rightarrow> u64 \<Rightarrow> bool" where
  "touches h x \<longleftrightarrow> in_block (sym_addr (hs_sym h)) (sym_size (hs_sym h)) x \<or> in_block (hs_block h) (sym_size (hs_sym h)) x"

definition apart :: "hook_site \<Rightarrow> hook_site \<Rightarrow> bool" where
  "apart h h' \<longleftrightarrow> (\<forall>x. \<not> (touches h x \<and> touches h' x))"

definition block_free :: "text_env \<Rightarrow> text_state \<Rightarrow> hook_site \<Rightarrow> bool" where
  "block_free E s h \<longleftrightarrow> hs_block h \<noteq> 0 \<and> mod_blocks s (hs_block h) = None \<and>
     (\<forall>j<unat (sym_size (hs_sym h)). ktext s (hs_block h + of_nat j) = None \<and>
        (\<exists>pg. t_pte E (hs_block h + of_nat j) = Some pg \<and> writable s pg))"

definition site_ok :: "text_env \<Rightarrow> text_state \<Rightarrow> hook_site \<Rightarrow> bool" where
  "site_ok E s h \<longleftrightarrow> func_text E (own h (ktext s)) (hs_sym h) (hs_src h) (hs_block h) (hs_out h) \<and> block_free E s h"

definition ready :: "text_env \<Rightarrow> text_state \<Rightarrow> hook_site list \<Rightarrow> bool" where
  "ready E s hs \<longleftrightarrow> (\<forall>h\<in>set hs. site_ok E s h) \<and> sorted_wrt apart hs"

text \<open>
  The kernel's answers for a list of symbols: each is not found, or found as the next site, and
  its block is the next one \<open>module_alloc\<close> hands out.
\<close>

inductive planned ::
  "text_env \<Rightarrow> (byte list \<Rightarrow> u64) \<Rightarrow> (byte list \<Rightarrow> kernsym) \<Rightarrow> byte list list \<Rightarrow> nat \<Rightarrow> hook_site list \<Rightarrow> bool"
  for E hook syms where
    planned_done: "planned E hook syms [] k []"
  | planned_missing: "find_symbol_address E (syms n) n = (r, f) \<Longrightarrow> r < 0 \<Longrightarrow> \<not> hijacked f \<Longrightarrow> \<not> name_alloc f \<Longrightarrow>
      planned E hook syms ns k hs \<Longrightarrow> planned E hook syms (n # ns) k hs"
  | planned_site: "find_symbol_address E (syms n) n = (0, hs_sym h) \<Longrightarrow> \<not> name_alloc (hs_sym h) \<Longrightarrow>
      t_module_alloc E k (sym_size (hs_sym h)) = Some (hs_block h) \<Longrightarrow> hs_code h = hook n \<Longrightarrow>
      planned E hook syms ns (Suc k) hs \<Longrightarrow> planned E hook syms (n # ns) k (h # hs)"

inductive_cases planned_NilE: "planned E hook syms [] k hs"
inductive_cases planned_ConsE: "planned E hook syms (n # ns) k hs"

lemma planned_same:
  "planned E hook syms ns k hs \<Longrightarrow> (\<And>n. n \<in> set ns \<Longrightarrow> syms' n = syms n) \<Longrightarrow> planned E hook syms' ns k hs"
  by (induction rule: planned.induct) (auto intro: planned.intros)

lemma planned_env:
  "planned E hook syms ns k hs \<Longrightarrow> (\<And>n ks. n \<in> set ns \<Longrightarrow> find_symbol_address E' ks n = find_symbol_address E ks n) \<Longrightarrow>
   t_module_alloc E' = t_module_alloc E \<Longrightarrow> planned E' hook syms ns k hs"
  by (induction rule: planned.induct) (auto intro: planned.intros)

text \<open>After the hooks are in: the symbols that hold a hook, and the others.\<close>

definition hooked_sym :: "hook_site \<Rightarrow> kernsym" where
  "hooked_sym h = (hs_sym h)\<lparr>new_addr := hs_block h, new_size := of_nat (length (hs_out h)), run_addr := hs_block h,
     orig_start_bytes := take OP_JMP_SIZE (hs_src h), hijacked := True\<rparr>"

inductive installed :: "(byte list \<Rightarrow> kernsym) \<Rightarrow> byte list list \<Rightarrow> hook_site list \<Rightarrow> bool" for syms where
    installed_done: "installed syms [] []"
  | installed_missing: "\<not> hijacked (syms n) \<Longrightarrow> \<not> name_alloc (syms n) \<Longrightarrow> installed syms ns hs \<Longrightarrow> installed syms (n # ns) hs"
  | installed_site: "syms n = hooked_sym h \<Longrightarrow> \<not> name_alloc (hs_sym h) \<Longrightarrow> installed syms ns hs \<Longrightarrow>
      installed syms (n # ns) (h # hs)"

lemma installed_same:
  "installed syms ns hs \<Longrightarrow> (\<And>n. n \<in> set ns \<Longrightarrow> syms' n = syms n) \<Longrightarrow> installed syms' ns hs"
  by (induction rule: installed.induct) (auto intro: installed.intros)

definition hook_state :: "hook_site \<Rightarrow> text_state \<Rightarrow> text_state" where
  "hook_state h s = hijacked_state s (hs_sym h) (hs_code h) (hs_block h) (hs_out h)"

abbreviation layers :: "hook_site list \<Rightarrow> text_state \<Rightarrow> text_state" where
  "layers hs s \<equiv> fold hook_state hs s"

section \<open>One hook leaves the other sites alone\<close>

lemma own_le: "own h m \<subseteq>\<^sub>m m"
  by (auto simp: own_def map_le_def dom_def)

lemma decode64_more: "m \<subseteq>\<^sub>m m' \<Longrightarrow> decode64 m a = Some i \<Longrightarrow> decode64 m' a = Some i"
  by (rule dec64.decode_more)

lemma relocates_more:
  assumes "m \<subseteq>\<^sub>m m'" and "relocates f stop m a dest out"
  shows "relocates f stop m' a dest out"
  using assms(2)
proof (induction rule: relocates.induct)
  case (relocates_step a i code dest out)
  then show ?case
    using decode64_more [OF assms(1)] plain64_more [OF assms(1)] belowD [OF read_bytes_below [OF assms(1)]]
    by (intro relocates.relocates_step) auto
qed (rule relocates.relocates_done)

lemma func_text_more: "m \<subseteq>\<^sub>m m' \<Longrightarrow> func_text E m f src p out \<Longrightarrow> func_text E m' f src p out"
  using relocates_more belowD [OF read_bytes_below] unfolding func_text_def by blast

lemma site_func_text: "site_ok E s h \<Longrightarrow> func_text E (ktext s) (hs_sym h) (hs_src h) (hs_block h) (hs_out h)"
  using func_text_more own_le unfolding site_ok_def by blast

lemma site_size: "site_ok E s h \<Longrightarrow> length (hs_src h) = unat (sym_size (hs_sym h)) \<and> OP_JMP_SIZE \<le> unat (sym_size (hs_sym h)) \<and>
    length (hs_out h) \<le> unat (sym_size (hs_sym h))"
  using site_func_text [of E s h] read_bytes_length unfolding func_text_def by fastforce

lemma block_unmapped: "block_free E s h \<Longrightarrow> in_block (hs_block h) (sym_size (hs_sym h)) x \<Longrightarrow> ktext s x = None"
  unfolding block_free_def in_block_patch by (auto dest!: spec [of _ "unat (x - hs_block h)"] simp: of_nat_unat)

text \<open>Outside of what the site touches the text is as before.\<close>

lemma hook_state_text:
  assumes "site_ok E s h" and "\<not> touches h x"
  shows "ktext (hook_state h s) x = ktext s x"
  using assms(2) site_size [OF assms(1)]
  by (auto simp: hook_state_def hijacked_state_def patch_def touches_def in_block_patch)

lemma hook_state_fields [simp]:
  "writable (hook_state h s) = writable s" "mod_next (hook_state h s) = Suc (mod_next s)"
  "mod_blocks (hook_state h s) = (mod_blocks s)(hs_block h \<mapsto> sym_size (hs_sym h))"
  by (simp_all add: hook_state_def hijacked_state_def)

lemma block_start: "site_ok E s h \<Longrightarrow> touches h (hs_block h)"
  using site_size [of E s h] by (simp add: touches_def in_block_patch OP_JMP_SIZE_def)

lemma apart_sym: "apart h h' \<Longrightarrow> apart h' h"
  by (auto simp: apart_def)

lemma site_ok_hook:
  assumes h: "site_ok E s h" and h': "site_ok E s h'" and ap: "apart h h'"
  shows "site_ok E (hook_state h s) h'"
proof -
  have same: "ktext (hook_state h s) x = ktext s x" if "touches h' x" for x
    using hook_state_text [OF h] ap that by (auto simp: apart_def)
  have "own h' (ktext (hook_state h s)) = own h' (ktext s)"
    using same by (auto simp: own_def touches_def fun_eq_iff)
  moreover have "hs_block h' \<noteq> hs_block h"
    using block_start [OF h] block_start [OF h'] ap by (auto simp: apart_def)
  moreover have "touches h' (hs_block h' + of_nat j)" if "j < unat (sym_size (hs_sym h'))" for j
    using le_less_trans [OF take_bit_nat_less_eq_self that, of 64]
    by (simp add: touches_def in_block_patch unat_of_nat take_bit_eq_mod)
  ultimately show ?thesis using h' same by (auto simp: site_ok_def block_free_def)
qed

lemma ready_Cons: "ready E s (h # hs) \<Longrightarrow> site_ok E s h \<and> ready E (hook_state h s) hs \<and> ready E s hs \<and> (\<forall>h'\<in>set hs. apart h h')"
  by (auto simp: ready_def intro: site_ok_hook)

section \<open>Installing\<close>

lemma symbol_hijack_site:
  assumes "find_symbol_address E ks n = (0, hs_sym h)" and ok: "site_ok E s h"
    and "t_module_alloc E (mod_next s) (sym_size (hs_sym h)) = Some (hs_block h)"
  shows "symbol_hijack E ks n (hs_code h) s = Some ((0, hooked_sym h), hook_state h s)"
proof -
  have "fresh_block E s (sym_size (hs_sym h)) (hs_block h)"
    using ok assms(3) by (auto simp: site_ok_def block_free_def fresh_block_def)
  from hijack_found_done [OF site_func_text [OF ok] this] assms(1) show ?thesis
    by (simp add: symbol_hijack_def hooked_sym_def hook_state_def)
qed

lemma hijack_each_layers:
  assumes "planned E hook syms ns k hs" and "distinct ns" and "ready E s hs" and "k = mod_next s"
  shows "\<exists>syms'. hijack_each E hook ns syms s = Some (syms', layers hs s) \<and> installed syms' ns hs \<and>
    (\<forall>n. n \<notin> set ns \<longrightarrow> syms' n = syms n)"
  using assms
proof (induction ns arbitrary: k hs syms s)
  case Nil
  then show ?case by (auto elim: planned_NilE intro: installed.intros)
next
  case (Cons n ns)
  have other: "planned E hook (syms(n := ks)) ns k' hs'" if "planned E hook syms ns k' hs'" for ks k' hs'
    by (rule planned_same [OF that]) (use Cons.prems(2) in auto)
  from Cons.prems(1) consider
      (missing) r f where "find_symbol_address E (syms n) n = (r, f)" "r < 0" "\<not> hijacked f" "\<not> name_alloc f"
        "planned E hook syms ns k hs"
    | (site) h hs' where "hs = h # hs'" "find_symbol_address E (syms n) n = (0, hs_sym h)" "\<not> name_alloc (hs_sym h)"
        "t_module_alloc E k (sym_size (hs_sym h)) = Some (hs_block h)" "hs_code h = hook n" "planned E hook syms ns (Suc k) hs'"
    by (elim planned_ConsE) auto
  then show ?case
  proof cases
    case missing
    have "distinct ns" using Cons.prems(2) by simp
    from Cons.IH [OF other [OF missing(5)] this Cons.prems(3,4), of f] obtain syms'
      where *: "hijack_each E hook ns (syms(n := f)) s = Some (syms', layers hs s)" "installed syms' ns hs"
        "\<forall>m. m \<notin> set ns \<longrightarrow> syms' m = (syms(n := f)) m" by blast
    moreover have "symbol_hijack E (syms n) n (hook n) s = Some ((r, f), s)" using missing by (simp add: symbol_hijack_def)
    moreover have "installed syms' (n # ns) hs"
      using * missing(3,4) Cons.prems(2) by (intro installed_missing) simp_all
    ultimately show ?thesis by auto
  next
    case site
    note r = ready_Cons [OF Cons.prems(3) [unfolded site(1)]]
    have hj: "symbol_hijack E (syms n) n (hook n) s = Some ((0, hooked_sym h), hook_state h s)"
      using symbol_hijack_site [of E "syms n" n h s] r site Cons.prems(4) by simp
    have "distinct ns" "ready E (hook_state h s) hs'" "Suc k = mod_next (hook_state h s)"
      using Cons.prems(2,4) r by simp_all
    from Cons.IH [OF other [OF site(6)] this, of "hooked_sym h"] obtain syms'
      where *: "hijack_each E hook ns (syms(n := hooked_sym h)) (hook_state h s) = Some (syms', layers hs' (hook_state h s))"
        "installed syms' ns hs'" "\<forall>m. m \<notin> set ns \<longrightarrow> syms' m = (syms(n := hooked_sym h)) m" by blast
    moreover have "installed syms' (n # ns) (h # hs')"
      using * site(3) Cons.prems(2) by (intro installed_site) simp_all
    ultimately show ?thesis using hj by (auto simp: site(1))
  qed
qed

section \<open>Taking the hooks out\<close>

text \<open>What \<open>symbol_restore\<close> needs, and what it leaves.\<close>

definition restorable :: "text_env \<Rightarrow> kernsym \<Rightarrow> u64 \<Rightarrow> text_state \<Rightarrow> bool" where
  "restorable E ks n s \<longleftrightarrow> hijacked ks \<and> \<not> name_alloc ks \<and> one_page E (sym_addr ks) \<and>
     mapped (ktext s) (sym_addr ks) OP_JMP_SIZE \<and> length (orig_start_bytes ks) = OP_JMP_SIZE \<and>
     new_addr ks \<noteq> 0 \<and> mod_blocks s (new_addr ks) = Some n"

definition restored :: "kernsym \<Rightarrow> u64 \<Rightarrow> text_state \<Rightarrow> text_state" where
  "restored ks n s = s\<lparr>mod_blocks := (mod_blocks s)(new_addr ks := None),
     ktext := (\<lambda>x. if in_block (new_addr ks) n x then None else patch (ktext s) (sym_addr ks) (orig_start_bytes ks) x)\<rparr>"

lemma symbol_restore_restored:
  "restorable E ks n s \<Longrightarrow> symbol_restore E ks s = Some (ks\<lparr>hijacked := False\<rparr>, restored ks n s)"
  unfolding restorable_def restored_def by (rule symbol_restore_done) auto

lemma hooked_sym_simps [simp]:
  "sym_addr (hooked_sym h) = sym_addr (hs_sym h)" "new_addr (hooked_sym h) = hs_block h"
  "name_alloc (hooked_sym h) = name_alloc (hs_sym h)" "hijacked (hooked_sym h)"
  "orig_start_bytes (hooked_sym h) = take OP_JMP_SIZE (hs_src h)"
  by (simp_all add: hooked_sym_def)

lemma restorable_own:
  assumes ok: "site_ok E s h" and "\<not> name_alloc (hs_sym h)"
  shows "restorable E (hooked_sym h) (sym_size (hs_sym h)) (hook_state h s)"
proof -
  have "mapped (ktext (hook_state h s)) (sym_addr (hs_sym h)) OP_JMP_SIZE"
    by (simp add: hook_state_def hijacked_state_def mapped_def patch_at OP_JMP_SIZE_def)
  then show ?thesis
    using assms site_size [OF ok] site_func_text [OF ok]
    by (simp add: restorable_def func_text_def site_ok_def block_free_def)
qed

lemma restored_own:
  assumes ok: "site_ok E s h" and na: "\<not> name_alloc (hs_sym h)"
  shows "restored (hooked_sym h) (sym_size (hs_sym h)) (hook_state h s) = s\<lparr>mod_next := Suc (mod_next s)\<rparr>"
proof -
  let ?E = "E\<lparr>t_module_alloc := \<lambda>_ _. Some (hs_block h)\<rparr>"
  have "func_text ?E (ktext s) (hs_sym h) (hs_src h) (hs_block h) (hs_out h)"
    using site_func_text [OF ok] by (simp add: func_text_def one_page_def)
  moreover have "fresh_block ?E s (sym_size (hs_sym h)) (hs_block h)"
    using ok by (auto simp: site_ok_def block_free_def fresh_block_def)
  ultimately have "symbol_restore ?E (hooked_sym h) (hook_state h s) =
      Some ((hooked_sym h)\<lparr>hijacked := False\<rparr>, s\<lparr>mod_next := Suc (mod_next s)\<rparr>)"
    unfolding hook_state_def using na hooked_sym_def by (rule restore_hijacked)
  moreover have "restorable ?E (hooked_sym h) (sym_size (hs_sym h)) (hook_state h s)"
    using restorable_own [OF assms] by (simp add: restorable_def one_page_def)
  ultimately show ?thesis using symbol_restore_restored by fastforce
qed

text \<open>Taking one hook out commutes with another one that lies apart from it.\<close>

lemma restorable_other:
  assumes "restorable E (hooked_sym h) n s" and "apart h h'" and "site_ok E s0 h" and "site_ok E s0 h'"
  shows "restorable E (hooked_sym h) n (hook_state h' s)"
proof -
  have "hs_block h \<noteq> hs_block h'"
    using block_start [OF assms(3)] block_start [OF assms(4)] assms(2) by (auto simp: apart_def)
  moreover have "mapped (ktext (hook_state h' s)) a k" if "mapped (ktext s) a k" for a k
    using that by (auto simp: mapped_def hook_state_def hijacked_state_def patch_def)
  ultimately show ?thesis using assms(1) by (auto simp: restorable_def)
qed

lemma restored_other:
  assumes ap: "apart h h'" and ok: "site_ok E s0 h" "site_ok E s0 h'"
  shows "restored (hooked_sym h) (sym_size (hs_sym h)) (hook_state h' s) =
    hook_state h' (restored (hooked_sym h) (sym_size (hs_sym h)) s)"
proof -
  note sz = site_size [OF ok(1)] site_size [OF ok(2)]
  have ne: "hs_block h \<noteq> hs_block h'"
    using block_start [OF ok(1)] block_start [OF ok(2)] ap by (auto simp: apart_def)
  have dis: "\<not> ((unat (x - sym_addr (hs_sym h)) < unat (sym_size (hs_sym h)) \<or> unat (x - hs_block h) < unat (sym_size (hs_sym h))) \<and>
      (unat (x - sym_addr (hs_sym h')) < unat (sym_size (hs_sym h')) \<or> unat (x - hs_block h') < unat (sym_size (hs_sym h'))))" for x
    using ap by (simp add: apart_def touches_def in_block_patch)
  have "ktext (restored (hooked_sym h) (sym_size (hs_sym h)) (hook_state h' s)) x =
      ktext (hook_state h' (restored (hooked_sym h) (sym_size (hs_sym h)) s)) x" for x
    using dis [of x] sz
    by (simp add: restored_def hook_state_def hijacked_state_def patch_def in_block_patch) linarith
  moreover have "(mod_blocks (hook_state h' s))(hs_block h := None) = (mod_blocks s)(hs_block h := None, hs_block h' \<mapsto> sym_size (hs_sym h'))"
    using ne by (auto simp: fun_eq_iff)
  ultimately show ?thesis
    by (intro text_state.equality ext) (simp_all add: restored_def hook_state_def hijacked_state_def)
qed

lemma restore_layers:
  assumes "restorable E (hooked_sym h) (sym_size (hs_sym h)) s" and "site_ok E s0 h"
    and "\<forall>h'\<in>set hs. apart h h' \<and> site_ok E s0 h'"
  shows "symbol_restore E (hooked_sym h) (layers hs s) =
    Some ((hooked_sym h)\<lparr>hijacked := False\<rparr>, layers hs (restored (hooked_sym h) (sym_size (hs_sym h)) s))"
  using assms
proof (induction hs arbitrary: s)
  case Nil
  then show ?case by (simp add: symbol_restore_restored)
next
  case (Cons h' hs)
  then show ?case
    using Cons.IH [OF restorable_other [OF Cons.prems(1), of h' s0]] restored_other [of h h' E s0 s] by auto
qed

lemma ready_mod_next [simp]: "ready E (s\<lparr>mod_next := k\<rparr>) hs = ready E s hs"
  by (simp add: ready_def site_ok_def block_free_def)

lemma restore_each_layers:
  assumes "installed syms ns hs" and "distinct ns" and "ready E s hs"
  shows "\<exists>syms'. restore_each E ns syms (layers hs s) = Some (syms', s\<lparr>mod_next := mod_next s + length hs\<rparr>)"
  using assms
proof (induction ns arbitrary: hs syms s)
  case Nil
  then show ?case by (auto elim: installed.cases)
next
  case (Cons n ns)
  have other: "installed (syms(n := ks)) ns hs'" if "installed syms ns hs'" for ks hs'
    by (rule installed_same [OF that]) (use Cons.prems(2) in auto)
  have d: "distinct ns" using Cons.prems(2) by simp
  from Cons.prems(1) consider
      (missing) "\<not> hijacked (syms n)" "\<not> name_alloc (syms n)" "installed syms ns hs"
    | (site) h hs' where "hs = h # hs'" "syms n = hooked_sym h" "\<not> name_alloc (hs_sym h)" "installed syms ns hs'"
    by (cases rule: installed.cases) auto
  then show ?case
  proof cases
    case missing
    then have "symbol_restore E (syms n) t = Some (syms n, t)" for t by (simp add: symbol_restore_def)
    with Cons.IH [OF other [OF missing(3)] d Cons.prems(3), of "syms n"] show ?thesis by auto
  next
    case site
    note r = ready_Cons [OF Cons.prems(3) [unfolded site(1)]]
    have "site_ok E s h'" if "h' \<in> set hs'" for h' using r that by (auto simp: ready_def)
    then have "symbol_restore E (syms n) (layers hs s) =
        Some ((hooked_sym h)\<lparr>hijacked := False\<rparr>, layers hs' (s\<lparr>mod_next := Suc (mod_next s)\<rparr>))"
      using restore_layers [OF restorable_own [OF _ site(3)], of E s s hs'] restored_own [OF _ site(3), of E s] r
      by (auto simp: site(1,2))
    moreover have "ready E (s\<lparr>mod_next := Suc (mod_next s)\<rparr>) hs'" using r by simp
    ultimately show ?thesis
      using Cons.IH [OF other [OF site(4)] d, of "s\<lparr>mod_next := Suc (mod_next s)\<rparr>" "(hooked_sym h)\<lparr>hijacked := False\<rparr>"]
      by (auto simp: site(1) simp del: fun_upd_apply)
  qed
qed

text \<open>With all hooks in, every site starts with its jump.\<close>

lemma layers_text:
  "ready E s hs \<Longrightarrow> \<forall>h\<in>set hs. \<not> touches h x \<Longrightarrow> ktext (layers hs s) x = ktext s x"
proof (induction hs arbitrary: s)
  case (Cons h hs)
  then show ?case using ready_Cons [OF Cons.prems(1)] hook_state_text [of E s h x] by auto
qed simp

lemma layers_jump:
  assumes "ready E s hs" and "h \<in> set hs" and "j < OP_JMP_SIZE"
  shows "ktext (layers hs s) (sym_addr (hs_sym h) + of_nat j) = Some (jump_to (sym_addr (hs_sym h)) (hs_code h) ! j)"
  using assms(1,2)
proof (induction hs arbitrary: s)
  case (Cons h' hs)
  note r = ready_Cons [OF Cons.prems(1)]
  show ?case
  proof (cases "h \<in> set hs")
    case True
    with Cons.IH r show ?thesis by simp
  next
    case False
    with Cons.prems have h: "h = h'" by simp
    have "touches h (sym_addr (hs_sym h) + of_nat j)"
      using r site_size [of E s h] assms(3) by (simp add: h touches_def in_block_patch OP_JMP_SIZE_def unat_of_nat take_bit_eq_mod)
    then have "\<forall>k\<in>set hs. \<not> touches k (sym_addr (hs_sym h) + of_nat j)" using r by (auto simp: h apart_def)
    moreover have "ktext (hook_state h s) (sym_addr (hs_sym h) + of_nat j) = Some (jump_to (sym_addr (hs_sym h)) (hs_code h) ! j)"
      using assms(3) patch_at [of j "jump_to (sym_addr (hs_sym h)) (hs_code h)"]
      by (simp add: hook_state_def hijacked_state_def OP_JMP_SIZE_def)
    ultimately show ?thesis using layers_text [of E "hook_state h s" hs] r by (simp add: h)
  qed
qed simp

lemma distinct_hooks: "distinct security2hook"
  by (simp add: security2hook_def bytes_def)

section \<open>Property\<close>

text \<open>
  Loading and unloading the module leaves the text of the kernel as it was. Every function
  whose symbol is found jumps to its hook while the module is loaded, the others are skipped;
  taking the hooks out, in the order of the table, gives back the text, the page protection and
  the blocks. The functions and the blocks of their copies lie apart from each other.
\<close>

theorem unload_restores_text:
  assumes "planned E hook syms security2hook (mod_next s) hs" and "ready E s hs"
  shows "\<exists>syms1 s1 syms2. hijack_syscalls E hook syms s = Some (syms1, s1) \<and>
    (\<forall>h\<in>set hs. read_bytes (ktext s1) (sym_addr (hs_sym h)) OP_JMP_SIZE = Some (jump_to (sym_addr (hs_sym h)) (hs_code h))) \<and>
    undo_hijack_syscalls E syms1 s1 = Some (syms2, s\<lparr>mod_next := mod_next s + length hs\<rparr>)"
proof -
  obtain syms1 where 1: "hijack_each E hook security2hook syms s = Some (syms1, layers hs s)"
      "installed syms1 security2hook hs"
    using hijack_each_layers [OF assms(1) distinct_hooks assms(2) refl] by blast
  then show ?thesis
    using restore_each_layers [OF 1(2) distinct_hooks assms(2)] layers_jump [OF assms(2)]
    by (auto simp: hijack_syscalls_def undo_hijack_syscalls_def intro!: read_bytesI)
qed

text \<open>The kernel with one function: \<open>vfs_mkdir\<close> is hooked, the other symbols are not found.\<close>

definition demo_site :: hook_site where
  "demo_site = \<lparr>hs_sym = demo_sym, hs_src = demo_code, hs_block = 0x4000,
     hs_out = [0xE8, 0xFB, 0xDF, 0xFF, 0xFF, 0xC3], hs_code = 0x5000\<rparr>"

lemma demo_site_ok: "site_ok demo_env demo_kernel demo_site"
proof -
  have "own demo_site (ktext demo_kernel) = ktext demo_kernel"
    by (rule ext) (simp add: own_def demo_site_def demo_sym_def demo_kernel_def patch_def demo_code_def in_block_patch)
  then show ?thesis
    using demo_func_text demo_block
    by (simp add: site_ok_def block_free_def fresh_block_def demo_site_def demo_sym_def)
qed

lemma demo_skip:
  assumes "cstr n \<noteq> bytes ''vfs_mkdir''" and "planned demo_env hook (\<lambda>_. zero_sym) ns k hs"
  shows "planned demo_env hook (\<lambda>_. zero_sym) (n # ns) k hs"
proof -
  have "cstr (bytes ''vfs_mkdir'') = bytes ''vfs_mkdir''" by (simp add: cstr_def bytes_def)
  then obtain f where "find_symbol_address demo_env zero_sym n = (- EFAULT, f)" "\<not> hijacked f" "\<not> name_alloc f"
    using assms(1) by (cases "cstr n = bytes ''vfs_rmdir''")
      (auto simp: find_symbol_lookup demo_env_def Let_def zero_sym_def cstr_def bytes_def)
  moreover have "- EFAULT < 0" by (simp add: EFAULT_def)
  ultimately show ?thesis using assms(2) by (auto intro: planned_missing)
qed

lemma demo_planned: "planned demo_env (\<lambda>_. 0x5000) (\<lambda>_. zero_sym) security2hook 0 [demo_site]"
proof -
  have "find_symbol_address demo_env zero_sym (bytes ''vfs_mkdir'') = (0, hs_sym demo_site)"
    using demo_found by (simp add: demo_site_def)
  moreover have "\<not> name_alloc (hs_sym demo_site)" by (simp add: demo_site_def demo_sym_def zero_sym_def)
  moreover have "t_module_alloc demo_env 0 (sym_size (hs_sym demo_site)) = Some (hs_block demo_site)"
    by (simp add: demo_env_def demo_site_def)
  moreover have "hs_code demo_site = 0x5000" by (simp add: demo_site_def)
  ultimately show ?thesis
    unfolding security2hook_def list.map
    by (intro demo_skip [of "bytes ''vfs_write''"] demo_skip [of "bytes ''vfs_rmdir''"] demo_skip [of "bytes ''vfs_rename''"]
        demo_skip [of "bytes ''vfs_unlink''"] demo_skip [of "bytes ''vfs_symlink''"] demo_skip [of "bytes ''vfs_link''"]
        demo_skip [of "bytes ''vfs_create''"] planned_site planned_done) (simp_all add: cstr_def bytes_def)
qed

theorem unload_restores_text_witness:
  "\<exists>syms1 s1 syms2. hijack_syscalls demo_env (\<lambda>_. 0x5000) (\<lambda>_. zero_sym) demo_kernel = Some (syms1, s1) \<and>
    read_bytes (ktext s1) 0x1000 5 = Some (jump_to 0x1000 0x5000) \<and>
    undo_hijack_syscalls demo_env syms1 s1 = Some (syms2, demo_kernel\<lparr>mod_next := 1\<rparr>)"
proof -
  note demo_planned
  moreover have "ready demo_env demo_kernel [demo_site]" by (simp add: ready_def demo_site_ok)
  moreover have "mod_next demo_kernel = 0" by (simp add: demo_kernel_def)
  ultimately show ?thesis
    using unload_restores_text [of demo_env "\<lambda>_. 0x5000" "\<lambda>_. zero_sym" demo_kernel "[demo_site]"]
    by (simp add: demo_site_def demo_sym_def OP_JMP_SIZE_def)
qed

end
