(* ===== verification/ModuleProps.thy ===== *)
theory ModuleProps
  imports System HijackAll
begin

text \<open>
  Loading, running, going down and unloading: the life of the module as a whole.
\<close>

section \<open>Unloading\<close>

lemma dump_sets_run:
  assumes rb: "rbtree_laws K" and inv: "config_inv s"
  shows "rb_for (dump_set K) (k_rb_first K (set_tree_of s)) s = Some s"
proof -
  let ?xs = "inorder (set_tree_of s)"
  have dist: "distinct ?xs" using config_invD(2) [OF inv] bst_list_distinct by (auto simp: bst_ok_def)
  have "\<exists>s'. rb_for (dump_set K) (first_of ?xs) s = Some s' \<and> (s' = s \<or> False)"
  proof (rule rb_for_walk [where P = "\<lambda>_ t. t = s"])
    fix ys a zs t assume xs: "?xs = ys @ a # zs" and t: "t = s"
    then have a: "a \<in> set_tree (set_tree_of s)" by (metis in_set_conv_decomp set_inorder)
    have "next_in ?xs a = first_of zs" using dist unfolding xs by (rule next_in_split)
    then show "\<exists>n s'. dump_set K a t = Some (n, s') \<and> (n = first_of zs \<and> s' = s \<or> n = None \<and> False)"
      using set_node_live [OF inv a] a by (auto simp: dump_set_def t rbtree_lawsD(4) [OF rb])
  qed simp
  then show ?thesis by (simp add: rbtree_lawsD(3) [OF rb])
qed

lemma dump_files_run:
  assumes rb: "rbtree_laws K" and inv: "config_inv s"
  shows "rb_for (dump_file K) (k_rb_first K (file_tree_of s)) s = Some s"
proof -
  let ?xs = "inorder (file_tree_of s)"
  have dist: "distinct ?xs" using config_invD(3) [OF inv] bst_list_distinct by (auto simp: bst_ok_def)
  have "\<exists>s'. rb_for (dump_file K) (first_of ?xs) s = Some s' \<and> (s' = s \<or> False)"
  proof (rule rb_for_walk [where P = "\<lambda>_ t. t = s"])
    fix ys a zs t assume xs: "?xs = ys @ a # zs" and t: "t = s"
    then have a: "a \<in> set_tree (file_tree_of s)" by (metis in_set_conv_decomp set_inorder)
    have "next_in ?xs a = first_of zs" using dist unfolding xs by (rule next_in_split)
    then show "\<exists>n s'. dump_file K a t = Some (n, s') \<and> (n = first_of zs \<and> s' = s \<or> n = None \<and> False)"
      using file_node_live [OF inv a] a by (auto simp: dump_file_def t rbtree_lawsD(4) [OF rb] readable_def)
  qed simp
  then show ?thesis by (simp add: rbtree_lawsD(3) [OF rb])
qed

lemma dump_run:
  assumes "rbtree_laws K" and "config_inv s"
  shows "DumpAllMonitorSet K s = Some (0, s)"
  by (simp add: DumpAllMonitorSet_def dump_sets_run [OF assms] dump_files_run [OF assms])

lemma config_inv_flags:
  "config_inv (upd_cfg (\<lambda>c. c\<lparr>bValid := b\<rparr>) s) = config_inv s"
  "config_inv (s\<lparr>FileReplData := (FileReplData s)\<lparr>bStopTask := b\<rparr>\<rparr>) = config_inv s"
  by (simp_all add: config_inv_def)

lemma UninitMonitorSet_run:
  assumes rb: "rbtree_laws K" and st: "stale_next K" and inv: "config_inv s"
  shows "\<exists>s'. UninitMonitorSet K s = Some (0, s') \<and> file_tree_of s' = Leaf \<and> set_tree_of s' = Leaf \<and>
    file_mem s' = (file_mem s) |` (- nodes Files s) \<and> set_mem s' = (set_mem s) |` (- nodes Sets s) \<and> keeps s s'"
proof -
  let ?t = "upd_cfg (\<lambda>c. c\<lparr>bValid := False\<rparr>) s"
  let ?s = "?t\<lparr>FileReplData := (FileReplData ?t)\<lparr>bStopTask := True\<rparr>\<rparr>"
  have inv': "config_inv ?s" using inv by (simp only: config_inv_flags)
  obtain s' where s': "DelAllMonitorSet K ?s = Some (0, s')" "config_inv s'" "file_tree_of s' = Leaf" "set_tree_of s' = Leaf"
      "file_mem s' = (file_mem ?s) |` (- nodes Files ?s)" "set_mem s' = (set_mem ?s) |` (- nodes Sets ?s)"
    using DelAllMonitorSet_exact [OF rb st inv'] by blast
  have "keeps s ?s" by (rule keepsI) simp_all
  then have "keeps s s'" using DelAllMonitorSet_keeps [OF s'(1)] keeps_trans by blast
  then show ?thesis
    using s' dump_run [OF rb inv'] dump_run [OF rb s'(2)]
    by (simp add: UninitMonitorSet_def DelAllMonitorSetinMemory_def Let_def)
qed

section \<open>The life of the module\<close>

text \<open>What \<open>init_rtbackup\<close> gets from the kernel when nothing goes wrong; \<open>s0\<close> is what was loaded.\<close>

definition starts :: "'w module_env \<Rightarrow> 'w rtb_module \<Rightarrow> (byte list \<Rightarrow> kernsym) \<Rightarrow> 'w kstate \<Rightarrow> bool" where
  "starts M m sy s0 \<longleftrightarrow> kernfunc_init (me_text M) (msyms m) = (0, sy) \<and> me_netlink M \<and> me_kthread M \<and>
     InitMonitorSet (me_kernel M) (mstate m) = Some (0, s0)"

lemma init_rtbackup_run:
  assumes "starts M m sy s0" and "planned (me_text M) (me_hook M) sy security2hook (mod_next (mtext m)) hs"
    and "ready (me_text M) (mtext m) hs"
  shows "\<exists>sy'. init_rtbackup M m = Some (0, m\<lparr>reboot_notifier := True, netlink_fd := True, mstate := initcompletion s0,
      tsk := Some Task, msyms := sy', mtext := layers hs (mtext m)\<rparr>) \<and> installed sy' security2hook hs"
proof -
  obtain sy' where "hijack_each (me_text M) (me_hook M) security2hook sy (mtext m) = Some (sy', layers hs (mtext m))"
      "installed sy' security2hook hs"
    using hijack_each_layers [OF assms(2) distinct_hooks assms(3) refl] by blast
  then show ?thesis
    using assms(1) by (auto simp: init_rtbackup_def starts_def hijack_syscalls_def Let_def)
qed


text \<open>
  C39. When starting fails half-way it returns an error and undoes nothing: without a socket the
  reboot notifier stays registered, without a thread the socket does too, and the configuration
  stays in memory. No function is hooked.
\<close>

theorem failed_start_leaves_registrations:
  assumes "kernfunc_init (me_text M) (msyms m) = (0, sy)"
  shows "(\<not> me_netlink M \<longrightarrow> (\<exists>m'. init_rtbackup M m = Some (-1, m') \<and> reboot_notifier m' \<and> mtext m' = mtext m)) \<and>
    (me_netlink M \<and> \<not> me_kthread M \<and> InitMonitorSet (me_kernel M) (mstate m) = Some (0, s0) \<longrightarrow>
      (\<exists>m'. init_rtbackup M m = Some (-2, m') \<and> reboot_notifier m' \<and> netlink_fd m' \<and> mstate m' = initcompletion s0 \<and>
        mtext m' = mtext m))"
  using assms by (simp add: init_rtbackup_def Let_def)

section \<open>Going down and coming up\<close>

text \<open>What \<open>InitMonitorSet\<close> sets up before it reads the file.\<close>

definition started :: FILEREPL_DATA where
  "started = \<lparr>Config = \<lparr>bMonitorFilesLoaded = False,
     MonitorFiles = \<lparr>ulCounts = 0, ItemLookAsideList = True, RBTree = Leaf\<rparr>,
     MonitorSet = \<lparr>ulCounts = 0, ItemLookAsideList = True, RBTree = Leaf\<rparr>,
     bValid = True, bNormalRunning = True, dwLastNormalShutdown = 0, bDirty = False, iowritequeue = []\<rparr>, bStopTask = False\<rparr>"

lemma InitMonitorSet_eq:
  assumes "k_cache_files K" and "k_cache_sets K"
  shows "InitMonitorSet K (b\<lparr>world := w\<rparr>) = map_option (\<lambda>(_, s). (0, s)) (LoadConfig K (b\<lparr>FileReplData := started, world := w\<rparr>))"
proof -
  have eq: "upd_cfg (\<lambda>c. c\<lparr>iowritequeue := []\<rparr>) (set_root Files Leaf (set_root Sets Leaf
      (upd_items Sets (\<lambda>d. d\<lparr>ItemLookAsideList := True\<rparr>) (upd_items Files (\<lambda>d. d\<lparr>ItemLookAsideList := True\<rparr>)
        (upd_cfg (\<lambda>c. c\<lparr>bValid := True, bNormalRunning := True\<rparr>) (b\<lparr>world := w, FileReplData := zero_FileReplData\<rparr>)))))) =
      b\<lparr>FileReplData := started, world := w\<rparr>"
    by (rule kstate.equality)
      (simp_all add: set_root_def upd_cfg_def started_def zero_FileReplData_def zero_items_def)
  show ?thesis
    using assms by (cases "LoadConfig K (b\<lparr>FileReplData := started, world := w\<rparr>)")
      (auto simp: InitMonitorSet_def Let_def eq simp del: upd_items.simps)
qed

lemma reboot_run:
  assumes "rbtree_laws K" and "cnf_laws K cnf hnd" and "config_inv s" and "config_fits s"
    and "loadable (set_entries s) (file_entries s)" and "k_cache_files K" and "k_cache_sets K"
    and "set_mem b = Map.empty" and "file_mem b = Map.empty" and "kblocks b = Map.empty" and "\<forall>a\<ge>next_blk b. k_alloc K a"
  shows "\<exists>s1 s2. myreboot K s = Some (NOTIFY_OK, s1) \<and> InitMonitorSet K (b\<lparr>world := world s1\<rparr>) = Some (0, s2) \<and>
    set_entries s2 = set_entries s \<and> map unlink (file_entries s2) = map unlink (file_entries s) \<and>
    dwLastNormalShutdown (cfg s2) = 2 \<and> config_inv s2 \<and> link_inv s2 \<and> queue_inv s2"
proof -
  let ?s = "upd_cfg (\<lambda>c. c\<lparr>dwLastNormalShutdown := 2\<rparr>) s"
  let ?b = "\<lambda>w. b\<lparr>FileReplData := started, world := w\<rparr>"
  have s: "config_inv ?s" "config_fits ?s" "set_entries ?s = set_entries s" "file_entries ?s = file_entries s"
    using assms(3,4) by (simp_all add: config_inv_def config_fits_def set_entries_def file_entries_def)
  have b: "config_inv (?b w)" "set_tree_of (?b w) = Leaf" "file_tree_of (?b w) = Leaf" "next_blk (?b w) = next_blk b" for w
    using assms(8,9) by (simp_all add: config_inv_def started_def)
  obtain s1 s2 where 1: "SaveConfig K ?s = Some (0, s1)" "LoadConfig K (?b (world s1)) = Some (0, s2)"
      "set_entries s2 = set_entries s" "map unlink (file_entries s2) = map unlink (file_entries s)" "config_inv s2" "linked s2"
      "dwLastNormalShutdown (cfg s2) = 2"
    using config_roundtrip_run [OF assms(1,2) s(1,2) _ b(1-3), of undefined] assms(5,11) by (auto simp: s(3,4))
  have "queue_inv (?b (world s1))" using assms(10) by (simp add: queue_inv_def owned_def started_def)
  then have "queue_inv s2" by (rule keeps_queue_inv [OF LoadConfig_keeps [OF 1(2)]])
  moreover have "InitMonitorSet K (b\<lparr>world := world s1\<rparr>) = Some (0, s2)"
    using 1(2) assms(6,7) by (simp add: InitMonitorSet_eq)
  ultimately show ?thesis
    using 1 linked_link_inv by (simp add: myreboot_def)
qed

text \<open>
  C11. The configuration survives a reboot: what the notifier saves is loaded at the next start,
  on memory of its own, into a sound state with the same sets and files, and the shutdown status
  says that the system went down in order.
\<close>

theorem reboot_keeps_configuration:
  assumes "rbtree_laws K" and "cnf_laws K cnf hnd" and "config_inv s" and "config_fits s"
    and "loadable (set_entries s) (file_entries s)" and "k_cache_files K" and "k_cache_sets K"
    and "set_mem b = Map.empty" and "file_mem b = Map.empty" and "kblocks b = Map.empty" and "\<forall>a\<ge>next_blk b. k_alloc K a"
  shows "\<exists>s1 s2. myreboot K s = Some (NOTIFY_OK, s1) \<and> InitMonitorSet K (b\<lparr>world := world s1\<rparr>) = Some (0, s2) \<and>
    set_entries s2 = set_entries s \<and> map unlink (file_entries s2) = map unlink (file_entries s) \<and>
    dwLastNormalShutdown (cfg s2) = 2 \<and> config_inv s2 \<and> link_inv s2 \<and> queue_inv s2"
  by (rule reboot_run [OF assms])

lemma demo_loadable: "config_fits (demo_state w)" "loadable (set_entries (demo_state w)) (file_entries (demo_state w))"
  by (simp_all add: config_fits_def loadable_def set_entries_def file_entries_def) (simp add: demo_file_def demo_set_def)

theorem reboot_keeps_configuration_witness:
  "\<exists>s1 s2. myreboot example_kernel (demo_state []) = Some (NOTIFY_OK, s1) \<and>
    InitMonitorSet example_kernel ((example_state [])\<lparr>world := world s1\<rparr>) = Some (0, s2) \<and>
    set_entries s2 = [demo_set] \<and> dwLastNormalShutdown (cfg s2) = 2 \<and> config_inv s2 \<and> link_inv s2 \<and> queue_inv s2"
proof -
  let ?b = "example_state []"
  have "set_entries (demo_state []) = [demo_set]" by (simp add: set_entries_def)
  moreover have "set_mem ?b = Map.empty" "file_mem ?b = Map.empty" "kblocks ?b = Map.empty" by (simp_all add: example_state_def)
  ultimately show ?thesis
    using reboot_keeps_configuration [OF example_rbtree_laws example_cnf_laws demo_config_inv [of "[]"] demo_loadable, of ?b] by auto
qed

lemma demo_reboot:
  "\<exists>s1 s2. myreboot example_kernel (demo_state []) = Some (NOTIFY_OK, s1) \<and>
    InitMonitorSet example_kernel ((example_state [])\<lparr>world := world s1\<rparr>) = Some (0, s2) \<and>
    set_entries s2 = [demo_set] \<and> dwLastNormalShutdown (cfg s2) = 2 \<and> config_inv s2 \<and> link_inv s2 \<and> queue_inv s2"
proof -
  let ?b = "example_state []"
  have "set_entries (demo_state []) = [demo_set]" by (simp add: set_entries_def)
  moreover have "set_mem ?b = Map.empty" "file_mem ?b = Map.empty" "kblocks ?b = Map.empty" by (simp_all add: example_state_def)
  ultimately show ?thesis
    using reboot_run [OF example_rbtree_laws example_cnf_laws demo_config_inv [of "[]"] demo_loadable, of ?b] by auto
qed

text \<open>
  The kernel of \<open>HijackDemo\<close> with the symbols that \<open>kernfunc_init\<close> looks for, and an empty
  module on the example kernel.
\<close>

definition demo_text :: text_env where
  "demo_text = demo_env\<lparr>t_kallsyms := zip needed_symbols [0x2000, 0x2010, 0x2020, 0x2030, 0x2040] @ t_kallsyms demo_env\<rparr>"

definition demo_menv :: "byte list module_env" where
  "demo_menv = \<lparr>me_kernel = example_kernel, me_text = demo_text, me_hook = (\<lambda>_. 0x5000), me_netlink = True, me_kthread = True\<rparr>"

definition demo_module :: "byte list \<Rightarrow> byte list rtb_module" where
  "demo_module w = \<lparr>mstate = example_state w, mtext = demo_kernel, msyms = (\<lambda>_. zero_sym), reboot_notifier = False,
     netlink_fd = False, tsk = None\<rparr>"

lemma find_front:
  assumes "t_kallsyms E = xs @ y # ys" and "n \<in> fst ` set xs"
  shows "\<exists>f. find_symbol_address E ks n = (0, f)"
proof -
  let ?P = "\<lambda>(m, a :: u64). cstr m \<noteq> cstr n"
  obtain x where x: "x \<in> set xs" "\<not> ?P x" using assms(2) by force
  have "dropWhile ?P (t_kallsyms E) = dropWhile ?P xs @ y # ys"
    unfolding assms(1) using dropWhile_append1 [of x xs ?P] x by simp
  moreover have "dropWhile ?P xs \<noteq> []" using x by (auto simp: dropWhile_eq_Nil_conv)
  ultimately obtain a b l where "dropWhile ?P (t_kallsyms E) = a # b # l"
    by (cases "dropWhile ?P xs"; cases "tl (dropWhile ?P xs)") auto
  then show ?thesis by (cases a; cases b) (simp add: find_symbol_lookup Let_def)
qed

lemma find_all_found:
  "(\<And>n ks. n \<in> set ns \<Longrightarrow> \<exists>f. find_symbol_address E ks n = (0, f)) \<Longrightarrow>
   \<exists>sy. find_all E ns syms = (0, sy) \<and> (\<forall>n. n \<notin> set ns \<longrightarrow> sy n = syms n)"
proof (induction ns arbitrary: syms)
  case (Cons n ns)
  obtain f where f: "find_symbol_address E (syms n) n = (0, f)" using Cons.prems by fastforce
  obtain sy where "find_all E ns (syms(n := f)) = (0, sy)" "\<forall>m. m \<notin> set ns \<longrightarrow> sy m = (syms(n := f)) m"
    using Cons.IH [of "syms(n := f)"] Cons.prems by (auto simp del: fun_upd_apply)
  with f show ?case by (auto simp del: fun_upd_apply) simp
qed simp

lemma demo_start:
  "\<exists>sy. kernfunc_init demo_text (\<lambda>_. zero_sym) = (0, sy) \<and> (\<forall>n\<in>set security2hook. sy n = zero_sym)"
proof -
  have len: "length needed_symbols = 5" by (simp add: needed_symbols_def)
  have "\<exists>f. find_symbol_address demo_text ks n = (0, f)" if "n \<in> set needed_symbols" for n ks
  proof (rule find_front)
    show "t_kallsyms demo_text = zip needed_symbols [0x2000, 0x2010, 0x2020, 0x2030, 0x2040] @
        (bytes ''vfs_mkdir'', 0x1000) # [(bytes ''vfs_rmdir'', 0x1008)]"
      by (simp add: demo_text_def demo_env_def)
    show "n \<in> fst ` set (zip needed_symbols [0x2000, 0x2010, 0x2020, 0x2030, 0x2040 :: u64])"
      using that len by (simp flip: set_map)
  qed
  from find_all_found [OF this, of needed_symbols "\<lambda>_. zero_sym"] obtain sy
    where sy: "find_all demo_text needed_symbols (\<lambda>_. zero_sym) = (0, sy)" "\<forall>n. n \<notin> set needed_symbols \<longrightarrow> sy n = zero_sym"
    by blast
  have "n \<notin> set needed_symbols" if "n \<in> set security2hook" for n
    using that by (auto simp: security2hook_def needed_symbols_def bytes_def)
  with sy show ?thesis by (auto simp: kernfunc_init_def)
qed

lemma demo_text_hooks:
  assumes "n \<in> set security2hook"
  shows "find_symbol_address demo_text ks n = find_symbol_address demo_env ks n"
proof -
  have "cstr m \<noteq> cstr n" if "m \<in> set needed_symbols" for m
    using that assms by (auto simp: security2hook_def needed_symbols_def bytes_def cstr_def)
  then have "dropWhile (\<lambda>(m, a). cstr m \<noteq> cstr n) (t_kallsyms demo_text) = dropWhile (\<lambda>(m, a). cstr m \<noteq> cstr n) (t_kallsyms demo_env)"
    by (auto simp: demo_text_def intro!: dropWhile_append2 dest: set_zip_leftD)
  then show ?thesis by (simp add: find_symbol_lookup)
qed

lemma demo_plan:
  assumes "\<forall>n\<in>set security2hook. sy n = zero_sym"
  shows "planned demo_text (\<lambda>_. 0x5000) sy security2hook 0 [demo_site]"
  by (rule planned_same [OF planned_env [OF demo_planned demo_text_hooks]]) (simp_all add: assms demo_text_def)

lemma demo_ready: "ready demo_text demo_kernel [demo_site]"
  using demo_site_ok
  by (simp add: ready_def site_ok_def func_text_def block_free_def one_page_def demo_text_def)

theorem failed_start_leaves_registrations_witness:
  "\<exists>m'. init_rtbackup (demo_menv\<lparr>me_netlink := False\<rparr>) (demo_module []) = Some (-1, m') \<and> reboot_notifier m' \<and> mtext m' = demo_kernel"
proof -
  obtain sy where "kernfunc_init demo_text (\<lambda>_. zero_sym) = (0, sy)" using demo_start by blast
  then have "kernfunc_init (me_text (demo_menv\<lparr>me_netlink := False\<rparr>)) (msyms (demo_module [])) = (0, sy)"
    by (simp add: demo_menv_def demo_module_def)
  from failed_start_leaves_registrations [OF this] show ?thesis by (simp add: demo_menv_def demo_module_def)
qed


end
