(* ===== verification/Restore.thy ===== *)
theory Restore
  imports Disk
begin

text \<open>
  \<open>test/RestoreIolog.c\<close> and \<open>test/AnalysisIolog.c\<close>: the programs that read the record files,
  one to repeat the operations under another directory, one to print them. The system calls are
  the record \<open>posix\<close>; \<open>None\<close> is a read or write outside an object.
\<close>

section \<open>System calls\<close>

text \<open>
  \<open>p_mkdir\<close> answers with the result and \<open>errno\<close>; the results the programs ignore are left out.
  \<open>p_fread\<close> gives the bytes that were read. \<open>p_malloc\<close>: whether \<open>malloc\<close> succeeds.
\<close>

record 'w posix =
  p_mkdir :: "byte list \<Rightarrow> nat \<Rightarrow> 'w \<Rightarrow> (int \<times> int) \<times> 'w"
  p_rmdir :: "byte list \<Rightarrow> 'w \<Rightarrow> 'w"
  p_unlink :: "byte list \<Rightarrow> 'w \<Rightarrow> 'w"
  p_link :: "byte list \<Rightarrow> byte list \<Rightarrow> 'w \<Rightarrow> 'w"
  p_rename :: "byte list \<Rightarrow> byte list \<Rightarrow> 'w \<Rightarrow> 'w"
  p_symlink :: "byte list \<Rightarrow> byte list \<Rightarrow> 'w \<Rightarrow> 'w"
  p_open :: "byte list \<Rightarrow> nat \<Rightarrow> nat \<Rightarrow> 'w \<Rightarrow> int \<times> 'w"
  p_lseek :: "int \<Rightarrow> int \<Rightarrow> 'w \<Rightarrow> 'w"
  p_write :: "int \<Rightarrow> byte list \<Rightarrow> 'w \<Rightarrow> 'w"
  p_close :: "int \<Rightarrow> 'w \<Rightarrow> 'w"
  p_fopen :: "byte list \<Rightarrow> 'w \<Rightarrow> nat option \<times> 'w"
  p_fread :: "nat \<Rightarrow> nat \<Rightarrow> 'w \<Rightarrow> byte list \<times> 'w"
  p_rewind :: "nat \<Rightarrow> 'w \<Rightarrow> 'w"
  p_fclose :: "nat \<Rightarrow> 'w \<Rightarrow> 'w"
  p_malloc :: "nat \<Rightarrow> 'w \<Rightarrow> bool"
  p_print :: "byte list \<Rightarrow> 'w \<Rightarrow> 'w"

definition EEXIST :: int where "EEXIST = 17"
definition LOG_FILE_TYPE_STOP_INIT :: u32 where "LOG_FILE_TYPE_STOP_INIT = 2"
definition LOG_FILE_TYPE_ENDOFFILE :: u32 where "LOG_FILE_TYPE_ENDOFFILE = 3"
definition LOG_FILE_TYPE_MOVEIN :: u32 where "LOG_FILE_TYPE_MOVEIN = 7"

section \<open>Directories\<close>

text \<open>
  \<open>dir_parent\<close>: everything up to the last slash. Its copy of the path is not checked for NULL.
\<close>

definition up_to_slash :: "byte list \<Rightarrow> byte list" where
  "up_to_slash p = rev (dropWhile (\<lambda>c. c \<noteq> 0x2F) (rev p))"

definition dir_parent :: "'w posix \<Rightarrow> byte list \<Rightarrow> byte list \<Rightarrow> 'w \<Rightarrow> (int \<times> byte list) option" where
  "dir_parent P p parentdir w =
     (if p = [0x2F] then Some (0, p)
      else if \<not> p_malloc P (length p + 1) w then None
      else if 0x2F \<in> set p then Some (0, up_to_slash p)
      else Some (-1, parentdir))"

text \<open>
  \<open>mkdir_p\<close>: the loop from position \<open>i\<close> with \<open>n\<close> positions left; at each slash the path before
  it is made. For an empty path the byte before the buffer is read.
\<close>

fun mkdir_loop :: "'w posix \<Rightarrow> byte list \<Rightarrow> nat \<Rightarrow> nat \<Rightarrow> 'w \<Rightarrow> int \<times> 'w" where
  "mkdir_loop P ptr i 0 w = (0, w)"
| "mkdir_loop P ptr i (Suc n) w =
     (if ptr ! i = 0x2F
      then let ((ret, errno), w) = p_mkdir P (take i ptr) 0x1ED w
           in if ret < 0 \<and> errno \<noteq> EEXIST then (-1, w) else mkdir_loop P ptr (Suc i) n w
      else mkdir_loop P ptr (Suc i) n w)"

definition mkdir_p :: "'w posix \<Rightarrow> byte list \<Rightarrow> 'w \<Rightarrow> (int \<times> 'w) option" where
  "mkdir_p P path w =
     (let len = length path in
      if \<not> p_malloc P (len + 2) w then Some (-1, w)
      else if len = 0 then None
      else let ptr = (if last path \<noteq> 0x2F then path @ [0x2F, 0] else path @ [0, 0])
           in Some (mkdir_loop P ptr 1 len w))"

section \<open>One record\<close>

text \<open>The string at an offset of the record's buffer, and the fields of its packed header.\<close>

definition c_string :: "nat \<Rightarrow> byte list \<Rightarrow> byte list option" where
  "c_string off buf = (if 0 \<in> set (drop off buf) then Some (cstr (drop off buf)) else None)"

text \<open>\<open>strcat\<close> into an array of 1024 bytes.\<close>

definition cat1024 :: "byte list \<Rightarrow> byte list \<Rightarrow> byte list option" where
  "cat1024 a b = (if length a + length b < 1024 then Some (a @ b) else None)"

text \<open>
  \<open>restore\<close>: the program prints what it does, then does it; every answer is ignored, and so is a
  file handle of -1, which is not 0.
\<close>

definition restore :: "'w posix \<Rightarrow> byte list \<Rightarrow> byte list \<Rightarrow> 'w \<Rightarrow> (int \<times> 'w) option" where
  "restore P iologfile targetdir w =
     (if length iologfile < sizeof_LOG_FILE_HEADER then None
      else do {
        let hdr = dec_log_header (take sizeof_LOG_FILE_HEADER iologfile);
        path \<leftarrow> c_string 32 iologfile;
        targetpath \<leftarrow> cat1024 targetdir path;
        if ulType hdr = LOG_FILE_TYPE_DELETEFILE
        then Some (0, if bIsDir hdr \<noteq> 0 then p_rmdir P targetpath w else p_unlink P targetpath w)
        else if ulType hdr = LOG_FILE_TYPE_HARDLINK
        then do { d \<leftarrow> c_string LOG_FILE_HEADER_SIZE iologfile;
                  targetoldpath \<leftarrow> cat1024 targetdir d;
                  Some (0, p_link P targetoldpath targetpath w) }
        else if ulType hdr = LOG_FILE_TYPE_NEWFILE
        then (if bIsDir hdr \<noteq> 0
              then do { (_, w) \<leftarrow> mkdir_p P targetpath w; Some (0, w) }
              else if \<not> p_malloc P 1024 w then None
              else do {
                (_, dirparent) \<leftarrow> dir_parent P targetpath [] w;
                (_, w) \<leftarrow> mkdir_p P dirparent w;
                let (fhandle, w) = p_open P targetpath O_CREAT 0x1A4 w;
                Some (0, if fhandle \<noteq> 0 then p_close P fhandle w else w) })
        else if ulType hdr = LOG_FILE_TYPE_RENAMEFILE
        then do { d \<leftarrow> c_string LOG_FILE_HEADER_SIZE iologfile;
                  targetoldpath \<leftarrow> cat1024 targetdir d;
                  Some (0, p_rename P targetoldpath targetpath w) }
        else if ulType hdr = LOG_FILE_TYPE_SOFTLINK
        then do { d \<leftarrow> c_string LOG_FILE_HEADER_SIZE iologfile;
                  targetoldpath \<leftarrow> cat1024 targetdir d;
                  Some (0, p_symlink P targetoldpath targetpath w) }
        else if ulType hdr = LOG_FILE_TYPE_WRITE
        then (let (fhandle, w) = p_open P targetpath O_WRONLY 0x1A4 w in
              if fhandle \<noteq> 0
              then let w = p_lseek P fhandle (sint (wrByteOffset hdr)) w;
                       n = unat (wrLength hdr)
                   in if length iologfile < LOG_FILE_HEADER_SIZE + n then None
                      else Some (0, p_close P fhandle
                                     (p_write P fhandle (take n (drop LOG_FILE_HEADER_SIZE iologfile)) w))
              else Some (0, w))
        else Some (0, w) })"

text \<open>
  \<open>dump\<close>: the text for a record, with its colours.
\<close>

definition colour :: "string \<Rightarrow> byte list" where
  "colour c = 0x1B # bytes c"

definition dec_int :: "int \<Rightarrow> byte list" where
  "dec_int i = (if i < 0 then 0x2D # digits (nat (- i)) else digits (nat i))"

definition dump :: "byte list \<Rightarrow> byte list option" where
  "dump iologfile =
     (if length iologfile < sizeof_LOG_FILE_HEADER then None
      else
        let hdr = dec_log_header (take sizeof_LOG_FILE_HEADER iologfile);
            path = c_string 32 iologfile; d = c_string LOG_FILE_HEADER_SIZE iologfile;
            top = replicate 49 0x2D @ [0xA] @ dec_int (sint (liSystemTime hdr)) @ [0xA];
            seqno = (\<lambda>c. colour c @ dec_int (sint (lhSeqNo hdr)) @ [0xA] @ colour c)
        in if ulType hdr = LOG_FILE_TYPE_DELETEFILE
           then do { p \<leftarrow> path; Some (top @ seqno ''[0;32;31m'' @ bytes ''DELETE FILE '' @ p @ [0xA]) }
           else if ulType hdr = LOG_FILE_TYPE_ENDOFFILE
           then do { p \<leftarrow> path; Some (top @ seqno ''[1;31m'' @ bytes ''DELETE FILE '' @ p @ [0xA]) }
           else if ulType hdr = LOG_FILE_TYPE_HARDLINK
           then do { p \<leftarrow> path; q \<leftarrow> d;
                     Some (top @ seqno ''[0;32;34m'' @ bytes ''CREATE HARDLINK '' @ p @ bytes '' > '' @ q @ [0xA]) }
           else if ulType hdr = LOG_FILE_TYPE_MOVEIN
           then do { p \<leftarrow> path; Some (top @ seqno ''[0;36m'' @ bytes ''MOVEIN '' @ p @ bytes '' > '' @ [0xA]) }
           else if ulType hdr = LOG_FILE_TYPE_NEWFILE
           then do { p \<leftarrow> path; Some (top @ seqno ''[0;35m'' @ bytes ''CREATE NEW FILE '' @ p @ bytes '' > '' @ [0xA]) }
           else if ulType hdr = LOG_FILE_TYPE_RENAMEFILE
           then do { p \<leftarrow> path; q \<leftarrow> d;
                     Some (top @ seqno ''[1;33m'' @ bytes ''RENAME '' @ p @ bytes ''  > '' @ q @ bytes '' '' @ [0xA]) }
           else if ulType hdr = LOG_FILE_TYPE_SOFTLINK
           then do { p \<leftarrow> path; q \<leftarrow> d;
                     Some (top @ seqno ''[0;32;34m'' @ bytes ''CREATE SOFTLINK '' @ p @ bytes '' > '' @ q @ [0xA]) }
           else if ulType hdr = LOG_FILE_TYPE_WRITE
           then do { p \<leftarrow> path;
                     Some (top @ seqno ''[0;32;32m'' @ dec_int (sint (liSystemTime hdr)) @ [0xA] @ colour ''[0;32;32m'' @
                       bytes ''Write '' @ p @ bytes '' > count '' @ dec_int (sint (wrLength hdr)) @ bytes ''. offset '' @
                       dec_int (sint (wrByteOffset hdr)) @ [0xA] @ bytes '' '') }
           else if ulType hdr = LOG_FILE_TYPE_STOP_INIT
           then Some (top @ seqno ''[0;33m'' @ replicate 18 0x2A @ bytes ''STOPINIT'' @ replicate 24 0x2A)
           else Some top)"

section \<open>The loop over the records\<close>

text \<open>\<open>sprintf (iologpath, "%s%d", dir, iolognum)\<close> into an array of 1024 bytes.\<close>

definition record_name :: "byte list \<Rightarrow> int \<Rightarrow> byte list option" where
  "record_name dir iolognum = cat1024 dir (dec_int iolognum)"

text \<open>
  The inner loop of both programs. It is left when the next file is not there, and by the
  \<open>break\<close>s: then the number is already the next one, while the path is still that of the record
  that could not be read, and the file stays open. \<open>act\<close> is what is done with the bytes of a
  record, \<open>del\<close> whether its file is removed afterwards.
\<close>

partial_function (option) record_loop ::
  "'w posix \<Rightarrow> (byte list \<Rightarrow> 'w \<Rightarrow> 'w option) \<Rightarrow> bool \<Rightarrow> byte list \<Rightarrow> byte list \<Rightarrow> int \<Rightarrow> nat option \<Rightarrow> 'w \<Rightarrow>
   (byte list \<times> int \<times> 'w) option" where
  "record_loop P act del dir logpath iolognum fp w =
     (case fp of
        None \<Rightarrow> Some (logpath, iolognum, w)
      | Some f \<Rightarrow>
          let iolognum = iolognum + 1;
              (b, w) = p_fread P f sizeof_LOG_FILE_HEADER w;
              n = unat (ulLogSize (dec_log_header b))
          in if length b \<noteq> sizeof_LOG_FILE_HEADER then Some (logpath, iolognum, w)
             else if \<not> p_malloc P n w then Some (logpath, iolognum, w)
             else let (buf, w) = p_fread P f n (p_rewind P f w)
                  in if length buf \<noteq> n then Some (logpath, iolognum, w)
                     else do {
                       w \<leftarrow> act buf w;
                       let w = p_fclose P f w;
                       let w = (if del then p_unlink P logpath w else w);
                       logpath \<leftarrow> record_name dir iolognum;
                       let (fp, w) = p_fopen P logpath w;
                       record_loop P act del dir logpath iolognum fp w })"

text \<open>The outer loop: \<open>n\<close> rounds; without \<open>-loop\<close> there is one.\<close>

fun record_rounds ::
  "'w posix \<Rightarrow> (byte list \<Rightarrow> 'w \<Rightarrow> 'w option) \<Rightarrow> bool \<Rightarrow> byte list \<Rightarrow> nat \<Rightarrow> byte list \<Rightarrow> int \<Rightarrow> 'w \<Rightarrow>
   (byte list \<times> int \<times> 'w) option" where
  "record_rounds P act del dir 0 logpath iolognum w = Some (logpath, iolognum, w)"
| "record_rounds P act del dir (Suc n) logpath iolognum w =
     do { let (fp, w) = p_fopen P logpath w;
          (logpath, iolognum, w) \<leftarrow> record_loop P act del dir logpath iolognum fp w;
          record_rounds P act del dir n logpath iolognum w }"

definition restore_main :: "'w posix \<Rightarrow> byte list \<Rightarrow> byte list \<Rightarrow> int \<Rightarrow> nat \<Rightarrow> 'w \<Rightarrow> (byte list \<times> int \<times> 'w) option" where
  "restore_main P dir targetdir iolognum rounds w =
     do { logpath \<leftarrow> record_name dir iolognum;
          targetdir \<leftarrow> cat1024 [] targetdir;
          record_rounds P (\<lambda>buf w. map_option snd (restore P buf targetdir w)) False dir rounds logpath iolognum w }"

definition analysis_main :: "'w posix \<Rightarrow> byte list \<Rightarrow> int \<Rightarrow> bool \<Rightarrow> nat \<Rightarrow> 'w \<Rightarrow> (byte list \<times> int \<times> 'w) option" where
  "analysis_main P dir iolognum loopdel rounds w =
     do { logpath \<leftarrow> record_name dir iolognum;
          record_rounds P (\<lambda>buf w. map_option (\<lambda>t. p_print P t w) (dump buf)) loopdel dir rounds logpath iolognum w }"

declare record_loop.simps [code]

end
