(* ===== verification/RestoreProps.thy ===== *)
theory RestoreProps
  imports Restore
begin

text \<open>
  What the program that repeats the operations makes of the records of the module, one record
  and a directory of records.
\<close>

section \<open>Directories\<close>

text \<open>The directories \<open>mkdir_p\<close> makes, from the outermost to the innermost.\<close>

definition ancestors :: "byte list \<Rightarrow> byte list list" where
  "ancestors p = map (\<lambda>i. take i p)
     (filter (\<lambda>i. i < length p \<and> p ! i = 0x2F \<or> i = length p \<and> last p \<noteq> 0x2F) [1..<Suc (length p)])"

fun make_all :: "'w posix \<Rightarrow> byte list list \<Rightarrow> 'w \<Rightarrow> int \<times> 'w" where
  "make_all P [] w = (0, w)"
| "make_all P (d # ds) w =
     (let ((ret, errno), w) = p_mkdir P d 0x1ED w
      in if ret < 0 \<and> errno \<noteq> EEXIST then (-1, w) else make_all P ds w)"

lemma mkdir_loop_all:
  "mkdir_loop P ptr i n w = make_all P (map (\<lambda>i. take i ptr) (filter (\<lambda>i. ptr ! i = 0x2F) [i..<i + n])) w"
proof (induction P ptr i n w rule: mkdir_loop.induct)
  case (2 P ptr i n w)
  have "[i..<i + Suc n] = i # [Suc i..<Suc i + n]" by (simp add: upt_conv_Cons)
  with 2 show ?case by (auto simp: Let_def split: prod.split)
qed simp

lemma mkdir_p_all:
  assumes "p \<noteq> []" and "p_malloc P (length p + 2) w"
  shows "mkdir_p P p w = Some (make_all P (ancestors p) w)"
proof -
  let ?ptr = "if last p \<noteq> 0x2F then p @ [0x2F, 0] else p @ [0, 0]"
  have "filter (\<lambda>i. ?ptr ! i = 0x2F) [1..<1 + length p] =
      filter (\<lambda>i. i < length p \<and> p ! i = 0x2F \<or> i = length p \<and> last p \<noteq> 0x2F) [1..<Suc (length p)]"
    by (rule filter_cong) (auto simp: nth_append less_Suc_eq)
  moreover have "map (\<lambda>i. take i ?ptr) xs = map (\<lambda>i. take i p) xs" if "\<forall>i\<in>set xs. i \<le> length p" for xs
    using that by auto
  ultimately have "map (\<lambda>i. take i ?ptr) (filter (\<lambda>i. ?ptr ! i = 0x2F) [1..<1 + length p]) = ancestors p"
    unfolding ancestors_def by (simp only:) auto
  then have "mkdir_loop P ?ptr 1 (length p) w = make_all P (ancestors p) w" by (simp only: mkdir_loop_all)
  then show ?thesis using assms by (simp add: mkdir_p_def Let_def)
qed

section \<open>One record\<close>

text \<open>
  What repeating an operation under the directory \<open>t\<close> means: the same operation on the path
  below \<open>t\<close>; a directory is made with its missing ancestors, and so is the place of a new file.
\<close>

fun repeated :: "'v posix \<Rightarrow> byte list \<Rightarrow> 'w vfs_op \<Rightarrow> byte list \<Rightarrow> 'v \<Rightarrow> 'v" where
  "repeated P t (Vfs_mkdir d mode) p v = snd (make_all P (ancestors (t @ p)) v)"
| "repeated P t (Vfs_create d i mode nd) p v =
     (let v = snd (make_all P (ancestors (up_to_slash (t @ p))) v); (f, v) = p_open P (t @ p) O_CREAT 0x1A4 v
      in if f \<noteq> 0 then p_close P f v else v)"
| "repeated P t (Vfs_unlink d) p v = p_unlink P (t @ p) v"
| "repeated P t (Vfs_rmdir d) p v = p_rmdir P (t @ p) v"
| "repeated P t (Vfs_write file buf count pos) p v =
     (let (f, v) = p_open P (t @ p) O_WRONLY 0x1A4 v
      in if f \<noteq> 0 then p_close P f (p_write P f buf (p_lseek P f (sint pos) v)) else v)"
| "repeated P t _ p v = v"

fun two_paths :: "'w vfs_op \<Rightarrow> bool" where
  "two_paths (Vfs_rename old new) = True"
| "two_paths (Vfs_link old new) = True"
| "two_paths (Vfs_symlink pl d n) = True"
| "two_paths _ = False"

lemma image_header:
  "wf_log l \<Longrightarrow> dec_log_header (take sizeof_LOG_FILE_HEADER (log_image l)) = hdr l \<and> sizeof_LOG_FILE_HEADER \<le> length (log_image l) \<and>
     drop LOG_FILE_HEADER_SIZE (log_image l) = Data l"
  using log_header.width [of "hdr l"] log_header.dec_append [of "hdr l"]
  by (simp add: wf_log_def log_image_def sizeof_log_defs)

lemma image_path:
  assumes "wszFilePath (hdr l) = stored_path p" and "strlen p < 260"
  shows "c_string 32 (log_image l) = Some (cstr p)"
proof -
  have "drop 32 (log_image l) = stored_path p @ drop 292 (log_image l)"
    using length_stored_path [of p]
    by (simp add: log_image_def enc_log_header_def assms(1) FILEREPL_MAX_PATH_def)
  moreover have "stored_path p = cstr p @ 0 # replicate (259 - strlen p) 0"
    using assms(2) by (simp add: stored_path_def strlen_def pad_def FILEREPL_MAX_PATH_def flip: replicate_Suc)
  ultimately show ?thesis
    using cstr_append_NUL [OF cstr_no_NUL [of p]] by (simp add: c_string_def)
qed

lemma op_record_path:
  assumes "op_good op ret" and "\<not> two_paths op"
  shows "wszFilePath (hdr (op_record op ret la (p, q))) = stored_path p"
  using assms by (cases op) (auto simp: op_record_def plain_record_def write_record_def log_header_def)

lemma up_to_slash_ne: "0x2F \<in> set p \<Longrightarrow> up_to_slash p \<noteq> []"
  by (auto simp: up_to_slash_def dropWhile_eq_Nil_conv)

lemma dir_parent_run:
  "0x2F \<in> set p \<Longrightarrow> p_malloc P (length p + 1) v \<Longrightarrow> dir_parent P p d v = Some (0, up_to_slash p)"
  by (auto simp: dir_parent_def up_to_slash_def)

lemma restore_repeats:
  assumes "op_good op ret" and "\<not> two_paths op" and "op_fits op" and "strlen p < 260" and "length t + strlen p < 1024"
    and "0x2F \<in> set (t @ cstr p)" and "\<And>n v. p_malloc P n v"
  shows "restore P (log_image (op_record op ret la (p, q))) t v = Some (0, repeated P t op (cstr p) v)"
proof -
  let ?l = "op_record op ret la (p, q)" and ?t = "t @ cstr p"
  have ne: "?t \<noteq> []" "up_to_slash ?t \<noteq> []" using assms(6) up_to_slash_ne [OF assms(6)] by auto
  have "wf_log ?l" using op_record_full(1) [OF assms(3)] by (simp add: full_size_def)
  note h = image_header [OF this] length_log_image [OF this] image_path [OF op_record_path [OF assms(1,2)] assms(4)]
  have cat: "cat1024 t (cstr p) = Some ?t" using assms(5) by (simp add: cat1024_def strlen_def)
  have run: "mkdir_p P r v' = Some (make_all P (ancestors r) v')" if "r \<noteq> []" for r v'
    by (rule mkdir_p_all [OF that assms(7)])
  have u: "unat (of_nat (length b) :: u32) = length b" if "length b + 1024 < 2 ^ 31" for b :: "byte list"
    by (rule unat_u32) (use that in simp)
  show ?thesis
    using assms(1-3) h cat
    by (cases op) (simp_all add: restore_def op_record_def plain_record_def write_record_def log_header_def log_types
        assms(7) run [OF ne(1)] run [OF ne(2)] dir_parent_run [OF assms(6,7)] u LOG_FILE_HEADER_SIZE_def Let_def split_beta)
qed

text \<open>
  What was done to a monitored path is repeated on the copy: a successful operation with one
  path, followed by a round of the writer, leaves a record file from which the restore program
  repeats that operation, on the same path under its target directory.
\<close>

theorem operation_is_repeated:
  assumes "disk_laws K store hnd" and "rbtree_laws K" and "config_inv s" and "link_inv s" and "queue_inv s"
    and "queue_of s = []" and "\<not> driver_off s" and "\<forall>a\<ge>next_blk s. k_alloc K a"
    and "op_paths op = Some (p, q)" and "\<not> bypassed op" and "op_fits op"
    and "monitored op (p, q) s = Some (Some a)" and "charged a e pm m s" and "run (world s) = (ret, w)"
    and "log_path (cstr (wcsSetCacheDir m)) (ullSetSeqNo m) \<noteq> rtb_cnf"
    and "store w (log_path (cstr (wcsSetCacheDir m)) (ullSetSeqNo m)) = []"
    and "op_good op ret" and "\<not> two_paths op" and "strlen p < 260" and "length t + strlen p < 1024"
    and "0x2F \<in> set (t @ cstr p)" and "\<And>n v. p_malloc P n v"
  shows "\<exists>s1 s2. hooked K run op s = Some (ret, s1) \<and> thread_iowrite K 0 s1 = Some (0, s2) \<and>
    restore P (store (world s2) (log_path (cstr (wcsSetCacheDir m)) (ullSetSeqNo m))) t v = Some (0, repeated P t op (cstr p) v)"
proof -
  obtain s1 s2 where 1: "hooked K run op s = Some (ret, s1)" "thread_iowrite K 0 s1 = Some (0, s2)"
      "store (world s2) (log_path (cstr (wcsSetCacheDir m)) (ullSetSeqNo m)) = log_image (op_record op ret (op_args K s e m) (p, q))"
    using operation_written [where store = store and run = run and ret = ret and w = w, OF assms(1-16)] by blast
  show ?thesis
    by (intro exI conjI, rule 1(1), rule 1(2)) (simp only: 1(3) restore_repeats [OF assms(17,18,11,19-22)])
qed

text \<open>
  C36. A rename, a hard link and a symbolic link are not repeated: the module stores their second
  path without its NUL as the last bytes of the record, and the programs that read the record
  take it for a string, past the end of the buffer.
\<close>

theorem second_path_is_not_terminated:
  assumes "two_paths op" and "op_good op ret" and "op_fits op"
  shows "restore P (log_image (op_record op ret la (p, q))) t v = None \<and> dump (log_image (op_record op ret la (p, q))) = None"
proof -
  let ?l = "op_record op ret la (p, q)"
  have data: "0 \<notin> set (take 260 (cstr x))" for x by (meson cstr_no_NUL in_set_takeD)
  have ty: "ulType (hdr ?l) \<in> {LOG_FILE_TYPE_RENAMEFILE, LOG_FILE_TYPE_HARDLINK, LOG_FILE_TYPE_SOFTLINK}" "0 \<notin> set (Data ?l)"
    using assms(1,2) data by (cases op; simp add: op_record_def two_record_def log_header_def)+
  have wf: "wf_log ?l" using op_record_full(1) [OF assms(3)] by (simp add: full_size_def)
  have none: "c_string LOG_FILE_HEADER_SIZE (log_image ?l) = None" using image_header [OF wf] ty(2) by (simp add: c_string_def)
  from ty(1) consider "ulType (hdr ?l) = 6" | "ulType (hdr ?l) = 8" | "ulType (hdr ?l) = 9" by (auto simp: log_types)
  then show ?thesis
    by cases (use image_header [OF wf] none in \<open>simp_all add: restore_def dump_def log_types LOG_FILE_TYPE_ENDOFFILE_def
      LOG_FILE_TYPE_MOVEIN_def Let_def\<close>)
qed

section \<open>A directory of records\<close>

text \<open>
  The files of the world: \<open>content v p\<close>, \<open>None\<close> when there is no such file; \<open>opn f c v\<close>: \<open>f\<close> is
  open on the content \<open>c\<close>. Reading is from the start. \<open>act\<close>, what is done with a record, leaves
  the record files alone and shows in \<open>view\<close> only, as \<open>g\<close>.
\<close>

definition file_laws :: "'v posix \<Rightarrow> ('v \<Rightarrow> byte list \<Rightarrow> byte list option) \<Rightarrow> (nat \<Rightarrow> byte list \<Rightarrow> 'v \<Rightarrow> bool) \<Rightarrow> ('v \<Rightarrow> 'x) \<Rightarrow> bool" where
  "file_laws P content opn view \<longleftrightarrow>
     (\<forall>p v x v'. p_fopen P p v = (x, v') \<longrightarrow> content v' = content v \<and> view v' = view v \<and>
        (case content v p of None \<Rightarrow> x = None | Some c \<Rightarrow> \<exists>f. x = Some f \<and> opn f c v')) \<and>
     (\<forall>f c n v. opn f c v \<longrightarrow> (\<exists>v'. p_fread P f n v = (take n c, v') \<and> opn f c (p_rewind P f v') \<and>
        content v' = content v \<and> view v' = view v)) \<and>
     (\<forall>f v. content (p_rewind P f v) = content v \<and> view (p_rewind P f v) = view v) \<and>
     (\<forall>f v. content (p_fclose P f v) = content v \<and> view (p_fclose P f v) = view v) \<and>
     (\<forall>n v. p_malloc P n v)"

definition reader_laws ::
  "'v posix \<Rightarrow> (byte list \<Rightarrow> 'v \<Rightarrow> 'v option) \<Rightarrow> ('v \<Rightarrow> byte list \<Rightarrow> byte list option) \<Rightarrow> (nat \<Rightarrow> byte list \<Rightarrow> 'v \<Rightarrow> bool) \<Rightarrow>
   ('v \<Rightarrow> 'x) \<Rightarrow> (byte list \<Rightarrow> 'x \<Rightarrow> 'x) \<Rightarrow> bool" where
  "reader_laws P act content opn view g \<longleftrightarrow> file_laws P content opn view \<and>
     (\<forall>b v v'. act b v = Some v' \<longrightarrow> content v' = content v \<and> view v' = g b (view v))"

lemma file_lawsD:
  assumes "file_laws P content opn view"
  shows "p_fopen P p v = (x, v') \<Longrightarrow> content v' = content v \<and> view v' = view v \<and>
        (case content v p of None \<Rightarrow> x = None | Some c \<Rightarrow> \<exists>f. x = Some f \<and> opn f c v')"
    and "opn f c v \<Longrightarrow> \<exists>v'. p_fread P f n v = (take n c, v') \<and> opn f c (p_rewind P f v') \<and> content v' = content v \<and> view v' = view v"
    and "content (p_rewind P f v) = content v" "view (p_rewind P f v) = view v"
    and "content (p_fclose P f v) = content v" "view (p_fclose P f v) = view v"
    and "p_malloc P n v"
  using assms unfolding file_laws_def by blast+

text \<open>\<open>does act content view f b\<close>: the action succeeds on the record \<open>b\<close>, and all it does is \<open>f\<close>.\<close>

definition does ::
  "(byte list \<Rightarrow> 'v \<Rightarrow> 'v option) \<Rightarrow> ('v \<Rightarrow> byte list \<Rightarrow> byte list option) \<Rightarrow> ('v \<Rightarrow> 'x) \<Rightarrow> ('x \<Rightarrow> 'x) \<Rightarrow> byte list \<Rightarrow> bool" where
  "does act content view f b \<longleftrightarrow> (\<forall>v. \<exists>v'. act b v = Some v' \<and> content v' = content v \<and> view v' = f (view v))"

lemma reader_lawsD:
  assumes "reader_laws P act content opn view g"
  shows "file_laws P content opn view" and "\<forall>v. act b v \<noteq> None \<Longrightarrow> does act content view (g b) b"
  using assms unfolding reader_laws_def does_def by (blast, meson not_None_eq)

text \<open>A record that announces its size, in the directory under its number.\<close>

definition record_bytes :: "byte list \<Rightarrow> bool" where
  "record_bytes b \<longleftrightarrow> sizeof_LOG_FILE_HEADER \<le> length b \<and>
     unat (ulLogSize (dec_log_header (take sizeof_LOG_FILE_HEADER b))) = length b"

lemma record_step:
  assumes laws: "file_laws P content opn view" and f: "opn f b v" and b: "record_bytes b" and act: "does act content view f' b"
    and nm: "record_name dir (num + 1) = Some nxt"
  shows "\<exists>fp v'. record_loop P act False dir path num (Some f) v = record_loop P act False dir nxt (num + 1) fp v' \<and>
    content v' = content v \<and> view v' = f' (view v) \<and>
    (case content v nxt of None \<Rightarrow> fp = None | Some c \<Rightarrow> \<exists>f. fp = Some f \<and> opn f c v')"
proof -
  note L = file_lawsD [OF laws]
  obtain v1 where v1: "p_fread P f sizeof_LOG_FILE_HEADER v = (take sizeof_LOG_FILE_HEADER b, v1)"
      "opn f b (p_rewind P f v1)" "content v1 = content v" "view v1 = view v" using L(2) [OF f] by blast
  obtain v2 where v2: "p_fread P f (length b) (p_rewind P f v1) = (b, v2)" "content v2 = content v" "view v2 = view v"
    using L(2) [OF v1(2), of "length b"] L(3,4) v1(3,4) by auto
  obtain v3 where v3: "act b v2 = Some v3" "content v3 = content v" "view v3 = f' (view v)"
    using act v2 unfolding does_def by metis
  obtain fp v4 where v4: "p_fopen P nxt (p_fclose P f v3) = (fp, v4)" by fastforce
  have "record_loop P act False dir path num (Some f) v = record_loop P act False dir nxt (num + 1) fp v4"
    by (subst record_loop.simps) (use b v1 v2 v3 v4 nm L(7) in \<open>simp add: record_bytes_def Let_def\<close>)
  then show ?thesis using L(1) [OF v4] v3 L(5,6) by auto
qed

text \<open>The records \<open>bs\<close> are in the files from number \<open>num\<close> on, and the file after them is missing.\<close>

fun in_files :: "(byte list \<Rightarrow> byte list option) \<Rightarrow> byte list \<Rightarrow> int \<Rightarrow> byte list list \<Rightarrow> bool" where
  "in_files files dir num [] = (\<exists>p. record_name dir num = Some p \<and> files p = None)"
| "in_files files dir num (b # bs) =
     (\<exists>p. record_name dir num = Some p \<and> files p = Some b \<and> record_bytes b \<and> in_files files dir (num + 1) bs)"

lemma in_files_name: "in_files files dir num bs \<Longrightarrow> \<exists>p. record_name dir num = Some p"
  by (cases bs) auto

text \<open>The records are handled in turn, each with its own effect.\<close>

lemma record_loop_all:
  assumes laws: "file_laws P content opn view"
  shows "list_all2 (does act content view) fs bs \<Longrightarrow> in_files (content v) dir num bs \<Longrightarrow> record_name dir num = Some path \<Longrightarrow>
    (case content v path of None \<Rightarrow> fp = None | Some c \<Rightarrow> \<exists>f. fp = Some f \<and> opn f c v) \<Longrightarrow>
    \<exists>path' v'. record_loop P act False dir path num fp v = Some (path', num + int (length bs), v') \<and>
      record_name dir (num + int (length bs)) = Some path' \<and> content v' = content v \<and> view v' = fold (\<lambda>f. f) fs (view v)"
proof (induction arbitrary: num path fp v rule: list_all2_induct)
  case Nil
  then show ?case by (subst record_loop.simps) auto
next
  case (Cons g fs b bs)
  then obtain f where f: "fp = Some f" "opn f b v" and b: "record_bytes b" by auto
  obtain nxt where nxt: "record_name dir (num + 1) = Some nxt" using Cons.prems(1) in_files_name [of "content v" dir "num + 1" bs] by auto
  from record_step [OF laws f(2) b Cons.hyps(1) nxt, where path = path]
  obtain fp' v' where s: "record_loop P act False dir path num (Some f) v = record_loop P act False dir nxt (num + 1) fp' v'"
      "content v' = content v" "view v' = g (view v)"
      "case content v nxt of None \<Rightarrow> fp' = None | Some c \<Rightarrow> \<exists>f. fp' = Some f \<and> opn f c v'" by auto
  have "in_files (content v') dir (num + 1) bs" using Cons.prems(1) s(2) by auto
  from Cons.IH [OF this nxt] s show ?case by (auto simp: f(1) add.assoc)
qed

lemma record_round_all:
  assumes laws: "file_laws P content opn view" and "in_files (content v) dir num bs" and "list_all2 (does act content view) fs bs"
    and "record_name dir num = Some path"
  shows "\<exists>path' v'. record_rounds P act False dir 1 path num v = Some (path', num + int (length bs), v') \<and>
      record_name dir (num + int (length bs)) = Some path' \<and> content v' = content v \<and> view v' = fold (\<lambda>f. f) fs (view v)"
proof -
  obtain fp v1 where v1: "p_fopen P path v = (fp, v1)" by fastforce
  note o1 = file_lawsD(1) [OF laws v1]
  have "in_files (content v1) dir num bs" using assms(2) o1 by simp
  from record_loop_all [OF laws assms(3) this assms(4), of fp] o1
  show ?thesis by (auto simp: v1)
qed

text \<open>
  One round of the restore loop works through the records in the order of their numbers, from
  the one it is given to the last before the first missing file, each exactly once, and ends at
  the number after them.
\<close>

theorem records_handled_in_order:
  assumes "reader_laws P act content opn view g" and "in_files (content v) dir num bs" and "\<forall>b\<in>set bs. \<forall>v. act b v \<noteq> None"
    and "record_name dir num = Some path"
  shows "\<exists>path' v'. record_rounds P act False dir 1 path num v = Some (path', num + int (length bs), v') \<and>
      record_name dir (num + int (length bs)) = Some path' \<and> content v' = content v \<and> view v' = fold g bs (view v)"
proof -
  have "list_all2 (does act content view) (map g bs) bs"
    using reader_lawsD(2) [OF assms(1)] assms(3) by (simp add: list_all2_map1 list.rel_refl_strong)
  from record_round_all [OF reader_lawsD(1) [OF assms(1)] assms(2) this assms(4)] show ?thesis by (simp only: fold_map comp_def)
qed

lemma in_files_end: "in_files files dir num bs \<Longrightarrow> record_name dir (num + int (length bs)) = Some p \<Longrightarrow> files p = None"
  by (induction bs arbitrary: num) (auto simp: add.assoc)

lemma missing_rounds:
  assumes "file_laws P content opn view"
  shows "content v path = None \<Longrightarrow>
    \<exists>v'. record_rounds P act del dir n path num v = Some (path, num, v') \<and> content v' = content v \<and> view v' = view v"
proof (induction n arbitrary: v)
  case (Suc n)
  obtain fp v1 where v1: "p_fopen P path v = (fp, v1)" by fastforce
  with file_lawsD(1) [OF assms v1] Suc.prems have "fp = None" and keep: "content v1 = content v" "view v1 = view v" by simp_all
  with v1 Suc.IH [of v1] Suc.prems show ?case by (auto simp: record_loop.simps)
qed simp

text \<open>
  C15. A number without a record stops the program that repeats the operations for good: however
  many rounds it makes, and whatever records there are behind, it handles the records before the
  first missing file, each once and in the order of their numbers, and stays there.
\<close>

theorem missing_record_stops_replay:
  assumes "reader_laws P act content opn view g" and "in_files (content v) dir num bs" and "\<forall>b\<in>set bs. \<forall>v. act b v \<noteq> None"
    and "record_name dir num = Some path"
  shows "\<exists>path' v'. record_rounds P act False dir (Suc n) path num v = Some (path', num + int (length bs), v') \<and>
      record_name dir (num + int (length bs)) = Some path' \<and> view v' = fold g bs (view v)"
proof -
  note laws = reader_lawsD(1) [OF assms(1)]
  have "list_all2 (does act content view) (map g bs) bs"
    using reader_lawsD(2) [OF assms(1)] assms(3) by (simp add: list_all2_map1 list.rel_refl_strong)
  from record_round_all [OF laws assms(2) this assms(4)] obtain path' v1
    where 1: "record_rounds P act False dir 1 path num v = Some (path', num + int (length bs), v1)"
      "record_name dir (num + int (length bs)) = Some path'" "content v1 = content v" "view v1 = fold g bs (view v)"
    by (auto simp: fold_map comp_def simp del: record_rounds.simps One_nat_def)
  have "content v1 path' = None" using in_files_end [OF assms(2) 1(2)] 1(3) by simp
  from missing_rounds [OF laws this, of act False dir n "num + int (length bs)"]
  show ?thesis using 1 by (auto simp: bind_eq_Some_conv split: prod.splits)
qed

text \<open>
  C37. With \<open>-loop\<close>, a record that is looked at while its file is still too short makes the
  program skip the record after it: the number moves on but the path does not, so once the
  record is complete and done the next one looked for is two further on.
\<close>

theorem short_record_skips_next:
  assumes "reader_laws P act content opn view g" and "record_name dir num = Some path"
    and "content v path = Some c" and "length c < sizeof_LOG_FILE_HEADER"
    and "record_bytes b" and "\<forall>v. act b v \<noteq> None" and "record_name dir (num + 2) = Some path2"
  shows "\<exists>v1. record_rounds P act False dir 1 path num v = Some (path, num + 1, v1) \<and> view v1 = view v \<and>
    (\<forall>v2. content v2 path = Some b \<longrightarrow> content v2 path2 = None \<longrightarrow>
      (\<exists>v3. record_rounds P act False dir 1 path (num + 1) v2 = Some (path2, num + 2, v3) \<and> view v3 = g b (view v2)))"
proof -
  note laws = reader_lawsD(1) [OF assms(1)]
  note L = file_lawsD [OF laws]
  obtain fp va where va: "p_fopen P path v = (fp, va)" by fastforce
  with L(1) [OF va] assms(3) obtain f where f: "fp = Some f" "opn f c va" "view va = view v" by auto
  obtain vb where vb: "p_fread P f sizeof_LOG_FILE_HEADER va = (take sizeof_LOG_FILE_HEADER c, vb)" "view vb = view va"
    using L(2) [OF f(2)] by blast
  have 1: "record_rounds P act False dir 1 path num v = Some (path, num + 1, vb)"
    using assms(4) by (simp add: va f(1), subst record_loop.simps) (simp add: vb Let_def)
  have "\<exists>v3. record_rounds P act False dir 1 path (num + 1) v2 = Some (path2, num + 2, v3) \<and> view v3 = g b (view v2)"
    if c2: "content v2 path = Some b" "content v2 path2 = None" for v2
  proof -
    obtain fp vc where vc: "p_fopen P path v2 = (fp, vc)" by fastforce
    with L(1) [OF vc] c2 obtain f where f: "fp = Some f" "opn f b vc" "view vc = view v2" "content vc = content v2" by auto
    have nm: "record_name dir (num + 1 + 1) = Some path2" using assms(7) by (simp add: add.assoc)
    from record_step [OF laws f(2) assms(5) reader_lawsD(2) [OF assms(1,6)] nm, where path = path] obtain fp' v'
      where "record_loop P act False dir path (num + 1) (Some f) vc = record_loop P act False dir path2 (num + 1 + 1) fp' v'"
        "view v' = g b (view v2)" "fp' = None" using c2 f by auto
    then show ?thesis using vc f(1) by (auto simp: add.assoc record_loop.simps)
  qed
  with 1 vb(2) f(3) show ?thesis by (intro exI [of _ vb]) simp
qed

section \<open>A small world\<close>

text \<open>The files, the content of the open one, and what was done, as a trace of paths and texts.\<close>

type_synonym tracer = "(byte list \<Rightarrow> byte list option) \<times> byte list \<times> byte list list"

definition traced :: "byte list \<Rightarrow> tracer \<Rightarrow> tracer" where
  "traced x w = (fst w, fst (snd w), snd (snd w) @ [x])"

definition demo_posix :: "tracer posix" where
  "demo_posix = \<lparr>p_mkdir = \<lambda>d m w. ((0, 0), traced d w), p_rmdir = traced, p_unlink = traced, p_link = \<lambda>p q. traced q,
     p_rename = \<lambda>p q. traced q, p_symlink = \<lambda>p q. traced q, p_open = \<lambda>p fl m w. (4, traced p w), p_lseek = \<lambda>f n w. w,
     p_write = \<lambda>f. traced, p_close = \<lambda>f w. w,
     p_fopen = \<lambda>p w. (case fst w p of None \<Rightarrow> (None, w) | Some c \<Rightarrow> (Some 3, (fst w, c, snd (snd w)))),
     p_fread = \<lambda>f n w. (take n (fst (snd w)), w), p_rewind = \<lambda>f w. w, p_fclose = \<lambda>f w. w, p_malloc = \<lambda>n w. True,
     p_print = traced\<rparr>"

definition demo_dump :: "byte list \<Rightarrow> tracer \<Rightarrow> tracer option" where
  "demo_dump b w = map_option (\<lambda>t. p_print demo_posix t w) (dump b)"

lemma demo_reader:
  "reader_laws demo_posix demo_dump fst (\<lambda>f c w. fst (snd w) = c) (\<lambda>w. snd (snd w)) (\<lambda>b x. x @ [the (dump b)])"
  by (auto simp: reader_laws_def file_laws_def demo_posix_def demo_dump_def traced_def split: option.splits)

definition demo_bytes_of :: "byte list" where
  "demo_bytes_of = log_image (op_record demo_mkdir 0 demo_args (bytes ''/data/x'', []))"

lemma demo_record:
  "record_bytes demo_bytes_of" "\<forall>w. demo_dump demo_bytes_of w \<noteq> None"
proof -
  let ?l = "op_record demo_mkdir 0 demo_args (bytes ''/data/x'', [])"
  have full: "full_size ?l" by (rule op_record_full(1) [OF demo_mkdir_facts(3)])
  then have wf: "wf_log ?l" by (simp add: full_size_def)
  show "record_bytes demo_bytes_of"
    using full image_header [OF wf] by (simp add: record_bytes_def demo_bytes_of_def full_size_def)
  have "wszFilePath (hdr ?l) = stored_path (bytes ''/data/x'')" by (rule op_record_path) (simp_all add: demo_mkdir_def)
  from image_path [OF this] have "c_string 32 (log_image ?l) = Some (cstr (bytes ''/data/x''))"
    by (simp add: strlen_def bytes_data_x cstr_Cons)
  moreover have "ulType (hdr ?l) = 4"
    by (simp add: op_record_def demo_mkdir_def plain_record_def log_header_def log_types)
  ultimately have "dump demo_bytes_of \<noteq> None"
    using image_header [OF wf] by (simp add: dump_def demo_bytes_of_def log_types LOG_FILE_TYPE_ENDOFFILE_def LOG_FILE_TYPE_MOVEIN_def Let_def)
  then show "\<forall>w. demo_dump demo_bytes_of w \<noteq> None" by (auto simp: demo_dump_def)
qed

lemma demo_names:
  "record_name (bytes ''/log/'') 7 = Some (bytes ''/log/7'')" "record_name (bytes ''/log/'') 8 = Some (bytes ''/log/8'')"
  "record_name (bytes ''/log/'') 9 = Some (bytes ''/log/9'')" "bytes ''/log/7'' \<noteq> bytes ''/log/8''" "bytes ''/log/7'' \<noteq> bytes ''/log/9''"
  by (simp_all add: record_name_def cat1024_def dec_int_def digits.simps bytes_def)

theorem records_handled_in_order_witness:
  "\<exists>path w. record_rounds demo_posix demo_dump False (bytes ''/log/'') 1 (bytes ''/log/7'') 7
      ([bytes ''/log/7'' \<mapsto> demo_bytes_of], [], []) = Some (path, 8, w) \<and> snd (snd w) = [the (dump demo_bytes_of)]"
  using records_handled_in_order [OF demo_reader, of "([bytes ''/log/7'' \<mapsto> demo_bytes_of], [], [])" "bytes ''/log/''" 7 "[demo_bytes_of]"]
    demo_record demo_names by fastforce

theorem missing_record_stops_replay_witness:
  "\<exists>path w. record_rounds demo_posix demo_dump False (bytes ''/log/'') 5 (bytes ''/log/7'') 7
      ([bytes ''/log/7'' \<mapsto> demo_bytes_of, bytes ''/log/9'' \<mapsto> demo_bytes_of], [], []) = Some (path, 8, w) \<and>
    snd (snd w) = [the (dump demo_bytes_of)]"
proof -
  let ?v = "([bytes ''/log/7'' \<mapsto> demo_bytes_of, bytes ''/log/9'' \<mapsto> demo_bytes_of], [], []) :: tracer"
  have "bytes ''/log/8'' \<noteq> bytes ''/log/9''" by (simp add: bytes_def)
  then have "in_files (fst ?v) (bytes ''/log/'') 7 [demo_bytes_of]" using demo_names demo_record(1) by auto
  moreover have "\<forall>b\<in>set [demo_bytes_of]. \<forall>w. demo_dump b w \<noteq> None" using demo_record(2) by simp
  ultimately have "\<exists>path w. record_rounds demo_posix demo_dump False (bytes ''/log/'') (Suc 4) (bytes ''/log/7'') 7 ?v =
        Some (path, 7 + int (length [demo_bytes_of]), w) \<and>
      record_name (bytes ''/log/'') (7 + int (length [demo_bytes_of])) = Some path \<and>
      snd (snd w) = fold (\<lambda>b x. x @ [the (dump b)]) [demo_bytes_of] (snd (snd ?v))"
    by (rule missing_record_stops_replay [OF demo_reader _ _ demo_names(1)])
  moreover have "Suc 4 = 5" "7 + int (length [demo_bytes_of]) = 8"
      "fold (\<lambda>b x. x @ [the (dump b)]) [demo_bytes_of] (snd (snd ?v)) = [the (dump demo_bytes_of)]" by simp_all
  ultimately show ?thesis by (simp only:) blast
qed

theorem short_record_skips_next_witness:
  "\<exists>w1. record_rounds demo_posix demo_dump False (bytes ''/log/'') 1 (bytes ''/log/7'') 7
      ([bytes ''/log/7'' \<mapsto> []], [], []) = Some (bytes ''/log/7'', 8, w1) \<and>
    (\<exists>w3. record_rounds demo_posix demo_dump False (bytes ''/log/'') 1 (bytes ''/log/7'') 8
        ([bytes ''/log/7'' \<mapsto> demo_bytes_of, bytes ''/log/8'' \<mapsto> demo_bytes_of], [], []) = Some (bytes ''/log/9'', 9, w3) \<and>
      snd (snd w3) = [the (dump demo_bytes_of)])"
proof -
  let ?v2 = "([bytes ''/log/7'' \<mapsto> demo_bytes_of, bytes ''/log/8'' \<mapsto> demo_bytes_of], [], []) :: tracer"
  have "fst ?v2 (bytes ''/log/7'') = Some demo_bytes_of" "fst ?v2 (bytes ''/log/9'') = None"
    using demo_names(4,5) by (simp_all, simp add: bytes_def)
  moreover have "length ([] :: byte list) < sizeof_LOG_FILE_HEADER" by (simp add: sizeof_LOG_FILE_HEADER_def)
  moreover have "record_name (bytes ''/log/'') (7 + 2) = Some (bytes ''/log/9'')" using demo_names(3) by simp
  ultimately obtain w1 where
      "record_rounds demo_posix demo_dump False (bytes ''/log/'') 1 (bytes ''/log/7'') 7 ([bytes ''/log/7'' \<mapsto> []], [], []) =
        Some (bytes ''/log/7'', 7 + 1, w1)"
      "\<exists>w3. record_rounds demo_posix demo_dump False (bytes ''/log/'') 1 (bytes ''/log/7'') (7 + 1) ?v2 =
        Some (bytes ''/log/9'', 7 + 2, w3) \<and> snd (snd w3) = snd (snd ?v2) @ [the (dump demo_bytes_of)]"
    using short_record_skips_next [OF demo_reader demo_names(1) _ _ demo_record, of "([bytes ''/log/7'' \<mapsto> []], [], [])" "[]"]
    by (metis fst_conv fun_upd_same)
  then show ?thesis by (cases w1) (simp del: record_rounds.simps One_nat_def)
qed

theorem second_path_is_not_terminated_witness:
  "restore demo_posix (log_image (op_record (Vfs_rename (Some demo_dentry) (Some demo_dentry) :: byte list vfs_op) 0 demo_args
      (bytes ''/data/x'', bytes ''/data/y''))) [] (Map.empty, [], []) = None"
  using second_path_is_not_terminated [where op = "Vfs_rename (Some demo_dentry) (Some demo_dentry) :: byte list vfs_op" and ret = 0
    and P = demo_posix and v = "(Map.empty, [], [])"] by simp

lemma demo_repeated:
  "repeated demo_posix (bytes ''/copy'') (Vfs_mkdir d mode) (bytes ''/data/x'') (Map.empty, [], []) =
     (Map.empty, [], [bytes ''/copy'', bytes ''/copy/data'', bytes ''/copy/data/x''])"
  by (simp add: ancestors_def demo_posix_def traced_def bytes_def upt_rec)

theorem operation_is_repeated_witness:
  "\<exists>s1 s2. hooked disk_kernel (\<lambda>w. (0, w)) (Vfs_mkdir (Some demo_dentry) 0x1ED) (disk_state (\<lambda>_. [], [])) = Some (0, s1) \<and>
    thread_iowrite disk_kernel 0 s1 = Some (0, s2) \<and>
    restore demo_posix (fst (world s2) (bytes ''/log/7'')) (bytes ''/copy'') (Map.empty, [], []) =
      Some (0, (Map.empty, [], [bytes ''/copy'', bytes ''/copy/data'', bytes ''/copy/data/x'']))"
proof -
  have c: "cstr (bytes ''/data/x'') = bytes ''/data/x''" by (simp add: cstr_Cons bytes_data_x)
  have "strlen (bytes ''/data/x'') < 260" "length (bytes ''/copy'') + strlen (bytes ''/data/x'') < 1024"
      "0x2F \<in> set (bytes ''/copy'' @ cstr (bytes ''/data/x''))" "\<And>n v. p_malloc demo_posix n v"
    by (simp_all add: strlen_def c demo_posix_def) (simp_all add: bytes_def)
  then show ?thesis
    using operation_is_repeated [OF disk_kernel_laws(1,2) disk_state_inv(1-3) _ disk_state_inv(4) _ disk_mkdir(1) _ _ disk_mkdir(2)
        disk_charged, unfolded disk_path, where run = "\<lambda>w. (0, w)" and ret = 0 and w = "(\<lambda>_. [], [])" and P = demo_posix
        and t = "bytes ''/copy''" and v = "(Map.empty, [], [])"]
    by (simp add: disk_kernel_laws(3) disk_path(2) c demo_repeated del: repeated.simps)
qed

end
