(* ===== verification/History.thy ===== *)
theory History
  imports System RestoreProps
begin

text \<open>
  From the operations on a backup set to the copy: whatever the order of operations and of the
  steps of the writer, the records end up in their files under consecutive numbers, and the
  program that repeats them goes through them from the first to the last.
\<close>

section \<open>Recording changes no lookup\<close>

lemma mi_search_keys:
  "(\<And>b. map_option wcsMonitorFile (h b) = map_option wcsMonitorFile (h' b)) \<Longrightarrow> mi_search h t k = mi_search h' t k"
proof (induction t)
  case (Node l a r)
  have "map_option wcsMonitorFile (h a) = map_option wcsMonitorFile (h' a)" by (rule Node.prems)
  with Node show ?case by (cases "h a"; cases "h' a") (simp_all add: Let_def)
qed simp

lemma ms_search_keys:
  "(\<And>b. map_option guidSetId (h b) = map_option guidSetId (h' b)) \<Longrightarrow> ms_search h t k = ms_search h' t k"
proof (induction t)
  case (Node l a r)
  have "map_option guidSetId (h a) = map_option guidSetId (h' a)" by (rule Node.prems)
  with Node show ?case by (cases "h a"; cases "h' a") (simp_all add: Let_def)
qed simp

lemma lookup_recorded:
  assumes "charged a e p m s"
  shows "GetMonitorFileEntryByabspath q (recorded a p e m l n w s) = GetMonitorFileEntryByabspath q s"
    and "GetMonitorSetEntry g (recorded a p e m l n w s) = GetMonitorSetEntry g s"
  using assms unfolding GetMonitorFileEntryByabspath_def GetMonitorSetEntry_def charged_def
  by (auto intro!: mi_search_keys ms_search_keys simp: readable_def)

text \<open>\<open>in_set pm p s\<close>: operations on the path \<open>p\<close> are recorded, and charged to the set at \<open>pm\<close>.\<close>

definition in_set :: "addr \<Rightarrow> byte list \<Rightarrow> 'w kstate \<Rightarrow> bool" where
  "in_set pm p s \<longleftrightarrow> (\<exists>a e m. GetMonitorFileEntryByabspath p s = Some (Some a) \<and> charged a e pm m s)"

lemma in_set_recorded:
  assumes "charged a e pm m s" and "in_set pm p s"
  shows "in_set pm p (recorded a pm e m l n w s)"
proof -
  obtain a' e' where a': "GetMonitorFileEntryByabspath p s = Some (Some a')" "charged a' e' pm m s"
    using assms by (auto simp: in_set_def charged_def)
  let ?t = "recorded a pm e m l n w s" and ?m = "m\<lparr>ullSetSeqNo := ullSetSeqNo m + 1\<rparr>"
  have "charged a' (if a' = a then e\<lparr>pSetEntry := Some pm, ullSeqNo := ullSeqNo e + 1\<rparr> else e') pm ?m ?t"
    using a'(2) assms(1) by (auto simp: charged_def lookup_recorded(2) [OF assms(1)])
  moreover have "GetMonitorFileEntryByabspath p ?t = Some (Some a')" using a'(1) by (simp add: lookup_recorded(1) [OF assms(1)])
  ultimately show ?thesis unfolding in_set_def by blast
qed

lemma in_set_same:
  assumes "MonitorSet (cfg s') = MonitorSet (cfg s)" and "MonitorFiles (cfg s') = MonitorFiles (cfg s)"
    and "set_mem s' = set_mem s" and "file_mem s' = file_mem s"
  shows "in_set pm p s' = in_set pm p s"
  by (simp add: in_set_def charged_def GetMonitorFileEntryByabspath_def GetMonitorSetEntry_def assms)

section \<open>One operation\<close>

text \<open>
  An operation with one path that is recorded in full, and whose path, put below a directory name
  of \<open>k\<close> characters, the program that repeats it can hold.
\<close>

definition repeatable :: "nat \<Rightarrow> 'w vfs_op \<Rightarrow> bool" where
  "repeatable k op \<longleftrightarrow> \<not> bypassed op \<and> op_fits op \<and> \<not> two_paths op \<and>
     (\<exists>p q. op_paths op = Some (p, q) \<and> strlen p < 260 \<and> k + strlen p < 1024 \<and> 0x2F \<in> set (cstr p))"

definition op_path :: "'w vfs_op \<Rightarrow> byte list" where
  "op_path op = fst (the (op_paths op))"

definition record_of :: "'w vfs_op \<Rightarrow> LOG_FILE \<Rightarrow> bool" where
  "record_of op l \<longleftrightarrow> (\<exists>ret la. op_good op ret \<and> l = op_record op ret la (the (op_paths op)))"

lemma operation_recorded:
  assumes "repeatable k op" and "op_good op (fst (run (world s)))"
    and "\<not> driver_off s" and "queue_inv s" and "\<And>a. k_alloc K a" and "in_set pm (op_path op) s"
  shows "\<exists>a e m l n. charged a e pm m s \<and> a \<in> set_tree (file_tree_of s) \<and> next_blk s \<le> n \<and> record_of op l \<and>
    hooked K run op s = Some (fst (run (world s)), recorded a pm e m l n (snd (run (world s))) s)"
proof -
  obtain p q where ps: "op_paths op = Some (p, q)" and op: "\<not> bypassed op" "op_fits op" "\<not> two_paths op"
    using assms(1) by (auto simp: repeatable_def)
  obtain a e m where a: "GetMonitorFileEntryByabspath p s = Some (Some a)" "charged a e pm m s"
    using assms(6) ps by (auto simp: in_set_def op_path_def)
  obtain ret w where run: "run (world s) = (ret, w)" by fastforce
  have mon: "monitored op (p, q) s = Some (Some a)" using op(3) a(1) by (cases op) auto
  let ?l = "op_record op ret (op_args K s e m) (p, q)" and ?n = "next_blk s + op_buffers op"
  have "hooked K run op s = Some (ret, recorded a pm e m ?l ?n w s)"
    using hooked_logs_once [OF assms(3) queue_inv_fresh [OF assms(4)] _ ps op(1,2), of K run] assms(5) mon a(2) run
    unfolding logs_once_def by blast
  moreover have "record_of op ?l" using assms(2) run ps by (auto simp: record_of_def)
  ultimately show ?thesis using a(2) monitored_in_tree [OF mon] le_add1 run by fastforce
qed

lemma record_of_sized: "record_of op l \<Longrightarrow> op_fits op \<Longrightarrow> log_sized l"
  by (auto simp: record_of_def op_record_sized)

section \<open>A history\<close>

fun performed_by :: "'w event \<Rightarrow> 'w vfs_op list" where
  "performed_by (Operation run op) = [op]"
| "performed_by _ = []"

abbreviation performed :: "'w event list \<Rightarrow> 'w vfs_op list" where
  "performed es \<equiv> concat (map performed_by es)"

definition record_file_of :: "MONITOR_SET_ENTRY \<Rightarrow> nat \<Rightarrow> byte list" where
  "record_file_of m i = log_path (cstr (wcsSetCacheDir m)) (ullSetSeqNo m + of_nat i)"

text \<open>
  \<open>progress store pm m N ops d s\<close>: since the set at \<open>pm\<close> had the entry \<open>m\<close>, the operations \<open>ops\<close> have
  been recorded, and the records of the first \<open>d\<close> of them are in their files. The files of the
  numbers up to \<open>N\<close> from there on do not exist.
\<close>

definition progress ::
  "('w \<Rightarrow> byte list \<Rightarrow> byte list) \<Rightarrow> addr \<Rightarrow> MONITOR_SET_ENTRY \<Rightarrow> nat \<Rightarrow> 'w vfs_op list \<Rightarrow> nat \<Rightarrow> 'w kstate \<Rightarrow> bool" where
  "progress store pm m N ops d s \<longleftrightarrow>
     config_inv s \<and> link_inv s \<and> queue_inv s \<and> \<not> driver_off s \<and>
     set_mem s pm = Some (m\<lparr>ullSetSeqNo := ullSetSeqNo m + of_nat (length ops)\<rparr>) \<and>
     (\<exists>cs. length cs = length ops \<and> d \<le> length ops \<and> queue_of s = drop d cs \<and>
        (\<forall>i<length ops. iologpath (cs ! i) = record_file_of m i \<and> record_of (ops ! i) (logfile (cs ! i))) \<and>
        (\<forall>i<d. store (world s) (record_file_of m i) = log_image (logfile (cs ! i)))) \<and>
     (\<forall>i\<le>N. d \<le> i \<longrightarrow> store (world s) (record_file_of m i) = [])"

lemma progressD:
  assumes "progress store pm m N ops d s"
  shows "config_inv s" "link_inv s" "queue_inv s" "\<not> driver_off s"
    "set_mem s pm = Some (m\<lparr>ullSetSeqNo := ullSetSeqNo m + of_nat (length ops)\<rparr>)"
    "i \<le> N \<Longrightarrow> d \<le> i \<Longrightarrow> store (world s) (record_file_of m i) = []"
  using assms by (auto simp: progress_def)

lemma progressE:
  assumes "progress store pm m N ops d s"
  obtains cs where "length cs = length ops" "d \<le> length ops" "queue_of s = drop d cs"
    "\<And>i. i < length ops \<Longrightarrow> iologpath (cs ! i) = record_file_of m i \<and> record_of (ops ! i) (logfile (cs ! i))"
    "\<And>i. i < d \<Longrightarrow> store (world s) (record_file_of m i) = log_image (logfile (cs ! i))"
  using assms by (auto simp: progress_def)

text \<open>The original operation succeeds and leaves the record files alone.\<close>

definition minds_logs :: "('w \<Rightarrow> byte list \<Rightarrow> byte list) \<Rightarrow> MONITOR_SET_ENTRY \<Rightarrow> nat \<Rightarrow> 'w orig \<Rightarrow> 'w vfs_op \<Rightarrow> bool" where
  "minds_logs store m N run op \<longleftrightarrow>
     (\<forall>w. op_good op (fst (run w)) \<and> (\<forall>i\<le>N. store (snd (run w)) (record_file_of m i) = store w (record_file_of m i)))"

lemma progress_operation:
  assumes "progress store pm m N ops d s" and "hooked K run op s = Some (ret, s')"
    and "repeatable k op" and "minds_logs store m N run op" and "\<And>a. k_alloc K a" and "in_set pm (op_path op) s"
    and "length ops \<le> N"
  shows "progress store pm m N (ops @ [op]) d s' \<and> (\<forall>p. in_set pm p s \<longrightarrow> in_set pm p s')"
proof -
  note P = progressD [OF assms(1)]
  obtain cs where cs: "length cs = length ops" "d \<le> length ops" "queue_of s = drop d cs"
      "\<And>i. i < length ops \<Longrightarrow> iologpath (cs ! i) = record_file_of m i \<and> record_of (ops ! i) (logfile (cs ! i))"
      "\<And>i. i < d \<Longrightarrow> store (world s) (record_file_of m i) = log_image (logfile (cs ! i))"
    by (rule progressE [OF assms(1)]) (rule that)
  have good: "op_good op (fst (run (world s)))" using assms(4) by (simp add: minds_logs_def)
  obtain a e m' l n where r: "charged a e pm m' s" "a \<in> set_tree (file_tree_of s)" "next_blk s \<le> n" "record_of op l"
      "s' = recorded a pm e m' l n (snd (run (world s))) s"
    using operation_recorded [where run = run, OF assms(3) good P(4,3) assms(5,6)] assms(2) by auto
  have m': "m' = m\<lparr>ullSetSeqNo := ullSetSeqNo m + of_nat (length ops)\<rparr>" using r(1) P(5) by (simp add: charged_def)
  let ?cs = "cs @ [new_context n m' l]"
  have "config_inv s'" "link_inv s'" "queue_inv s'"
    using recorded_config_link [OF P(1,2) r(2,1,3)] recorded_queue_inv [OF P(3) r(3)] unfolding r(5) by blast+
  moreover have "\<not> driver_off s'" using P(4) unfolding r(5) driver_off_def by simp
  moreover have "iologpath (?cs ! i) = record_file_of m i \<and> record_of ((ops @ [op]) ! i) (logfile (?cs ! i))"
    if "i < length (ops @ [op])" for i
  proof (cases "i = length ops")
    case True
    then show ?thesis using r(4) cs(1) by (simp add: nth_append new_context_def m' record_file_of_def)
  next
    case False
    with that have "i < length ops" by simp
    then show ?thesis using cs(1,4) by (simp add: nth_append)
  qed
  moreover have keep: "store (world s') (record_file_of m i) = store (world s) (record_file_of m i)" if "i \<le> N" for i
    using assms(4) that by (simp add: r(5) minds_logs_def)
  then have "store (world s') (record_file_of m i) = log_image (logfile (?cs ! i))" if "i < d" for i
    using cs(1,2,5) that assms(7) by (simp add: nth_append)
  moreover have "queue_of s' = drop d ?cs" using cs(1-3) by (simp add: r(5))
  moreover have "set_mem s' pm = Some (m\<lparr>ullSetSeqNo := ullSetSeqNo m + of_nat (length (ops @ [op]))\<rparr>)"
    by (simp add: r(5) m' ac_simps)
  ultimately have "progress store pm m N (ops @ [op]) d s'"
    unfolding progress_def using P(6) cs(1,2) keep by (intro conjI exI [of _ ?cs]) auto
  then show ?thesis using in_set_recorded [OF r(1)] unfolding r(5) by blast
qed

lemma progress_wake: "progress store pm m N ops d s \<Longrightarrow> progress store pm m N ops d (wait_for_completion s)"
  by (simp add: progress_def config_inv_def link_inv_def queue_inv_def owned_def driver_off_def wait_for_completion_def)

text \<open>The names of the record files are different, and none is that of the configuration.\<close>

definition names_apart :: "MONITOR_SET_ENTRY \<Rightarrow> nat \<Rightarrow> bool" where
  "names_apart m N \<longleftrightarrow> inj_on (record_file_of m) {..N} \<and> (\<forall>i\<le>N. record_file_of m i \<noteq> rtb_cnf)"

lemma progress_write:
  assumes "progress store pm m N ops d s" and "pop_iowrite s = Some (c, s1)" and "iowrite_one K c s1 = Some s'"
    and "disk_laws K store hnd" and "rbtree_laws K" and "names_apart m N" and "\<forall>op\<in>set ops. op_fits op" and "length ops \<le> N"
  shows "progress store pm m N ops (Suc d) s' \<and> (\<forall>p. in_set pm p s \<longrightarrow> in_set pm p s')"
proof -
  note P = progressD [OF assms(1)]
  obtain cs where cs: "length cs = length ops" "d \<le> length ops" "queue_of s = drop d cs"
      "\<And>i. i < length ops \<Longrightarrow> iologpath (cs ! i) = record_file_of m i \<and> record_of (ops ! i) (logfile (cs ! i))"
      "\<And>i. i < d \<Longrightarrow> store (world s) (record_file_of m i) = log_image (logfile (cs ! i))"
    by (rule progressE [OF assms(1)]) (rule that)
  obtain r where r: "drop d cs = c # r" "queue_of s = c # r" using assms(2) cs(3) by (auto simp: pop_iowrite_def split: list.splits)
  have c: "d < length ops" using r(1) cs(1) by (metis drop_all leI list.distinct(1))
  with r cs(1) Cons_nth_drop_Suc [of d cs] have q: "queue_of s = c # drop (Suc d) cs" and c': "c = cs ! d" by auto
  have cd: "iologpath c = record_file_of m d" "log_sized (logfile c)"
    using cs(4) [OF c] nth_mem [OF c] assms(7) c' record_of_sized [of "ops ! d"] by auto
  have ne: "record_file_of m i \<noteq> rtb_cnf" "record_file_of m i = record_file_of m d \<longleftrightarrow> i = d" if "i \<le> N" for i
    using assms(6,8) that c by (auto simp: names_apart_def inj_on_def)
  have "owned (c # drop (Suc d) cs) s" using P(3) q by (simp add: queue_inv_def)
  from iowrite_one_disk [OF assms(4,5) q P(1) this cd(2)] cd(1) ne(1) [of d] c assms(8)
  obtain s0 t s2 where pop: "pop_iowrite s = Some (c, s0)" "iowrite_one K c s0 = Some s2"
      and s2: "s0 = upd_cfg (\<lambda>f. f\<lparr>iowritequeue := drop (Suc d) cs\<rparr>) s" "same_kernel s0 t"
      "s2 = t\<lparr>kblocks := (kblocks t) |` (- set (ctx_blocks c))\<rparr>" "config_inv s2" "owned (drop (Suc d) cs) s2"
      "queue_of s2 = drop (Suc d) cs"
      "\<And>p. p \<noteq> rtb_cnf \<Longrightarrow> store (world s2) p =
        ((store (world s))(record_file_of m d := record_file (logfile c) (store (world s) (record_file_of m d)))) p"
    by auto
  have [simp]: "s' = s2" using pop assms(2,3) by simp
  obtain w where t: "t = s0\<lparr>world := w\<rparr>" using s2(2) by (rule same_kernelE)
  have store: "store (world s2) (record_file_of m i) =
      (if i = d then log_image (logfile c) else store (world s) (record_file_of m i))" if "i \<le> N" for i
    using s2(7) [OF ne(1) [OF that]] ne(2) [OF that] P(6) [of d] c assms(8) by simp
  have "queue_inv s2" using s2(5,6) by (simp add: queue_inv_def)
  moreover have "link_inv s2" "\<not> driver_off s2" "set_mem s2 pm = set_mem s pm"
    using P(2,4) by (simp_all add: s2(3) t s2(1) link_inv_def driver_off_def)
  moreover have "store (world s2) (record_file_of m i) = log_image (logfile (cs ! i))" if "i < Suc d" for i
    using store [of i] cs(5) [of i] that c c' assms(8) by (auto simp: less_Suc_eq)
  moreover have "store (world s2) (record_file_of m i) = []" if "i \<le> N" "Suc d \<le> i" for i
    using store [of i] P(6) [of i] that by simp
  ultimately have "progress store pm m N ops (Suc d) s2"
    unfolding progress_def using P(5) s2(4,6) cs(1,4) c by (intro conjI exI [of _ cs]) auto
  moreover have "in_set pm p s2 = in_set pm p s" for p
    by (rule in_set_same) (simp_all add: s2(3) t s2(1))
  ultimately show ?thesis by simp
qed

text \<open>Operations and steps of the writer, in any order.\<close>

definition recording ::
  "('w \<Rightarrow> byte list \<Rightarrow> byte list) \<Rightarrow> addr \<Rightarrow> MONITOR_SET_ENTRY \<Rightarrow> nat \<Rightarrow> nat \<Rightarrow> 'w kstate \<Rightarrow> 'w event \<Rightarrow> bool" where
  "recording store pm m N k s e \<longleftrightarrow>
     (case e of
        Operation run op \<Rightarrow> repeatable k op \<and> minds_logs store m N run op \<and> in_set pm (op_path op) s
      | Wake \<Rightarrow> True
      | Write_record c \<Rightarrow> True
      | _ \<Rightarrow> False)"

lemma performed_fit: "\<forall>e\<in>set es. recording store pm m N k s e \<Longrightarrow> op \<in> set (performed es) \<Longrightarrow> repeatable k op"
  by (induction es) (auto simp: recording_def split: event.splits)

lemma history_progress:
  assumes "execution K s es s'" and start: "progress store pm m N [] 0 s"
    and laws: "disk_laws K store hnd" "rbtree_laws K" "\<And>a. k_alloc K a" and names: "names_apart m N"
  shows "\<forall>e\<in>set es. recording store pm m N k s e \<Longrightarrow> length (performed es) \<le> N \<Longrightarrow>
    (\<exists>d. progress store pm m N (performed es) d s') \<and> (\<forall>p. in_set pm p s \<longrightarrow> in_set pm p s')"
  using assms(1)
proof (induction rule: execution.induct)
  case execution_start
  then show ?case using start by auto
next
  case (execution_step es t e u)
  then obtain d where d: "progress store pm m N (performed es) d t" and keep: "\<And>p. in_set pm p s \<Longrightarrow> in_set pm p t"
    and len: "length (performed es) \<le> N" by auto
  have fit: "\<forall>op\<in>set (performed es). op_fits op"
    using execution_step.prems(1) performed_fit [of es store pm m N k s] by (auto simp: repeatable_def)
  have e: "recording store pm m N k s e" using execution_step.prems(1) by simp
  from execution_step.hyps(2) show ?case
  proof (cases rule: system_step.cases)
    case (step_operation run op ret)
    then show ?thesis
      using progress_operation [OF d step_operation(2) _ _ laws(3) _ len, of k] e keep by (auto simp: recording_def)
  next
    case step_wake
    then show ?thesis using progress_wake [OF d] keep in_set_same [of "wait_for_completion t" t pm]
      by (auto simp: wait_for_completion_def)
  next
    case (step_write c s1)
    then show ?thesis using progress_write [OF d step_write(2,3) laws(1,2) names fit len] keep by auto
  qed (use e in \<open>simp_all add: recording_def\<close>)
qed

section \<open>Reading it all back\<close>

lemma digits_short: "n < 2 ^ 31 \<Longrightarrow> length (digits n) \<le> 10"
  using length_digits [of n 10] by simp

lemma sint_of_nat64: "n < 2 ^ 63 \<Longrightarrow> sint (of_nat n :: u64) = int n"
  using sint_sbintrunc' [where 'a = 64 and bin = "int n"] by (simp add: signed_take_bit_int_eq_self)

lemma next_number: "ullSetSeqNo m + of_nat i = (of_nat (unat (ullSetSeqNo m) + i) :: u64)"
  unfolding of_nat_add by simp

lemma record_file_name:
  assumes "strlen (wcsSetCacheDir m) \<le> 234" and "unat (ullSetSeqNo m) + i < 2 ^ 31"
  shows "record_name (cstr (wcsSetCacheDir m)) (uint (ullSetSeqNo m) + int i) = Some (record_file_of m i)"
proof -
  define n where "n = unat (ullSetSeqNo m) + i"
  let ?dir = "cstr (wcsSetCacheDir m)"
  have n: "uint (ullSetSeqNo m) + int i = int n" "n < 2 ^ 31"
    unfolding n_def uint_nat of_nat_add by (rule refl, rule assms(2))
  have "sint (of_nat n :: u64) = int n" by (rule sint_of_nat64) (use n(2) in simp)
  then have "lld (of_nat n) = digits n" by (simp add: lld_def)
  then have "record_file_of m i = take 254 (?dir @ digits n)"
    by (simp add: record_file_of_def log_path_def NAME_MAX_def cstr_id next_number flip: n_def)
  moreover have "length ?dir \<le> 234" using assms(1) by (simp add: strlen_def)
  ultimately show ?thesis
    unfolding n(1) using digits_short [OF n(2)] by (simp add: record_name_def cat1024_def dec_int_def)
qed

lemma names_apart:
  assumes "strlen (wcsSetCacheDir m) \<le> 234" and "N < 2 ^ 64" and "\<And>i. i \<le> N \<Longrightarrow> record_file_of m i \<noteq> rtb_cnf"
  shows "names_apart m N"
proof -
  have "i = j" if "i \<le> N" "j \<le> N" "record_file_of m i = record_file_of m j" for i j
  proof -
    have "(of_nat i :: u64) = of_nat j"
      using that(3) log_path_distinct [of "cstr (wcsSetCacheDir m)"] assms(1) by (simp add: record_file_of_def)
    then have "unat (of_nat i :: u64) = unat (of_nat j :: u64)" by simp
    then show ?thesis using that(1,2) assms(2) by (simp add: unat_of_nat)
  qed
  then show ?thesis using assms(3) by (auto simp: names_apart_def inj_on_def)
qed

text \<open>What the reader finds: a file for every number with a content.\<close>

lemma in_filesI:
  assumes "\<And>i. i \<le> length bs \<Longrightarrow> record_name dir (num + int i) = Some (name i)"
    and "\<And>i. i < length bs \<Longrightarrow> files (name i) = Some (bs ! i) \<and> record_bytes (bs ! i)" and "files (name (length bs)) = None"
  shows "in_files files dir num bs"
  using assms
proof (induction bs arbitrary: num name)
  case Nil
  then show ?case using Nil.prems(1) [of 0] by auto
next
  case (Cons b bs)
  have "in_files files dir (num + 1) bs"
  proof (rule Cons.IH [where name = "\<lambda>i. name (Suc i)"])
    show "record_name dir (num + 1 + int i) = Some (name (Suc i))" if "i \<le> length bs" for i
      using Cons.prems(1) [of "Suc i"] that by (simp add: ac_simps)
  qed (use Cons.prems(2) [of "Suc _"] Cons.prems(3) in auto)
  then show ?case using Cons.prems(1) [of 0] Cons.prems(2) [of 0] by auto
qed

lemma sized_bytes: "log_sized l \<Longrightarrow> record_bytes (log_image l)"
  using image_header [of l] by (auto simp: record_bytes_def log_sized_def full_size_def)

text \<open>\<open>eff\<close>: what repeating an operation does to what \<open>view\<close> shows, the copy; the record files stay.\<close>

definition repeats ::
  "'v posix \<Rightarrow> byte list \<Rightarrow> ('v \<Rightarrow> byte list \<Rightarrow> byte list option) \<Rightarrow> ('v \<Rightarrow> 'x) \<Rightarrow> ('w vfs_op \<Rightarrow> 'x \<Rightarrow> 'x) \<Rightarrow> 'w vfs_op \<Rightarrow> bool" where
  "repeats P t content view eff op \<longleftrightarrow>
     (\<forall>v. content (repeated P t op (cstr (op_path op)) v) = content v \<and>
        view (repeated P t op (cstr (op_path op)) v) = eff op (view v))"

lemma restore_does:
  assumes "repeatable (length t) op" and "record_of op l" and "repeats P t content view eff op" and "\<And>n v. p_malloc P n v"
  shows "does (\<lambda>b v. map_option snd (restore P b t v)) content view (eff op) (log_image l)"
proof -
  obtain p q where ps: "op_paths op = Some (p, q)" and op: "\<not> two_paths op" "op_fits op" "strlen p < 260"
      "length t + strlen p < 1024" "0x2F \<in> set (t @ cstr p)"
    using assms(1) by (auto simp: repeatable_def)
  obtain ret la where l: "op_good op ret" "l = op_record op ret la (p, q)" using assms(2) ps by (auto simp: record_of_def)
  have "op_path op = p" using ps by (simp add: op_path_def)
  then show ?thesis
    using restore_repeats [OF l(1) op assms(4)] assms(3) by (simp add: does_def l(2) repeats_def)
qed

text \<open>The files of the disk, as a program sees them.\<close>

definition on_disk :: "(byte list \<Rightarrow> byte list) \<Rightarrow> byte list \<Rightarrow> byte list option" where
  "on_disk files p = (if files p = [] then None else Some (files p))"

lemma history_repeated:
  assumes progress: "progress store pm m N ops N s" and N: "N = length ops"
    and names: "strlen (wcsSetCacheDir m) \<le> 234" "unat (ullSetSeqNo m) + N < 2 ^ 31" and t: "length t < 1024"
    and ops: "\<forall>op\<in>set ops. repeatable (length t) op \<and> repeats P t content view eff op"
    and reader: "file_laws P content opn view" "content v = on_disk (store (world s))"
  shows "\<exists>path v'. restore_main P (cstr (wcsSetCacheDir m)) t (uint (ullSetSeqNo m)) 1 v =
      Some (path, uint (ullSetSeqNo m) + int N, v') \<and> view v' = fold eff ops (view v)"
proof -
  let ?dir = "cstr (wcsSetCacheDir m)" and ?act = "\<lambda>b v. map_option snd (restore P b t v)"
  have last: "store (world s) (record_file_of m N) = []" using progress by (simp add: progress_def)
  obtain cs where "length cs = length ops" "N \<le> length ops" "queue_of s = drop N cs"
      and rec: "\<And>i. i < length ops \<Longrightarrow> iologpath (cs ! i) = record_file_of m i \<and> record_of (ops ! i) (logfile (cs ! i))"
      and st: "\<And>i. i < N \<Longrightarrow> store (world s) (record_file_of m i) = log_image (logfile (cs ! i))"
    by (rule progressE [OF progress]) (rule that)
  then have cs: "length cs = N" "\<And>i. i < N \<Longrightarrow> record_of (ops ! i) (logfile (cs ! i))"
      "\<And>i. i < N \<Longrightarrow> store (world s) (record_file_of m i) = log_image (logfile (cs ! i))"
    using N by simp_all
  have sized: "log_sized (logfile (cs ! i))" if "i < N" for i
    using cs(2) [OF that] ops that N by (auto simp: repeatable_def intro: record_of_sized)
  let ?bs = "map (\<lambda>c. log_image (logfile c)) cs"
  have name: "record_name ?dir (uint (ullSetSeqNo m) + int i) = Some (record_file_of m i)" if "i \<le> N" for i
    using record_file_name [OF names(1), of i] names(2) that by simp
  have ne: "log_image (logfile (cs ! i)) \<noteq> []" if "i < N" for i
    using image_header [of "logfile (cs ! i)"] sized [OF that] by (auto simp: log_sized_def full_size_def sizeof_LOG_FILE_HEADER_def)
  have "in_files (content v) ?dir (uint (ullSetSeqNo m)) ?bs"
    by (rule in_filesI [where name = "record_file_of m"])
      (use name ne cs sized_bytes [OF sized] last in \<open>simp_all add: reader(2) on_disk_def\<close>)
  moreover have "list_all2 (does ?act content view) (map eff ops) ?bs"
  proof (rule list_all2_all_nthI)
    show "does ?act content view (map eff ops ! i) (?bs ! i)" if "i < length (map eff ops)" for i
      using that cs(1,2) N ops file_lawsD(7) [OF reader(1)] by (simp add: restore_does)
  qed (use cs(1) N in simp)
  ultimately obtain path v' where
      "record_rounds P ?act False ?dir 1 (record_file_of m 0) (uint (ullSetSeqNo m)) v = Some (path, uint (ullSetSeqNo m) + int N, v')"
      "view v' = fold (\<lambda>f. f) (map eff ops) (view v)"
    using record_round_all [OF reader(1), of v ?dir "uint (ullSetSeqNo m)" ?bs ?act "map eff ops"] name [of 0] cs(1) by auto
  then show ?thesis
    using name [of 0] t by (simp add: restore_main_def cat1024_def fold_map comp_def del: record_rounds.simps One_nat_def)
qed


section \<open>A history of two operations\<close>

text \<open>Operations can happen, and a round of the writer can follow them.\<close>

lemma operations_happen:
  assumes start: "progress store pm m N [] 0 s" and laws: "disk_laws K store hnd" "rbtree_laws K" "\<And>a. k_alloc K a"
    and names: "names_apart m N" and xs: "\<forall>(run, op)\<in>set xs. recording store pm m N k s (Operation run op)"
  shows "length xs \<le> N \<Longrightarrow> \<exists>s'. execution K s (map (\<lambda>(run, op). Operation run op) xs) s'"
  using xs
proof (induction xs rule: rev_induct)
  case Nil
  then show ?case using execution_start by fastforce
next
  case (snoc x xs)
  obtain run op where x: "x = (run, op)" by (cases x)
  let ?es = "map (\<lambda>(run, op). Operation run op) xs"
  obtain t where t: "execution K s ?es t" using snoc by auto
  have rec: "\<forall>e\<in>set ?es. recording store pm m N k s e" "recording store pm m N k s (Operation run op)"
    using snoc.prems(2) x by auto
  have "performed ?es = map snd xs" by (induction xs) auto
  with snoc.prems(1) have "length (performed ?es) \<le> N" by simp
  from history_progress [OF t start laws names rec(1) this] rec(2)
  obtain d where d: "progress store pm m N (performed ?es) d t" "in_set pm (op_path op) t" by (auto simp: recording_def)
  have "repeatable k op" "op_good op (fst (run (world t)))" using rec(2) by (auto simp: recording_def minds_logs_def)
  from operation_recorded [where K = K and run = run and s = t, OF this progressD(4,3) [OF d(1)] laws(3) d(2)]
  obtain ret u where "system_step K t (Operation run op) u" by (auto intro: step_operation)
  from execution_step [OF t this] show ?case by (auto simp: x)
qed

abbreviation demo_rmdir :: "disk vfs_op" where "demo_rmdir \<equiv> Vfs_rmdir (Some demo_dentry)"
abbreviation demo_make :: "disk vfs_op" where "demo_make \<equiv> Vfs_mkdir (Some demo_dentry) 0x1ED"

fun demo_effect :: "disk vfs_op \<Rightarrow> byte list list \<Rightarrow> byte list list" where
  "demo_effect (Vfs_mkdir d mode) x = x @ [bytes ''/copy'', bytes ''/copy/data'', bytes ''/copy/data/x'']"
| "demo_effect _ x = x @ [bytes ''/copy/data/x'']"

lemma demo_path_x: "op_paths demo_make = Some (bytes ''/data/x'', [])" "op_paths demo_rmdir = Some (bytes ''/data/x'', [])"
    "cstr (bytes ''/data/x'') = bytes ''/data/x''"
  using disk_mkdir(1) by (auto simp: cstr_Cons bytes_data_x)

lemma demo_repeats: "op \<in> {demo_make, demo_rmdir} \<Longrightarrow> repeats demo_posix (bytes ''/copy'') fst (\<lambda>w. snd (snd w)) demo_effect op"
  using demo_path_x
  by (auto simp: repeats_def op_path_def, simp_all add: ancestors_def demo_posix_def traced_def bytes_def upt_rec)

lemma demo_recording:
  assumes "op \<in> {demo_make, demo_rmdir}"
  shows "recording fst 1 demo_set 2 (length (bytes ''/copy'')) (disk_state w) (Operation (\<lambda>w. (0, w)) op)"
proof -
  have "GetMonitorFileEntryByabspath (bytes ''/data/x'') (disk_state w) = Some (Some 2)" using disk_mkdir(2) [of w] by simp
  then have "in_set 1 (bytes ''/data/x'') (disk_state w)" unfolding in_set_def using disk_charged [of w] by blast
  moreover have "strlen (bytes ''/data/x'') < 260" "length (bytes ''/copy'') + strlen (bytes ''/data/x'') < 1024"
      "0x2F \<in> set (bytes ''/data/x'')"
    by (simp_all add: strlen_def demo_path_x(3)) (simp_all add: bytes_def)
  ultimately show ?thesis
    using assms demo_path_x by (auto simp: recording_def repeatable_def minds_logs_def op_path_def)
qed


end
