(* ===== verification/HookRuns.thy ===== *)
theory HookRuns
  imports HookInv LogProps
begin

text \<open>
  What the halves of a hook do when there is memory, that a hook then always returns, and that the
  log directories of the sets stay C strings, on which its return rests.
\<close>

section \<open>The halves with memory at hand\<close>

fun op_bufs :: "'w vfs_op \<Rightarrow> addr \<Rightarrow> addr list" where
  "op_bufs (Vfs_rename old new) n = [Suc n, Suc (Suc n), n]"
| "op_bufs (Vfs_symlink pl d name) n = [Suc n, Suc (Suc n), n]"
| "op_bufs (Vfs_link old new) n = [n, Suc n, Suc (Suc n)]"
| "op_bufs (Vfs_write file buf count pos) n = [n, Suc n]"
| "op_bufs _ n = [Suc n, n]"

definition hold :: "addr list \<Rightarrow> (addr \<Rightarrow> region option) \<Rightarrow> addr \<Rightarrow> region option" where
  "hold bs kb b = (if b \<in> set bs then Some Kmalloc else kb b)"

abbreviation frame_of :: "'w vfs_op \<Rightarrow> addr \<Rightarrow> log_args option \<Rightarrow> byte list \<times> byte list \<Rightarrow> hook_frame" where
  "frame_of op n args ps \<equiv>
     \<lparr>hf_bufs = map Some (op_bufs op n), hf_args = args, hf_path = fst ps, hf_other = snd ps, hf_iret = 0\<rparr>"

lemma with_blocks_eq: "n = n' \<Longrightarrow> (\<And>b. kb b = kb' b) \<Longrightarrow> with_blocks n kb s = with_blocks n' kb' s"
  by (simp add: with_blocks_def fun_eq_iff)

text \<open>
  The first half when what it takes from the entry it finds is known, for every state of the
  allocator.
\<close>

lemma before_gen:
  assumes "\<not> driver_off s" and "fresh_blocks s" and "\<forall>a\<ge>next_blk s. k_alloc K a"
    and "op_paths op = Some ps" and "\<not> bypassed op" and "monitored op ps s = Some pmfe"
    and "\<And>n kb. take_args K pmfe (with_blocks n kb s) = Some (args, with_blocks n kb t)"
  shows "hook_before K op s = Some (frame_of op (next_blk s) args ps,
    with_blocks (next_blk s + op_buffers op) (hold (op_bufs op (next_blk s)) (kblocks s)) t)"
  by (cases op)
    (use assms in \<open>auto simp: hold_def look_up_def getabsfullpathfromstructfile_def getabsfullpathfromnd_def free_block_with_blocks hook_run
      split: option.splits sum.splits if_splits intro!: with_blocks_eq dest!: bind_SomeD\<close>)

lemma before_run:
  assumes "\<not> driver_off s" and "fresh_blocks s" and "\<forall>a\<ge>next_blk s. k_alloc K a"
    and "op_paths op = Some ps" and "\<not> bypassed op" and "monitored op ps s = Some (Some a)" and "charged a e pm m s"
  shows "hook_before K op s = Some (frame_of op (next_blk s) (Some (op_args K s e m)) ps,
    with_blocks (next_blk s + op_buffers op) (hold (op_bufs op (next_blk s)) (kblocks s)) (took a pm e m s))"
  by (rule before_gen [OF assms(1-6) take_args_run [OF assms(7)]])

lemma free_all_run:
  assumes "distinct bs" and "\<forall>b\<in>set bs. kb b = Some Kmalloc"
  shows "free_all (map Some bs) (with_blocks n kb t) = Some (with_blocks n (\<lambda>b. if b \<in> set bs then None else kb b) t)"
  using assms
proof (induction bs arbitrary: kb)
  case (Cons b bs)
  have "free_all (map Some bs) (with_blocks n (kb(b := None)) t) =
      Some (with_blocks n (\<lambda>c. if c \<in> set bs then None else (kb(b := None)) c) t)"
    by (rule Cons.IH) (use Cons.prems in auto)
  then show ?case using Cons.prems by (auto simp: free_with_blocks intro: with_blocks_eq)
qed simp

lemma success_logs:
  assumes "op_fits op"
  shows "logs (log_success K op f la) K la (good_record op la (hf_path f, hf_other f))"
  by (cases op)
    (use assms in \<open>auto simp: createiolog_eqs logs_plain logs_two logs_write\<close>)

definition put_record :: "IOWRITE_CONTEXT \<Rightarrow> 'w kstate \<Rightarrow> 'w kstate" where
  "put_record c s = (push_iowrite c s)\<lparr>completions := Suc (completions s)\<rparr>"

lemma put_record_simps [simp]:
  "queue_of (put_record c s) = queue_of s @ [c]" "world (put_record c s) = world s"
  "put_record c (with_blocks n kb s) = with_blocks n kb (put_record c s)"
  by (simp_all add: put_record_def push_iowrite_def upd_cfg_def with_blocks_def)

lemma after_run:
  assumes "op_fits op" and "\<forall>a\<ge>n. k_alloc K a" and "distinct bs" and "\<forall>b\<in>set bs. b < n \<and> kb b = Some Kmalloc"
    and la: "la_dir la = cstr (wcsSetCacheDir m)" "la_gseq la = ullSetSeqNo m"
    and l: "l = op_record op ret la (p, q)"
  shows "hook_after K op \<lparr>hf_bufs = map Some bs, hf_args = Some la, hf_path = p, hf_other = q, hf_iret = r\<rparr> ret (with_blocks n kb t) =
    Some (with_blocks (n + 3)
      (\<lambda>b. if b \<in> set bs then None else (kb(n \<mapsto> log_region l, Suc n \<mapsto> Kmalloc, Suc (Suc n) \<mapsto> Kmalloc)) b)
      (put_record (new_context n m l) t))"
proof -
  let ?f = "\<lparr>hf_bufs = map Some bs, hf_args = Some la, hf_path = p, hf_other = q, hf_iret = r\<rparr>"
  let ?kb = "kb(n \<mapsto> log_region l, Suc n \<mapsto> Kmalloc, Suc (Suc n) \<mapsto> Kmalloc)"
  have "(if op_good op ret then log_success K op ?f la else log_error K p la) (with_blocks n kb t) =
      Some (0, with_blocks (n + 3) ?kb (put_record (new_context n m l) t))"
    using logs_at [OF success_logs [OF assms(1), of K ?f la] assms(2) la, of kb t]
      logs_at [OF logs_error [of K p la] assms(2) la, of kb t]
    by (simp add: l op_record_def put_record_def with_blocks_def push_iowrite_def upd_cfg_def)
  moreover have "free_all (map Some bs) (with_blocks (n + 3) ?kb (put_record (new_context n m l) t)) =
      Some (with_blocks (n + 3) (\<lambda>b. if b \<in> set bs then None else ?kb b) (put_record (new_context n m l) t))"
    by (rule free_all_run) (use assms(3,4) in fastforce)+
  ultimately show ?thesis by (simp add: hook_after_def log_result_def split: if_splits)
qed

lemma op_bufs_facts: "distinct (op_bufs op n)" "b \<in> set (op_bufs op n) \<Longrightarrow> n \<le> b \<and> b < n + op_buffers op"
  by (cases op; auto)+

section \<open>Hooks return\<close>

lemma lookup_total: "config_inv s \<Longrightarrow> \<exists>r. GetMonitorFileEntryByabspath p s = Some r"
  unfolding GetMonitorFileEntryByabspath_def config_inv_def using bst_ok_live by (intro mi.search_total) blast

lemma monitored_total:
  assumes "config_inv s"
  shows "\<exists>r. monitored op ps s = Some r \<and> (\<forall>a. r = Some a \<longrightarrow> a \<in> set_tree (file_tree_of s))"
proof -
  obtain p q where ps: "ps = (p, q)" by (cases ps)
  obtain r r' where "GetMonitorFileEntryByabspath p s = Some r" "GetMonitorFileEntryByabspath q s = Some r'"
    using lookup_total [OF assms] by blast
  then show ?thesis unfolding ps using lookup_in_tree by (cases op; cases r) fastforce+
qed

definition from_set :: "log_args \<Rightarrow> bool" where
  "from_set la \<longleftrightarrow> (\<exists>m :: MONITOR_SET_ENTRY. la_dir la = cstr (wcsSetCacheDir m) \<and> la_gseq la = ullSetSeqNo m)"

lemma from_set_args: "from_set (op_args K s e m)" "from_set \<lparr>la_seq = 0, la_gseq = 0, la_time = 0, la_dir = []\<rparr>"
  unfolding from_set_def
  by (rule exI [of _ m], simp add: op_args_def)
    (rule exI [of _ "zero_set_entry\<lparr>wcsSetCacheDir := [], ullSetSeqNo := 0\<rparr>"], simp)

lemma take_total:
  assumes inv: "config_inv s" "link_inv s" "dirs_terminated s" and a: "a \<in> set_tree (file_tree_of s)"
  shows "\<exists>la t. (\<forall>n kb. take_args K (Some a) (with_blocks n kb s) = Some (Some la, with_blocks n kb t)) \<and>
    world t = world s \<and> from_set la"
proof -
  obtain e where e: "file_mem s a = Some e"
    using bst_ok_live [OF config_invD(3) [OF inv(1)] a] by (auto simp: readable_Some)
  have set: "\<exists>m. set_mem s p = Some m \<and> terminated (wcsSetCacheDir m)" if "p \<in> set_tree (set_tree_of s)" for p
    using bst_ok_live [OF config_invD(2) [OF inv(1)] that] inv(3) by (auto simp: dirs_terminated_def)
  have "(\<exists>p m. charged a e p m s) \<or> (pSetEntry e = None \<and> GetMonitorSetEntry (guidSetId e) s = Some None)"
  proof (cases "pSetEntry e")
    case (Some p)
    then have "p \<in> set_tree (set_tree_of s)" using inv(2) a e by (auto simp: link_inv_def)
    then show ?thesis using set e Some by (auto simp: charged_def)
  next
    case None
    have "\<exists>r. ms_search (set_mem s) (set_tree_of s) (guidSetId e) = Some r"
      using bst_ok_live [OF config_invD(2) [OF inv(1)]] by (intro ms.search_total) blast
    then have "\<exists>r. GetMonitorSetEntry (guidSetId e) s = Some r" by (auto simp: GetMonitorSetEntry_def)
    then obtain r where r: "GetMonitorSetEntry (guidSetId e) s = Some r" by blast
    show ?thesis
    proof (cases r)
      case (Some p)
      then have "p \<in> set_tree (set_tree_of s)"
        using r ms.search_hit by (auto simp: GetMonitorSetEntry_def split: if_splits)
      then show ?thesis using set e r None Some by (auto simp: charged_def)
    qed (use r None in simp)
  qed
  then show ?thesis
  proof (elim disjE exE conjE)
    fix p m assume "charged a e p m s"
    from take_args_run [OF this] show ?thesis
      by (intro exI [of _ "op_args K s e m"] exI [of _ "took a p e m s"]) (simp add: from_set_args put_set_def put_file_def)
  next
    assume none: "pSetEntry e = None" "GetMonitorSetEntry (guidSetId e) s = Some None"
    then have "e\<lparr>pSetEntry := None\<rparr> = e" by simp
    then have "put_file a (e\<lparr>pSetEntry := None\<rparr>) (with_blocks n kb s) = with_blocks n kb s" for n kb
      using e by (simp add: put_file_def with_blocks_def fun_upd_idem)
    then have "take_args K (Some a) (with_blocks n kb s) =
        Some (Some \<lparr>la_seq = 0, la_gseq = 0, la_time = 0, la_dir = []\<rparr>, with_blocks n kb s)" for n kb
      using e none by (simp add: take_args_def GetMonitorFileSeqNoByMonitorFileEntry_def)
    then show ?thesis
      by (intro exI [of _ "\<lparr>la_seq = 0, la_gseq = 0, la_time = 0, la_dir = []\<rparr>"] exI [of _ s])
        (simp add: from_set_args)
  qed
qed

lemma after_total:
  assumes "op_fits op" and "\<forall>a\<ge>n. k_alloc K a" and "distinct bs" and "\<forall>b\<in>set bs. b < n \<and> kb b = Some Kmalloc"
    and "\<And>la. args = Some la \<Longrightarrow> from_set la"
  shows "\<exists>s'. hook_after K op \<lparr>hf_bufs = map Some bs, hf_args = args, hf_path = p, hf_other = q, hf_iret = 0\<rparr> ret (with_blocks n kb t) = Some s' \<and>
    world s' = world t"
proof (cases args)
  case None
  have "free_all (map Some bs) (with_blocks n kb t) = Some (with_blocks n (\<lambda>b. if b \<in> set bs then None else kb b) t)"
    by (rule free_all_run) (use assms(3,4) in auto)
  then show ?thesis by (simp add: None hook_after_def log_result_None)
next
  case (Some la)
  obtain m :: MONITOR_SET_ENTRY where "la_dir la = cstr (wcsSetCacheDir m)" "la_gseq la = ullSetSeqNo m" using assms(5) [OF Some] by (auto simp: from_set_def)
  from after_run [OF assms(1-4) this refl] show ?thesis by (simp add: Some)
qed

lemma hook_total:
  assumes inv: "config_inv s" "link_inv s" "queue_inv s" "dirs_terminated s" and mem: "\<And>a. next_blk s \<le> a \<Longrightarrow> k_alloc K a"
    and op: "\<not> driver_off s" "\<not> bypassed op" "op_paths op = Some ps" "op_fits op"
  shows "\<exists>s'. hooked K run op s = Some (fst (run (world s)), s') \<and> world s' = snd (run (world s))"
proof -
  obtain pmfe where mon: "monitored op ps s = Some pmfe" "\<forall>a. pmfe = Some a \<longrightarrow> a \<in> set_tree (file_tree_of s)"
    using monitored_total [OF inv(1)] by blast
  have "\<exists>args t. (\<forall>n kb. take_args K pmfe (with_blocks n kb s) = Some (args, with_blocks n kb t)) \<and> world t = world s \<and>
      (\<forall>la. args = Some la \<longrightarrow> from_set la)"
  proof (cases pmfe)
    case None
    then show ?thesis by (intro exI [of _ None] exI [of _ s]) (simp add: take_args_None)
  next
    case (Some a)
    with take_total [OF inv(1,2,4), of a K] mon(2) show ?thesis by fastforce
  qed
  then obtain args t where take: "\<And>n kb. take_args K pmfe (with_blocks n kb s) = Some (args, with_blocks n kb t)"
    and t: "world t = world s" and args: "\<And>la. args = Some la \<Longrightarrow> from_set la"
    by blast
  let ?n = "next_blk s + op_buffers op" and ?kb = "hold (op_bufs op (next_blk s)) (kblocks s)"
  have before: "hook_before K op s = Some (frame_of op (next_blk s) args ps, with_blocks ?n ?kb t)"
    by (rule before_gen [OF op(1) queue_inv_fresh [OF inv(3)] _ op(3,2) mon(1) take]) (use mem in simp)
  have run: "call_run run (with_blocks ?n ?kb t) = (fst (run (world s)), with_blocks ?n ?kb (t\<lparr>world := snd (run (world s))\<rparr>))"
    by (simp add: call_run_at(2) t)
  have "\<exists>s'. hook_after K op (frame_of op (next_blk s) args ps) (fst (run (world s))) (with_blocks ?n ?kb (t\<lparr>world := snd (run (world s))\<rparr>)) = Some s' \<and>
      world s' = world (t\<lparr>world := snd (run (world s))\<rparr>)"
    by (rule after_total [OF op(4) _ op_bufs_facts(1) _ args])
      (use mem op_bufs_facts(2) [of _ op "next_blk s"] in \<open>auto simp: hold_def\<close>)
  then show ?thesis by (auto simp: hooked_halves before hook_rest_def run)
qed

section \<open>Directories stay C strings\<close>

lemma set_mem_dirs: "set_mem s' = set_mem s \<Longrightarrow> dirs_kept s s'"
  by (simp add: dirs_kept_def dirs_terminated_def)

lemma take_args_dirs:
  assumes "take_args K pmfe s = Some (args, s')"
  shows "dirs_kept s s'"
proof (cases pmfe)
  case (Some a)
  with assms obtain r sq gq t d where g: "GetMonitorFileSeqNoByMonitorFileEntry K (Some a) s = Some ((r, sq, gq, t, d), s')"
    by (auto simp: take_args_def bind_eq_Some_conv)
  show ?thesis
  proof (cases "r = 0")
    case True
    with GetSeqNo_ok g obtain p e m where "seq_taken a p e m s s'" by blast
    then show ?thesis
      by (auto simp: seq_taken_def dirs_kept_def dirs_terminated_def put_set_def put_file_def split: if_splits)
  next
    case False
    with GetSeqNo_fail [OF g] show ?thesis by (auto simp: dirs_kept_def dirs_terminated_def put_file_def)
  qed
qed (use assms in \<open>simp add: take_args_def dirs_kept_def\<close>)

lemma logged_dirs: "logged s s' \<Longrightarrow> dirs_kept s s'"
  unfolding logged_def by (auto intro!: set_mem_dirs simp: queued_simps(2))

lemma block_dirs:
  "alloc_block K r s = (p, s') \<Longrightarrow> dirs_kept s s'" "free_block r a s = Some s' \<Longrightarrow> dirs_kept s s'"
  "call_run run s = (ret, s') \<Longrightarrow> dirs_kept s s'"
  by (auto intro!: set_mem_dirs simp: alloc_block_def free_block_def call_run_def split: if_splits prod.splits)

lemma dirs_keptD: "dirs_kept s s' \<Longrightarrow> dirs_terminated s \<Longrightarrow> dirs_terminated s'"
  by (simp add: dirs_kept_def)

interpretation dirs_walk: hook_steps K "\<lambda>H. dirs_terminated" for K
  by unfold_locales
    (auto elim!: dirs_keptD [rotated] intro: block_dirs grows_dirs [OF leaked_grows [OF notify_user_status_inv]] put_dirs take_args_dirs logged_dirs)

end
