(* ===== verification/Concurrency.thy ===== *)
theory Concurrency
  imports History HookRuns
begin

text \<open>
  Hooks that overlap. A task enters a hook, runs the original operation and leaves the hook, and
  between these steps other tasks, packets and the writer take theirs.
\<close>

section \<open>Steps\<close>

datatype 'w stage =
    Entered "'w vfs_op" hook_frame
  | Returned "'w vfs_op" hook_frame int

type_synonym 'w tasks = "nat \<Rightarrow> 'w stage option"

datatype 'w action =
    Enter nat "'w vfs_op"
  | Run nat "'w orig"
  | Leave nat
  | Other "'w event"

fun is_operation :: "'w event \<Rightarrow> bool" where
  "is_operation (Operation run op) = True"
| "is_operation _ = False"

inductive task_step :: "'w kernel \<Rightarrow> 'w tasks \<times> 'w kstate \<Rightarrow> 'w action \<Rightarrow> 'w tasks \<times> 'w kstate \<Rightarrow> bool" for K where
    task_enter: "T i = None \<Longrightarrow> hook_before K op s = Some (f, s') \<Longrightarrow> task_step K (T, s) (Enter i op) (T(i \<mapsto> Entered op f), s')"
  | task_run: "T i = Some (Entered op f) \<Longrightarrow> call_run run s = (ret, s') \<Longrightarrow>
      task_step K (T, s) (Run i run) (T(i \<mapsto> Returned op f ret), s')"
  | task_leave: "T i = Some (Returned op f ret) \<Longrightarrow> hook_after K op f ret s = Some s' \<Longrightarrow>
      task_step K (T, s) (Leave i) (T(i := None), s')"
  | task_other: "\<not> is_operation e \<Longrightarrow> system_step K s e s' \<Longrightarrow> task_step K (T, s) (Other e) (T, s')"

inductive_cases task_stepE: "task_step K c e c'"

text \<open>\<open>schedule K c es c'\<close>: from \<open>c\<close>, the actions \<open>es\<close>, the first one first, lead to \<open>c'\<close>.\<close>

inductive schedule :: "'w kernel \<Rightarrow> 'w tasks \<times> 'w kstate \<Rightarrow> 'w action list \<Rightarrow> 'w tasks \<times> 'w kstate \<Rightarrow> bool" for K where
    schedule_end: "schedule K c [] c"
  | schedule_act: "task_step K c e d \<Longrightarrow> schedule K d es c' \<Longrightarrow> schedule K c (e # es) c'"

abbreviation idle :: "'w tasks" where
  "idle \<equiv> (\<lambda>_. None)"

text \<open>A hook that is not interrupted is a schedule of three actions.\<close>

lemma hooked_schedule:
  assumes "hooked K run op s = Some (ret, s')" and "T i = None"
  shows "schedule K (T, s) [Enter i op, Run i run, Leave i] (T, s')"
proof -
  obtain f s1 where f: "hook_before K op s = Some (f, s1)" and rest: "hook_rest K run op f s1 = Some (ret, s')"
    using assms(1) by (auto simp: hooked_halves bind_eq_Some_conv)
  obtain r s2 where run: "call_run run s1 = (r, s2)" by fastforce
  with rest have after: "hook_after K op f r s2 = Some s'" by (auto simp: hook_rest_def bind_eq_Some_conv)
  have T: "T(i := None) = T" using assms(2) by (rule fun_upd_idem)
  have "schedule K (T, s) [Enter i op, Run i run, Leave i] (T(i \<mapsto> Entered op f, i \<mapsto> Returned op f r, i := None), s')"
    by (rule schedule_act [OF task_enter [where T = T and i = i, OF assms(2) f]], rule schedule_act [OF task_run [OF _ run]], simp,
        rule schedule_act [OF task_leave [OF _ after]], simp, rule schedule_end)
  then show ?thesis by (simp add: T)
qed

section \<open>Sound states\<close>

fun stage_blocks :: "'w stage \<Rightarrow> addr set" where
  "stage_blocks (Entered op f) = frame_blocks f"
| "stage_blocks (Returned op f ret) = frame_blocks f"

definition held :: "'w tasks \<Rightarrow> addr set" where
  "held T = (\<Union>t\<in>ran T. stage_blocks t)"

lemma held_upd: "held (T(i \<mapsto> t)) \<subseteq> held T \<union> stage_blocks t" "held (T(i := None)) \<subseteq> held T"
  by (auto simp: held_def ran_def)

lemma held_in: "T i = Some t \<Longrightarrow> stage_blocks t \<subseteq> held T"
  by (auto simp: held_def ran_def)

lemma task_step_sound:
  assumes "task_step K (T, s) e (T', s')" and "rbtree_laws K" and "stale_next K" and "sound (held T) s"
  shows "sound (held T') s'"
  using assms(1)
proof (cases rule: task_step.cases)
  case (task_enter i op f)
  have "sound (held T \<union> frame_blocks f) s'" by (rule sound_walk.before_keeps [OF task_enter(4) assms(4)])
  then show ?thesis by (rule sound_mono) (use held_upd(1) [of T i "Entered op f"] task_enter in simp)
next
  case (task_run i op f run ret)
  have "sound (held T) s'" by (rule sound_walk.run_step [OF task_run(4) assms(4)])
  then show ?thesis
    by (rule sound_mono) (use held_upd(1) [of T i "Returned op f ret"] held_in [where T = T and i = i, OF task_run(3)] task_run in auto)
next
  case (task_leave i op f ret)
  have "sound (held T) s'"
    by (rule sound_walk.after_keeps [OF task_leave(4) assms(4)]) (use held_in [where T = T and i = i, OF task_leave(3)] in simp)
  then show ?thesis by (rule sound_mono) (use held_upd(2) task_leave in simp)
next
  case (task_other e)
  then show ?thesis using step_sound [OF assms(2,3) _ assms(4)] by blast
qed

lemma schedule_sound:
  assumes "schedule K c es c'" and "rbtree_laws K" and "stale_next K" and "sound (held (fst c)) (snd c)"
  shows "sound (held (fst c')) (snd c')"
  using assms(1,4)
proof (induction rule: schedule.induct)
  case (schedule_act c e d es c')
  then have "sound (held (fst d)) (snd d)"
    using task_step_sound [OF _ assms(2,3), of "fst c" "snd c" e "fst d" "snd d"] by simp
  then show ?case by (rule schedule_act.IH)
qed

section \<open>Directories stay C strings\<close>

lemma iowrite_one_dirs:
  assumes "iowrite_one K c s = Some s'"
  shows "dirs_kept s s'"
proof -
  from assms obtain r s1 s2 s3 s4 where 1: "createiolog K (iologpath c) (logfile c) s = Some (r, s1)"
    and 2: "(if r \<noteq> 0 then do { (_, s) \<leftarrow> notify_user_status K NOTIFY_TYPE_CLIENT_ERROR (-2) s1; Some s } else Some s1) = Some s2"
    and 3: "free_block Kmalloc (iologpath_blk c) s2 = Some s3" "free_block (log_region (logfile c)) (logfile_blk c) s3 = Some s4"
      "free_block Kmalloc (piowc c) s4 = Some s'"
    unfolding iowrite_one_def by (auto simp: bind_eq_Some_conv simp del: not_gr_zero split del: if_split)
  have "dirs_kept s s1" by (rule grows_dirs [OF createiolog_grows [OF 1]])
  moreover have "dirs_kept s1 s2"
    using 2 grows_dirs [OF leaked_grows [OF notify_user_status_inv]] by (auto simp: bind_eq_Some_conv dirs_refl split: if_splits)
  moreover have "dirs_kept s2 s'"
    by (rule dirs_trans [OF block_dirs(2) [OF 3(1)] dirs_trans [OF block_dirs(2) [OF 3(2)] block_dirs(2) [OF 3(3)]]])
  ultimately show ?thesis using dirs_trans by blast
qed

lemma step_dirs:
  assumes "system_step K s e s'" and "dirs_terminated s"
  shows "dirs_terminated s'"
  using assms(1)
proof (cases rule: system_step.cases)
  case (step_packet skb)
  then show ?thesis using dirs_keptD [OF dirs_cmd.packet_step] assms(2) by blast
next
  case (step_operation run op ret)
  then show ?thesis using dirs_walk.hooked_keeps assms(2) by blast
next
  case step_wake
  then have "dirs_kept s s'" by (intro set_mem_dirs) (simp add: wait_for_completion_def)
  then show ?thesis using dirs_keptD assms(2) by blast
next
  case (step_write c s1)
  then have "dirs_kept s s1" by (intro set_mem_dirs) (auto simp: pop_iowrite_def split: list.splits)
  then show ?thesis using dirs_keptD [OF iowrite_one_dirs [OF step_write(3)]] dirs_keptD assms(2) by blast
next
  case (step_down ret)
  let ?s = "upd_cfg (\<lambda>c. c\<lparr>dwLastNormalShutdown := 2\<rparr>) s"
  have "same_kernel ?s s'" using step_down SaveConfig_same by (fastforce simp: myreboot_def bind_eq_Some_conv)
  then have "dirs_kept s s'" by (rule dirs_trans [OF put_dirs(4) grows_dirs [OF same_kernel_grows]])
  then show ?thesis using dirs_keptD assms(2) by blast
qed

lemma task_step_dirs:
  assumes "task_step K c e c'" and "dirs_terminated (snd c)"
  shows "dirs_terminated (snd c')"
  using assms
proof (cases rule: task_step.cases)
  case (task_enter T i op s f s')
  then show ?thesis using dirs_walk.before_keeps assms(2) by fastforce
next
  case (task_run T i op f run s ret s')
  then show ?thesis using dirs_walk.run_step assms(2) by fastforce
next
  case (task_leave T i op f ret s s')
  then show ?thesis using dirs_walk.after_keeps [where H = "frame_blocks f"] assms(2) by fastforce
next
  case (task_other e s s' T)
  then show ?thesis using step_dirs assms(2) by fastforce
qed

lemma schedule_dirs: "schedule K c es c' \<Longrightarrow> dirs_terminated (snd c) \<Longrightarrow> dirs_terminated (snd c')"
  by (induction rule: schedule.induct) (auto dest: task_step_dirs)

section \<open>Drawing numbers changes no lookup\<close>

lemma lookup_took:
  assumes "charged a e p m s"
  shows "GetMonitorFileEntryByabspath q (took a p e m s) = GetMonitorFileEntryByabspath q s"
    and "GetMonitorSetEntry g (took a p e m s) = GetMonitorSetEntry g s"
  using assms unfolding GetMonitorFileEntryByabspath_def GetMonitorSetEntry_def charged_def put_set_def put_file_def
  by (auto intro!: mi_search_keys ms_search_keys simp: readable_def)

lemma monitored_took:
  "charged a e p m s \<Longrightarrow> monitored op ps (with_blocks n kb (took a p e m s)) = monitored op ps s"
  by (cases op; cases ps) (simp_all add: lookup_took cong: if_cong)

definition entry_after :: "addr \<Rightarrow> addr \<Rightarrow> MONITOR_FILE_ENTRY \<Rightarrow> addr \<Rightarrow> MONITOR_FILE_ENTRY" where
  "entry_after pm a e a' = (if a' = a then e\<lparr>pSetEntry := Some pm, ullSeqNo := ullSeqNo e + 1\<rparr> else e)"

lemma charged_took:
  assumes "charged a e p m s" and "charged a' e' p m s"
  shows "charged a' (entry_after p a e' a') p (m\<lparr>ullSetSeqNo := ullSetSeqNo m + 1\<rparr>) (with_blocks n kb (took a p e m s))"
  unfolding charged_with_blocks
  using assms unfolding charged_def lookup_took [OF assms(1)] by (auto simp: put_set_def put_file_def entry_after_def)

section \<open>Two operations that overlap\<close>

text \<open>An operation that is recorded: on the file \<open>a\<close>, charged to the set \<open>pm\<close>.\<close>

definition recordable :: "'w vfs_op \<Rightarrow> byte list \<times> byte list \<Rightarrow> addr \<Rightarrow> MONITOR_FILE_ENTRY \<Rightarrow> addr \<Rightarrow> MONITOR_SET_ENTRY \<Rightarrow> 'w kstate \<Rightarrow> bool" where
  "recordable op ps a e pm m s \<longleftrightarrow>
     op_paths op = Some ps \<and> \<not> bypassed op \<and> op_fits op \<and> monitored op ps s = Some (Some a) \<and> charged a e pm m s"

lemma enter_run:
  assumes "recordable op ps a e pm m s" and "\<not> driver_off s" and "fresh_blocks s" and "\<And>a. k_alloc K a"
  shows "hook_before K op s = Some (frame_of op (next_blk s) (Some (op_args K s e m)) ps,
    with_blocks (next_blk s + op_buffers op) (hold (op_bufs op (next_blk s)) (kblocks s)) (took a pm e m s))"
  by (rule before_run) (use assms in \<open>simp_all add: recordable_def\<close>)

lemma leave_run:
  assumes "recordable op ps a e pm m s" and "\<And>a. k_alloc K a" and "next_blk s + op_buffers op \<le> n"
    and "\<forall>b\<in>set (op_bufs op (next_blk s)). kb b = Some Kmalloc"
  shows "hook_after K op (frame_of op (next_blk s) (Some (op_args K s e m)) ps) ret (with_blocks n kb t) =
    Some (with_blocks (n + 3)
      (\<lambda>b. if b \<in> set (op_bufs op (next_blk s)) then None
           else (kb(n \<mapsto> log_region (op_record op ret (op_args K s e m) ps), Suc n \<mapsto> Kmalloc, Suc (Suc n) \<mapsto> Kmalloc)) b)
      (put_record (new_context n m (op_record op ret (op_args K s e m) ps)) t))"
  by (rule after_run)
    (use assms op_bufs_facts(1) [of op "next_blk s"] op_bufs_facts(2) [of _ op "next_blk s"] in
      \<open>fastforce simp: recordable_def op_args_def\<close>)+

lemma overlap_run:
  assumes op1: "recordable op1 ps1 a1 e1 pm m s" and op2: "recordable op2 ps2 a2 e2 pm m s"
    and s: "\<not> driver_off s" "fresh_blocks s" "\<And>a. k_alloc K a"
    and run: "run2 (world s) = (ret2, w2)" "run1 w2 = (ret1, w1)"
  defines "m' \<equiv> m\<lparr>ullSetSeqNo := ullSetSeqNo m + 1\<rparr>" and "e \<equiv> entry_after pm a1 e2 a2"
  shows "\<exists>s' n. schedule K (idle, s) [Enter 1 op1, Enter 2 op2, Run 2 run2, Run 1 run1, Leave 1, Leave 2] (idle, s') \<and>
    world s' = w1 \<and>
    queue_of s' = queue_of s @
      [new_context n m (op_record op1 ret1 (op_args K s e1 m) ps1), new_context (n + 3) m' (op_record op2 ret2 (op_args K s e m') ps2)]"
proof -
  let ?n0 = "next_blk s" and ?n1 = "next_blk s + op_buffers op1"
  let ?s1 = "with_blocks ?n1 (hold (op_bufs op1 ?n0) (kblocks s)) (took a1 pm e1 m s)"
  have enter1: "hook_before K op1 s = Some (frame_of op1 ?n0 (Some (op_args K s e1 m)) ps1, ?s1)" by (rule enter_run [OF op1 s])
  have op2': "recordable op2 ps2 a2 e pm m' ?s1"
    using op1 op2 unfolding recordable_def m'_def e_def
    by (simp add: monitored_took charged_took del: charged_with_blocks)
  have s1: "\<not> driver_off ?s1" "fresh_blocks ?s1"
    using s(1,2) op_bufs_facts(2) [of _ op1 ?n0] by (force simp: driver_off_def fresh_blocks_def hold_def put_set_def put_file_def)+
  let ?n2 = "?n1 + op_buffers op2" and ?kb2 = "hold (op_bufs op2 ?n1) (hold (op_bufs op1 ?n0) (kblocks s))"
  let ?t = "took a2 pm e m' ?s1"
  have enter2: "hook_before K op2 ?s1 = Some (frame_of op2 ?n1 (Some (op_args K ?s1 e m')) ps2, with_blocks ?n2 ?kb2 ?t)"
    using enter_run [OF op2' s1 s(3)] by simp
  have args2: "op_args K ?s1 e m' = op_args K s e m'" by (simp add: op_args_def op_time_def put_set_def put_file_def)
  let ?t' = "?t\<lparr>world := w1\<rparr>" and ?f1 = "frame_of op1 ?n0 (Some (op_args K s e1 m)) ps1"
  let ?f2 = "frame_of op2 ?n1 (Some (op_args K ?s1 e m')) ps2"
  have w: "world ?t = world s" by (simp add: put_set_def put_file_def)
  have run2: "call_run run2 (with_blocks ?n2 ?kb2 ?t) = (ret2, with_blocks ?n2 ?kb2 (?t\<lparr>world := w2\<rparr>))"
    unfolding call_run_at(2) w run(1) by simp
  have run1: "call_run run1 (with_blocks ?n2 ?kb2 (?t\<lparr>world := w2\<rparr>)) = (ret1, with_blocks ?n2 ?kb2 ?t')"
    unfolding call_run_at(2) using run(2) by simp
  let ?l1 = "op_record op1 ret1 (op_args K s e1 m) ps1" and ?l2 = "op_record op2 ret2 (op_args K ?s1 e m') ps2"
  obtain kb3 where leave1: "hook_after K op1 ?f1 ret1 (with_blocks ?n2 ?kb2 ?t') =
      Some (with_blocks (?n2 + 3) kb3 (put_record (new_context ?n2 m ?l1) ?t'))"
    and kb3: "\<forall>b\<in>set (op_bufs op2 ?n1). kb3 b = Some Kmalloc"
    using leave_run [OF op1 s(3), of ?n2 ?kb2 ret1 ?t'] op_bufs_facts(2) [of _ op1 ?n0] op_bufs_facts(2) [of _ op2 ?n1]
    by (force simp: hold_def)
  have le: "next_blk ?s1 + op_buffers op2 \<le> ?n2 + 3" and kb: "\<forall>b\<in>set (op_bufs op2 (next_blk ?s1)). kb3 b = Some Kmalloc"
    using kb3 by simp_all
  obtain kb4 where leave2: "hook_after K op2 ?f2 ret2 (with_blocks (?n2 + 3) kb3 (put_record (new_context ?n2 m ?l1) ?t')) =
      Some (with_blocks (?n2 + 3 + 3) kb4 (put_record (new_context (?n2 + 3) m' ?l2) (put_record (new_context ?n2 m ?l1) ?t')))"
    using leave_run [OF op2' s(3) le kb, of ret2] unfolding with_blocks_simps(4) by blast
  let ?T1 = "[1 \<mapsto> Entered op1 ?f1]" and ?T2 = "[1 \<mapsto> Entered op1 ?f1, 2 \<mapsto> Entered op2 ?f2]"
  let ?T3 = "?T2(2 \<mapsto> Returned op2 ?f2 ret2)" and ?T4 = "?T2(2 \<mapsto> Returned op2 ?f2 ret2, 1 \<mapsto> Returned op1 ?f1 ret1)"
  let ?s' = "with_blocks (?n2 + 3 + 3) kb4 (put_record (new_context (?n2 + 3) m' ?l2) (put_record (new_context ?n2 m ?l1) ?t'))"
  have "schedule K (idle, s) [Enter 1 op1, Enter 2 op2, Run 2 run2, Run 1 run1, Leave 1, Leave 2] (?T4(1 := None, 2 := None), ?s')"
    by (rule schedule_act [OF task_enter [where T = idle, OF _ enter1]], simp,
        rule schedule_act [OF task_enter [where T = ?T1, OF _ enter2]], simp,
        rule schedule_act [OF task_run [where T = ?T2, OF _ run2]], simp,
        rule schedule_act [OF task_run [where T = ?T3, OF _ run1]], simp,
        rule schedule_act [OF task_leave [where T = ?T4, OF _ leave1]], simp,
        rule schedule_act [OF task_leave [where T = "?T4(1 := None)", OF _ leave2]], simp,
        rule schedule_end)
  moreover have "?T4(1 := None, 2 := None) = idle" by auto
  moreover have "world ?s' = w1" by simp
  moreover have "queue_of ?s' = queue_of s @ [new_context ?n2 m ?l1, new_context (?n2 + 3) m' ?l2]"
    by (simp add: put_set_def put_file_def)
  ultimately show ?thesis unfolding args2 by metis
qed

section \<open>Properties\<close>


lemma demo_schedule:
  "\<exists>s. schedule example_kernel (idle, demo_state []) [Enter 1 demo_mkdir, Run 1 demo_run, Leave 1] (idle, s) \<and> length (queue_of s) = 1"
proof -
  obtain ret s where "hooked example_kernel demo_run demo_mkdir (demo_state []) = Some (ret, s)" "length (queue_of s) = 1"
    using monitored_run by auto
  then show ?thesis using hooked_schedule [where T = idle] by blast
qed




text \<open>
  C13. Numbers are drawn before the original operation runs. Of two operations on a backup set that
  overlap, the one that entered its hook first gets the smaller number, even if the other one took
  effect first: the records, which are repeated in the order of their numbers, then tell the
  opposite of what has happened.
\<close>

theorem overlapping_operations_numbered_by_entry:
  assumes "recordable op1 ps1 a1 e1 pm m s" and "recordable op2 ps2 a2 e2 pm m s"
    and "\<not> driver_off s" and "queue_inv s" and "\<And>a. k_alloc K a"
    and "run2 (world s) = (ret2, w2)" and "run1 w2 = (ret1, w1)"
  shows "\<exists>s' c1 c2 la1 la2. schedule K (idle, s) [Enter 1 op1, Enter 2 op2, Run 2 run2, Run 1 run1, Leave 1, Leave 2] (idle, s') \<and>
    world s' = w1 \<and> queue_of s' = queue_of s @ [c1, c2] \<and>
    logfile c1 = op_record op1 ret1 la1 ps1 \<and> la_gseq la1 = ullSetSeqNo m \<and> iologpath c1 = record_file_of m 0 \<and>
    logfile c2 = op_record op2 ret2 la2 ps2 \<and> la_gseq la2 = ullSetSeqNo m + 1 \<and> iologpath c2 = record_file_of m 1"
proof -
  let ?m = "m\<lparr>ullSetSeqNo := ullSetSeqNo m + 1\<rparr>"
  obtain s' n where "schedule K (idle, s) [Enter 1 op1, Enter 2 op2, Run 2 run2, Run 1 run1, Leave 1, Leave 2] (idle, s')"
      "world s' = w1"
      "queue_of s' = queue_of s @ [new_context n m (op_record op1 ret1 (op_args K s e1 m) ps1),
        new_context (n + 3) ?m (op_record op2 ret2 (op_args K s (entry_after pm a1 e2 a2) ?m) ps2)]"
    using overlap_run [where ?run1.0 = run1 and ?w2.0 = w2 and ?run2.0 = run2, OF assms(1-3) queue_inv_fresh [OF assms(4)] assms(5-7)] by blast
  moreover have "la_gseq (op_args K s e1 m) = ullSetSeqNo m" "la_gseq (op_args K s (entry_after pm a1 e2 a2) ?m) = ullSetSeqNo m + 1"
    by (simp_all add: op_args_def)
  moreover have "iologpath (new_context n m l) = record_file_of m 0" "iologpath (new_context (n + 3) ?m l) = record_file_of m 1"
      "logfile (new_context n m l) = l" "logfile (new_context (n + 3) ?m l) = l" for l
    by (simp_all add: new_context_def record_file_of_def)
  ultimately show ?thesis by blast
qed

text \<open>A directory that is made and removed again; its content tells which happened last.\<close>

definition made :: "byte list \<Rightarrow> disk orig" where
  "made c w = (0, (fst w)(bytes ''/data/x'' := c), snd w)"

lemma demo_recordable:
  "recordable demo_make (bytes ''/data/x'', []) 2 demo_file 1 demo_set (disk_state w)"
  "recordable demo_rmdir (bytes ''/data/x'', []) 2 demo_file 1 demo_set (disk_state w)"
  using disk_mkdir(2) [of w] demo_path_x disk_charged by (simp_all add: recordable_def)

theorem overlapping_operations_numbered_by_entry_witness:
  "\<exists>s c1 c2. schedule disk_kernel (idle, disk_state (\<lambda>_. [], []))
      [Enter 1 demo_rmdir, Enter 2 demo_make, Run 2 (made [1]), Run 1 (made []), Leave 1, Leave 2] (idle, s) \<and>
    fst (world s) (bytes ''/data/x'') = [] \<and> queue_of s = [c1, c2] \<and>
    iologpath c1 = bytes ''/log/7'' \<and> ulType (hdr (logfile c1)) = LOG_FILE_TYPE_DELETEFILE \<and>
    iologpath c2 = record_file_of demo_set 1 \<and> ulType (hdr (logfile c2)) = LOG_FILE_TYPE_NEWFILE"
proof -
  let ?s = "disk_state (\<lambda>_. [], [])" and ?ps = "(bytes ''/data/x'', [])"
  have run: "made [1] (world ?s) = (0, (\<lambda>_. [])(bytes ''/data/x'' := [1]), [])"
      "made [] ((\<lambda>_. [])(bytes ''/data/x'' := [1]), []) = (0, ((\<lambda>_. [])(bytes ''/data/x'' := [1]))(bytes ''/data/x'' := []), [])"
    by (simp_all add: made_def)
  have r0: "record_file_of demo_set 0 = bytes ''/log/7''" using disk_path(1) by (simp add: record_file_of_def)
  obtain s c1 c2 la1 la2 where s: "schedule disk_kernel (idle, ?s)
      [Enter 1 demo_rmdir, Enter 2 demo_make, Run 2 (made [1]), Run 1 (made []), Leave 1, Leave 2] (idle, s)"
    "world s = (((\<lambda>_. [])(bytes ''/data/x'' := [1]))(bytes ''/data/x'' := []), [])" "queue_of s = queue_of ?s @ [c1, c2]"
    "logfile c1 = op_record demo_rmdir 0 la1 ?ps" "iologpath c1 = record_file_of demo_set 0"
    "logfile c2 = op_record demo_make 0 la2 ?ps" "iologpath c2 = record_file_of demo_set 1"
    using overlapping_operations_numbered_by_entry [where K = disk_kernel and ?run1.0 = "made []" and ?run2.0 = "made [1]",
        OF demo_recordable(2,1) disk_state_inv(4,3) disk_kernel_laws(3) run] by blast
  then show ?thesis
    by (intro exI [of _ s] exI [of _ c1] exI [of _ c2]) (simp add: r0 op_record_def plain_record_def log_header_def)
qed



end
