(* ===== verification/CommandLine.thy ===== *)
theory CommandLine
  imports RestoreProps
begin

text \<open>
  \<open>main\<close> of \<open>test/RestoreIolog.c\<close> and of \<open>test/AnalysisIolog.c\<close>: how the two programs read their
  command line. An argument is the bytes of its string, without the final NUL.
\<close>

section \<open>Arguments\<close>

text \<open>
  \<open>atoi\<close>: white space, a sign, digits up to the first other character. A number that does not
  fit an \<open>int\<close> is undefined behaviour.
\<close>

definition is_space :: "byte \<Rightarrow> bool" where
  "is_space c \<longleftrightarrow> c = 0x20 \<or> 9 \<le> c \<and> c \<le> 13"

definition is_digit :: "byte \<Rightarrow> bool" where
  "is_digit c \<longleftrightarrow> 0x30 \<le> c \<and> c \<le> 0x39"

definition c_int :: "int \<Rightarrow> int option" where
  "c_int v = (if - (2 ^ 31) \<le> v \<and> v < 2 ^ 31 then Some v else None)"

definition atoi :: "byte list \<Rightarrow> int option" where
  "atoi arg =
     (let s = dropWhile is_space arg; number = (\<lambda>s. int (undigits (takeWhile is_digit s)))
      in case s of
           [] \<Rightarrow> Some 0
         | c # t \<Rightarrow> c_int (if c = 0x2D then - number t else if c = 0x2B then number t else number s))"

text \<open>\<open>strncmp (a, b, n) == 0\<close>\<close>

definition strncmp_eq :: "nat \<Rightarrow> byte list \<Rightarrow> byte list \<Rightarrow> bool" where
  "strncmp_eq n a b \<longleftrightarrow> take n (a @ [0]) = take n (b @ [0])"

section \<open>The programs\<close>

text \<open>
  The answer is the exit status; with \<open>-loop\<close> there is none, and the state is that after
  \<open>rounds\<close> rounds. What the restore program prints is left out.
\<close>

definition restore_program :: "'w posix \<Rightarrow> byte list list \<Rightarrow> nat \<Rightarrow> 'w \<Rightarrow> (int option \<times> 'w) option" where
  "restore_program P argv rounds w =
     (let argc = length argv in
      if argc > 5 \<or> argc < 4 then Some (Some 0, w)
      else let loop = (argc = 5 \<and> strncmp_eq 6 (bytes ''-loop'') (argv ! 4)) in
           do { iolognum \<leftarrow> atoi (argv ! 3);
                (_, _, w) \<leftarrow> restore_main P (argv ! 1) (argv ! 2) iolognum (if loop then rounds else 1) w;
                Some (if loop then None else Some 0, w) })"

definition analysis_program :: "'w posix \<Rightarrow> byte list list \<Rightarrow> nat \<Rightarrow> 'w \<Rightarrow> (int option \<times> 'w) option" where
  "analysis_program P argv rounds w =
     (let argc = length argv in
      if argc > 4 \<or> argc < 3
      then Some (Some 0, p_print P (colour ''[0;32;31m'' @ bytes ''./AnalysisIolog /iologsdri/ iobeginnum [-loop]'' @ [0x0A]) w)
      else let loop = (argc = 4 \<and> strncmp_eq 6 (bytes ''-loop'') (argv ! 3));
               loopdel = (argc = 4 \<and> strncmp_eq 9 (bytes ''-loopdel'') (argv ! 3));
               w = p_print P (bytes ''Io logs dir is '' @ argv ! 1 @ bytes ''.'' @ [0x0A]) w;
               w = p_print P (bytes ''begin num is '' @ argv ! 2 @ bytes ''.'' @ [0x0A]) w
           in do { iolognum \<leftarrow> atoi (argv ! 2);
                   (_, _, w) \<leftarrow> analysis_main P (argv ! 1) iolognum loopdel (if loop \<or> loopdel then rounds else 1) w;
                   Some (if loop \<or> loopdel then None else Some 0, w) })"

section \<open>Reading back a number\<close>

lemma digits_are_digits: "c \<in> set (digits n) \<Longrightarrow> is_digit c \<and> \<not> is_space c \<and> c \<noteq> 0x2D \<and> c \<noteq> 0x2B"
  using digits_chars [of c n] by (auto simp: is_digit_def is_space_def word_le_nat_alt)

lemma takeWhile_digits: "takeWhile is_digit (digits n) = digits n"
  using digits_are_digits by (auto simp: takeWhile_eq_all_conv)

lemma atoi_dec_int: "atoi (dec_int i) = c_int i"
proof (cases "i < 0")
  case True
  then show ?thesis
    by (simp add: atoi_def dec_int_def is_space_def takeWhile_digits undigits_digits)
next
  case False
  obtain c t where ct: "digits (nat i) = c # t" using digits_not_Nil [of "nat i"] by (cases "digits (nat i)") auto
  then have c: "is_digit c \<and> \<not> is_space c \<and> c \<noteq> 0x2D \<and> c \<noteq> 0x2B" using digits_are_digits [of c "nat i"] by simp
  have "undigits (takeWhile is_digit (c # t)) = nat i" using takeWhile_digits [of "nat i"] undigits_digits [of "nat i"] ct by simp
  then show ?thesis using False c ct by (simp add: atoi_def dec_int_def del: takeWhile.simps)
qed

lemma strncmp_eq_string:
  assumes "0 \<notin> set b" and "n = Suc (length a)"
  shows "strncmp_eq n a b \<longleftrightarrow> b = a"
proof
  assume "strncmp_eq n a b"
  then have eq: "take n (b @ [0]) = a @ [0]" using assms(2) by (simp add: strncmp_eq_def)
  have "length (take n (b @ [0])) = length (a @ [0])" by (rule arg_cong [OF eq])
  then have len: "n \<le> Suc (length b)" using assms(2) unfolding length_take by (simp add: min_def split: if_splits)
  have "n = Suc (length b)"
  proof (rule ccontr)
    assume "n \<noteq> Suc (length b)"
    then have "take n b = a @ [0]" using len eq by simp
    then have "0 \<in> set (take n b)" by simp
    then show False using assms(1) in_set_takeD by fast
  qed
  then show "b = a" using eq by simp
qed (simp add: strncmp_eq_def)

section \<open>Properties\<close>

text \<open>
  C38. The restore program, called with the directories and with any number an \<open>int\<close> can hold,
  written in decimal, goes through the records once, from that number on, and exits with 0; with
  \<open>-loop\<close> it goes on for ever, with any other fifth argument it does not. With too few or too many
  arguments it exits with 0 and has done nothing.
\<close>

theorem restore_command_line:
  assumes "- (2 ^ 31) \<le> i" and "i < 2 ^ 31" and "0 \<notin> set opt"
  shows "restore_program P [cmd, dir, t, dec_int i] rounds w =
      map_option (\<lambda>(_, _, w). (Some 0, w)) (restore_main P dir t i 1 w) \<and>
    restore_program P [cmd, dir, t, dec_int i, opt] rounds w =
      (if opt = bytes ''-loop'' then map_option (\<lambda>(_, _, w). (None, w)) (restore_main P dir t i rounds w)
       else map_option (\<lambda>(_, _, w). (Some 0, w)) (restore_main P dir t i 1 w)) \<and>
    (length argv < 4 \<or> 5 < length argv \<longrightarrow> restore_program P argv rounds w = Some (Some 0, w))"
proof -
  have num: "atoi (dec_int i) = Some i" using assms(1,2) by (simp add: atoi_dec_int c_int_def)
  have "strncmp_eq 6 (bytes ''-loop'') opt \<longleftrightarrow> opt = bytes ''-loop''"
    by (rule strncmp_eq_string [OF assms(3)]) (simp add: bytes_def)
  then show ?thesis
    by (auto simp: restore_program_def num map_option_case case_prod_unfold split: option.split)
qed

theorem restore_command_line_witness:
  "restore_program demo_posix [bytes ''RestoreIolog'', bytes ''/log/'', bytes ''/copy'', bytes ''7'', bytes ''-loop''] 3
     (Map.empty, [], []) = Some (None, (Map.empty, [], []))"
proof -
  let ?w = "(Map.empty, [], []) :: tracer"
  have seven: "dec_int 7 = bytes ''7''" by (simp add: dec_int_def digits.simps bytes_def)
  have "record_rounds demo_posix act False d n p i ?w = Some (p, i, ?w)" for act d n p i
    by (induction n) (simp_all add: demo_posix_def record_loop.simps)
  then have "restore_main demo_posix (bytes ''/log/'') (bytes ''/copy'') 7 3 ?w = Some (bytes ''/log/7'', 7, ?w)"
    by (simp add: restore_main_def record_name_def cat1024_def seven bytes_def)
  moreover have "0 \<notin> set (bytes ''-loop'')" by (simp add: bytes_def)
  ultimately show ?thesis
    using restore_command_line [of 7 "bytes ''-loop''" demo_posix "bytes ''RestoreIolog''" "bytes ''/log/''" "bytes ''/copy''" 3 ?w]
    by (simp add: seven)
qed

end
